(* ===== verification/Prelude.thy ===== *)
theory Prelude
  imports
    Complex_Main
    "HOL-Library.AList"
    "HOL-Library.Char_ord"
    "HOL-Library.List_Lexorder"
    "HOL-Library.Multiset"
    "HOL-Library.Sublist"
    "HOL-Library.Word"
begin

text \<open>
  Shared vocabulary of the development: the Go data types the program uses (maps, byte
  strings, instants of time, JSON-like values), the string routines of Go's standard
  library that its code calls, and the generic lemmas every component proof rests on.

  A Go map is an association list with distinct keys. The order of the list is the order
  in which \<^verbatim>\<open>range\<close> visits the entries; Go leaves that order open, so a statement about
  every list is a statement about every order.
  Strings are byte sequences (\<^typ>\<open>string\<close>), compared bytewise as Go does.
  Instants are nanoseconds since Go's zero time, so \<^verbatim>\<open>IsZero\<close> is equality with \<open>0\<close>.
  \<^verbatim>\<open>strings.ToLower\<close> and \<^verbatim>\<open>strings.TrimSpace\<close> are modelled on ASCII.
\<close>

section \<open>Collections of facts\<close>

named_theorems gomap_simps \<open>lookup, update and deletion on Go maps\<close>
named_theorems wf_intros \<open>operations that keep a well-formedness invariant\<close>

section \<open>Data\<close>

type_synonym ('k, 'v) gomap = "('k \<times> 'v) list"
type_synonym gotime = int

text \<open>The values a \<^verbatim>\<open>map[string]any\<close> holds after JSON decoding or direct construction.\<close>

datatype any =
    VNil
  | VBool bool
  | VInt int
  | VInt64 int
  | VFloat rat
  | VString string
  | VList "any list"
  | VMap "(string \<times> any) list"

section \<open>Go maps\<close>

abbreviation mget :: "('k, 'v) gomap \<Rightarrow> 'k \<Rightarrow> 'v option" where
  "mget m k \<equiv> map_of m k"

abbreviation mput :: "'k \<Rightarrow> 'v \<Rightarrow> ('k, 'v) gomap \<Rightarrow> ('k, 'v) gomap" where
  "mput k v m \<equiv> AList.update k v m"

abbreviation mdel :: "'k \<Rightarrow> ('k, 'v) gomap \<Rightarrow> ('k, 'v) gomap" where
  "mdel k m \<equiv> AList.delete k m"

text \<open>\<^verbatim>\<open>for k, v := range m { if p { delete(m, k) } }\<close>\<close>

definition mdel_if :: "('k \<Rightarrow> 'v \<Rightarrow> bool) \<Rightarrow> ('k, 'v) gomap \<Rightarrow> ('k, 'v) gomap" where
  "mdel_if p m = filter (\<lambda>kv. \<not> p (fst kv) (snd kv)) m"

abbreviation mvals :: "('k, 'v) gomap \<Rightarrow> 'v list" where
  "mvals m \<equiv> map snd m"

definition mwf :: "('k, 'v) gomap \<Rightarrow> bool" where
  "mwf m \<longleftrightarrow> distinct (map fst m)"

lemma mget_mput [simp, gomap_simps]:
  "mget (mput k v m) k' = (if k' = k then Some v else mget m k')"
  by (simp add: AList.update_conv')

lemma mget_mdel [simp, gomap_simps]:
  "mget (mdel k m) k' = (if k' = k then None else mget m k')"
  by (simp add: AList.delete_conv')

lemma mwf_Nil [simp, wf_intros]: "mwf []"
  by (simp add: mwf_def)

lemma mwf_mput [simp, wf_intros]: "mwf m \<Longrightarrow> mwf (mput k v m)"
  by (simp add: mwf_def AList.distinct_update)

lemma mwf_mdel [simp, wf_intros]: "mwf m \<Longrightarrow> mwf (mdel k m)"
  by (simp add: mwf_def AList.distinct_delete)

lemma mwf_mdel_if [simp, wf_intros]: "mwf m \<Longrightarrow> mwf (mdel_if p m)"
  by (induction m) (auto simp: mwf_def mdel_if_def)

lemma mwf_map_snd [simp, wf_intros]: "mwf m \<Longrightarrow> mwf (map (\<lambda>(k, v). (k, f k v)) m)"
  by (simp add: mwf_def case_prod_unfold comp_def)

lemma mget_mdel_if [gomap_simps]:
  "mwf m \<Longrightarrow> mget (mdel_if p m) k =
     (case mget m k of None \<Rightarrow> None | Some v \<Rightarrow> if p k v then None else Some v)"
proof (induction m)
  case Nil
  then show ?case by (simp add: mdel_if_def)
next
  case (Cons kv m)
  obtain k0 v0 where kv: "kv = (k0, v0)" by (cases kv)
  from Cons.prems kv have wf: "mwf m" and fresh: "mget m k0 = None"
    by (auto simp: mwf_def map_of_eq_None_iff)
  from Cons.IH [OF wf] fresh show ?case
    by (cases "k = k0") (auto simp: kv mdel_if_def split: option.splits)
qed

lemma mget_mdel_if_None: "mget m k = None \<Longrightarrow> mget (mdel_if p m) k = None"
  by (induction m) (auto simp: mdel_if_def split: if_splits)

lemma mget_SomeD: "mget m k = Some v \<Longrightarrow> (k, v) \<in> set m"
  by (rule map_of_SomeD)

lemma mget_mvals: "mget m k = Some v \<Longrightarrow> v \<in> set (mvals m)"
  by (force dest: map_of_SomeD)

lemma mwf_mget_iff: "mwf m \<Longrightarrow> mget m k = Some v \<longleftrightarrow> (k, v) \<in> set m"
  by (simp add: mwf_def)

lemma mvals_mget: "mwf m \<Longrightarrow> v \<in> set (mvals m) \<Longrightarrow> \<exists>k. mget m k = Some v"
  by (auto simp: mwf_mget_iff)

lemma mvals_iff: "mwf m \<Longrightarrow> v \<in> set (mvals m) \<longleftrightarrow> (\<exists>k. mget m k = Some v)"
  using mget_mvals mvals_mget by metis

lemma mput_new: "mget m k = None \<Longrightarrow> mput k v m = m @ [(k, v)]"
  by (induction m) (auto split: if_splits)

lemma mget_map_snd [gomap_simps]:
  "mget (map (\<lambda>(k, v). (k, f k v)) m) k = map_option (f k) (mget m k)"
  by (induction m) auto

text \<open>
  The interface of a Go map as the components use it: what a lookup returns after a store or
  a deletion, and that both keep the representation invariant. Client lemmas proved here once
  speak about a \<^emph>\<open>table\<close>: a map whose entries are filed under their own identifier.
\<close>

locale go_map =
  fixes lookup :: "'m \<Rightarrow> 'k \<Rightarrow> 'v option"
    and store :: "'k \<Rightarrow> 'v \<Rightarrow> 'm \<Rightarrow> 'm"
    and remove :: "'k \<Rightarrow> 'm \<Rightarrow> 'm"
    and remove_if :: "('k \<Rightarrow> 'v \<Rightarrow> bool) \<Rightarrow> 'm \<Rightarrow> 'm"
    and invar :: "'m \<Rightarrow> bool"
  assumes lookup_store: "invar m \<Longrightarrow> lookup (store k v m) = (lookup m)(k \<mapsto> v)"
    and lookup_remove: "invar m \<Longrightarrow> lookup (remove k m) = (lookup m)(k := None)"
    and lookup_remove_if: "invar m \<Longrightarrow> lookup (remove_if p m) k =
          (case lookup m k of None \<Rightarrow> None | Some v \<Rightarrow> if p k v then None else Some v)"
    and invar_store: "invar m \<Longrightarrow> invar (store k v m)"
    and invar_remove: "invar m \<Longrightarrow> invar (remove k m)"
    and invar_remove_if: "invar m \<Longrightarrow> invar (remove_if p m)"
begin

lemma remove_if_sound: "invar m \<Longrightarrow> lookup (remove_if p m) k = Some v \<Longrightarrow> \<not> p k v"
  by (auto simp: lookup_remove_if split: option.splits if_splits)

lemma remove_if_keeps: "invar m \<Longrightarrow> lookup m k = Some v \<Longrightarrow> \<not> p k v \<Longrightarrow>
    lookup (remove_if p m) k = Some v"
  by (simp add: lookup_remove_if)

lemma remove_if_sub: "invar m \<Longrightarrow> lookup (remove_if p m) k = Some v \<Longrightarrow> lookup m k = Some v"
  by (auto simp: lookup_remove_if split: option.splits if_splits)

end

locale go_table = go_map lookup store remove remove_if invar
  for lookup :: "'m \<Rightarrow> 'k \<Rightarrow> 'v option"
    and store :: "'k \<Rightarrow> 'v \<Rightarrow> 'm \<Rightarrow> 'm"
    and remove :: "'k \<Rightarrow> 'm \<Rightarrow> 'm"
    and remove_if :: "('k \<Rightarrow> 'v \<Rightarrow> bool) \<Rightarrow> 'm \<Rightarrow> 'm"
    and invar :: "'m \<Rightarrow> bool" +
  fixes idof :: "'v \<Rightarrow> 'k"
begin

definition keyed :: "'m \<Rightarrow> bool" where
  "keyed m \<longleftrightarrow> invar m \<and> (\<forall>k v. lookup m k = Some v \<longrightarrow> idof v = k)"

lemma keyed_store: "keyed m \<Longrightarrow> keyed (store (idof v) v m)"
  by (auto simp: keyed_def lookup_store invar_store split: if_splits)

lemma keyed_remove: "keyed m \<Longrightarrow> keyed (remove k m)"
  by (auto simp: keyed_def lookup_remove invar_remove split: if_splits)

lemma keyed_remove_if: "keyed m \<Longrightarrow> keyed (remove_if p m)"
  by (auto simp: keyed_def invar_remove_if dest: remove_if_sub)

lemma keyed_id: "keyed m \<Longrightarrow> lookup m k = Some v \<Longrightarrow> idof v = k"
  by (auto simp: keyed_def)

end

interpretation gomap: go_map mget mput mdel mdel_if mwf
  by unfold_locales (auto simp: fun_eq_iff mget_mdel_if)

text \<open>A table: distinct keys, every entry filed under its own identifier.\<close>

definition table :: "('v \<Rightarrow> 'k) \<Rightarrow> ('k, 'v) gomap \<Rightarrow> bool" where
  "table idof m \<longleftrightarrow> mwf m \<and> (\<forall>k v. mget m k = Some v \<longrightarrow> idof v = k)"

interpretation gotable: go_table mget mput mdel mdel_if mwf idof
  rewrites "go_table.keyed mget mwf idof = table idof"
  for idof :: "'v \<Rightarrow> 'k"
proof -
  show T: "go_table mget mput mdel mdel_if mwf" by unfold_locales
  show "go_table.keyed mget mwf idof = table idof"
    by (rule ext) (simp add: go_table.keyed_def [OF T] table_def)
qed

lemmas table_intros [simp, wf_intros] = gotable.keyed_store gotable.keyed_remove gotable.keyed_remove_if
lemmas table_id = gotable.keyed_id

lemma table_Nil [simp, wf_intros]: "table idof []"
  by (simp add: table_def)

lemma table_Cons [simp]:
  "table idof ((k, v) # m) \<longleftrightarrow> idof v = k \<and> mget m k = None \<and> table idof m"
proof -
  have "mget m k = None \<longleftrightarrow> k \<notin> fst ` set m" by (simp add: map_of_eq_None_iff)
  moreover have "mget m k' = Some v' \<Longrightarrow> mget m k = None \<Longrightarrow> k' \<noteq> k" for k' v' by auto
  ultimately show ?thesis by (auto simp: table_def mwf_def)
qed

lemma table_mwf [simp]: "table idof m \<Longrightarrow> mwf m"
  by (simp add: table_def)

lemma table_mvals_iff: "table idof m \<Longrightarrow> v \<in> set (mvals m) \<longleftrightarrow> mget m (idof v) = Some v"
  by (metis mvals_iff table_def)

lemma table_snd_iff: "table idof m \<Longrightarrow> v \<in> snd ` set m \<longleftrightarrow> mget m (idof v) = Some v"
  using table_mvals_iff by (simp add: table_mvals_iff [symmetric])

lemma table_Bex:
  assumes "table idof m"
  shows "(\<exists>e \<in> set m. P (snd e)) \<longleftrightarrow> (\<exists>k v. mget m k = Some v \<and> P v)"
proof -
  from assms have wf: "mwf m" by simp
  show ?thesis unfolding mwf_mget_iff [OF wf] by (metis snd_conv surj_pair)
qed

lemma find_mvals_SomeD:
  "table idof m \<Longrightarrow> find P (mvals m) = Some v \<Longrightarrow> mget m (idof v) = Some v \<and> P v"
  by (metis find_Some_iff nth_mem table_mvals_iff)

lemma find_mvals_None:
  assumes "table idof m"
  shows "find P (mvals m) = None \<longleftrightarrow> (\<forall>k v. mget m k = Some v \<longrightarrow> \<not> P v)"
proof -
  from assms have wf: "mwf m" by simp
  show ?thesis by (auto simp: find_None_iff mwf_mget_iff [OF wf])
qed

lemma table_put_id: "table idof m \<Longrightarrow> idof v = k \<Longrightarrow> table idof (mput k v m)"
  using gotable.keyed_store by metis

lemma table_map_snd:
  "table idof m \<Longrightarrow> (\<And>k v. idof (f k v) = idof v) \<Longrightarrow> table idof (map (\<lambda>(k, v). (k, f k v)) m)"
  by (auto simp: table_def mget_map_snd)

section \<open>Go's string routines\<close>

definition has_prefix :: "string \<Rightarrow> string \<Rightarrow> bool" where
  "has_prefix s p \<longleftrightarrow> prefix p s"

definition has_suffix :: "string \<Rightarrow> string \<Rightarrow> bool" where
  "has_suffix s p \<longleftrightarrow> suffix p s"

definition trim_prefix :: "string \<Rightarrow> string \<Rightarrow> string" where
  "trim_prefix s p = (if prefix p s then drop (length p) s else s)"

definition trim_suffix :: "string \<Rightarrow> string \<Rightarrow> string" where
  "trim_suffix s p = (if suffix p s then take (length s - length p) s else s)"

text \<open>\<^verbatim>\<open>strings.Contains(s, sub)\<close>\<close>

fun contains :: "string \<Rightarrow> string \<Rightarrow> bool" where
  "contains [] sub \<longleftrightarrow> sub = []"
| "contains (c # s) sub \<longleftrightarrow> prefix sub (c # s) \<or> contains s sub"

text \<open>\<^verbatim>\<open>strings.ContainsAny(s, chars)\<close>\<close>

definition contains_any :: "string \<Rightarrow> string \<Rightarrow> bool" where
  "contains_any s chars \<longleftrightarrow> (\<exists>c \<in> set s. c \<in> set chars)"

text \<open>\<^verbatim>\<open>strings.Split(s, sep)\<close> for a separator of one byte.\<close>

fun split_on :: "char \<Rightarrow> string \<Rightarrow> string list" where
  "split_on sep [] = [[]]"
| "split_on sep (c # s) =
     (if c = sep then [] # split_on sep s
      else (case split_on sep s of [] \<Rightarrow> [[c]] | w # ws \<Rightarrow> (c # w) # ws))"

text \<open>\<^verbatim>\<open>strings.Join(parts, sep)\<close> for a separator of one byte.\<close>

fun join_with :: "char \<Rightarrow> string list \<Rightarrow> string" where
  "join_with sep [] = []"
| "join_with sep [w] = w"
| "join_with sep (w # ws) = w @ sep # join_with sep ws"

text \<open>\<^verbatim>\<open>strings.Cut(s, sep)\<close> for a separator of one byte: before, after, found.\<close>

fun cut :: "char \<Rightarrow> string \<Rightarrow> string \<times> string \<times> bool" where
  "cut sep [] = ([], [], False)"
| "cut sep (c # s) =
     (if c = sep then ([], s, True)
      else (case cut sep s of (a, b, f) \<Rightarrow> (c # a, b, f)))"

definition in_range :: "char \<Rightarrow> char \<Rightarrow> char \<Rightarrow> bool" where
  "in_range lo c hi \<longleftrightarrow> of_char lo \<le> (of_char c :: nat) \<and> of_char c \<le> (of_char hi :: nat)"

definition is_digit :: "char \<Rightarrow> bool" where
  "is_digit c \<longleftrightarrow> in_range (CHR ''0'') c (CHR ''9'')"

definition is_lower :: "char \<Rightarrow> bool" where
  "is_lower c \<longleftrightarrow> in_range (CHR ''a'') c (CHR ''z'')"

definition is_upper :: "char \<Rightarrow> bool" where
  "is_upper c \<longleftrightarrow> in_range (CHR ''A'') c (CHR ''Z'')"

definition lower_char :: "char \<Rightarrow> char" where
  "lower_char c = (if is_upper c then char_of ((of_char c :: nat) + 32) else c)"

text \<open>\<^verbatim>\<open>strings.ToLower\<close> on ASCII bytes.\<close>

definition to_lower :: "string \<Rightarrow> string" where
  "to_lower s = map lower_char s"

definition is_space :: "char \<Rightarrow> bool" where
  "is_space c \<longleftrightarrow> (of_char c :: nat) \<in> {9, 10, 11, 12, 13, 32}"

text \<open>\<^verbatim>\<open>strings.TrimSpace\<close> on ASCII bytes.\<close>

definition trim_space :: "string \<Rightarrow> string" where
  "trim_space s = rev (dropWhile is_space (rev (dropWhile is_space s)))"

text \<open>\<^verbatim>\<open>strings.Fields\<close> on ASCII bytes: the maximal runs of non-space bytes.\<close>

fun fields_acc :: "string \<Rightarrow> string \<Rightarrow> string list" where
  "fields_acc acc [] = (if acc = [] then [] else [rev acc])"
| "fields_acc acc (c # s) =
     (if is_space c then (if acc = [] then fields_acc [] s else rev acc # fields_acc [] s)
      else fields_acc (c # acc) s)"

definition str_fields :: "string \<Rightarrow> string list" where
  "str_fields s = fields_acc [] s"

text \<open>\<^verbatim>\<open>%d\<close> and \<^verbatim>\<open>strconv.Itoa\<close>\<close>

definition digit_char :: "nat \<Rightarrow> char" where
  "digit_char d = char_of (48 + d)"

fun nat_digits :: "nat \<Rightarrow> string" where
  "nat_digits n = (if n < 10 then [digit_char n] else nat_digits (n div 10) @ [digit_char (n mod 10)])"

declare nat_digits.simps [simp del]

definition itoa :: "int \<Rightarrow> string" where
  "itoa i = (if i < 0 then CHR ''-'' # nat_digits (nat (- i)) else nat_digits (nat i))"

text \<open>\<^verbatim>\<open>strconv.Atoi\<close> on a decimal literal with an optional sign, within 64 bits.\<close>

fun digits_value :: "nat \<Rightarrow> string \<Rightarrow> nat option" where
  "digits_value n [] = Some n"
| "digits_value n (c # s) = (if is_digit c then digits_value (10 * n + (of_char c - 48)) s else None)"

definition atoi :: "string \<Rightarrow> int option" where
  "atoi s =
     (let (neg, ds) = (case s of [] \<Rightarrow> (False, [])
                       | c # r \<Rightarrow> if c = CHR ''-'' then (True, r)
                                 else if c = CHR ''+'' then (False, r) else (False, s))
      in if ds = [] then None
         else case digits_value 0 ds of
                None \<Rightarrow> None
              | Some n \<Rightarrow> if neg then (if n \<le> 2 ^ 63 then Some (- int n) else None)
                          else (if n < 2 ^ 63 then Some (int n) else None))"

end
