(* ===== verification/Models.thy ===== *)
theory Models
  imports Prelude
begin

text \<open>
  The records of \<^verbatim>\<open>internal/store/models.go\<close>, one per Go struct and with its fields in the
  source's order. A field name carries a short prefix for its struct. \<^verbatim>\<open>*T\<close> is an option,
  \<^verbatim>\<open>[]byte\<close> a byte string, \<^verbatim>\<open>int\<close> and \<^verbatim>\<open>int64\<close> are \<^typ>\<open>int\<close> (the components whose
  behaviour depends on overflow state the width themselves), \<^verbatim>\<open>uint32\<close> is a 32-bit word.
\<close>

record user =
  usr_ID :: string
  usr_Username :: string
  usr_Email :: string
  usr_PasswordHash :: string
  usr_DisplayName :: string
  usr_Status :: string
  usr_TOTPEnabled :: bool
  usr_MustChangePassword :: bool
  usr_Roles :: "string list"
  usr_CreatedAt :: gotime

record session =
  ses_ID :: string
  ses_UserID :: string
  ses_TokenHash :: string
  ses_ExpiresAt :: gotime
  ses_RevokedAt :: "gotime option"
  ses_SourceIP :: string
  ses_UserAgent :: string
  ses_ImpersonatorID :: string
  ses_ImpersonationReason :: string

record featureset =
  fs_ID :: string
  fs_Name :: string
  fs_Features :: "(string, bool) gomap"

record package =
  pkg_ID :: string
  pkg_ResellerID :: string
  pkg_Name :: string
  pkg_FeatureSetID :: string
  pkg_DiskBytes :: int
  pkg_BandwidthBytesMonthly :: int
  pkg_Domains :: int
  pkg_Subdomains :: int
  pkg_AliasDomains :: int
  pkg_Databases :: int
  pkg_DatabaseUsers :: int
  pkg_Mailboxes :: int
  pkg_MailboxStorageBytes :: int
  pkg_FTPUsers :: int
  pkg_CronJobs :: int
  pkg_ApplicationInstances :: int
  pkg_BackupRetentionDays :: int
  pkg_CPUPercent :: int
  pkg_MemoryBytes :: int
  pkg_ProcessLimit :: int
  pkg_IOWeight :: int
  pkg_IOPS :: int
  pkg_ConcurrentWebRequests :: int
  pkg_EmailDailyLimit :: int

record reseller =
  rsl_ID :: string
  rsl_UserID :: string
  rsl_Name :: string
  rsl_BrandName :: string
  rsl_PrivilegeMask :: "string list"
  rsl_Nameservers :: "string list"
  rsl_Status :: string

record account =
  acc_ID :: string
  acc_ResellerID :: string
  acc_OwnerUserID :: string
  acc_Username :: string
  acc_PrimaryDomain :: string
  acc_LinuxUID :: int
  acc_LinuxGID :: int
  acc_PackageID :: string
  acc_Status :: string
  acc_HomePath :: string
  acc_IPAddress :: string
  acc_ShellClass :: string
  acc_LoginDisabled :: bool
  acc_DesiredRevision :: int
  acc_ObservedRevision :: int

record domain =
  dom_ID :: string
  dom_AccountID :: string
  dom_FQDN :: string
  dom_ASCII :: string
  dom_Type :: string
  dom_DocumentRoot :: string
  dom_DNSManaged :: bool
  dom_Status :: string
  dom_DesiredRevision :: int
  dom_ObservedRevision :: int

record website =
  web_ID :: string
  web_AccountID :: string
  web_DomainID :: string
  web_Runtime :: string
  web_RuntimeVersion :: string
  web_DocumentRoot :: string
  web_HTTPSRedirect :: bool
  web_WWWRedirect :: string
  web_ProxyTarget :: string
  web_Enabled :: bool
  web_DesiredRevision :: int
  web_ObservedRevision :: int

record application =
  app_ID :: string
  app_WebsiteID :: string
  app_AccountID :: string
  app_Runtime :: string
  app_RuntimeVersion :: string
  app_WorkingDirectory :: string
  app_StartCommand :: string
  app_ListenTarget :: string
  app_Status :: string

record hosteddb =
  db_ID :: string
  db_AccountID :: string
  db_Engine :: string
  db_Name :: string
  db_Status :: string

record dbuser =
  dbu_ID :: string
  dbu_AccountID :: string
  dbu_Username :: string
  dbu_Engine :: string
  dbu_PasswordEnc :: string

record dnszone =
  zone_ID :: string
  zone_AccountID :: string
  zone_DomainID :: string
  zone_Name :: string
  zone_DNSSECEnabled :: bool
  zone_Provider :: string
  zone_DesiredRevision :: int
  zone_ObservedRevision :: int
  zone_RecordCount :: int

record dnsrecord =
  rec_ID :: string
  rec_ZoneID :: string
  rec_Name :: string
  rec_Type :: string
  rec_Content :: string
  rec_TTL :: int
  rec_Priority :: "int option"

record maildomain =
  md_ID :: string
  md_AccountID :: string
  md_DomainID :: string
  md_CatchallPolicy :: string
  md_Status :: string

record mailbox =
  mb_ID :: string
  mb_AccountID :: string
  mb_DomainID :: string
  mb_LocalPart :: string
  mb_QuotaBytes :: int
  mb_PasswordHash :: string
  mb_Status :: string

record mailalias =
  al_ID :: string
  al_AccountID :: string
  al_DomainID :: string
  al_Address :: string
  al_Destination :: string

record certificate =
  cert_ID :: string
  cert_AccountID :: string
  cert_Hostname :: string
  cert_Kind :: string
  cert_Status :: string
  cert_NotAfter :: "gotime option"
  cert_Issuer :: string

record job =
  job_ID :: string
  job_Type :: string
  job_ResourceType :: string
  job_ResourceID :: string
  job_Payload :: "(string, any) gomap"
  job_State :: string
  job_Priority :: int
  job_Attempts :: int
  job_MaxAttempts :: int
  job_Progress :: int
  job_TargetRevision :: int
  job_Fence :: int
  job_OperationID :: string
  job_RunAfter :: gotime
  job_LockedBy :: string
  job_HeartbeatAt :: "gotime option"
  job_LeaseExpires :: "gotime option"
  job_CancelRequested :: bool
  job_IdempotencyKey :: string
  job_LastError :: string
  job_ActorID :: string
  job_RequestID :: string
  job_CreatedAt :: gotime
  job_StartedAt :: "gotime option"
  job_FinishedAt :: "gotime option"
  job_Logs :: "string list"
  job_Retryable :: "bool option"

record auditevent =
  aud_ID :: string
  aud_OccurredAt :: gotime
  aud_ActorType :: string
  aud_ActorID :: string
  aud_EffectiveActor :: string
  aud_AccountID :: string
  aud_Action :: string
  aud_ResourceType :: string
  aud_ResourceID :: string
  aud_SourceIP :: string
  aud_UserAgent :: string
  aud_RequestID :: string
  aud_Success :: bool
  aud_Before :: "(string, any) gomap"
  aud_After :: "(string, any) gomap"
  aud_Metadata :: "(string, any) gomap"

record apitoken =
  tok_ID :: string
  tok_UserID :: string
  tok_Name :: string
  tok_Prefix :: string
  tok_TokenHash :: string
  tok_Scope :: string
  tok_AccountID :: string
  tok_Capabilities :: "string list"
  tok_ExpiresAt :: "gotime option"
  tok_RevokedAt :: "gotime option"

record backuprun =
  bak_ID :: string
  bak_AccountID :: string
  bak_Kind :: string
  bak_State :: string
  bak_Destination :: string
  bak_Checksum :: string
  bak_SizeBytes :: int
  bak_CreatedAt :: gotime
  bak_FinishedAt :: "gotime option"
  bak_Manifest :: "(string, any) gomap"

record restorejournal =
  rst_ID :: string
  rst_AccountID :: string
  rst_BackupID :: string
  rst_ActorID :: string
  rst_ObjectKey :: string
  rst_ManifestHash :: string
  rst_FormatVersion :: int
  rst_KeyIdentity :: string
  rst_KeyVersion :: "32 word"
  rst_Fence :: int
  rst_State :: string
  rst_ManualIntervention :: bool
  rst_Checkpoints :: "string list"
  rst_Extra :: "(string, any) gomap option"
  rst_CreatedAt :: gotime
  rst_UpdatedAt :: gotime

record cronjob =
  cron_ID :: string
  cron_AccountID :: string
  cron_Schedule :: string
  cron_Command :: string
  cron_WorkingDirectory :: string
  cron_Enabled :: bool

record sshkey =
  ssh_ID :: string
  ssh_AccountID :: string
  ssh_Label :: string
  ssh_PublicKey :: string
  ssh_Fingerprint :: string
  ssh_CreatedAt :: gotime

record ftpaccount =
  ftp_ID :: string
  ftp_AccountID :: string
  ftp_Username :: string
  ftp_HomePath :: string
  ftp_PasswordHash :: string
  ftp_Status :: string

record usage =
  use_AccountID :: string
  use_CollectedAt :: gotime
  use_DiskBytes :: int
  use_InodeCount :: int
  use_BandwidthBytes :: int
  use_CPUPercent :: rat
  use_MemoryBytes :: int
  use_ProcessCount :: int
  use_DiskLimited :: bool
  use_BandwidthHold :: bool
  use_EnforcedAt :: "gotime option"
  use_StaleSeconds :: int

record accountimport =
  imp_Account :: account
  imp_Domains :: "domain list"
  imp_Websites :: "website list"
  imp_Applications :: "application list"
  imp_Databases :: "hosteddb list"
  imp_DatabaseUsers :: "dbuser list"
  imp_MailDomains :: "maildomain list"
  imp_Mailboxes :: "mailbox list"
  imp_Aliases :: "mailalias list"
  imp_Zones :: "dnszone list"
  imp_Records :: "dnsrecord list"
  imp_Crons :: "cronjob list"
  imp_FTP :: "ftpaccount list"
  imp_SSH :: "sshkey list"
section \<open>Zero values\<close>

text \<open>Go's zero value of every record: what a composite literal leaves unset.\<close>

definition user0 :: user where
  "user0 = \<lparr> usr_ID = '''', usr_Username = '''', usr_Email = '''',
     usr_PasswordHash = '''', usr_DisplayName = '''', usr_Status = '''', usr_TOTPEnabled = False,
     usr_MustChangePassword = False, usr_Roles = [], usr_CreatedAt = 0 \<rparr>"

definition session0 :: session where
  "session0 = \<lparr> ses_ID = '''', ses_UserID = '''', ses_TokenHash = '''', ses_ExpiresAt = 0,
     ses_RevokedAt = None, ses_SourceIP = '''', ses_UserAgent = '''', ses_ImpersonatorID = '''',
     ses_ImpersonationReason = '''' \<rparr>"

definition featureset0 :: featureset where
  "featureset0 = \<lparr> fs_ID = '''', fs_Name = '''', fs_Features = [] \<rparr>"

definition package0 :: package where
  "package0 = \<lparr> pkg_ID = '''', pkg_ResellerID = '''', pkg_Name = '''',
     pkg_FeatureSetID = '''', pkg_DiskBytes = 0, pkg_BandwidthBytesMonthly = 0, pkg_Domains = 0,
     pkg_Subdomains = 0, pkg_AliasDomains = 0, pkg_Databases = 0, pkg_DatabaseUsers = 0,
     pkg_Mailboxes = 0, pkg_MailboxStorageBytes = 0, pkg_FTPUsers = 0, pkg_CronJobs = 0,
     pkg_ApplicationInstances = 0, pkg_BackupRetentionDays = 0, pkg_CPUPercent = 0,
     pkg_MemoryBytes = 0, pkg_ProcessLimit = 0, pkg_IOWeight = 0, pkg_IOPS = 0,
     pkg_ConcurrentWebRequests = 0, pkg_EmailDailyLimit = 0 \<rparr>"

definition reseller0 :: reseller where
  "reseller0 = \<lparr> rsl_ID = '''', rsl_UserID = '''', rsl_Name = '''', rsl_BrandName = '''',
     rsl_PrivilegeMask = [], rsl_Nameservers = [], rsl_Status = '''' \<rparr>"

definition account0 :: account where
  "account0 = \<lparr> acc_ID = '''', acc_ResellerID = '''', acc_OwnerUserID = '''',
     acc_Username = '''', acc_PrimaryDomain = '''', acc_LinuxUID = 0, acc_LinuxGID = 0,
     acc_PackageID = '''', acc_Status = '''', acc_HomePath = '''', acc_IPAddress = '''',
     acc_ShellClass = '''', acc_LoginDisabled = False, acc_DesiredRevision = 0,
     acc_ObservedRevision = 0 \<rparr>"

definition domain0 :: domain where
  "domain0 = \<lparr> dom_ID = '''', dom_AccountID = '''', dom_FQDN = '''', dom_ASCII = '''',
     dom_Type = '''', dom_DocumentRoot = '''', dom_DNSManaged = False, dom_Status = '''',
     dom_DesiredRevision = 0, dom_ObservedRevision = 0 \<rparr>"

definition website0 :: website where
  "website0 = \<lparr> web_ID = '''', web_AccountID = '''', web_DomainID = '''',
     web_Runtime = '''', web_RuntimeVersion = '''', web_DocumentRoot = '''',
     web_HTTPSRedirect = False, web_WWWRedirect = '''', web_ProxyTarget = '''',
     web_Enabled = False, web_DesiredRevision = 0, web_ObservedRevision = 0 \<rparr>"

definition application0 :: application where
  "application0 = \<lparr> app_ID = '''', app_WebsiteID = '''', app_AccountID = '''',
     app_Runtime = '''', app_RuntimeVersion = '''', app_WorkingDirectory = '''',
     app_StartCommand = '''', app_ListenTarget = '''', app_Status = '''' \<rparr>"

definition hosteddb0 :: hosteddb where
  "hosteddb0 = \<lparr> db_ID = '''', db_AccountID = '''', db_Engine = '''', db_Name = '''',
     db_Status = '''' \<rparr>"

definition dbuser0 :: dbuser where
  "dbuser0 = \<lparr> dbu_ID = '''', dbu_AccountID = '''', dbu_Username = '''',
     dbu_Engine = '''', dbu_PasswordEnc = '''' \<rparr>"

definition dnszone0 :: dnszone where
  "dnszone0 = \<lparr> zone_ID = '''', zone_AccountID = '''', zone_DomainID = '''',
     zone_Name = '''', zone_DNSSECEnabled = False, zone_Provider = '''',
     zone_DesiredRevision = 0, zone_ObservedRevision = 0, zone_RecordCount = 0 \<rparr>"

definition dnsrecord0 :: dnsrecord where
  "dnsrecord0 = \<lparr> rec_ID = '''', rec_ZoneID = '''', rec_Name = '''', rec_Type = '''',
     rec_Content = '''', rec_TTL = 0, rec_Priority = None \<rparr>"

definition maildomain0 :: maildomain where
  "maildomain0 = \<lparr> md_ID = '''', md_AccountID = '''', md_DomainID = '''',
     md_CatchallPolicy = '''', md_Status = '''' \<rparr>"

definition mailbox0 :: mailbox where
  "mailbox0 = \<lparr> mb_ID = '''', mb_AccountID = '''', mb_DomainID = '''',
     mb_LocalPart = '''', mb_QuotaBytes = 0, mb_PasswordHash = '''', mb_Status = '''' \<rparr>"

definition mailalias0 :: mailalias where
  "mailalias0 = \<lparr> al_ID = '''', al_AccountID = '''', al_DomainID = '''',
     al_Address = '''', al_Destination = '''' \<rparr>"

definition certificate0 :: certificate where
  "certificate0 = \<lparr> cert_ID = '''', cert_AccountID = '''', cert_Hostname = '''',
     cert_Kind = '''', cert_Status = '''', cert_NotAfter = None, cert_Issuer = '''' \<rparr>"

definition job0 :: job where
  "job0 = \<lparr> job_ID = '''', job_Type = '''', job_ResourceType = '''',
     job_ResourceID = '''', job_Payload = [], job_State = '''', job_Priority = 0,
     job_Attempts = 0, job_MaxAttempts = 0, job_Progress = 0, job_TargetRevision = 0,
     job_Fence = 0, job_OperationID = '''', job_RunAfter = 0, job_LockedBy = '''',
     job_HeartbeatAt = None, job_LeaseExpires = None, job_CancelRequested = False,
     job_IdempotencyKey = '''', job_LastError = '''', job_ActorID = '''', job_RequestID = '''',
     job_CreatedAt = 0, job_StartedAt = None, job_FinishedAt = None, job_Logs = [],
     job_Retryable = None \<rparr>"

definition auditevent0 :: auditevent where
  "auditevent0 = \<lparr> aud_ID = '''', aud_OccurredAt = 0, aud_ActorType = '''',
     aud_ActorID = '''', aud_EffectiveActor = '''', aud_AccountID = '''', aud_Action = '''',
     aud_ResourceType = '''', aud_ResourceID = '''', aud_SourceIP = '''', aud_UserAgent = '''',
     aud_RequestID = '''', aud_Success = False, aud_Before = [], aud_After = [],
     aud_Metadata = [] \<rparr>"

definition apitoken0 :: apitoken where
  "apitoken0 = \<lparr> tok_ID = '''', tok_UserID = '''', tok_Name = '''', tok_Prefix = '''',
     tok_TokenHash = '''', tok_Scope = '''', tok_AccountID = '''', tok_Capabilities = [],
     tok_ExpiresAt = None, tok_RevokedAt = None \<rparr>"

definition backuprun0 :: backuprun where
  "backuprun0 = \<lparr> bak_ID = '''', bak_AccountID = '''', bak_Kind = '''', bak_State = '''',
     bak_Destination = '''', bak_Checksum = '''', bak_SizeBytes = 0, bak_CreatedAt = 0,
     bak_FinishedAt = None, bak_Manifest = [] \<rparr>"

definition restorejournal0 :: restorejournal where
  "restorejournal0 = \<lparr> rst_ID = '''', rst_AccountID = '''', rst_BackupID = '''',
     rst_ActorID = '''', rst_ObjectKey = '''', rst_ManifestHash = '''', rst_FormatVersion = 0,
     rst_KeyIdentity = '''', rst_KeyVersion = 0, rst_Fence = 0, rst_State = '''',
     rst_ManualIntervention = False, rst_Checkpoints = [], rst_Extra = None, rst_CreatedAt = 0,
     rst_UpdatedAt = 0 \<rparr>"

definition cronjob0 :: cronjob where
  "cronjob0 = \<lparr> cron_ID = '''', cron_AccountID = '''', cron_Schedule = '''',
     cron_Command = '''', cron_WorkingDirectory = '''', cron_Enabled = False \<rparr>"

definition sshkey0 :: sshkey where
  "sshkey0 = \<lparr> ssh_ID = '''', ssh_AccountID = '''', ssh_Label = '''',
     ssh_PublicKey = '''', ssh_Fingerprint = '''', ssh_CreatedAt = 0 \<rparr>"

definition ftpaccount0 :: ftpaccount where
  "ftpaccount0 = \<lparr> ftp_ID = '''', ftp_AccountID = '''', ftp_Username = '''',
     ftp_HomePath = '''', ftp_PasswordHash = '''', ftp_Status = '''' \<rparr>"

definition usage0 :: usage where
  "usage0 = \<lparr> use_AccountID = '''', use_CollectedAt = 0, use_DiskBytes = 0,
     use_InodeCount = 0, use_BandwidthBytes = 0, use_CPUPercent = 0, use_MemoryBytes = 0,
     use_ProcessCount = 0, use_DiskLimited = False, use_BandwidthHold = False,
     use_EnforcedAt = None, use_StaleSeconds = 0 \<rparr>"

definition accountimport0 :: accountimport where
  "accountimport0 = \<lparr> imp_Account = account0, imp_Domains = [], imp_Websites = [],
     imp_Applications = [], imp_Databases = [], imp_DatabaseUsers = [], imp_MailDomains = [],
     imp_Mailboxes = [], imp_Aliases = [], imp_Zones = [], imp_Records = [], imp_Crons = [],
     imp_FTP = [], imp_SSH = [] \<rparr>"

end
