(* ===== verification/Store_Memory.thy ===== *)
theory Store_Memory
  imports Models
begin

text \<open>
  The in-memory store of \<^verbatim>\<open>internal/store/memory.go\<close>: its state (\<^verbatim>\<open>type Memory\<close>), the
  plain get/put/list/delete operations of every table, cascade deletion of domains and
  websites, sessions and tokens, and the bounded pages of \<^verbatim>\<open>internal/store/bounds.go\<close>.
  Jobs, accounts, resource mutations and restores have theories of their own.

  Every method of \<^verbatim>\<open>Memory\<close> runs under one mutex, so an operation is a function from the
  state to the state. A read of the clock (\<^verbatim>\<open>time.Now()\<close>) and a fresh identifier
  (\<^verbatim>\<open>id.New()\<close>) are arguments. Entries are stored by value: the pointer aliasing of the
  \<^verbatim>\<open>Put\<close> methods, which file the caller's own struct, is not represented.
\<close>

section \<open>Errors\<close>

datatype store_error =
    ErrStaleAccount string
  | ErrStaleFence
  | ErrJobNotFound
  | ErrJobStateConflict
  | ErrRestoreInProgress
  | ErrRequired string
  | ErrNotFound string string
  | ErrExists string string
  | ErrMismatch string string string
  | ErrInvalid string string

type_synonym 'a res = "store_error + 'a"

section \<open>State\<close>

record memory =
  Users :: "(string, user) gomap"
  Sessions :: "(string, session) gomap"
  Packages :: "(string, package) gomap"
  Features :: "(string, featureset) gomap"
  Resellers :: "(string, reseller) gomap"
  Accounts :: "(string, account) gomap"
  Members :: "(string, string list) gomap"
  Domains :: "(string, domain) gomap"
  Websites :: "(string, website) gomap"
  Apps :: "(string, application) gomap"
  DBs :: "(string, hosteddb) gomap"
  DBUsers :: "(string, dbuser) gomap"
  Zones :: "(string, dnszone) gomap"
  Records :: "(string, dnsrecord) gomap"
  MailDom :: "(string, maildomain) gomap"
  Mailboxes :: "(string, mailbox) gomap"
  Aliases :: "(string, mailalias) gomap"
  Certs :: "(string, certificate) gomap"
  Jobs :: "(string, job) gomap"
  Audit :: "auditevent list"
  Tokens :: "(string, apitoken) gomap"
  Backups :: "(string, backuprun) gomap"
  Restores :: "(string, restorejournal) gomap"
  Crons :: "(string, cronjob) gomap"
  SSHKeys :: "(string, sshkey) gomap"
  FTPs :: "(string, ftpaccount) gomap"
  Usages :: "(string, usage) gomap"
  resourceFences :: "(string, int) gomap"
  NextUID :: int

definition NewMemory :: memory where
  "NewMemory = \<lparr> Users = [], Sessions = [], Packages = [], Features = [], Resellers = [],
     Accounts = [], Members = [], Domains = [], Websites = [], Apps = [], DBs = [],
     DBUsers = [], Zones = [], Records = [], MailDom = [], Mailboxes = [], Aliases = [],
     Certs = [], Jobs = [], Audit = [], Tokens = [], Backups = [], Restores = [],
     Crons = [], SSHKeys = [], FTPs = [], Usages = [], resourceFences = [],
     NextUID = 20000 \<rparr>"

section \<open>Users, sessions, feature sets, packages, resellers\<close>

definition AllocUID :: "memory \<Rightarrow> int \<times> memory" where
  "AllocUID m = (NextUID m, m\<lparr>NextUID := NextUID m + 1\<rparr>)"

definition PutUser :: "user \<Rightarrow> memory \<Rightarrow> memory" where
  "PutUser u m = m\<lparr>Users := mput (usr_ID u) u (Users m)\<rparr>"

definition UserByUsername :: "memory \<Rightarrow> string \<Rightarrow> user option" where
  "UserByUsername m name = find (\<lambda>u. usr_Username u = name) (mvals (Users m))"

definition UserByID :: "memory \<Rightarrow> string \<Rightarrow> user option" where
  "UserByID m i = mget (Users m) i"

definition PutSession :: "session \<Rightarrow> memory \<Rightarrow> memory" where
  "PutSession s m = m\<lparr>Sessions := mput (ses_ID s) s (Sessions m)\<rparr>"

definition SessionByHash :: "memory \<Rightarrow> gotime \<Rightarrow> string \<Rightarrow> session option" where
  "SessionByHash m now hash =
     find (\<lambda>s. ses_TokenHash s = hash \<and> ses_RevokedAt s = None \<and> now < ses_ExpiresAt s)
       (mvals (Sessions m))"

definition RevokeSession :: "gotime \<Rightarrow> string \<Rightarrow> memory \<Rightarrow> memory" where
  "RevokeSession now i m =
     (case mget (Sessions m) i of
        None \<Rightarrow> m
      | Some s \<Rightarrow> m\<lparr>Sessions := mput i (s\<lparr>ses_RevokedAt := Some now\<rparr>) (Sessions m)\<rparr>)"

definition RevokeSessionsForUser :: "gotime \<Rightarrow> string \<Rightarrow> memory \<Rightarrow> memory" where
  "RevokeSessionsForUser now uid m =
     m\<lparr>Sessions := map (\<lambda>(k, s). (k, if ses_UserID s = uid
                                     then s\<lparr>ses_RevokedAt := Some now\<rparr> else s)) (Sessions m)\<rparr>"

definition PutFeature :: "featureset \<Rightarrow> memory \<Rightarrow> memory" where
  "PutFeature f m = m\<lparr>Features := mput (fs_ID f) f (Features m)\<rparr>"

definition ListFeatureSets :: "memory \<Rightarrow> featureset list" where
  "ListFeatureSets m = mvals (Features m)"

definition PutPackage :: "package \<Rightarrow> memory \<Rightarrow> memory" where
  "PutPackage p m = m\<lparr>Packages := mput (pkg_ID p) p (Packages m)\<rparr>"

definition GetPackage :: "memory \<Rightarrow> string \<Rightarrow> package option" where
  "GetPackage m i = mget (Packages m) i"

definition ListPackages :: "memory \<Rightarrow> package list" where
  "ListPackages m = sort_key pkg_Name (mvals (Packages m))"

definition DeletePackageIfUnused :: "string \<Rightarrow> memory \<Rightarrow> bool \<times> memory" where
  "DeletePackageIfUnused i m =
     (if mget (Packages m) i = None then (False, m)
      else if \<exists>a \<in> set (mvals (Accounts m)). acc_PackageID a = i then (False, m)
      else (True, m\<lparr>Packages := mdel i (Packages m)\<rparr>))"

definition PutReseller :: "reseller \<Rightarrow> memory \<Rightarrow> memory" where
  "PutReseller r m = m\<lparr>Resellers := mput (rsl_ID r) r (Resellers m)\<rparr>"

definition GetReseller :: "memory \<Rightarrow> string \<Rightarrow> reseller option" where
  "GetReseller m i = mget (Resellers m) i"

definition ResellerByUser :: "memory \<Rightarrow> string \<Rightarrow> reseller option" where
  "ResellerByUser m uid = find (\<lambda>r. rsl_UserID r = uid) (mvals (Resellers m))"

definition ListResellers :: "memory \<Rightarrow> reseller list" where
  "ListResellers m = mvals (Resellers m)"

section \<open>Accounts and their members (plain access)\<close>

definition PutAccount :: "account \<Rightarrow> memory \<Rightarrow> memory" where
  "PutAccount a m = m\<lparr>Accounts := mput (acc_ID a) a (Accounts m)\<rparr>"

definition GetAccount :: "memory \<Rightarrow> string \<Rightarrow> account option" where
  "GetAccount m i = mget (Accounts m) i"

definition AccountByUsername :: "memory \<Rightarrow> string \<Rightarrow> account option" where
  "AccountByUsername m name = find (\<lambda>a. acc_Username a = name) (mvals (Accounts m))"

text \<open>\<^verbatim>\<open>ListAccounts\<close>: the loop's \<^verbatim>\<open>continue\<close> conditions, then the sort by user name.\<close>

definition account_listed :: "string \<Rightarrow> string \<Rightarrow> account \<Rightarrow> bool" where
  "account_listed q status a \<longleftrightarrow>
     \<not> (status \<noteq> '''' \<and> acc_Status a \<noteq> status) \<and>
     \<not> (q \<noteq> '''' \<and> \<not> contains (to_lower (acc_Username a)) q
        \<and> \<not> contains (to_lower (acc_PrimaryDomain a)) q)"

definition ListAccounts :: "memory \<Rightarrow> string \<Rightarrow> string \<Rightarrow> account list" where
  "ListAccounts m q status =
     sort_key acc_Username (filter (account_listed (to_lower q) status) (mvals (Accounts m)))"

definition DriftedAccounts :: "memory \<Rightarrow> account list" where
  "DriftedAccounts m =
     filter (\<lambda>a. acc_DesiredRevision a > acc_ObservedRevision a \<and> acc_Status a \<noteq> ''terminated'')
       (mvals (Accounts m))"

definition AddMember :: "string \<Rightarrow> string \<Rightarrow> memory \<Rightarrow> memory" where
  "AddMember aid uid m =
     m\<lparr>Members := mput aid ((case mget (Members m) aid of None \<Rightarrow> [] | Some us \<Rightarrow> us) @ [uid])
                    (Members m)\<rparr>"

text \<open>\<^verbatim>\<open>unique\<close>: the first occurrence of every element, in order.\<close>

fun unique_from :: "string list \<Rightarrow> string list \<Rightarrow> string list" where
  "unique_from seen [] = []"
| "unique_from seen (v # vs) =
     (if v \<in> set seen then unique_from seen vs else v # unique_from (v # seen) vs)"

definition unique :: "string list \<Rightarrow> string list" where
  "unique vs = unique_from [] vs"

definition AccountsForUser :: "memory \<Rightarrow> string \<Rightarrow> string list" where
  "AccountsForUser m uid =
     unique (concat (map (\<lambda>(aid, us). replicate (length (filter (\<lambda>u. u = uid) us)) aid) (Members m))
             @ map acc_ID (filter (\<lambda>a. acc_OwnerUserID a = uid) (mvals (Accounts m))))"

section \<open>Domains, websites and applications\<close>

definition DomainTaken :: "memory \<Rightarrow> string \<Rightarrow> bool" where
  "DomainTaken m ascii \<longleftrightarrow> (\<exists>d \<in> set (mvals (Domains m)). dom_ASCII d = ascii)"

definition PutDomain :: "domain \<Rightarrow> memory \<Rightarrow> memory" where
  "PutDomain d m =
     (let d' = (if dom_Status d = ''active'' \<and> dom_DesiredRevision d > dom_ObservedRevision d
                then d\<lparr>dom_ObservedRevision := dom_DesiredRevision d\<rparr> else d)
      in m\<lparr>Domains := mput (dom_ID d) d' (Domains m)\<rparr>)"

definition GetDomain :: "memory \<Rightarrow> string \<Rightarrow> domain option" where
  "GetDomain m i = mget (Domains m) i"

definition ListDomains :: "memory \<Rightarrow> string \<Rightarrow> domain list" where
  "ListDomains m aid = filter (\<lambda>d. aid = '''' \<or> dom_AccountID d = aid) (mvals (Domains m))"

definition keys_where :: "('v \<Rightarrow> bool) \<Rightarrow> ('k, 'v) gomap \<Rightarrow> 'k list" where
  "keys_where p m = map fst (filter (\<lambda>kv. p (snd kv)) m)"

text \<open>
  \<^verbatim>\<open>DeleteDomain\<close> removes the domain's websites with their applications, its mail domains
  with their mailboxes and aliases, and its zones with their records.
\<close>

definition DeleteDomain :: "string \<Rightarrow> memory \<Rightarrow> memory" where
  "DeleteDomain i m =
     (let wids = keys_where (\<lambda>w. web_DomainID w = i) (Websites m);
          mailIDs = keys_where (\<lambda>d. md_DomainID d = i) (MailDom m);
          zids = keys_where (\<lambda>z. zone_DomainID z = i) (Zones m)
      in m\<lparr> Apps := mdel_if (\<lambda>_ a. app_WebsiteID a \<in> set wids) (Apps m),
            Websites := mdel_if (\<lambda>_ w. web_DomainID w = i) (Websites m),
            MailDom := mdel_if (\<lambda>_ d. md_DomainID d = i) (MailDom m),
            Mailboxes := mdel_if (\<lambda>_ b. mb_DomainID b \<in> set mailIDs) (Mailboxes m),
            Aliases := mdel_if (\<lambda>_ a. al_DomainID a \<in> set mailIDs) (Aliases m),
            Records := mdel_if (\<lambda>_ r. rec_ZoneID r \<in> set zids) (Records m),
            Zones := mdel_if (\<lambda>_ z. zone_DomainID z = i) (Zones m),
            Domains := mdel i (Domains m) \<rparr>)"

definition PutWebsite :: "website \<Rightarrow> memory \<Rightarrow> memory" where
  "PutWebsite w m = m\<lparr>Websites := mput (web_ID w) w (Websites m)\<rparr>"

definition GetWebsite :: "memory \<Rightarrow> string \<Rightarrow> website option" where
  "GetWebsite m i = mget (Websites m) i"

definition ListWebsites :: "memory \<Rightarrow> string \<Rightarrow> website list" where
  "ListWebsites m aid = filter (\<lambda>w. aid = '''' \<or> web_AccountID w = aid) (mvals (Websites m))"

definition DeleteWebsite :: "string \<Rightarrow> memory \<Rightarrow> memory" where
  "DeleteWebsite i m =
     m\<lparr> Apps := mdel_if (\<lambda>_ a. app_WebsiteID a = i) (Apps m),
        Websites := mdel i (Websites m) \<rparr>"

definition PutApp :: "application \<Rightarrow> memory \<Rightarrow> memory" where
  "PutApp a m = m\<lparr>Apps := mput (app_ID a) a (Apps m)\<rparr>"

definition GetApp :: "memory \<Rightarrow> string \<Rightarrow> application option" where
  "GetApp m i = mget (Apps m) i"

definition DeleteApp :: "string \<Rightarrow> memory \<Rightarrow> memory" where
  "DeleteApp i m = m\<lparr>Apps := mdel i (Apps m)\<rparr>"

definition ListApps :: "memory \<Rightarrow> string \<Rightarrow> application list" where
  "ListApps m aid = filter (\<lambda>a. aid = '''' \<or> app_AccountID a = aid) (mvals (Apps m))"

section \<open>Databases, DNS and mail\<close>

definition PutDB :: "hosteddb \<Rightarrow> memory \<Rightarrow> memory" where
  "PutDB d m = m\<lparr>DBs := mput (db_ID d) d (DBs m)\<rparr>"

definition GetDB :: "memory \<Rightarrow> string \<Rightarrow> hosteddb option" where
  "GetDB m i = mget (DBs m) i"

definition ListDBs :: "memory \<Rightarrow> string \<Rightarrow> hosteddb list" where
  "ListDBs m aid = filter (\<lambda>d. aid = '''' \<or> db_AccountID d = aid) (mvals (DBs m))"

definition DeleteDB :: "string \<Rightarrow> memory \<Rightarrow> memory" where
  "DeleteDB i m = m\<lparr>DBs := mdel i (DBs m)\<rparr>"

definition PutDBUser :: "dbuser \<Rightarrow> memory \<Rightarrow> memory" where
  "PutDBUser u m = m\<lparr>DBUsers := mput (dbu_ID u) u (DBUsers m)\<rparr>"

definition ListDBUsers :: "memory \<Rightarrow> string \<Rightarrow> dbuser list" where
  "ListDBUsers m aid = filter (\<lambda>u. aid = '''' \<or> dbu_AccountID u = aid) (mvals (DBUsers m))"

definition PutZone :: "dnszone \<Rightarrow> memory \<Rightarrow> memory" where
  "PutZone z m = m\<lparr>Zones := mput (zone_ID z) z (Zones m)\<rparr>"

definition GetZone :: "memory \<Rightarrow> string \<Rightarrow> dnszone option" where
  "GetZone m i = mget (Zones m) i"

definition ZoneByDomain :: "memory \<Rightarrow> string \<Rightarrow> dnszone option" where
  "ZoneByDomain m did = find (\<lambda>z. zone_DomainID z = did) (mvals (Zones m))"

definition ListZones :: "memory \<Rightarrow> string \<Rightarrow> dnszone list" where
  "ListZones m aid =
     map (\<lambda>z. z\<lparr>zone_RecordCount :=
            int (length (filter (\<lambda>r. rec_ZoneID r = zone_ID z) (mvals (Records m))))\<rparr>)
       (filter (\<lambda>z. aid = '''' \<or> zone_AccountID z = aid) (mvals (Zones m)))"

definition PutRecord :: "dnsrecord \<Rightarrow> memory \<Rightarrow> memory" where
  "PutRecord r m = m\<lparr>Records := mput (rec_ID r) r (Records m)\<rparr>"

definition ListRecords :: "memory \<Rightarrow> string \<Rightarrow> dnsrecord list" where
  "ListRecords m zid = filter (\<lambda>r. rec_ZoneID r = zid) (mvals (Records m))"

definition DeleteRecord :: "string \<Rightarrow> memory \<Rightarrow> memory" where
  "DeleteRecord i m = m\<lparr>Records := mdel i (Records m)\<rparr>"

definition PutMailDomain :: "maildomain \<Rightarrow> memory \<Rightarrow> memory" where
  "PutMailDomain d m = m\<lparr>MailDom := mput (md_ID d) d (MailDom m)\<rparr>"

definition GetMailDomain :: "memory \<Rightarrow> string \<Rightarrow> maildomain option" where
  "GetMailDomain m i = mget (MailDom m) i"

definition MailDomainByDomain :: "memory \<Rightarrow> string \<Rightarrow> maildomain option" where
  "MailDomainByDomain m did = find (\<lambda>d. md_DomainID d = did) (mvals (MailDom m))"

definition ListMailDomains :: "memory \<Rightarrow> string \<Rightarrow> maildomain list" where
  "ListMailDomains m aid = filter (\<lambda>d. aid = '''' \<or> md_AccountID d = aid) (mvals (MailDom m))"

definition PutMailbox :: "mailbox \<Rightarrow> memory \<Rightarrow> memory" where
  "PutMailbox b m = m\<lparr>Mailboxes := mput (mb_ID b) b (Mailboxes m)\<rparr>"

definition GetMailbox :: "memory \<Rightarrow> string \<Rightarrow> mailbox option" where
  "GetMailbox m i = mget (Mailboxes m) i"

definition ListMailboxes :: "memory \<Rightarrow> string \<Rightarrow> mailbox list" where
  "ListMailboxes m aid = filter (\<lambda>b. aid = '''' \<or> mb_AccountID b = aid) (mvals (Mailboxes m))"

definition DeleteMailbox :: "string \<Rightarrow> memory \<Rightarrow> memory" where
  "DeleteMailbox i m = m\<lparr>Mailboxes := mdel i (Mailboxes m)\<rparr>"

definition PutMailAlias :: "mailalias \<Rightarrow> memory \<Rightarrow> memory" where
  "PutMailAlias a m = m\<lparr>Aliases := mput (al_ID a) a (Aliases m)\<rparr>"

definition GetMailAlias :: "memory \<Rightarrow> string \<Rightarrow> mailalias option" where
  "GetMailAlias m i = mget (Aliases m) i"

definition ListMailAliases :: "memory \<Rightarrow> string \<Rightarrow> mailalias list" where
  "ListMailAliases m aid = filter (\<lambda>a. aid = '''' \<or> al_AccountID a = aid) (mvals (Aliases m))"

definition DeleteMailAlias :: "string \<Rightarrow> memory \<Rightarrow> memory" where
  "DeleteMailAlias i m = m\<lparr>Aliases := mdel i (Aliases m)\<rparr>"

section \<open>Certificates, tokens, backups, cron, keys, FTP users, usage\<close>

definition PutCert :: "certificate \<Rightarrow> memory \<Rightarrow> memory" where
  "PutCert c m =
     m\<lparr>Certs := mput (cert_ID c) c
         (mdel_if (\<lambda>i e. cert_AccountID e = cert_AccountID c \<and> cert_Hostname e = cert_Hostname c
                         \<and> i \<noteq> cert_ID c) (Certs m))\<rparr>"

definition GetCert :: "memory \<Rightarrow> string \<Rightarrow> certificate option" where
  "GetCert m i = mget (Certs m) i"

definition ListCerts :: "memory \<Rightarrow> string \<Rightarrow> certificate list" where
  "ListCerts m aid =
     filter (\<lambda>c. aid = '''' \<or> cert_AccountID c = aid \<or> (aid = '''' \<and> cert_AccountID c = ''''))
       (mvals (Certs m))"

definition CertRenewalBatch :: int where
  "CertRenewalBatch = 50"

definition cert_due :: "gotime \<Rightarrow> certificate \<Rightarrow> bool" where
  "cert_due cutoff c \<longleftrightarrow> \<not> (cert_Status c \<noteq> ''active'' \<or>
     (case cert_NotAfter c of None \<Rightarrow> True | Some t \<Rightarrow> \<not> t < cutoff))"

definition ListDueCertificates :: "memory \<Rightarrow> gotime \<Rightarrow> int \<Rightarrow> certificate list" where
  "ListDueCertificates m cutoff limit =
     (let limit' = (if limit \<le> 0 then CertRenewalBatch else limit);
          out = sort_key (\<lambda>c. the (cert_NotAfter c)) (filter (cert_due cutoff) (ListCerts m ''''))
      in if int (length out) > limit' then take (nat limit') out else out)"

definition PutToken :: "apitoken \<Rightarrow> memory \<Rightarrow> memory" where
  "PutToken t m = m\<lparr>Tokens := mput (tok_ID t) t (Tokens m)\<rparr>"

definition GetToken :: "memory \<Rightarrow> string \<Rightarrow> apitoken option" where
  "GetToken m i = mget (Tokens m) i"

definition DeleteToken :: "string \<Rightarrow> memory \<Rightarrow> memory" where
  "DeleteToken i m = m\<lparr>Tokens := mdel i (Tokens m)\<rparr>"

definition TokenByHash :: "memory \<Rightarrow> gotime \<Rightarrow> string \<Rightarrow> apitoken option" where
  "TokenByHash m now hash =
     find (\<lambda>t. tok_TokenHash t = hash \<and> tok_RevokedAt t = None \<and>
               \<not> (case tok_ExpiresAt t of None \<Rightarrow> False | Some e \<Rightarrow> now > e)) (mvals (Tokens m))"

definition ListTokens :: "memory \<Rightarrow> string \<Rightarrow> apitoken list" where
  "ListTokens m uid = filter (\<lambda>t. tok_UserID t = uid) (mvals (Tokens m))"

definition PutBackup :: "backuprun \<Rightarrow> memory \<Rightarrow> memory" where
  "PutBackup b m = m\<lparr>Backups := mput (bak_ID b) b (Backups m)\<rparr>"

definition GetBackup :: "memory \<Rightarrow> string \<Rightarrow> backuprun option" where
  "GetBackup m i = mget (Backups m) i"

definition ListBackups :: "memory \<Rightarrow> string \<Rightarrow> backuprun list" where
  "ListBackups m aid =
     sort_key (\<lambda>b. - bak_CreatedAt b)
       (filter (\<lambda>b. aid = '''' \<or> bak_AccountID b = aid) (mvals (Backups m)))"

definition MaxBackupList :: int where
  "MaxBackupList = 200"

definition ListBackupsPage :: "memory \<Rightarrow> string \<Rightarrow> int \<Rightarrow> backuprun list" where
  "ListBackupsPage m aid limit =
     (let items = ListBackups m aid;
          limit' = (if limit \<le> 0 \<or> limit > MaxBackupList then MaxBackupList else limit)
      in if int (length items) > limit' then take (nat limit') items else items)"

definition PutCron :: "cronjob \<Rightarrow> memory \<Rightarrow> memory" where
  "PutCron c m = m\<lparr>Crons := mput (cron_ID c) c (Crons m)\<rparr>"

definition GetCron :: "memory \<Rightarrow> string \<Rightarrow> cronjob option" where
  "GetCron m i = mget (Crons m) i"

definition DeleteCron :: "string \<Rightarrow> memory \<Rightarrow> memory" where
  "DeleteCron i m = m\<lparr>Crons := mdel i (Crons m)\<rparr>"

definition ListCrons :: "memory \<Rightarrow> string \<Rightarrow> cronjob list" where
  "ListCrons m aid = filter (\<lambda>c. cron_AccountID c = aid) (mvals (Crons m))"

definition PutSSH :: "sshkey \<Rightarrow> memory \<Rightarrow> memory" where
  "PutSSH k m = m\<lparr>SSHKeys := mput (ssh_ID k) k (SSHKeys m)\<rparr>"

definition GetSSH :: "memory \<Rightarrow> string \<Rightarrow> sshkey option" where
  "GetSSH m i = mget (SSHKeys m) i"

definition DeleteSSH :: "string \<Rightarrow> memory \<Rightarrow> memory" where
  "DeleteSSH i m = m\<lparr>SSHKeys := mdel i (SSHKeys m)\<rparr>"

definition ListSSH :: "memory \<Rightarrow> string \<Rightarrow> sshkey list" where
  "ListSSH m aid = filter (\<lambda>k. ssh_AccountID k = aid) (mvals (SSHKeys m))"

definition PutFTP :: "ftpaccount \<Rightarrow> memory \<Rightarrow> memory" where
  "PutFTP f m = m\<lparr>FTPs := mput (ftp_ID f) f (FTPs m)\<rparr>"

definition ListFTP :: "memory \<Rightarrow> string \<Rightarrow> ftpaccount list" where
  "ListFTP m aid = filter (\<lambda>f. ftp_AccountID f = aid) (mvals (FTPs m))"

definition ListAllFTP :: "memory \<Rightarrow> ftpaccount list" where
  "ListAllFTP m = mvals (FTPs m)"

definition FTPUsernameTaken :: "memory \<Rightarrow> string \<Rightarrow> string \<Rightarrow> bool" where
  "FTPUsernameTaken m name exceptID \<longleftrightarrow>
     (\<exists>f \<in> set (mvals (FTPs m)). ftp_Username f = name \<and> ftp_ID f \<noteq> exceptID)"

definition DeleteFTP :: "string \<Rightarrow> memory \<Rightarrow> memory" where
  "DeleteFTP i m = m\<lparr>FTPs := mdel i (FTPs m)\<rparr>"

definition PutUsage :: "usage \<Rightarrow> memory \<Rightarrow> memory" where
  "PutUsage u m = m\<lparr>Usages := mput (use_AccountID u) u (Usages m)\<rparr>"

definition GetUsage :: "memory \<Rightarrow> string \<Rightarrow> usage option" where
  "GetUsage m aid = mget (Usages m) aid"

definition Stats :: "memory \<Rightarrow> (string, int) gomap" where
  "Stats m =
     [(''users'', int (length (Users m))), (''accounts'', int (length (Accounts m))),
      (''domains'', int (length (Domains m))), (''websites'', int (length (Websites m))),
      (''mailboxes'', int (length (Mailboxes m))), (''jobs'', int (length (Jobs m))),
      (''failedJobs'', int (length (filter (\<lambda>j. job_State j = ''failed'') (mvals (Jobs m))))),
      (''audit'', int (length (Audit m)))]"

section \<open>Bounded pages (bounds.go)\<close>

definition DefaultInventoryLimit :: int where
  "DefaultInventoryLimit = 50"

definition MaxInventoryLimit :: int where
  "MaxInventoryLimit = 200"

definition ClampPageLimit :: "int \<Rightarrow> int \<Rightarrow> int" where
  "ClampPageLimit limit fallback =
     (let l = (if limit \<le> 0 then fallback else limit)
      in if l > MaxInventoryLimit then MaxInventoryLimit else l)"

definition AfterUsername :: "string \<Rightarrow> string \<Rightarrow> bool" where
  "AfterUsername cursor name \<longleftrightarrow> cursor = '''' \<or> name > cursor"

definition AfterName :: "string \<Rightarrow> string \<Rightarrow> bool" where
  "AfterName cursor name \<longleftrightarrow> cursor = '''' \<or> name > cursor"

record accountpage =
  ap_Items :: "account list"
  ap_Usage :: "(string, usage) gomap"
  ap_NextCursor :: string
  ap_HasMore :: bool

text \<open>The loop of \<^verbatim>\<open>ListAccountsPage\<close>; the \<^verbatim>\<open>break\<close> is the branch that stops.\<close>

fun accounts_page_loop ::
    "memory \<Rightarrow> string \<Rightarrow> int \<Rightarrow> accountpage \<Rightarrow> account list \<Rightarrow> accountpage" where
  "accounts_page_loop m cursor limit page [] = page"
| "accounts_page_loop m cursor limit page (a # as) =
     (if \<not> AfterUsername cursor (acc_Username a) then accounts_page_loop m cursor limit page as
      else if int (length (ap_Items page)) = limit
      then page\<lparr>ap_HasMore := True, ap_NextCursor := acc_Username (last (ap_Items page))\<rparr>
      else accounts_page_loop m cursor limit
             (page\<lparr>ap_Items := ap_Items page @ [a],
                   ap_Usage := (case GetUsage m (acc_ID a) of
                                  None \<Rightarrow> ap_Usage page
                                | Some u \<Rightarrow> mput (acc_ID a) u (ap_Usage page))\<rparr>) as)"

definition ListAccountsPage ::
    "memory \<Rightarrow> string \<Rightarrow> string \<Rightarrow> string \<Rightarrow> int \<Rightarrow> accountpage" where
  "ListAccountsPage m q status cursor limit =
     (let limit' = ClampPageLimit limit DefaultInventoryLimit;
          page = accounts_page_loop m cursor limit'
                   \<lparr>ap_Items = [], ap_Usage = [], ap_NextCursor = '''', ap_HasMore = False\<rparr>
                   (ListAccounts m q status)
      in if \<not> ap_HasMore page \<and> ap_Items page \<noteq> []
         then page\<lparr>ap_NextCursor := acc_Username (last (ap_Items page))\<rparr> else page)"

record zonepage =
  zp_Items :: "dnszone list"
  zp_NextCursor :: string
  zp_HasMore :: bool

fun zones_page_loop :: "string \<Rightarrow> int \<Rightarrow> zonepage \<Rightarrow> dnszone list \<Rightarrow> zonepage" where
  "zones_page_loop cursor limit page [] = page"
| "zones_page_loop cursor limit page (z # zs) =
     (if \<not> AfterName cursor (zone_Name z) then zones_page_loop cursor limit page zs
      else if int (length (zp_Items page)) = limit
      then page\<lparr>zp_HasMore := True, zp_NextCursor := zone_Name (last (zp_Items page))\<rparr>
      else zones_page_loop cursor limit (page\<lparr>zp_Items := zp_Items page @ [z]\<rparr>) zs)"

definition ListZonesPage :: "memory \<Rightarrow> string \<Rightarrow> string \<Rightarrow> int \<Rightarrow> zonepage" where
  "ListZonesPage m aid cursor limit =
     (let limit' = ClampPageLimit limit DefaultInventoryLimit;
          page = zones_page_loop cursor limit'
                   \<lparr>zp_Items = [], zp_NextCursor = '''', zp_HasMore = False\<rparr>
                   (sort_key zone_Name (ListZones m aid))
      in if \<not> zp_HasMore page \<and> zp_Items page \<noteq> []
         then page\<lparr>zp_NextCursor := zone_Name (last (zp_Items page))\<rparr> else page)"

section \<open>Cursor pages enumerate the listing\<close>

text \<open>
  What a keyset page promises: it holds the first \<open>limit\<close> entries after the cursor, its next
  cursor is the key of its last entry, and it says whether entries remain. A client that
  follows the cursors sees every entry once, in order.
\<close>

definition after_key :: "string \<Rightarrow> string \<Rightarrow> bool" where
  "after_key cursor k \<longleftrightarrow> cursor = '''' \<or> k > cursor"

text \<open>A client that follows the cursors: at most \<open>n\<close> more pages after the first.\<close>

primrec walk_pages ::
    "(string \<Rightarrow> 'a list) \<Rightarrow> (string \<Rightarrow> string) \<Rightarrow> (string \<Rightarrow> bool) \<Rightarrow> nat \<Rightarrow> string \<Rightarrow> 'a list" where
  "walk_pages items nxt has_more 0 c = items c"
| "walk_pages items nxt has_more (Suc n) c =
     items c @ (if has_more c then walk_pages items nxt has_more n (nxt c) else [])"

locale keyset_page =
  fixes listing :: "'a list"
    and key :: "'a \<Rightarrow> string"
    and limit :: nat
    and items :: "string \<Rightarrow> 'a list"
    and next_cursor :: "string \<Rightarrow> string"
    and has_more :: "string \<Rightarrow> bool"
  assumes listing_sorted: "sorted (map key listing)"
    and limit_pos: "0 < limit"
    and items_eq: "items c = take limit (filter (\<lambda>a. after_key c (key a)) listing)"
    and next_eq: "items c \<noteq> [] \<Longrightarrow> next_cursor c = key (last (items c))"
    and more_eq: "has_more c \<longleftrightarrow> limit < length (filter (\<lambda>a. after_key c (key a)) listing)"
begin

definition rest :: "string \<Rightarrow> 'a list" where
  "rest c = filter (\<lambda>a. after_key c (key a)) listing"

lemma items_rest: "items c = take limit (rest c)"
  by (simp add: items_eq rest_def)

lemma rest_start [simp]: "rest [] = listing"
  by (simp add: rest_def after_key_def)

lemma strictly_sorted:
  "distinct (map key listing) \<Longrightarrow> sorted_wrt (\<lambda>a b. key a < key b) (rest c)"
proof -
  assume d: "distinct (map key listing)"
  then have "sorted_wrt (<) (map key listing)"
    using listing_sorted strict_sorted_iff by blast
  then show ?thesis
    by (simp add: rest_def sorted_wrt_map sorted_wrt_filter)
qed

lemma rest_after_last:
  assumes d: "distinct (map key listing)" and ne: "\<forall>a \<in> set listing. key a \<noteq> []"
    and eq: "rest c = xs @ ys" and xs: "xs \<noteq> []"
  shows "rest (key (last xs)) = ys"
proof -
  have sw: "sorted_wrt (\<lambda>a b. key a < key b) (xs @ ys)"
    using strictly_sorted [OF d, of c] eq by simp
  have last_mem: "last xs \<in> set (rest c)" using xs eq by simp
  then have lk: "key (last xs) \<noteq> []" and c_lt: "c = [] \<or> c < key (last xs)"
    using ne by (auto simp: rest_def after_key_def)
  have keep: "key (last xs) < key a \<Longrightarrow> after_key c (key a)" for a
    using c_lt by (auto simp: after_key_def)
  have "rest (key (last xs)) = filter (\<lambda>a. key (last xs) < key a) (rest c)"
    using keep lk by (auto simp: rest_def after_key_def intro!: filter_cong)
  also have "\<dots> = filter (\<lambda>a. key (last xs) < key a) xs @ filter (\<lambda>a. key (last xs) < key a) ys"
    by (simp add: eq)
  also have "filter (\<lambda>a. key (last xs) < key a) ys = ys"
    using sw xs by (auto simp: sorted_wrt_append filter_id_conv)
  also have "filter (\<lambda>a. key (last xs) < key a) xs = []"
  proof -
    have "sorted_wrt (\<lambda>a b. key a < key b) (butlast xs @ [last xs])"
      using sw xs by (simp add: sorted_wrt_append)
    then have "\<forall>a \<in> set (butlast xs). key a < key (last xs)"
      by (simp add: sorted_wrt_append)
    moreover have "set xs = insert (last xs) (set (butlast xs))"
      using xs by (metis append_butlast_last_id list.simps(15) rotate1.simps(2) set_rotate1)
    ultimately show ?thesis by (auto simp: filter_empty_conv)
  qed
  finally show ?thesis by simp
qed

lemma walk_rest:
  assumes d: "distinct (map key listing)" and ne: "\<forall>a \<in> set listing. key a \<noteq> []"
  shows "length (rest c) \<le> n \<Longrightarrow> walk_pages items next_cursor has_more n c = rest c"
proof (induction n arbitrary: c)
  case 0
  then show ?case by (simp add: items_rest [of c])
next
  case (Suc n)
  show ?case
  proof (cases "has_more c")
    case True
    then have len: "limit < length (rest c)" by (simp add: more_eq rest_def)
    then have ne_items: "items c \<noteq> []" using limit_pos by (auto simp: items_rest)
    have tail: "rest (next_cursor c) = drop limit (rest c)"
      using rest_after_last [OF d ne, of c "items c" "drop limit (rest c)"] ne_items
      by (simp add: items_rest next_eq)
    have "walk_pages items next_cursor has_more n (next_cursor c) = rest (next_cursor c)"
      using Suc.prems limit_pos by (intro Suc.IH) (auto simp: tail)
    with True show ?thesis by (simp add: tail items_rest [of c])
  next
    case False
    then show ?thesis by (simp add: more_eq rest_def items_eq [of c])
  qed
qed

lemma walk_complete:
  assumes "distinct (map key listing)" and "\<forall>a \<in> set listing. key a \<noteq> []"
    and "length listing \<le> n"
  shows "walk_pages items next_cursor has_more n [] = listing"
  using walk_rest [OF assms(1,2), of "[]" n] assms(3) by simp

end

lemma ClampPageLimit_bounds:
  "0 < fallback \<Longrightarrow> 0 < ClampPageLimit limit fallback \<and> ClampPageLimit limit fallback \<le> 200"
  by (auto simp: ClampPageLimit_def MaxInventoryLimit_def Let_def)

lemma page_limit_pos [simp]: "0 < ClampPageLimit limit DefaultInventoryLimit"
  using ClampPageLimit_bounds [of DefaultInventoryLimit limit] by (simp add: DefaultInventoryLimit_def)

lemma accounts_page_loop_eq:
  assumes "int (length (ap_Items page)) \<le> limit" and "\<not> ap_HasMore page"
  shows "ap_Items (accounts_page_loop m cursor limit page as) =
          take (nat limit) (ap_Items page @ filter (\<lambda>a. AfterUsername cursor (acc_Username a)) as)"
    and "ap_HasMore (accounts_page_loop m cursor limit page as) \<longleftrightarrow>
          nat limit < length (ap_Items page @ filter (\<lambda>a. AfterUsername cursor (acc_Username a)) as)"
    and "ap_HasMore (accounts_page_loop m cursor limit page as) \<Longrightarrow>
           ap_NextCursor (accounts_page_loop m cursor limit page as) =
             acc_Username (last (ap_Items (accounts_page_loop m cursor limit page as)))"
  using assms
  by (induction m cursor limit page as rule: accounts_page_loop.induct) (auto simp: Let_def)

lemma zones_page_loop_eq:
  assumes "int (length (zp_Items page)) \<le> limit" and "\<not> zp_HasMore page"
  shows "zp_Items (zones_page_loop cursor limit page zs) =
          take (nat limit) (zp_Items page @ filter (\<lambda>z. AfterName cursor (zone_Name z)) zs)"
    and "zp_HasMore (zones_page_loop cursor limit page zs) \<longleftrightarrow>
          nat limit < length (zp_Items page @ filter (\<lambda>z. AfterName cursor (zone_Name z)) zs)"
    and "zp_HasMore (zones_page_loop cursor limit page zs) \<Longrightarrow>
           zp_NextCursor (zones_page_loop cursor limit page zs) =
             zone_Name (last (zp_Items (zones_page_loop cursor limit page zs)))"
  using assms
  by (induction cursor limit page zs rule: zones_page_loop.induct) (auto simp: Let_def)

interpretation account_pages: keyset_page
    "ListAccounts m q status" acc_Username "nat (ClampPageLimit limit DefaultInventoryLimit)"
    "\<lambda>c. ap_Items (ListAccountsPage m q status c limit)"
    "\<lambda>c. ap_NextCursor (ListAccountsPage m q status c limit)"
    "\<lambda>c. ap_HasMore (ListAccountsPage m q status c limit)"
  for m q status limit
proof
  have nonneg: "0 \<le> ClampPageLimit limit DefaultInventoryLimit"
    using page_limit_pos [of limit] by linarith
  have after: "AfterUsername c = after_key c" for c
    by (rule ext) (simp add: AfterUsername_def after_key_def)
  note loop = accounts_page_loop_eq [where page = "\<lparr>ap_Items = [], ap_Usage = [],
      ap_NextCursor = '''', ap_HasMore = False\<rparr>" and limit = "ClampPageLimit limit DefaultInventoryLimit"
      and as = "ListAccounts m q status" and m = m, simplified, OF nonneg]
  show "sorted (map acc_Username (ListAccounts m q status))"
    by (simp add: ListAccounts_def)
  show "0 < nat (ClampPageLimit limit DefaultInventoryLimit)"
    by simp
  fix c
  show "ap_Items (ListAccountsPage m q status c limit) =
      take (nat (ClampPageLimit limit DefaultInventoryLimit))
        (filter (\<lambda>a. after_key c (acc_Username a)) (ListAccounts m q status))"
    by (simp add: ListAccountsPage_def Let_def loop after)
  show "ap_NextCursor (ListAccountsPage m q status c limit) =
      acc_Username (last (ap_Items (ListAccountsPage m q status c limit)))"
    if "ap_Items (ListAccountsPage m q status c limit) \<noteq> []"
    using that loop(3) [of c] by (auto simp: ListAccountsPage_def Let_def)
  show "ap_HasMore (ListAccountsPage m q status c limit) \<longleftrightarrow>
      nat (ClampPageLimit limit DefaultInventoryLimit)
        < length (filter (\<lambda>a. after_key c (acc_Username a)) (ListAccounts m q status))"
    by (simp add: ListAccountsPage_def Let_def loop after)
qed

interpretation zone_pages: keyset_page
    "sort_key zone_Name (ListZones m aid)" zone_Name
    "nat (ClampPageLimit limit DefaultInventoryLimit)"
    "\<lambda>c. zp_Items (ListZonesPage m aid c limit)"
    "\<lambda>c. zp_NextCursor (ListZonesPage m aid c limit)"
    "\<lambda>c. zp_HasMore (ListZonesPage m aid c limit)"
  for m aid limit
proof
  have nonneg: "0 \<le> ClampPageLimit limit DefaultInventoryLimit"
    using page_limit_pos [of limit] by linarith
  have after: "AfterName c = after_key c" for c
    by (rule ext) (simp add: AfterName_def after_key_def)
  note loop = zones_page_loop_eq [where page = "\<lparr>zp_Items = [], zp_NextCursor = '''',
      zp_HasMore = False\<rparr>" and limit = "ClampPageLimit limit DefaultInventoryLimit"
      and zs = "sort_key zone_Name (ListZones m aid)", simplified, OF nonneg]
  show "sorted (map zone_Name (sort_key zone_Name (ListZones m aid)))"
    by simp
  show "0 < nat (ClampPageLimit limit DefaultInventoryLimit)"
    by simp
  fix c
  show "zp_Items (ListZonesPage m aid c limit) =
      take (nat (ClampPageLimit limit DefaultInventoryLimit))
        (filter (\<lambda>z. after_key c (zone_Name z)) (sort_key zone_Name (ListZones m aid)))"
    by (simp add: ListZonesPage_def Let_def loop after)
  show "zp_NextCursor (ListZonesPage m aid c limit) =
      zone_Name (last (zp_Items (ListZonesPage m aid c limit)))"
    if "zp_Items (ListZonesPage m aid c limit) \<noteq> []"
    using that loop(3) [of c] by (auto simp: ListZonesPage_def Let_def)
  show "zp_HasMore (ListZonesPage m aid c limit) \<longleftrightarrow>
      nat (ClampPageLimit limit DefaultInventoryLimit)
        < length (filter (\<lambda>z. after_key c (zone_Name z)) (sort_key zone_Name (ListZones m aid)))"
    by (simp add: ListZonesPage_def Let_def loop after)
qed

section \<open>Tables and references\<close>

text \<open>Every map is filed under the identifier of its entries.\<close>

definition mem_tables :: "memory \<Rightarrow> bool" where
  "mem_tables m \<longleftrightarrow>
     table usr_ID (Users m) \<and> table ses_ID (Sessions m) \<and> table pkg_ID (Packages m) \<and>
     table fs_ID (Features m) \<and> table rsl_ID (Resellers m) \<and> table acc_ID (Accounts m) \<and>
     table dom_ID (Domains m) \<and> table web_ID (Websites m) \<and> table app_ID (Apps m) \<and>
     table db_ID (DBs m) \<and> table dbu_ID (DBUsers m) \<and> table zone_ID (Zones m) \<and>
     table rec_ID (Records m) \<and> table md_ID (MailDom m) \<and> table mb_ID (Mailboxes m) \<and>
     table al_ID (Aliases m) \<and> table cert_ID (Certs m) \<and> table job_ID (Jobs m) \<and>
     table tok_ID (Tokens m) \<and> table bak_ID (Backups m) \<and> table rst_ID (Restores m) \<and>
     table cron_ID (Crons m) \<and> table ssh_ID (SSHKeys m) \<and> table ftp_ID (FTPs m) \<and>
     table use_AccountID (Usages m) \<and> mwf (Members m) \<and> mwf (resourceFences m)"

text \<open>
  Children name parents that exist: a website its domain, an application its website, a
  mailbox and an alias their mail domain, a record its zone.
\<close>

definition refs_ok :: "memory \<Rightarrow> bool" where
  "refs_ok m \<longleftrightarrow>
     (\<forall>k w. mget (Websites m) k = Some w \<longrightarrow> mget (Domains m) (web_DomainID w) \<noteq> None) \<and>
     (\<forall>k a. mget (Apps m) k = Some a \<longrightarrow> mget (Websites m) (app_WebsiteID a) \<noteq> None) \<and>
     (\<forall>k b. mget (Mailboxes m) k = Some b \<longrightarrow> mget (MailDom m) (mb_DomainID b) \<noteq> None) \<and>
     (\<forall>k a. mget (Aliases m) k = Some a \<longrightarrow> mget (MailDom m) (al_DomainID a) \<noteq> None) \<and>
     (\<forall>k r. mget (Records m) k = Some r \<longrightarrow> mget (Zones m) (rec_ZoneID r) \<noteq> None)"

lemma mem_tables_new [simp]: "mem_tables NewMemory"
  by (simp add: mem_tables_def NewMemory_def)

lemma refs_ok_new [simp]: "refs_ok NewMemory"
  by (simp add: refs_ok_def NewMemory_def)

lemma keys_where_iff:
  "mwf t \<Longrightarrow> k \<in> set (keys_where p t) \<longleftrightarrow> (\<exists>v. mget t k = Some v \<and> p v)"
  by (force simp: keys_where_def mwf_mget_iff)

lemmas mget_mdel_if_Some = gomap.remove_if_sub gomap.remove_if_sound

text \<open>Deleting parents together with the children that name them leaves no dangling child.\<close>

lemma refs_cascade:
  assumes wf: "mwf parents" "mwf children"
    and ok: "\<forall>k c. mget children k = Some c \<longrightarrow> mget parents (ref c) \<noteq> None"
  shows "\<forall>k c. mget (mdel_if (\<lambda>_ c. ref c \<in> set (keys_where p parents)) children) k = Some c \<longrightarrow>
           mget (mdel_if (\<lambda>_. p) parents) (ref c) \<noteq> None"
proof (intro allI impI)
  fix k c
  assume c: "mget (mdel_if (\<lambda>_ c. ref c \<in> set (keys_where p parents)) children) k = Some c"
  have "mget children k = Some c" and keep: "ref c \<notin> set (keys_where p parents)"
    using gomap.remove_if_sub [OF wf(2) c] gomap.remove_if_sound [OF wf(2) c] by auto
  with ok obtain v where "mget parents (ref c) = Some v" by blast
  with keep show "mget (mdel_if (\<lambda>_. p) parents) (ref c) \<noteq> None"
    by (auto simp: mget_mdel_if wf keys_where_iff)
qed

lemma DeleteDomain_sel [simp]:
  "Websites (DeleteDomain i m) = mdel_if (\<lambda>_ w. web_DomainID w = i) (Websites m)"
  "Apps (DeleteDomain i m) =
     mdel_if (\<lambda>_ a. app_WebsiteID a \<in> set (keys_where (\<lambda>w. web_DomainID w = i) (Websites m))) (Apps m)"
  "MailDom (DeleteDomain i m) = mdel_if (\<lambda>_ d. md_DomainID d = i) (MailDom m)"
  "Mailboxes (DeleteDomain i m) =
     mdel_if (\<lambda>_ b. mb_DomainID b \<in> set (keys_where (\<lambda>d. md_DomainID d = i) (MailDom m))) (Mailboxes m)"
  "Aliases (DeleteDomain i m) =
     mdel_if (\<lambda>_ a. al_DomainID a \<in> set (keys_where (\<lambda>d. md_DomainID d = i) (MailDom m))) (Aliases m)"
  "Zones (DeleteDomain i m) = mdel_if (\<lambda>_ z. zone_DomainID z = i) (Zones m)"
  "Records (DeleteDomain i m) =
     mdel_if (\<lambda>_ r. rec_ZoneID r \<in> set (keys_where (\<lambda>z. zone_DomainID z = i) (Zones m))) (Records m)"
  "Domains (DeleteDomain i m) = mdel i (Domains m)"
  "Accounts (DeleteDomain i m) = Accounts m" "Users (DeleteDomain i m) = Users m"
  "DBs (DeleteDomain i m) = DBs m" "Jobs (DeleteDomain i m) = Jobs m"
  "resourceFences (DeleteDomain i m) = resourceFences m" "Restores (DeleteDomain i m) = Restores m"
  by (simp_all add: DeleteDomain_def Let_def)

lemma DeleteDomain_tables [wf_intros]: "mem_tables m \<Longrightarrow> mem_tables (DeleteDomain i m)"
  by (simp add: mem_tables_def DeleteDomain_def Let_def)

lemma DeleteWebsite_tables [wf_intros]: "mem_tables m \<Longrightarrow> mem_tables (DeleteWebsite i m)"
  by (simp add: mem_tables_def DeleteWebsite_def)

lemma DeleteWebsite_refs [wf_intros]:
  "mem_tables m \<Longrightarrow> refs_ok m \<Longrightarrow> refs_ok (DeleteWebsite i m)"
  by (auto simp: mem_tables_def refs_ok_def DeleteWebsite_def mget_mdel_if
      split: option.splits if_splits)

lemma DeleteDomain_refs [wf_intros]:
  assumes t: "mem_tables m" and r: "refs_ok m"
  shows "refs_ok (DeleteDomain i m)"
proof -
  from t have wf: "mwf (Domains m)" "mwf (Websites m)" "mwf (Apps m)" "mwf (MailDom m)"
    "mwf (Mailboxes m)" "mwf (Aliases m)" "mwf (Zones m)" "mwf (Records m)"
    by (auto simp: mem_tables_def)
  have web: "\<forall>k w. mget (mdel_if (\<lambda>_ w. web_DomainID w = i) (Websites m)) k = Some w \<longrightarrow>
      mget (mdel i (Domains m)) (web_DomainID w) \<noteq> None"
    using r by (auto simp: refs_ok_def mget_mdel_if [OF wf(2)] split: option.splits if_splits)
  from r show ?thesis
    unfolding refs_ok_def DeleteDomain_sel
    by (elim conjE, intro conjI) (assumption | rule web refs_cascade wf)+
qed
lemma mget_mdel_if_iff:
  "mwf t \<Longrightarrow> mget (mdel_if (\<lambda>_. p) t) k = Some v \<longleftrightarrow> mget t k = Some v \<and> \<not> p v"
  by (auto simp: mget_mdel_if split: option.splits if_splits)

section \<open>Properties\<close>

text \<open>
  A client that follows the cursors of \<^verbatim>\<open>ListAccountsPage\<close> from the empty cursor sees
  exactly the accounts of \<^verbatim>\<open>ListAccounts\<close>, each once and in order, provided names are
  distinct and not empty; no page holds more than 200 accounts, whatever limit is asked for.
\<close>

theorem account_pages_complete:
  assumes "distinct (map acc_Username (ListAccounts m q status))"
    and "\<forall>a \<in> set (ListAccounts m q status). acc_Username a \<noteq> []"
    and "length (ListAccounts m q status) \<le> n"
  shows "walk_pages (\<lambda>c. ap_Items (ListAccountsPage m q status c limit))
      (\<lambda>c. ap_NextCursor (ListAccountsPage m q status c limit))
      (\<lambda>c. ap_HasMore (ListAccountsPage m q status c limit)) n [] = ListAccounts m q status \<and>
    length (ap_Items (ListAccountsPage m q status c limit)) \<le> 200"
proof
  show "walk_pages (\<lambda>c. ap_Items (ListAccountsPage m q status c limit))
      (\<lambda>c. ap_NextCursor (ListAccountsPage m q status c limit))
      (\<lambda>c. ap_HasMore (ListAccountsPage m q status c limit)) n [] = ListAccounts m q status"
    using assms by (rule account_pages.walk_complete)
  have "length (ap_Items (ListAccountsPage m q status c limit)) \<le> nat (ClampPageLimit limit DefaultInventoryLimit)"
    by (simp add: account_pages.items_eq)
  also have "\<dots> \<le> 200"
    using ClampPageLimit_bounds [of DefaultInventoryLimit limit] by (auto simp: DefaultInventoryLimit_def nat_le_iff)
  finally show "length (ap_Items (ListAccountsPage m q status c limit)) \<le> 200" .
qed

text \<open>
  The same for the zones of an account: following the cursors of \<^verbatim>\<open>ListZonesPage\<close>
  enumerates its zones in name order, each with its record count.
\<close>

theorem zone_pages_complete:
  assumes "distinct (map zone_Name (ListZones m aid))"
    and "\<forall>z \<in> set (ListZones m aid). zone_Name z \<noteq> []" and "length (ListZones m aid) \<le> n"
  shows "walk_pages (\<lambda>c. zp_Items (ListZonesPage m aid c limit))
      (\<lambda>c. zp_NextCursor (ListZonesPage m aid c limit))
      (\<lambda>c. zp_HasMore (ListZonesPage m aid c limit)) n [] = sort_key zone_Name (ListZones m aid)"
proof (rule zone_pages.walk_complete)
  have "mset (map zone_Name (sort_key zone_Name (ListZones m aid))) = mset (map zone_Name (ListZones m aid))"
    by simp
  then show "distinct (map zone_Name (sort_key zone_Name (ListZones m aid)))"
    using assms(1) by (metis mset_eq_imp_distinct_iff)
qed (use assms in simp_all)

text \<open>
  Deleting a domain removes it with everything that hangs on it and leaves no dangling
  reference: afterwards no website, mail domain or zone names the domain, every remaining
  child still has its parent, and websites of other domains are as they were.
\<close>

theorem DeleteDomain_cascades:
  assumes t: "mem_tables m" and r: "refs_ok m"
  shows "let m' = DeleteDomain i m in
    mem_tables m' \<and> refs_ok m' \<and> mget (Domains m') i = None \<and>
    (\<forall>k w. mget (Websites m') k = Some w \<longleftrightarrow> mget (Websites m) k = Some w \<and> web_DomainID w \<noteq> i) \<and>
    (\<forall>k d. mget (MailDom m') k = Some d \<longleftrightarrow> mget (MailDom m) k = Some d \<and> md_DomainID d \<noteq> i) \<and>
    (\<forall>k z. mget (Zones m') k = Some z \<longleftrightarrow> mget (Zones m) k = Some z \<and> zone_DomainID z \<noteq> i)"
proof -
  have wf: "mwf (Websites m)" "mwf (MailDom m)" "mwf (Zones m)" using t by (auto simp: mem_tables_def)
  show ?thesis
    using DeleteDomain_tables [OF t] DeleteDomain_refs [OF t r] wf by (simp add: Let_def mget_mdel_if_iff)
qed

section \<open>Witnesses\<close>

definition ex_accounts :: memory where
  "ex_accounts = NewMemory\<lparr>
     Accounts := [(''1'', account0\<lparr>acc_ID := ''1'', acc_Username := ''bob''\<rparr>),
                  (''2'', account0\<lparr>acc_ID := ''2'', acc_Username := ''al''\<rparr>)],
     Domains := [(''d'', domain0\<lparr>dom_ID := ''d''\<rparr>)],
     Websites := [(''w'', website0\<lparr>web_ID := ''w'', web_DomainID := ''d''\<rparr>)],
     Zones := [(''z'', dnszone0\<lparr>zone_ID := ''z'', zone_Name := ''n''\<rparr>)] \<rparr>"

theorem account_pages_complete_witness:
  "map acc_Username (walk_pages (\<lambda>c. ap_Items (ListAccountsPage ex_accounts [] [] c 1))
      (\<lambda>c. ap_NextCursor (ListAccountsPage ex_accounts [] [] c 1))
      (\<lambda>c. ap_HasMore (ListAccountsPage ex_accounts [] [] c 1)) 2 []) = [''al'', ''bob'']"
proof -
  have names: "map acc_Username (ListAccounts ex_accounts [] []) = [''al'', ''bob'']" by code_simp
  then have "length (ListAccounts ex_accounts [] []) \<le> 2"
    by (metis One_nat_def Suc_1 le_refl length_Cons length_map list.size(3))
  moreover have "distinct (map acc_Username (ListAccounts ex_accounts [] []))"
    unfolding names by simp
  moreover have "\<forall>a \<in> set (ListAccounts ex_accounts [] []). acc_Username a \<noteq> []" by code_simp
  ultimately show ?thesis
    using account_pages_complete [of ex_accounts "[]" "[]" 2 1] names by simp
qed

theorem zone_pages_complete_witness:
  "map zone_Name (walk_pages (\<lambda>c. zp_Items (ListZonesPage ex_accounts [] c 1))
      (\<lambda>c. zp_NextCursor (ListZonesPage ex_accounts [] c 1))
      (\<lambda>c. zp_HasMore (ListZonesPage ex_accounts [] c 1)) 1 []) = [''n'']"
proof -
  have "distinct (map zone_Name (ListZones ex_accounts []))"
    "\<forall>z \<in> set (ListZones ex_accounts []). zone_Name z \<noteq> []" "length (ListZones ex_accounts []) \<le> 1"
    "map zone_Name (sort_key zone_Name (ListZones ex_accounts [])) = [''n'']"
    by code_simp+
  then show ?thesis using zone_pages_complete [of ex_accounts "[]" 1 1] by simp
qed

theorem DeleteDomain_cascades_witness:
  "refs_ok (DeleteDomain ''d'' ex_accounts) \<and> mget (Domains (DeleteDomain ''d'' ex_accounts)) ''d'' = None"
proof -
  have "mem_tables ex_accounts" "refs_ok ex_accounts"
    by (simp_all add: mem_tables_def refs_ok_def ex_accounts_def NewMemory_def account0_def domain0_def
        website0_def dnszone0_def)
  then show ?thesis using DeleteDomain_cascades [of ex_accounts "''d''"] by (simp add: Let_def)
qed

end
