(* ===== verification/Store_Jobs.thy ===== *)
theory Store_Jobs
  imports Store_Memory
begin

text \<open>
  The durable job queue of \<^verbatim>\<open>internal/store/memory.go\<close> with the fences of
  \<^verbatim>\<open>internal/store/fence.go\<close>: enqueueing under idempotency keys, claiming with a lease and a
  resource fence, heartbeats, lease expiry, cancellation and worker updates.

  The second half shows what the queue promises its workers: \<^verbatim>\<open>ClaimJob\<close> hands out the most
  urgent runnable job, every claim and every expiry moves the job to a fence that is greater
  than all fences handed out for the resource before, and a worker whose fence is no longer
  the job's can neither extend its lease nor change the job, in any later state.

  Fences and revisions are \<^verbatim>\<open>int64\<close> counters that grow by one per operation; they are
  unbounded integers here.
\<close>

section \<open>Fences (fence.go)\<close>

definition jobOperationID :: "string \<Rightarrow> int \<Rightarrow> string" where
  "jobOperationID jobID fence = jobID @ '':'' @ itoa fence"

definition resourceFenceKey :: "job option \<Rightarrow> string" where
  "resourceFenceKey oj =
     (case oj of
        None \<Rightarrow> ''''
      | Some j \<Rightarrow>
          if job_ResourceType j = '''' \<and> job_ResourceID j = '''' then ''job/'' @ job_ID j
          else job_ResourceType j @ ''/'' @ job_ResourceID j)"

definition acceptJobMutation :: "job option \<Rightarrow> job option \<Rightarrow> store_error option" where
  "acceptJobMutation existing incoming =
     (case (existing, incoming) of
        (Some e, Some i) \<Rightarrow>
          if job_Fence e = 0 then None
          else if job_Fence i \<noteq> job_Fence e then Some ErrStaleFence
          else None
      | _ \<Rightarrow> None)"

section \<open>Normalisation and replay\<close>

text \<open>Go's conversion of a \<^verbatim>\<open>float64\<close> to \<^verbatim>\<open>int64\<close> truncates towards zero.\<close>

definition float_to_int :: "rat \<Rightarrow> int" where
  "float_to_int r = (if r \<ge> 0 then \<lfloor>r\<rfloor> else \<lceil>r\<rceil>)"

definition payload_revision :: "(string, any) gomap \<Rightarrow> int option" where
  "payload_revision p =
     (case mget p ''target_revision'' of
        Some (VInt r) \<Rightarrow> Some r
      | Some (VInt64 r) \<Rightarrow> Some r
      | Some (VFloat r) \<Rightarrow> Some (float_to_int r)
      | _ \<Rightarrow> None)"

definition normalizeJob :: "string \<Rightarrow> gotime \<Rightarrow> job \<Rightarrow> job" where
  "normalizeJob fresh now j0 =
     (let j = j0\<lparr>job_Retryable := None\<rparr>;
          j = (if job_TargetRevision j = 0
               then (case payload_revision (job_Payload j) of
                       None \<Rightarrow> j | Some r \<Rightarrow> j\<lparr>job_TargetRevision := r\<rparr>) else j);
          j = (if job_TargetRevision j = 0 then j\<lparr>job_TargetRevision := 1\<rparr> else j);
          j = (if job_ID j = '''' then j\<lparr>job_ID := fresh\<rparr> else j);
          j = (if job_CreatedAt j = 0 then j\<lparr>job_CreatedAt := now\<rparr> else j);
          j = (if job_RunAfter j = 0 then j\<lparr>job_RunAfter := now\<rparr> else j);
          j = (if job_MaxAttempts j = 0 then j\<lparr>job_MaxAttempts := 5\<rparr> else j);
          j = (if job_State j = '''' then j\<lparr>job_State := ''queued''\<rparr> else j)
      in j)"

definition validateNewJobLocked :: "memory \<Rightarrow> job \<Rightarrow> store_error option" where
  "validateNewJobLocked m j =
     (if mget (Jobs m) (job_ID j) \<noteq> None then Some (ErrExists ''job'' (job_ID j))
      else if job_IdempotencyKey j = '''' then None
      else if \<exists>e \<in> set (mvals (Jobs m)). job_IdempotencyKey e = job_IdempotencyKey j
      then Some (ErrExists ''job idempotency key'' (job_IdempotencyKey j))
      else None)"

definition jobReplayLocked :: "memory \<Rightarrow> job \<Rightarrow> job option" where
  "jobReplayLocked m j =
     (if job_IdempotencyKey j = '''' then None
      else find (\<lambda>e. job_IdempotencyKey e = job_IdempotencyKey j) (mvals (Jobs m)))"

definition EnqueueJob :: "string \<Rightarrow> gotime \<Rightarrow> job \<Rightarrow> memory \<Rightarrow> job res \<times> memory" where
  "EnqueueJob fresh now j m =
     (case (if job_IdempotencyKey j \<noteq> ''''
            then find (\<lambda>e. job_IdempotencyKey e = job_IdempotencyKey j) (mvals (Jobs m))
            else None) of
        Some e \<Rightarrow> (Inr e, m)
      | None \<Rightarrow>
          (let j' = normalizeJob fresh now j
           in (Inr j', m\<lparr>Jobs := mput (job_ID j') j' (Jobs m)\<rparr>)))"

definition JobByIdempotencyKey :: "memory \<Rightarrow> string \<Rightarrow> job option" where
  "JobByIdempotencyKey m key =
     find (\<lambda>j. key \<noteq> '''' \<and> job_IdempotencyKey j = key) (mvals (Jobs m))"

definition RotatePasswordAndEnqueue ::
    "string \<Rightarrow> gotime \<Rightarrow> string \<Rightarrow> string \<Rightarrow> bool \<Rightarrow> job \<Rightarrow> memory \<Rightarrow> job res \<times> memory" where
  "RotatePasswordAndEnqueue fresh now uid passwordHash mustChange j m =
     (case mget (Users m) uid of
        None \<Rightarrow> (Inl (ErrNotFound ''user'' uid), m)
      | Some u \<Rightarrow>
          (let j' = normalizeJob fresh now j
           in if mget (Jobs m) (job_ID j') \<noteq> None
              then (Inl (ErrExists ''job'' (job_ID j')), m)
              else if job_IdempotencyKey j' \<noteq> '''' \<and>
                      (\<exists>e \<in> set (mvals (Jobs m)). job_IdempotencyKey e = job_IdempotencyKey j')
              then (Inl (ErrExists ''job idempotency key'' (job_IdempotencyKey j')), m)
              else (Inr j', m\<lparr> Users := mput uid (u\<lparr>usr_PasswordHash := passwordHash,
                                                  usr_MustChangePassword := mustChange\<rparr>) (Users m),
                               Jobs := mput (job_ID j') j' (Jobs m) \<rparr>)))"

section \<open>Claims, leases and updates\<close>

definition JobLeaseTTL :: int where
  "JobLeaseTTL = 120 * 1000000000"

definition fence_of :: "memory \<Rightarrow> string \<Rightarrow> int" where
  "fence_of m key = (case mget (resourceFences m) key of None \<Rightarrow> 0 | Some f \<Rightarrow> f)"

definition nextResourceFence :: "job \<Rightarrow> memory \<Rightarrow> int \<times> memory" where
  "nextResourceFence j m =
     (let key = resourceFenceKey (Some j);
          cur = (if job_Fence j > fence_of m key then job_Fence j else fence_of m key)
      in (cur + 1, m\<lparr>resourceFences := mput key (cur + 1) (resourceFences m)\<rparr>))"

definition claimable :: "gotime \<Rightarrow> job \<Rightarrow> bool" where
  "claimable now j \<longleftrightarrow>
     (job_State j = ''queued'' \<or> job_State j = ''retrying'') \<and> \<not> job_RunAfter j > now"

definition better :: "job \<Rightarrow> job \<Rightarrow> bool" where
  "better j best \<longleftrightarrow> job_Priority j < job_Priority best \<or>
     (job_Priority j = job_Priority best \<and> job_CreatedAt j < job_CreatedAt best)"

fun pick_best :: "gotime \<Rightarrow> job option \<Rightarrow> job list \<Rightarrow> job option" where
  "pick_best now best [] = best"
| "pick_best now best (j # js) =
     pick_best now
       (if claimable now j
        then (case best of None \<Rightarrow> Some j | Some b \<Rightarrow> if better j b then Some j else Some b)
        else best) js"

definition ClaimJob :: "gotime \<Rightarrow> string \<Rightarrow> memory \<Rightarrow> job option \<times> memory" where
  "ClaimJob now worker m =
     (case pick_best now None (mvals (Jobs m)) of
        None \<Rightarrow> (None, m)
      | Some best \<Rightarrow>
          (let (fence, m1) = nextResourceFence best m;
               j = best\<lparr> job_State := ''running'', job_LockedBy := worker,
                         job_StartedAt := Some now, job_HeartbeatAt := Some now,
                         job_LeaseExpires := Some (now + JobLeaseTTL),
                         job_Fence := fence,
                         job_OperationID := jobOperationID (job_ID best) fence,
                         job_CancelRequested := False,
                         job_Attempts := job_Attempts best + 1 \<rparr>
           in (Some j, m1\<lparr>Jobs := mput (job_ID best) j (Jobs m1)\<rparr>)))"

definition HeartbeatJob ::
    "gotime \<Rightarrow> string \<Rightarrow> string \<Rightarrow> int \<Rightarrow> memory \<Rightarrow> store_error option \<times> memory" where
  "HeartbeatJob now jobID owner fence m =
     (case mget (Jobs m) jobID of
        None \<Rightarrow> (Some ErrJobNotFound, m)
      | Some j \<Rightarrow>
          if job_State j \<noteq> ''running'' \<or> job_LockedBy j \<noteq> owner \<or> job_Fence j \<noteq> fence
          then (Some ErrStaleFence, m)
          else (None, m\<lparr>Jobs := mput jobID (j\<lparr>job_HeartbeatAt := Some now,
                                           job_LeaseExpires := Some (now + JobLeaseTTL)\<rparr>) (Jobs m)\<rparr>))"

definition lease_expired :: "gotime \<Rightarrow> job \<Rightarrow> bool" where
  "lease_expired now j \<longleftrightarrow>
     (case job_LeaseExpires j of Some l \<Rightarrow> \<not> l > now | None \<Rightarrow> False) \<or>
     (case job_HeartbeatAt j of Some h \<Rightarrow> now - h > JobLeaseTTL | None \<Rightarrow> False)"

definition expire_job :: "gotime \<Rightarrow> string \<Rightarrow> job \<Rightarrow> memory \<Rightarrow> memory" where
  "expire_job clock k j m =
     (let (fence, m1) = nextResourceFence j m
      in m1\<lparr>Jobs := mput k (j\<lparr> job_State := ''retrying'', job_LockedBy := '''',
                               job_LeaseExpires := None, job_HeartbeatAt := None,
                               job_Fence := fence, job_OperationID := '''',
                               job_CancelRequested := False, job_RunAfter := clock \<rparr>) (Jobs m1)\<rparr>)"

fun expire_loop :: "gotime \<Rightarrow> gotime \<Rightarrow> (string \<times> job) list \<Rightarrow> memory \<Rightarrow> memory" where
  "expire_loop now clock [] m = m"
| "expire_loop now clock ((k, j) # rest) m =
     (if job_State j \<noteq> ''running'' then expire_loop now clock rest m
      else if \<not> lease_expired now j then expire_loop now clock rest m
      else expire_loop now clock rest (expire_job clock k j m))"

definition ExpireStaleLeases :: "gotime \<Rightarrow> gotime \<Rightarrow> memory \<Rightarrow> memory" where
  "ExpireStaleLeases now clock m = expire_loop now clock (Jobs m) m"

definition RequestJobCancel :: "string \<Rightarrow> memory \<Rightarrow> store_error option \<times> memory" where
  "RequestJobCancel jobID m =
     (case mget (Jobs m) jobID of
        None \<Rightarrow> (Some ErrJobNotFound, m)
      | Some j \<Rightarrow>
          if job_State j \<noteq> ''running'' then (Some ErrJobStateConflict, m)
          else (None, m\<lparr>Jobs := mput jobID (j\<lparr>job_CancelRequested := True\<rparr>) (Jobs m)\<rparr>))"

definition UpdateJob :: "job \<Rightarrow> memory \<Rightarrow> store_error option \<times> memory" where
  "UpdateJob j m =
     (case acceptJobMutation (mget (Jobs m) (job_ID j)) (Some j) of
        Some e \<Rightarrow> (Some e, m)
      | None \<Rightarrow> (None, m\<lparr>Jobs := mput (job_ID j) (j\<lparr>job_Retryable := None\<rparr>) (Jobs m)\<rparr>))"

definition GetJob :: "memory \<Rightarrow> string \<Rightarrow> job option" where
  "GetJob m i = mget (Jobs m) i"

definition ListJobs :: "memory \<Rightarrow> string \<Rightarrow> int \<Rightarrow> job list" where
  "ListJobs m state limit =
     (let out = sort_key (\<lambda>j. - job_CreatedAt j)
                  (filter (\<lambda>j. \<not> (state \<noteq> '''' \<and> job_State j \<noteq> state)) (mvals (Jobs m)))
      in if limit > 0 \<and> int (length out) > limit then take (nat limit) out else out)"

definition CancelJob ::
    "gotime \<Rightarrow> string \<Rightarrow> string \<Rightarrow> string \<Rightarrow> memory \<Rightarrow> job res \<times> memory" where
  "CancelJob now jobID actorID requestID m =
     (case mget (Jobs m) jobID of
        None \<Rightarrow> (Inl ErrJobNotFound, m)
      | Some j \<Rightarrow>
          if job_State j \<noteq> ''queued'' \<and> job_State j \<noteq> ''failed'' then (Inl ErrJobStateConflict, m)
          else
            (let j' = j\<lparr> job_State := ''cancelled'', job_FinishedAt := Some now,
                        job_LockedBy := '''', job_HeartbeatAt := None, job_ActorID := actorID,
                        job_RequestID := requestID, job_Retryable := None \<rparr>
             in (Inr j', m\<lparr>Jobs := mput jobID j' (Jobs m)\<rparr>)))"

text \<open>\<^verbatim>\<open>RetryDelay\<close>, in nanoseconds.\<close>

definition RetryDelay :: "int \<Rightarrow> int" where
  "RetryDelay attempt =
     (if attempt = 1 then 0
      else if attempt = 2 then 10 * 1000000000
      else if attempt = 3 then 30 * 1000000000
      else if attempt = 4 then 120 * 1000000000
      else 600 * 1000000000)"

section \<open>What a claim returns\<close>

lemma better_trans: "better a b \<Longrightarrow> \<not> better c b \<Longrightarrow> \<not> better c a"
  by (auto simp: better_def)

lemma pick_best_Some:
  assumes "pick_best now best js = Some b"
    and "\<And>b0. best = Some b0 \<Longrightarrow> claimable now b0"
  shows "claimable now b \<and> (best = Some b \<or> b \<in> set js) \<and>
         (\<forall>j \<in> set js. claimable now j \<longrightarrow> \<not> better j b) \<and>
         (\<forall>b0. best = Some b0 \<longrightarrow> \<not> better b0 b)"
  using assms
proof (induction js arbitrary: best)
  case Nil
  then show ?case by (auto simp: better_def)
next
  case (Cons j js)
  define nb where "nb = (if claimable now j
    then (case best of None \<Rightarrow> Some j | Some b \<Rightarrow> if better j b then Some j else Some b) else best)"
  have nb_claim: "claimable now b0" if "nb = Some b0" for b0
    using that Cons.prems(2) by (auto simp: nb_def split: option.splits if_splits)
  have IH: "claimable now b \<and> (nb = Some b \<or> b \<in> set js) \<and>
      (\<forall>j \<in> set js. claimable now j \<longrightarrow> \<not> better j b) \<and> (\<forall>b0. nb = Some b0 \<longrightarrow> \<not> better b0 b)"
    using Cons.prems(1) by (intro Cons.IH nb_claim) (simp_all add: nb_def)
  have src: "nb = Some b \<Longrightarrow> best = Some b \<or> b = j"
    by (auto simp: nb_def split: option.splits if_splits)
  have j_le: "claimable now j \<Longrightarrow> \<exists>b0. nb = Some b0 \<and> \<not> better j b0"
    by (auto simp: nb_def better_def split: option.splits)
  have best_le: "best = Some b0 \<Longrightarrow> \<exists>b1. nb = Some b1 \<and> \<not> better b0 b1" for b0
    by (auto simp: nb_def better_def)
  have below: "\<not> better x b" if "nb = Some b1" "\<not> better x b1" for x b1
    using that IH by (auto simp: better_def)
  show ?case
    using IH src j_le best_le below by (metis list.set_intros(1,2) set_ConsD)
qed

lemma pick_best_None:
  "pick_best now best js = None \<longleftrightarrow> best = None \<and> (\<forall>j \<in> set js. \<not> claimable now j)"
  by (induction now best js rule: pick_best.induct) (auto split: option.splits)

section \<open>Granting a fence\<close>

definition same_resource :: "job \<Rightarrow> job \<Rightarrow> bool" where
  "same_resource j j' \<longleftrightarrow> job_ID j' = job_ID j \<and> job_ResourceType j' = job_ResourceType j \<and>
     job_ResourceID j' = job_ResourceID j \<and> job_IdempotencyKey j' = job_IdempotencyKey j"

lemma same_resource_key: "same_resource j j' \<Longrightarrow> resourceFenceKey (Some j') = resourceFenceKey (Some j)"
  by (simp add: same_resource_def resourceFenceKey_def)

text \<open>
  The queue invariant: jobs are filed under their identifiers; no job carries a fence beyond
  its resource's counter; two jobs of one resource never carry the same fence; no two jobs
  share an idempotency key.
\<close>

definition fences_bounded :: "memory \<Rightarrow> bool" where
  "fences_bounded m \<longleftrightarrow> (\<forall>k j. mget (Jobs m) k = Some j \<longrightarrow>
     0 \<le> job_Fence j \<and> job_Fence j \<le> fence_of m (resourceFenceKey (Some j)))"

definition fences_distinct :: "memory \<Rightarrow> bool" where
  "fences_distinct m \<longleftrightarrow> (\<forall>k j k' j'. mget (Jobs m) k = Some j \<longrightarrow> mget (Jobs m) k' = Some j' \<longrightarrow>
     k \<noteq> k' \<longrightarrow> resourceFenceKey (Some j) = resourceFenceKey (Some j') \<longrightarrow> job_Fence j \<noteq> 0 \<longrightarrow>
     job_Fence j \<noteq> job_Fence j')"

definition counters_nonneg :: "memory \<Rightarrow> bool" where
  "counters_nonneg m \<longleftrightarrow> (\<forall>key. 0 \<le> fence_of m key)"

definition keys_unique :: "memory \<Rightarrow> bool" where
  "keys_unique m \<longleftrightarrow> (\<forall>k j k' j'. mget (Jobs m) k = Some j \<longrightarrow> mget (Jobs m) k' = Some j' \<longrightarrow>
     job_IdempotencyKey j \<noteq> [] \<longrightarrow> job_IdempotencyKey j' = job_IdempotencyKey j \<longrightarrow> k' = k)"

definition jobs_inv :: "memory \<Rightarrow> bool" where
  "jobs_inv m \<longleftrightarrow> table job_ID (Jobs m) \<and> fences_bounded m \<and> fences_distinct m \<and>
     counters_nonneg m \<and> keys_unique m"

lemma keys_unique_put:
  assumes "keys_unique m" and "Jobs m' = mput k j (Jobs m)"
    and "\<And>k' j'. job_IdempotencyKey j \<noteq> [] \<Longrightarrow> k' \<noteq> k \<Longrightarrow> mget (Jobs m) k' = Some j' \<Longrightarrow>
           job_IdempotencyKey j' \<noteq> job_IdempotencyKey j"
  shows "keys_unique m'"
  unfolding keys_unique_def
proof (intro allI impI)
  fix k1 j1 k2 j2
  assume a: "mget (Jobs m') k1 = Some j1" "mget (Jobs m') k2 = Some j2"
    "job_IdempotencyKey j1 \<noteq> []" "job_IdempotencyKey j2 = job_IdempotencyKey j1"
  consider "k1 = k" | "k2 = k" | "k1 \<noteq> k" "k2 \<noteq> k" by blast
  then show "k2 = k1"
  proof cases
    case 1
    with a(1) assms(2) have "j1 = j" by simp
    moreover have "mget (Jobs m) k2 = Some j2" if "k2 \<noteq> k" using that a(2) assms(2) by simp
    ultimately show ?thesis using 1 a(3,4) assms(3) [of k2 j2] by metis
  next
    case 2
    with a(2) assms(2) have "j2 = j" by simp
    moreover have "mget (Jobs m) k1 = Some j1" if "k1 \<noteq> k" using that a(1) assms(2) by simp
    ultimately show ?thesis using 2 a(3,4) assms(3) [of k1 j1] by metis
  next
    case 3
    with a(1,2) assms(2) have "mget (Jobs m) k1 = Some j1" "mget (Jobs m) k2 = Some j2" by simp_all
    with a(3,4) assms(1) show ?thesis unfolding keys_unique_def by metis
  qed
qed

lemma keys_unique_keep:
  assumes "keys_unique m" and "mget (Jobs m) k = Some j" and "same_resource j j'"
    and "Jobs m' = mput k j' (Jobs m)"
  shows "keys_unique m'"
  using assms(1,4)
proof (rule keys_unique_put)
  show "job_IdempotencyKey i \<noteq> job_IdempotencyKey j'"
    if "job_IdempotencyKey j' \<noteq> []" "k' \<noteq> k" "mget (Jobs m) k' = Some i" for k' i
    using that assms(1-3) unfolding keys_unique_def same_resource_def by metis
qed

text \<open>A job filed at \<open>k\<close> is replaced by \<open>j'\<close>, which carries the next fence of the resource.\<close>

definition granted :: "string \<Rightarrow> job \<Rightarrow> job \<Rightarrow> memory \<Rightarrow> memory" where
  "granted k j j' m = (snd (nextResourceFence j m))\<lparr>Jobs := mput k j' (Jobs m)\<rparr>"

lemma fence_of_granted:
  "fence_of (granted k j j' m) key =
     (if key = resourceFenceKey (Some j) then fst (nextResourceFence j m) else fence_of m key)"
  by (simp add: granted_def fence_of_def nextResourceFence_def Let_def)

lemma Jobs_granted [simp]: "Jobs (granted k j j' m) = mput k j' (Jobs m)"
  by (simp add: granted_def)

lemma next_fence_gt:
  "fence_of m (resourceFenceKey (Some j)) < fst (nextResourceFence j m)"
  "job_Fence j < fst (nextResourceFence j m)"
  by (simp_all add: nextResourceFence_def Let_def)

lemma granted_inv:
  assumes inv: "jobs_inv m" and j: "mget (Jobs m) k = Some j"
    and res: "same_resource j j'" and f: "job_Fence j' = fst (nextResourceFence j m)"
  shows "jobs_inv (granted k j j' m)"
proof -
  note key = same_resource_key [OF res]
  from inv j have idk: "job_ID j = k" by (auto simp: jobs_inv_def table_def)
  have above: "job_Fence i < job_Fence j'"
    if "mget (Jobs m) k' = Some i" "resourceFenceKey (Some i) = resourceFenceKey (Some j)" for k' i
    using that inv next_fence_gt(1) [of m j] f
    by (fastforce simp: jobs_inv_def fences_bounded_def)
  have pos: "0 \<le> job_Fence j'"
    using inv next_fence_gt(1) [of m j] f
    by (auto simp: jobs_inv_def counters_nonneg_def intro: order_trans less_imp_le)
  have "table job_ID (Jobs (granted k j j' m))"
    using inv res idk by (auto simp: jobs_inv_def same_resource_def intro: table_put_id)
  moreover have "fences_bounded (granted k j j' m)"
    using inv pos f key next_fence_gt(1) [of m j]
    by (fastforce simp: fences_bounded_def fence_of_granted jobs_inv_def)
  moreover have "fences_distinct (granted k j j' m)"
    using inv above key
    by (fastforce simp: fences_distinct_def jobs_inv_def)
  moreover have "counters_nonneg (granted k j j' m)"
    using inv f pos by (auto simp: counters_nonneg_def fence_of_granted jobs_inv_def)
  moreover have "keys_unique (granted k j j' m)"
    using inv j res by (auto simp: jobs_inv_def intro: keys_unique_keep)
  ultimately show ?thesis by (simp add: jobs_inv_def)
qed

lemma expire_job_granted:
  "expire_job clock k j m = granted k j
     (j\<lparr> job_State := ''retrying'', job_LockedBy := '''',
         job_LeaseExpires := None, job_HeartbeatAt := None,
         job_Fence := fst (nextResourceFence j m), job_OperationID := '''',
         job_CancelRequested := False, job_RunAfter := clock \<rparr>) m"
  by (simp add: expire_job_def granted_def nextResourceFence_def Let_def)

lemma ClaimJob_granted:
  assumes "ClaimJob now w m = (Some j', m')"
  obtains j where "pick_best now None (mvals (Jobs m)) = Some j"
    and "m' = granted (job_ID j) j j' m" and "same_resource j j'"
    and "job_Fence j' = fst (nextResourceFence j m)"
    and "job_State j' = ''running''" and "job_LockedBy j' = w"
    and "job_OperationID j' = jobOperationID (job_ID j') (job_Fence j')"
    and "job_LeaseExpires j' = Some (now + JobLeaseTTL)" and "job_Attempts j' = job_Attempts j + 1"
  using assms
  by (auto simp: ClaimJob_def granted_def same_resource_def nextResourceFence_def Let_def
      split: option.splits prod.splits)

lemma pick_best_mvals:
  assumes "pick_best now None (mvals (Jobs m)) = Some b"
  shows "claimable now b" "b \<in> set (mvals (Jobs m))"
    "mget (Jobs m) k = Some i \<Longrightarrow> claimable now i \<Longrightarrow> \<not> better i b"
proof -
  have p: "claimable now b \<and> b \<in> set (mvals (Jobs m)) \<and>
      (\<forall>j \<in> set (mvals (Jobs m)). claimable now j \<longrightarrow> \<not> better j b)"
    using pick_best_Some [OF assms] by simp
  then show "claimable now b" "b \<in> set (mvals (Jobs m))" by simp_all
  show "mget (Jobs m) k = Some i \<Longrightarrow> claimable now i \<Longrightarrow> \<not> better i b"
    using p mget_mvals by metis
qed

lemma mvals_at_id: "jobs_inv m \<Longrightarrow> j \<in> set (mvals (Jobs m)) \<Longrightarrow> mget (Jobs m) (job_ID j) = Some j"
  by (metis jobs_inv_def table_mvals_iff)

lemma ClaimJob_inv:
  assumes "jobs_inv m" and "ClaimJob now w m = (r, m')"
  shows "jobs_inv m'"
proof (cases r)
  case None
  with assms show ?thesis by (auto simp: ClaimJob_def Let_def split: option.splits prod.splits)
next
  case (Some j')
  with assms(2) obtain j where pb: "pick_best now None (mvals (Jobs m)) = Some j"
    and g: "m' = granted (job_ID j) j j' m" "same_resource j j'"
      "job_Fence j' = fst (nextResourceFence j m)"
    by (auto elim: ClaimJob_granted)
  then have "mget (Jobs m) (job_ID j) = Some j" by (intro mvals_at_id [OF assms(1)] pick_best_mvals)
  with assms(1) g show ?thesis by (auto intro: granted_inv)
qed

lemma expire_job_inv:
  "jobs_inv m \<Longrightarrow> mget (Jobs m) k = Some j \<Longrightarrow> jobs_inv (expire_job clock k j m)"
  unfolding expire_job_granted by (rule granted_inv) (simp_all add: same_resource_def)

text \<open>What expiry makes of a job: back in the queue, unlocked, under a greater fence.\<close>

definition expired_to :: "gotime \<Rightarrow> job \<Rightarrow> job \<Rightarrow> bool" where
  "expired_to clock j j' \<longleftrightarrow> job_Fence j < job_Fence j' \<and>
     j' = j\<lparr> job_State := ''retrying'', job_LockedBy := '''', job_LeaseExpires := None,
             job_HeartbeatAt := None, job_Fence := job_Fence j', job_OperationID := '''',
             job_CancelRequested := False, job_RunAfter := clock \<rparr>"

lemma expire_job_sel:
  "\<exists>j'. mget (Jobs (expire_job clock k j m)) k = Some j' \<and> expired_to clock j j'"
  "k' \<noteq> k \<Longrightarrow> mget (Jobs (expire_job clock k j m)) k' = mget (Jobs m) k'"
  using next_fence_gt(2) [of j m] by (auto simp: expire_job_granted expired_to_def)

definition expiry_of :: "gotime \<Rightarrow> gotime \<Rightarrow> job \<Rightarrow> job option \<Rightarrow> bool" where
  "expiry_of now clock j r \<longleftrightarrow>
     (if job_State j = ''running'' \<and> lease_expired now j
      then \<exists>j'. r = Some j' \<and> expired_to clock j j' else r = Some j)"

lemma expire_loop_spec:
  assumes "jobs_inv m" and "distinct (map fst rest)"
    and "\<And>k j. (k, j) \<in> set rest \<Longrightarrow> mget (Jobs m) k = Some j"
  shows "jobs_inv (expire_loop now clock rest m) \<and>
    (\<forall>k. k \<notin> fst ` set rest \<longrightarrow> mget (Jobs (expire_loop now clock rest m)) k = mget (Jobs m) k) \<and>
    (\<forall>(k, j) \<in> set rest. expiry_of now clock j (mget (Jobs (expire_loop now clock rest m)) k))"
  using assms
proof (induction rest arbitrary: m)
  case Nil
  then show ?case by simp
next
  case (Cons kj rest)
  obtain k0 j0 where kj: "kj = (k0, j0)" by (cases kj)
  define m1 where "m1 = (if job_State j0 = ''running'' \<and> lease_expired now j0
                        then expire_job clock k0 j0 m else m)"
  have loop: "expire_loop now clock (kj # rest) m = expire_loop now clock rest m1"
    by (simp add: kj m1_def)
  have k0: "mget (Jobs m) k0 = Some j0" and fresh: "k0 \<notin> fst ` set rest"
    using Cons.prems kj by auto
  have inv1: "jobs_inv m1"
    using Cons.prems(1) k0 by (simp add: m1_def expire_job_inv)
  have other: "mget (Jobs m1) k = mget (Jobs m) k" if "k \<noteq> k0" for k
    using that by (simp add: m1_def expire_job_sel(2))
  have head: "expiry_of now clock j0 (mget (Jobs m1) k0)"
    using k0 expire_job_sel(1) [of clock k0 j0 m] by (simp add: m1_def expiry_of_def)
  have "jobs_inv (expire_loop now clock rest m1) \<and>
    (\<forall>k. k \<notin> fst ` set rest \<longrightarrow> mget (Jobs (expire_loop now clock rest m1)) k = mget (Jobs m1) k) \<and>
    (\<forall>(k, j) \<in> set rest. expiry_of now clock j (mget (Jobs (expire_loop now clock rest m1)) k))"
  proof (rule Cons.IH [OF inv1])
    show "distinct (map fst rest)" using Cons.prems(2) by simp
    show "mget (Jobs m1) k = Some j" if "(k, j) \<in> set rest" for k j
      using that fresh Cons.prems(3) [of k j] other [of k] by force
  qed
  with head fresh other show ?case unfolding loop by (auto simp: kj)
qed

lemma ExpireStaleLeases_spec:
  assumes "jobs_inv m"
  shows "jobs_inv (ExpireStaleLeases now clock m)"
    and "mget (Jobs m) k = Some j \<Longrightarrow>
           expiry_of now clock j (mget (Jobs (ExpireStaleLeases now clock m)) k)"
    and "mget (Jobs m) k = None \<Longrightarrow> mget (Jobs (ExpireStaleLeases now clock m)) k = None"
proof -
  have wf: "mwf (Jobs m)" using assms by (auto simp: jobs_inv_def dest: table_mwf)
  have spec: "jobs_inv (expire_loop now clock (Jobs m) m) \<and>
    (\<forall>k. k \<notin> fst ` set (Jobs m) \<longrightarrow>
       mget (Jobs (expire_loop now clock (Jobs m) m)) k = mget (Jobs m) k) \<and>
    (\<forall>(k, j) \<in> set (Jobs m). expiry_of now clock j (mget (Jobs (expire_loop now clock (Jobs m) m)) k))"
    using wf by (intro expire_loop_spec assms) (auto simp: mwf_def)
  then show "jobs_inv (ExpireStaleLeases now clock m)"
    by (simp add: ExpireStaleLeases_def)
  show "expiry_of now clock j (mget (Jobs (ExpireStaleLeases now clock m)) k)"
    if "mget (Jobs m) k = Some j"
    using spec that by (auto simp: ExpireStaleLeases_def dest!: map_of_SomeD)
  show "mget (Jobs (ExpireStaleLeases now clock m)) k = None" if "mget (Jobs m) k = None"
    using spec that by (auto simp: ExpireStaleLeases_def map_of_eq_None_iff)
qed

section \<open>Queue steps\<close>

text \<open>
  One step of the queue is one store operation that succeeded. New jobs come without a fence
  and under an unused identifier; a worker writes back a job it has claimed, with the
  identity and resource it was claimed with. \<open>commit\<close> and \<open>other\<close> are the operations of the
  other tables: they file one validated new job, or none, and leave the counters alone.
\<close>

inductive job_step :: "memory \<Rightarrow> memory \<Rightarrow> bool" where
  enqueue: "EnqueueJob fresh now j m = (Inr j', m') \<Longrightarrow> job_Fence j = 0 \<Longrightarrow>
     mget (Jobs m) (job_ID (normalizeJob fresh now j)) = None \<Longrightarrow> job_step m m'"
| claim: "ClaimJob now w m = (Some j, m') \<Longrightarrow> job_step m m'"
| heartbeat: "HeartbeatJob now i w f m = (None, m') \<Longrightarrow> job_step m m'"
| expire: "job_step m (ExpireStaleLeases now clock m)"
| request_cancel: "RequestJobCancel i m = (None, m') \<Longrightarrow> job_step m m'"
| cancel: "CancelJob now i a r m = (Inr j, m') \<Longrightarrow> job_step m m'"
| update: "UpdateJob j m = (None, m') \<Longrightarrow> mget (Jobs m) (job_ID j) = Some e \<Longrightarrow>
     job_Fence e \<noteq> 0 \<Longrightarrow> same_resource e j \<Longrightarrow> job_step m m'"
| commit: "validateNewJobLocked m j = None \<Longrightarrow> job_Fence j = 0 \<Longrightarrow>
     Jobs m' = mput (job_ID j) j (Jobs m) \<Longrightarrow> resourceFences m' = resourceFences m \<Longrightarrow> job_step m m'"
| other: "Jobs m' = Jobs m \<Longrightarrow> resourceFences m' = resourceFences m \<Longrightarrow> job_step m m'"

text \<open>The invariant and the fences only depend on the queue and the counters.\<close>

definition queue_part :: "memory \<Rightarrow> (string, job) gomap \<times> (string, int) gomap" where
  "queue_part m = (Jobs m, resourceFences m)"

lemma jobs_inv_queue_part: "queue_part m = queue_part m' \<Longrightarrow> jobs_inv m \<Longrightarrow> jobs_inv m'"
  by (simp add: queue_part_def jobs_inv_def fences_bounded_def fences_distinct_def
      counters_nonneg_def keys_unique_def fence_of_def)

text \<open>Rewriting one job in place, fence and resource kept.\<close>

lemma fence_of_Jobs [simp]: "fence_of (m\<lparr>Jobs := js\<rparr>) = fence_of m"
  by (rule ext) (simp add: fence_of_def)

lemma fences_distinct_put:
  assumes "fences_distinct m"
    and "\<And>k' j'. mget (Jobs m) k' = Some j' \<Longrightarrow> k' \<noteq> k \<Longrightarrow>
           resourceFenceKey (Some j') = resourceFenceKey (Some j) \<Longrightarrow> job_Fence j \<noteq> 0 \<Longrightarrow>
           job_Fence j' \<noteq> job_Fence j"
  shows "fences_distinct (m\<lparr>Jobs := mput k j (Jobs m)\<rparr>)"
  unfolding fences_distinct_def
proof (intro allI impI)
  fix k1 j1 k2 j2
  assume a: "mget (Jobs (m\<lparr>Jobs := mput k j (Jobs m)\<rparr>)) k1 = Some j1"
    "mget (Jobs (m\<lparr>Jobs := mput k j (Jobs m)\<rparr>)) k2 = Some j2" "k1 \<noteq> k2"
    "resourceFenceKey (Some j1) = resourceFenceKey (Some j2)" "job_Fence j1 \<noteq> 0"
  consider "k1 = k" | "k2 = k" | "k1 \<noteq> k" "k2 \<noteq> k" by blast
  then show "job_Fence j1 \<noteq> job_Fence j2"
  proof cases
    case 1
    with a assms(2) [of k2 j2] show ?thesis by auto
  next
    case 2
    with a assms(2) [of k1 j1] show ?thesis by auto
  next
    case 3
    with a assms(1) show ?thesis by (simp add: fences_distinct_def)
  qed
qed

lemma rewrite_job_inv:
  assumes inv: "jobs_inv m" and j: "mget (Jobs m) k = Some j"
    and res: "same_resource j j'" and f: "job_Fence j' = job_Fence j"
  shows "jobs_inv (m\<lparr>Jobs := mput k j' (Jobs m)\<rparr>)"
proof -
  note key = same_resource_key [OF res]
  from inv j have idk: "job_ID j = k" by (auto simp: jobs_inv_def table_def)
  have "table job_ID (mput k j' (Jobs m))"
    using inv res idk by (auto simp: jobs_inv_def same_resource_def intro: table_put_id)
  moreover have "fences_bounded (m\<lparr>Jobs := mput k j' (Jobs m)\<rparr>)"
    using inv j by (auto simp: fences_bounded_def jobs_inv_def f key)
  moreover have "fences_distinct (m\<lparr>Jobs := mput k j' (Jobs m)\<rparr>)"
  proof (rule fences_distinct_put)
    show "fences_distinct m" using inv by (simp add: jobs_inv_def)
    then show "job_Fence i \<noteq> job_Fence j'"
      if "mget (Jobs m) k' = Some i" "k' \<noteq> k"
        "resourceFenceKey (Some i) = resourceFenceKey (Some j')" "job_Fence j' \<noteq> 0" for k' i
      using that j f key unfolding fences_distinct_def by metis
  qed
  moreover have "keys_unique (m\<lparr>Jobs := mput k j' (Jobs m)\<rparr>)"
    using inv j res by (auto simp: jobs_inv_def intro: keys_unique_keep)
  ultimately show ?thesis
    using inv by (simp add: jobs_inv_def counters_nonneg_def)
qed

lemma new_job_inv:
  assumes inv: "jobs_inv m" and new: "mget (Jobs m) (job_ID j) = None" and f: "job_Fence j = 0"
    and key: "job_IdempotencyKey j = [] \<or> (\<forall>e \<in> set (mvals (Jobs m)). job_IdempotencyKey e \<noteq> job_IdempotencyKey j)"
  shows "jobs_inv (m\<lparr>Jobs := mput (job_ID j) j (Jobs m)\<rparr>)"
proof -
  have "table job_ID (mput (job_ID j) j (Jobs m))"
    using inv by (simp add: jobs_inv_def)
  moreover have "fences_bounded (m\<lparr>Jobs := mput (job_ID j) j (Jobs m)\<rparr>)"
    using inv by (auto simp: fences_bounded_def jobs_inv_def counters_nonneg_def f)
  moreover have "fences_distinct (m\<lparr>Jobs := mput (job_ID j) j (Jobs m)\<rparr>)"
    using inv f by (intro fences_distinct_put) (auto simp: jobs_inv_def)
  moreover have "keys_unique (m\<lparr>Jobs := mput (job_ID j) j (Jobs m)\<rparr>)"
  proof (rule keys_unique_put [where m = m and k = "job_ID j" and j = j])
    show "keys_unique m" using inv by (simp add: jobs_inv_def)
    show "job_IdempotencyKey i \<noteq> job_IdempotencyKey j"
      if "job_IdempotencyKey j \<noteq> []" "mget (Jobs m) k' = Some i" for k' i
      using that key mget_mvals by metis
  qed simp
  ultimately show ?thesis
    using inv by (simp add: jobs_inv_def counters_nonneg_def)
qed

lemma normalizeJob_keeps [simp]:
  "job_Fence (normalizeJob fresh now j) = job_Fence j"
  "job_IdempotencyKey (normalizeJob fresh now j) = job_IdempotencyKey j"
  "job_ResourceType (normalizeJob fresh now j) = job_ResourceType j"
  "job_ResourceID (normalizeJob fresh now j) = job_ResourceID j"
  by (simp_all add: normalizeJob_def Let_def split: option.split)

lemma validated_new:
  "validateNewJobLocked m j = None \<Longrightarrow> mget (Jobs m) (job_ID j) = None"
  "validateNewJobLocked m j = None \<Longrightarrow> job_IdempotencyKey j = [] \<or>
     (\<forall>e \<in> set (mvals (Jobs m)). job_IdempotencyKey e \<noteq> job_IdempotencyKey j)"
  by (auto simp: validateNewJobLocked_def split: if_splits)

lemma job_step_inv: "job_step m m' \<Longrightarrow> jobs_inv m \<Longrightarrow> jobs_inv m'"
proof (induction rule: job_step.induct)
  case (enqueue fresh now j m j' m')
  then show ?case
    by (auto simp: EnqueueJob_def Let_def intro!: new_job_inv split: option.splits if_splits
        simp: find_None_iff)
next
  case (claim now w m j m')
  then show ?case by (rule ClaimJob_inv [rotated])
next
  case (heartbeat now i w f m m')
  then show ?case
    by (auto simp: HeartbeatJob_def same_resource_def intro!: rewrite_job_inv split: option.splits if_splits)
next
  case (expire m now clock)
  then show ?case by (rule ExpireStaleLeases_spec(1))
next
  case (request_cancel i m m')
  then show ?case
    by (auto simp: RequestJobCancel_def same_resource_def intro!: rewrite_job_inv split: option.splits if_splits)
next
  case (cancel now i a r m j m')
  then show ?case
    by (auto simp: CancelJob_def Let_def same_resource_def intro!: rewrite_job_inv split: option.splits if_splits)
next
  case (update j m m' e)
  then have "job_Fence j = job_Fence e"
    by (auto simp: UpdateJob_def acceptJobMutation_def split: option.splits if_splits)
  moreover have "same_resource e (j\<lparr>job_Retryable := None\<rparr>)"
    using update.hyps by (simp add: same_resource_def)
  ultimately show ?case
    using update by (auto simp: UpdateJob_def intro!: rewrite_job_inv split: option.splits)
next
  case (commit m j m')
  have "jobs_inv (m\<lparr>Jobs := mput (job_ID j) j (Jobs m)\<rparr>)"
    by (rule new_job_inv [OF commit.prems validated_new(1) commit.hyps(2) validated_new(2)])
      (rule commit.hyps(1))+
  then show ?case by (rule jobs_inv_queue_part [rotated]) (simp add: queue_part_def commit.hyps)
next
  case (other m' m)
  then show ?case by (auto simp: queue_part_def intro: jobs_inv_queue_part)
qed

text \<open>No step removes a job, changes its identity or lowers its fence or a counter.\<close>

definition fence_le :: "memory \<Rightarrow> memory \<Rightarrow> bool" where
  "fence_le m m' \<longleftrightarrow> (\<forall>i j. mget (Jobs m) i = Some j \<longrightarrow>
     (\<exists>j'. mget (Jobs m') i = Some j' \<and> same_resource j j' \<and> job_Fence j \<le> job_Fence j')) \<and>
     (\<forall>key. fence_of m key \<le> fence_of m' key)"

lemma same_resource_refl [simp]: "same_resource j j"
  by (simp add: same_resource_def)

lemma same_resource_trans: "same_resource a b \<Longrightarrow> same_resource b c \<Longrightarrow> same_resource a c"
  by (simp add: same_resource_def)

lemma fence_le_refl [simp]: "fence_le m m"
  by (auto simp: fence_le_def)

lemma fence_le_trans: "fence_le a b \<Longrightarrow> fence_le b c \<Longrightarrow> fence_le a c"
  unfolding fence_le_def by (meson order_trans same_resource_trans)

lemma fence_le_put:
  assumes "\<And>j. mget (Jobs m) k = Some j \<Longrightarrow> same_resource j j' \<and> job_Fence j \<le> job_Fence j'"
    and "Jobs m' = mput k j' (Jobs m)" and "resourceFences m' = resourceFences m"
  shows "fence_le m m'"
  using assms by (auto simp: fence_le_def fence_of_def)

lemma fence_le_granted:
  assumes "mget (Jobs m) k = Some j" "same_resource j j'" "job_Fence j' = fst (nextResourceFence j m)"
  shows "fence_le m (granted k j j' m)"
  using assms next_fence_gt(1) [of m j] next_fence_gt(2) [of j m]
  by (auto simp: fence_le_def fence_of_granted)

lemma fence_le_expire_loop:
  assumes "distinct (map fst rest)" and "\<And>k j. (k, j) \<in> set rest \<Longrightarrow> mget (Jobs m) k = Some j"
  shows "fence_le m (expire_loop now clock rest m)"
  using assms
proof (induction now clock rest m rule: expire_loop.induct)
  case (2 now clock k j rest m)
  have other: "mget (Jobs (expire_job clock k j m)) k' = Some j'" if "(k', j') \<in> set rest" for k' j'
  proof -
    from that "2.prems"(1) have "k' \<noteq> k" by force
    with that "2.prems"(2) [of k' j'] show ?thesis by (simp add: expire_job_sel(2))
  qed
  have "fence_le m (expire_job clock k j m)"
    using "2.prems"(2) unfolding expire_job_granted
    by (intro fence_le_granted) (simp_all add: same_resource_def)
  with 2 other show ?case
    by (cases "job_State j = ''running'' \<and> lease_expired now j") (auto intro: fence_le_trans)
qed simp

lemma job_step_fence_le: "job_step m m' \<Longrightarrow> jobs_inv m \<Longrightarrow> fence_le m m'"
proof (induction rule: job_step.induct)
  case (claim now w m j' m')
  from claim.hyps obtain j where pb: "pick_best now None (mvals (Jobs m)) = Some j"
    and g: "m' = granted (job_ID j) j j' m" "same_resource j j'"
      "job_Fence j' = fst (nextResourceFence j m)"
    by (auto elim: ClaimJob_granted)
  then have "mget (Jobs m) (job_ID j) = Some j" by (intro mvals_at_id [OF claim.prems] pick_best_mvals)
  with g show ?case by (auto intro: fence_le_granted)
next
  case (expire m now clock)
  have wf: "mwf (Jobs m)" using expire by (auto simp: jobs_inv_def dest: table_mwf)
  then show ?case
    unfolding ExpireStaleLeases_def by (intro fence_le_expire_loop) (auto simp: mwf_def)
next
  case (update j m m' e)
  then show ?case
    by (auto simp: UpdateJob_def acceptJobMutation_def same_resource_def intro!: fence_le_put
        split: option.splits if_splits)
next
  case (commit m j m')
  then show ?case by (intro fence_le_put [of _ "job_ID j" j]) (auto dest: validated_new)
next
  case (other m' m)
  then show ?case by (auto simp: fence_le_def fence_of_def)
qed (auto simp: EnqueueJob_def HeartbeatJob_def RequestJobCancel_def CancelJob_def Let_def
       same_resource_def intro!: fence_le_put split: option.splits if_splits)

lemma NewMemory_jobs_inv [simp]: "jobs_inv NewMemory"
  by (simp add: jobs_inv_def fences_bounded_def fences_distinct_def counters_nonneg_def
      keys_unique_def NewMemory_def fence_of_def)

section \<open>Fenced workers\<close>

text \<open>
  The contract a worker relies on. A store files items under identifiers, each with a fence;
  steps of the store keep its invariant and never lower a fence; a mutation is accepted only
  under the fence the item carries. A worker whose fence has been passed is then locked out
  for good.
\<close>

locale fenced_store =
  fixes step :: "'s \<Rightarrow> 's \<Rightarrow> bool"
    and inv :: "'s \<Rightarrow> bool"
    and fence_at :: "'s \<Rightarrow> 'i \<Rightarrow> int option"
    and accepts :: "'s \<Rightarrow> 'i \<Rightarrow> int \<Rightarrow> bool"
  assumes step_inv: "step s s' \<Longrightarrow> inv s \<Longrightarrow> inv s'"
    and step_fence: "step s s' \<Longrightarrow> inv s \<Longrightarrow> fence_at s i = Some f \<Longrightarrow>
          \<exists>f' \<ge> f. fence_at s' i = Some f'"
    and accepts_current: "accepts s i f \<Longrightarrow> fence_at s i = Some g \<Longrightarrow> 0 < g \<Longrightarrow> f = g"
begin

lemma steps_inv: "step\<^sup>*\<^sup>* s s' \<Longrightarrow> inv s \<Longrightarrow> inv s'"
  by (induction rule: rtranclp_induct) (auto intro: step_inv)

lemma steps_fence:
  "step\<^sup>*\<^sup>* s s' \<Longrightarrow> inv s \<Longrightarrow> fence_at s i = Some f \<Longrightarrow> \<exists>f' \<ge> f. fence_at s' i = Some f'"
proof (induction rule: rtranclp_induct)
  case (step s' s'')
  then obtain f' where "f' \<ge> f" "fence_at s' i = Some f'" by auto
  with step show ?case using step_fence steps_inv by (meson order_trans)
qed auto

lemma passed_fence_rejected:
  assumes "step\<^sup>*\<^sup>* s s'" "inv s" "fence_at s i = Some g" "f < g" "0 < g"
  shows "\<not> accepts s' i f"
  using steps_fence [OF assms(1-3)] assms(4,5) accepts_current by fastforce

end

lemma fence_leE:
  assumes "fence_le m m'" and "mget (Jobs m) i = Some j"
  obtains j' where "mget (Jobs m') i = Some j'" "same_resource j j'" "job_Fence j \<le> job_Fence j'"
  using assms unfolding fence_le_def by metis

lemma fence_bounded:
  "jobs_inv m \<Longrightarrow> mget (Jobs m) k = Some j \<Longrightarrow> job_Fence j \<le> fence_of m (resourceFenceKey (Some j))"
  unfolding jobs_inv_def fences_bounded_def by metis

definition job_fence_at :: "memory \<Rightarrow> string \<Rightarrow> int option" where
  "job_fence_at m i = map_option job_Fence (mget (Jobs m) i)"

definition job_accepts :: "memory \<Rightarrow> string \<Rightarrow> int \<Rightarrow> bool" where
  "job_accepts m i f \<longleftrightarrow>
     (\<exists>j. job_ID j = i \<and> job_Fence j = f \<and> fst (UpdateJob j m) = None) \<or>
     (\<exists>now w. fst (HeartbeatJob now i w f m) = None)"

interpretation job_queue: fenced_store job_step jobs_inv job_fence_at job_accepts
proof unfold_locales
  show "job_step s s' \<Longrightarrow> jobs_inv s \<Longrightarrow> jobs_inv s'" for s s' by (rule job_step_inv)
  show "\<exists>f' \<ge> f. job_fence_at s' i = Some f'"
    if "job_step s s'" "jobs_inv s" "job_fence_at s i = Some f" for s s' i f
    using job_step_fence_le [OF that(1,2)] that(3)
    by (auto simp: job_fence_at_def elim!: fence_leE)
  show "f = g" if "job_accepts s i f" "job_fence_at s i = Some g" "0 < g" for s i f g
    using that
    by (auto simp: job_accepts_def job_fence_at_def UpdateJob_def HeartbeatJob_def
        acceptJobMutation_def split: option.splits if_splits)
qed

lemma job_steps_fence_le: "job_step\<^sup>*\<^sup>* m m' \<Longrightarrow> jobs_inv m \<Longrightarrow> fence_le m m'"
  by (induction rule: rtranclp_induct)
    (auto intro: fence_le_trans job_step_fence_le job_queue.steps_inv)

lemma rejected_unchanged:
  "\<not> job_accepts m i f \<Longrightarrow> mget (Jobs m) i = Some e \<Longrightarrow>
     HeartbeatJob now i w f m = (Some ErrStaleFence, m) \<and>
     (\<forall>j. job_ID j = i \<longrightarrow> job_Fence j = f \<longrightarrow> UpdateJob j m = (Some ErrStaleFence, m))"
  unfolding job_accepts_def
  by (auto simp: HeartbeatJob_def UpdateJob_def acceptJobMutation_def split: option.splits if_splits)

lemma ClaimJob_post:
  assumes inv: "jobs_inv m" and c: "ClaimJob now w m = (Some j', m')"
  obtains j where "mget (Jobs m) (job_ID j) = Some j" "claimable now j" "same_resource j j'"
    "\<And>k i. mget (Jobs m) k = Some i \<Longrightarrow> claimable now i \<Longrightarrow> \<not> better i j"
    "m' = granted (job_ID j) j j' m" "job_Fence j' = fst (nextResourceFence j m)"
    "job_Attempts j' = job_Attempts j + 1"
proof -
  from c obtain j where "pick_best now None (mvals (Jobs m)) = Some j"
    "m' = granted (job_ID j) j j' m" "same_resource j j'" "job_Attempts j' = job_Attempts j + 1"
    "job_Fence j' = fst (nextResourceFence j m)"
    by (rule ClaimJob_granted)
  with that mvals_at_id [OF inv] pick_best_mvals show thesis by metis
qed

text \<open>The counter of a resource is at the fence just granted.\<close>

lemma claimed_counter:
  assumes inv: "jobs_inv m" and c: "ClaimJob now w m = (Some j', m')"
  shows "fence_of m' (resourceFenceKey (Some j')) = job_Fence j'"
    and "fence_of m (resourceFenceKey (Some j')) < job_Fence j'"
    and "0 < job_Fence j'" and "mget (Jobs m') (job_ID j') = Some j'"
proof -
  from ClaimJob_post [OF inv c] obtain j where j: "mget (Jobs m) (job_ID j) = Some j"
    "same_resource j j'" "m' = granted (job_ID j) j j' m" "job_Fence j' = fst (nextResourceFence j m)"
    by metis
  note key = same_resource_key [OF j(2)]
  from j key show "fence_of m' (resourceFenceKey (Some j')) = job_Fence j'"
    by (simp add: fence_of_granted)
  from j key next_fence_gt(1) [of m j] show gt: "fence_of m (resourceFenceKey (Some j')) < job_Fence j'"
    by simp
  have "0 \<le> fence_of m (resourceFenceKey (Some j'))"
    using inv by (simp add: jobs_inv_def counters_nonneg_def)
  with gt show "0 < job_Fence j'" by linarith
  from j show "mget (Jobs m') (job_ID j') = Some j'" by (simp add: same_resource_def)
qed

lemma claim_fence_lt:
  assumes "jobs_inv m0" and "ClaimJob t1 w1 m0 = (Some j1, m1)" and "job_step\<^sup>*\<^sup>* m1 m2"
    and "ClaimJob t2 w2 m2 = (Some j2, m3)"
    and "resourceFenceKey (Some j2) = resourceFenceKey (Some j1)"
  shows "job_Fence j1 < job_Fence j2"
proof -
  have inv1: "jobs_inv m1" using assms(1,2) by (rule ClaimJob_inv)
  then have inv2: "jobs_inv m2" using assms(3) by (rule job_queue.steps_inv [rotated])
  have "job_Fence j1 = fence_of m1 (resourceFenceKey (Some j1))"
    using claimed_counter(1) [OF assms(1,2)] by simp
  also have "\<dots> \<le> fence_of m2 (resourceFenceKey (Some j1))"
    using job_steps_fence_le [OF assms(3) inv1] by (simp add: fence_le_def)
  also have "\<dots> < job_Fence j2"
    using claimed_counter(2) [OF inv2 assms(4)] assms(5) by simp
  finally show ?thesis .
qed

section \<open>Properties\<close>

text \<open>
  C2. Fences handed out for one resource strictly increase: if a job is claimed, the queue
  then runs any number of steps, and a job of the same resource (the same or another one) is
  claimed again, the second claim's fence is greater than the first's.
\<close>

theorem claims_strictly_ordered:
  assumes "jobs_inv m0" and "ClaimJob t1 w1 m0 = (Some j1, m1)" and "job_step\<^sup>*\<^sup>* m1 m2"
    and "ClaimJob t2 w2 m2 = (Some j2, m3)"
    and "resourceFenceKey (Some j2) = resourceFenceKey (Some j1)"
  shows "job_Fence j1 < job_Fence j2"
  using assms by (rule claim_fence_lt)

text \<open>
  C3. A worker that lost its lease is locked out for good. A worker claims a job; the queue
  runs on; the job's lease is expired by the reaper while it is still running; after any
  further steps a heartbeat or an update under the worker's fence fails with
  \<^verbatim>\<open>ErrStaleFence\<close> and leaves the store as it is.
\<close>

theorem expired_worker_locked_out:
  assumes inv: "jobs_inv m0" and c: "ClaimJob t w m0 = (Some j, m1)" and s1: "job_step\<^sup>*\<^sup>* m1 m2"
    and e: "mget (Jobs m2) (job_ID j) = Some e" "job_State e = ''running''" "lease_expired now e"
    and s2: "job_step\<^sup>*\<^sup>* (ExpireStaleLeases now clock m2) m3"
  shows "HeartbeatJob t' (job_ID j) w (job_Fence j) m3 = (Some ErrStaleFence, m3) \<and>
    (\<forall>u. job_ID u = job_ID j \<longrightarrow> job_Fence u = job_Fence j \<longrightarrow>
       UpdateJob u m3 = (Some ErrStaleFence, m3))"
proof -
  have inv1: "jobs_inv m1" using inv c by (rule ClaimJob_inv)
  then have inv2: "jobs_inv m2" using s1 by (rule job_queue.steps_inv [rotated])
  have le: "job_Fence j \<le> job_Fence e"
    using job_steps_fence_le [OF s1 inv1] claimed_counter(4) [OF inv c] e(1)
    by (fastforce simp: fence_le_def)
  from ExpireStaleLeases_spec(2) [OF inv2 e(1), of now clock] e(2,3)
  obtain e' where e': "mget (Jobs (ExpireStaleLeases now clock m2)) (job_ID j) = Some e'"
    "job_Fence e < job_Fence e'" by (auto simp: expiry_of_def expired_to_def)
  let ?m = "ExpireStaleLeases now clock m2"
  have invE: "jobs_inv ?m" using inv2 by (rule ExpireStaleLeases_spec(1))
  have "\<not> job_accepts m3 (job_ID j) (job_Fence j)"
    using e' le claimed_counter(3) [OF inv c]
    by (intro job_queue.passed_fence_rejected [OF s2 invE, where g = "job_Fence e'"])
      (auto simp: job_fence_at_def)
  moreover obtain e3 where "mget (Jobs m3) (job_ID j) = Some e3"
    using job_steps_fence_le [OF s2 invE] e'(1) by (rule fence_leE)
  ultimately show ?thesis by (intro rejected_unchanged)
qed

text \<open>
  \<^verbatim>\<open>ClaimJob\<close> returns nothing, and changes nothing, exactly when no job is runnable;
  otherwise it returns a runnable job such that no runnable job has a smaller priority number
  or an earlier creation among equals, marked running and leased to the worker under a fence
  above every fence of the resource, and no other job changes.
\<close>

theorem ClaimJob_most_urgent:
  assumes "jobs_inv m"
  shows "case ClaimJob now w m of
      (None, m') \<Rightarrow> m' = m \<and> (\<forall>k j. mget (Jobs m) k = Some j \<longrightarrow> \<not> claimable now j)
    | (Some j', m') \<Rightarrow> \<exists>j. mget (Jobs m) (job_ID j') = Some j \<and> claimable now j \<and>
        (\<forall>k i. mget (Jobs m) k = Some i \<longrightarrow> claimable now i \<longrightarrow>
           job_Priority j < job_Priority i \<or>
           job_Priority j = job_Priority i \<and> job_CreatedAt j \<le> job_CreatedAt i) \<and>
        (\<forall>k i. mget (Jobs m) k = Some i \<longrightarrow>
           resourceFenceKey (Some i) = resourceFenceKey (Some j) \<longrightarrow> job_Fence i < job_Fence j') \<and>
        job_State j' = ''running'' \<and> job_LockedBy j' = w \<and>
        job_LeaseExpires j' = Some (now + JobLeaseTTL) \<and> job_Attempts j' = job_Attempts j + 1 \<and>
        job_OperationID j' = jobOperationID (job_ID j') (job_Fence j') \<and>
        (\<forall>k. mget (Jobs m') k = (if k = job_ID j' then Some j' else mget (Jobs m) k))"
proof (cases "ClaimJob now w m")
  case (Pair r m')
  show ?thesis
  proof (cases r)
    case None
    with Pair assms show ?thesis
      by (auto simp: ClaimJob_def pick_best_None Let_def dest!: mget_mvals
          split: option.splits prod.splits)
  next
    case (Some j')
    with Pair have c: "ClaimJob now w m = (Some j', m')" by simp
    from ClaimJob_post [OF assms c] obtain j where j: "mget (Jobs m) (job_ID j) = Some j"
      "claimable now j" "same_resource j j'"
      "\<And>k i. mget (Jobs m) k = Some i \<Longrightarrow> claimable now i \<Longrightarrow> \<not> better i j"
      "m' = granted (job_ID j) j j' m" "job_Attempts j' = job_Attempts j + 1" by metis
    have "job_Fence i < job_Fence j'"
      if "mget (Jobs m) k = Some i" "resourceFenceKey (Some i) = resourceFenceKey (Some j)" for k i
    proof -
      have "job_Fence i \<le> fence_of m (resourceFenceKey (Some j'))"
        using fence_bounded [OF assms that(1)] that(2) same_resource_key [OF j(3)] by simp
      with claimed_counter(2) [OF assms c] show ?thesis by simp
    qed
    moreover have "job_State j' = ''running''" "job_LockedBy j' = w"
      "job_LeaseExpires j' = Some (now + JobLeaseTTL)"
      "job_OperationID j' = jobOperationID (job_ID j') (job_Fence j')"
      using c by (auto elim: ClaimJob_granted)
    moreover have "job_Priority j < job_Priority i \<or>
        job_Priority j = job_Priority i \<and> job_CreatedAt j \<le> job_CreatedAt i"
      if "mget (Jobs m) k = Some i" "claimable now i" for k i
      using j(4) [OF that] by (auto simp: better_def)
    ultimately show ?thesis using j c by (auto simp: same_resource_def)
  qed
qed

text \<open>
  The reaper takes back exactly the running jobs whose lease or heartbeat has run out:
  such a job returns to the queue unlocked and under a greater fence, every other job stays
  as it is, and no job appears.
\<close>

theorem ExpireStaleLeases_exact:
  assumes "jobs_inv m"
  shows "case mget (Jobs m) k of
      None \<Rightarrow> mget (Jobs (ExpireStaleLeases now clock m)) k = None
    | Some j \<Rightarrow>
       if job_State j = ''running'' \<and> lease_expired now j
       then \<exists>f > job_Fence j. mget (Jobs (ExpireStaleLeases now clock m)) k =
              Some (j\<lparr> job_State := ''retrying'', job_LockedBy := '''', job_LeaseExpires := None,
                      job_HeartbeatAt := None, job_Fence := f, job_OperationID := '''',
                      job_CancelRequested := False, job_RunAfter := clock \<rparr>)
       else mget (Jobs (ExpireStaleLeases now clock m)) k = Some j"
proof (cases "mget (Jobs m) k")
  case None
  with ExpireStaleLeases_spec(3) [OF assms this] show ?thesis by simp
next
  case (Some j)
  from ExpireStaleLeases_spec(2) [OF assms this, of now clock] Some show ?thesis
    unfolding expiry_of_def expired_to_def by (auto split: if_splits)
qed

text \<open>
  Enqueueing is idempotent over any history: once a job is filed under a non-empty
  idempotency key, a later enqueue with that key returns the job filed first (whatever state
  it has reached by then) and adds nothing.
\<close>

theorem EnqueueJob_idempotent:
  assumes inv: "jobs_inv m" and e: "EnqueueJob i t j m = (Inr j1, m1)"
    and new: "job_Fence j = 0" "mget (Jobs m) (job_ID (normalizeJob i t j)) = None"
    and key: "job_IdempotencyKey j \<noteq> []" and steps: "job_step\<^sup>*\<^sup>* m1 m2"
    and same: "job_IdempotencyKey j' = job_IdempotencyKey j"
  shows "\<exists>j2. EnqueueJob i' t' j' m2 = (Inr j2, m2) \<and> job_ID j2 = job_ID j1 \<and>
           mget (Jobs m2) (job_ID j1) = Some j2"
proof -
  have inv1: "jobs_inv m1"
    using e new inv by (rule job_step_inv [OF job_step.enqueue])
  have inv2: "jobs_inv m2" using steps inv1 by (rule job_queue.steps_inv)
  have tab: "table job_ID (Jobs m)" "table job_ID (Jobs m2)"
    using inv inv2 by (simp_all add: jobs_inv_def)
  have j1: "mget (Jobs m1) (job_ID j1) = Some j1" "job_IdempotencyKey j1 = job_IdempotencyKey j"
    using e key tab by (auto simp: EnqueueJob_def Let_def dest!: find_mvals_SomeD split: option.splits)
  from job_steps_fence_le [OF steps inv1] j1(1) obtain e2
    where e2: "mget (Jobs m2) (job_ID j1) = Some e2" "same_resource j1 e2" by (rule fence_leE)
  have k2: "job_IdempotencyKey e2 = job_IdempotencyKey j'"
    using e2(2) j1(2) same by (simp add: same_resource_def)
  obtain j2 where f: "find (\<lambda>e. job_IdempotencyKey e = job_IdempotencyKey j') (mvals (Jobs m2)) = Some j2"
    using find_mvals_None [OF tab(2)] e2(1) k2 by (metis (mono_tags, lifting) not_None_eq)
  from find_mvals_SomeD [OF tab(2) f]
  have j2: "mget (Jobs m2) (job_ID j2) = Some j2" "job_IdempotencyKey j2 = job_IdempotencyKey j'"
    by simp_all
  have "job_ID j2 = job_ID j1"
    using inv2 e2(1) j2 k2 key same unfolding jobs_inv_def keys_unique_def by metis
  with f j2(1) key same show ?thesis by (auto simp: EnqueueJob_def)
qed

section \<open>Witnesses\<close>

text \<open>Two jobs of one website; the first run of the queue on them.\<close>

definition ex_job :: "string \<Rightarrow> int \<Rightarrow> job" where
  "ex_job i prio = job0\<lparr> job_ID := i, job_Type := ''website.create'', job_ResourceType := ''website'',
     job_ResourceID := ''w1'', job_Priority := prio, job_IdempotencyKey := i @ ''-key'' \<rparr>"

definition ex_queue :: memory where
  "ex_queue = snd (EnqueueJob ''x'' 1 (ex_job ''j2'' 5) (snd (EnqueueJob ''x'' 1 (ex_job ''j1'' 9) NewMemory)))"

lemma ex_queue_inv: "jobs_inv ex_queue"
proof -
  have "job_step NewMemory (snd (EnqueueJob ''x'' 1 (ex_job ''j1'' 9) NewMemory))"
    by (rule job_step.enqueue [of "''x''" 1 "ex_job ''j1'' 9" _ "normalizeJob ''x'' 1 (ex_job ''j1'' 9)"])
      code_simp+
  moreover have "job_step (snd (EnqueueJob ''x'' 1 (ex_job ''j1'' 9) NewMemory)) ex_queue"
    by (rule job_step.enqueue [of "''x''" 1 "ex_job ''j2'' 5" _ "normalizeJob ''x'' 1 (ex_job ''j2'' 5)"])
      code_simp+
  ultimately show ?thesis using NewMemory_jobs_inv by (blast intro: job_step_inv)
qed

text \<open>The first claim and the second.\<close>

definition ex_claimed :: "job \<times> memory" where
  "ex_claimed = (the (fst (ClaimJob 10 ''wk1'' ex_queue)), snd (ClaimJob 10 ''wk1'' ex_queue))"

definition ex_second :: "job \<times> memory" where
  "ex_second = (the (fst (ClaimJob 20 ''wk2'' (snd ex_claimed))), snd (ClaimJob 20 ''wk2'' (snd ex_claimed)))"

lemma ex_claims:
  "ClaimJob 10 ''wk1'' ex_queue = (Some (fst ex_claimed), snd ex_claimed)"
  "ClaimJob 20 ''wk2'' (snd ex_claimed) = (Some (fst ex_second), snd ex_second)"
  by code_simp+

lemma ex_claimed_sel:
  "mget (Jobs (snd ex_claimed)) (job_ID (fst ex_claimed)) = Some (fst ex_claimed)"
  "job_State (fst ex_claimed) = ''running''" "lease_expired 200000000000 (fst ex_claimed)"
  "job_ID (fst ex_claimed) = ''j2''" "job_Fence (fst ex_claimed) = 1"
  "resourceFenceKey (Some (fst ex_second)) = resourceFenceKey (Some (fst ex_claimed))"
  by code_simp+

theorem claims_strictly_ordered_witness: "job_Fence (fst ex_claimed) < job_Fence (fst ex_second)"
  by (rule claims_strictly_ordered [OF ex_queue_inv ex_claims(1) rtranclp.rtrancl_refl
        ex_claims(2) ex_claimed_sel(6)])

theorem expired_worker_locked_out_witness:
  "HeartbeatJob 0 ''j2'' ''wk1'' 1 (ExpireStaleLeases 200000000000 7 (snd ex_claimed)) =
     (Some ErrStaleFence, ExpireStaleLeases 200000000000 7 (snd ex_claimed))"
  using expired_worker_locked_out [OF ex_queue_inv ex_claims(1) rtranclp.rtrancl_refl
      ex_claimed_sel(1-3) rtranclp.rtrancl_refl, of 0 7]
  unfolding ex_claimed_sel(4,5) by (rule conjunct1)

theorem ClaimJob_most_urgent_witness:
  "job_Fence (fst ex_claimed) > 0 \<and> job_LockedBy (fst ex_claimed) = ''wk1''"
proof -
  have "mget (Jobs ex_queue) ''j2'' \<noteq> None \<and> 0 \<le> job_Fence (the (mget (Jobs ex_queue) ''j2''))" by code_simp
  with ClaimJob_most_urgent [OF ex_queue_inv, of 10 "''wk1''"] show ?thesis
    by (fastforce simp: ex_claims(1) ex_claimed_sel(4))
qed

theorem ExpireStaleLeases_exact_witness:
  "\<exists>f > 1. mget (Jobs (ExpireStaleLeases 200000000000 7 (snd ex_claimed))) ''j2'' =
     Some ((fst ex_claimed)\<lparr> job_State := ''retrying'', job_LockedBy := '''', job_LeaseExpires := None,
                      job_HeartbeatAt := None, job_Fence := f, job_OperationID := '''',
                      job_CancelRequested := False, job_RunAfter := 7 \<rparr>)"
  using ExpireStaleLeases_exact [OF ClaimJob_inv [OF ex_queue_inv ex_claims(1)],
      where k = "''j2''" and now = 200000000000 and clock = 7,
      unfolded ex_claimed_sel(1) [unfolded ex_claimed_sel(4)]]
      ex_claimed_sel
  by simp

theorem EnqueueJob_idempotent_witness:
  "\<exists>j2. EnqueueJob ''y'' 99 (ex_job ''j1'' 3) (snd (EnqueueJob ''x'' 1 (ex_job ''j1'' 9) NewMemory)) =
     (Inr j2, snd (EnqueueJob ''x'' 1 (ex_job ''j1'' 9) NewMemory)) \<and> job_ID j2 = ''j1''"
proof -
  let ?j = "normalizeJob ''x'' 1 (ex_job ''j1'' 9)"
  have "EnqueueJob ''x'' 1 (ex_job ''j1'' 9) NewMemory =
      (Inr ?j, snd (EnqueueJob ''x'' 1 (ex_job ''j1'' 9) NewMemory))"
    "job_Fence (ex_job ''j1'' 9) = 0" "mget (Jobs NewMemory) (job_ID ?j) = None"
    "job_IdempotencyKey (ex_job ''j1'' 9) \<noteq> []" "job_ID ?j = ''j1''"
    "job_IdempotencyKey (ex_job ''j1'' 3) = job_IdempotencyKey (ex_job ''j1'' 9)"
    by code_simp+
  then show ?thesis
    using EnqueueJob_idempotent [OF NewMemory_jobs_inv _ _ _ _ rtranclp.rtrancl_refl] by metis
qed

end
