(* ===== verification/Store_Commit.thy ===== *)
theory Store_Commit
  imports Store_Jobs
begin

text \<open>
  The asynchronous mutations of the store: a change of desired state, the durable job that
  carries it out and the audit event commit together or not at all
  (\<^verbatim>\<open>internal/store/async_atomic.go\<close> and \<^verbatim>\<open>internal/store/resource_atomic.go\<close>, the
  \<^verbatim>\<open>Memory\<close> methods).

  A method that Go writes as \<^verbatim>\<open>commitAsyncMutationLocked(job, audit, validate, mutate)\<close> is
  written here the same way, with its two closures as definitions of their own. A nil pointer
  argument is \<open>None\<close>. An operation returns its result and the state it leaves, also on the error
  branches, so that atomicity is a statement about the operation and not a convention.
\<close>

section \<open>Commit\<close>

text \<open>What an operation reads from outside: fresh identifiers and the clock.\<close>

record fresh =
  fr_job :: string
  fr_audit :: string
  fr_now :: gotime

definition normalizeAudit :: "fresh \<Rightarrow> job \<Rightarrow> auditevent \<Rightarrow> auditevent" where
  "normalizeAudit fr j ev0 =
     (let ev = (if aud_ID ev0 = '''' then ev0\<lparr>aud_ID := fr_audit fr\<rparr> else ev0);
          ev = (if aud_OccurredAt ev = 0 then ev\<lparr>aud_OccurredAt := fr_now fr\<rparr> else ev);
          ev = (if aud_RequestID ev = '''' then ev\<lparr>aud_RequestID := job_RequestID j\<rparr> else ev)
      in ev)"

type_synonym validator = "memory \<Rightarrow> store_error option"
type_synonym mutator = "memory \<Rightarrow> memory"
type_synonym commit_result = "job res \<times> memory"

definition commitAsyncMutationLocked ::
    "fresh \<Rightarrow> job option \<Rightarrow> auditevent \<Rightarrow> validator \<Rightarrow> mutator \<Rightarrow> memory \<Rightarrow> commit_result" where
  "commitAsyncMutationLocked fr job audit validate mutate m =
     (case job of
        None \<Rightarrow> (Inl (ErrRequired ''job''), m)
      | Some j \<Rightarrow>
          (case jobReplayLocked m j of
             Some replay \<Rightarrow> (Inr replay, m)
           | None \<Rightarrow>
               (case validate m of
                  Some err \<Rightarrow> (Inl err, m)
                | None \<Rightarrow>
                    (let j' = normalizeJob (fr_job fr) (fr_now fr) j
                     in case validateNewJobLocked m j' of
                          Some err \<Rightarrow> (Inl err, m)
                        | None \<Rightarrow>
                            (let audit' = normalizeAudit fr j' audit;
                                 m1 = mutate m
                             in (Inr j', m1\<lparr> Jobs := mput (job_ID j') j' (Jobs m1),
                                             Audit := Audit m1 @ [audit'] \<rparr>))))))"

section \<open>Applications and databases\<close>

definition UpsertApplication_check :: "application option \<Rightarrow> validator" where
  "UpsertApplication_check application m =
     (case application of
        None \<Rightarrow> Some (ErrRequired ''application'')
      | Some a \<Rightarrow>
          (case mget (Websites m) (app_WebsiteID a) of
             None \<Rightarrow> Some (ErrMismatch ''website'' (app_WebsiteID a) (app_AccountID a))
           | Some w \<Rightarrow>
               if web_AccountID w \<noteq> app_AccountID a
               then Some (ErrMismatch ''website'' (app_WebsiteID a) (app_AccountID a)) else None))"

definition UpsertApplication_write :: "application option \<Rightarrow> mutator" where
  "UpsertApplication_write application m =
     (case application of None \<Rightarrow> m | Some a \<Rightarrow> m\<lparr>Apps := mput (app_ID a) a (Apps m)\<rparr>)"

definition UpsertApplicationWithJob ::
    "fresh \<Rightarrow> application option \<Rightarrow> job option \<Rightarrow> auditevent \<Rightarrow> memory \<Rightarrow> commit_result" where
  "UpsertApplicationWithJob fr application job audit =
     commitAsyncMutationLocked fr job audit
       (UpsertApplication_check application) (UpsertApplication_write application)"

definition UpsertDatabase_check :: "hosteddb option \<Rightarrow> dbuser option \<Rightarrow> validator" where
  "UpsertDatabase_check database user m =
     (case database of
        None \<Rightarrow> Some (ErrRequired ''database account'')
      | Some d \<Rightarrow>
          if mget (Accounts m) (db_AccountID d) = None then Some (ErrRequired ''database account'')
          else (case user of
                  None \<Rightarrow> None
                | Some u \<Rightarrow> if dbu_AccountID u \<noteq> db_AccountID d
                           then Some (ErrMismatch ''database user'' (dbu_ID u) (db_AccountID d)) else None))"

definition UpsertDatabase_write :: "hosteddb option \<Rightarrow> dbuser option \<Rightarrow> mutator" where
  "UpsertDatabase_write database user m =
     (case database of
        None \<Rightarrow> m
      | Some d \<Rightarrow>
          (let m1 = m\<lparr>DBs := mput (db_ID d) d (DBs m)\<rparr>
           in case user of None \<Rightarrow> m1
              | Some u \<Rightarrow> m1\<lparr>DBUsers := mput (dbu_ID u) u (DBUsers m1)\<rparr>))"

definition UpsertDatabaseWithJob ::
    "fresh \<Rightarrow> hosteddb option \<Rightarrow> dbuser option \<Rightarrow> job option \<Rightarrow> auditevent \<Rightarrow> memory \<Rightarrow> commit_result" where
  "UpsertDatabaseWithJob fr database user job audit =
     commitAsyncMutationLocked fr job audit
       (UpsertDatabase_check database user) (UpsertDatabase_write database user)"

definition DeleteDatabase_check :: "string \<Rightarrow> string \<Rightarrow> validator" where
  "DeleteDatabase_check databaseID accountID m =
     (case mget (DBs m) databaseID of
        None \<Rightarrow> Some (ErrNotFound ''database'' databaseID)
      | Some d \<Rightarrow> if db_AccountID d \<noteq> accountID then Some (ErrNotFound ''database'' databaseID) else None)"

definition DeleteDatabase_write :: "string \<Rightarrow> mutator" where
  "DeleteDatabase_write databaseID m =
     (case mget (DBs m) databaseID of
        None \<Rightarrow> m
      | Some d \<Rightarrow> m\<lparr>DBs := mput databaseID (d\<lparr>db_Status := ''terminating''\<rparr>) (DBs m)\<rparr>)"

definition DeleteDatabaseWithJob ::
    "fresh \<Rightarrow> string \<Rightarrow> string \<Rightarrow> job option \<Rightarrow> auditevent \<Rightarrow> memory \<Rightarrow> commit_result" where
  "DeleteDatabaseWithJob fr databaseID accountID job audit =
     commitAsyncMutationLocked fr job audit
       (DeleteDatabase_check databaseID accountID) (DeleteDatabase_write databaseID)"

section \<open>Zones and records\<close>

definition UpsertZone_check :: "dnszone option \<Rightarrow> validator" where
  "UpsertZone_check zone m =
     (case zone of
        None \<Rightarrow> Some (ErrRequired ''DNS zone account'')
      | Some z \<Rightarrow> if mget (Accounts m) (zone_AccountID z) = None
                 then Some (ErrRequired ''DNS zone account'') else None)"

definition UpsertZone_write :: "dnszone option \<Rightarrow> mutator" where
  "UpsertZone_write zone m =
     (case zone of None \<Rightarrow> m | Some z \<Rightarrow> m\<lparr>Zones := mput (zone_ID z) z (Zones m)\<rparr>)"

definition UpsertZoneWithJob ::
    "fresh \<Rightarrow> dnszone option \<Rightarrow> job option \<Rightarrow> auditevent \<Rightarrow> memory \<Rightarrow> commit_result" where
  "UpsertZoneWithJob fr zone job audit =
     commitAsyncMutationLocked fr job audit (UpsertZone_check zone) (UpsertZone_write zone)"

definition CreateRecord_check :: "dnsrecord option \<Rightarrow> string \<Rightarrow> validator" where
  "CreateRecord_check record accountID m =
     (case record of
        None \<Rightarrow> Some (ErrRequired ''DNS record'')
      | Some r \<Rightarrow>
          (case mget (Zones m) (rec_ZoneID r) of
             None \<Rightarrow> Some (ErrNotFound ''DNS zone'' (rec_ZoneID r))
           | Some z \<Rightarrow> if zone_AccountID z \<noteq> accountID
                      then Some (ErrNotFound ''DNS zone'' (rec_ZoneID r)) else None))"

definition CreateRecord_write :: "dnsrecord option \<Rightarrow> mutator" where
  "CreateRecord_write record m =
     (case record of None \<Rightarrow> m | Some r \<Rightarrow> m\<lparr>Records := mput (rec_ID r) r (Records m)\<rparr>)"

definition CreateRecordWithJob ::
    "fresh \<Rightarrow> dnsrecord option \<Rightarrow> string \<Rightarrow> job option \<Rightarrow> auditevent \<Rightarrow> memory \<Rightarrow> commit_result" where
  "CreateRecordWithJob fr record accountID job audit =
     commitAsyncMutationLocked fr job audit
       (CreateRecord_check record accountID) (CreateRecord_write record)"

definition DeleteRecord_check :: "string \<Rightarrow> string \<Rightarrow> string \<Rightarrow> validator" where
  "DeleteRecord_check recordID zoneID accountID m =
     (case (mget (Zones m) zoneID, mget (Records m) recordID) of
        (Some z, Some r) \<Rightarrow>
          if zone_AccountID z \<noteq> accountID \<or> rec_ZoneID r \<noteq> zoneID
          then Some (ErrNotFound ''DNS record'' recordID) else None
      | _ \<Rightarrow> Some (ErrNotFound ''DNS record'' recordID))"

definition DeleteRecordWithJob ::
    "fresh \<Rightarrow> string \<Rightarrow> string \<Rightarrow> string \<Rightarrow> job option \<Rightarrow> auditevent \<Rightarrow> memory \<Rightarrow> commit_result" where
  "DeleteRecordWithJob fr recordID zoneID accountID job audit =
     commitAsyncMutationLocked fr job audit
       (DeleteRecord_check recordID zoneID accountID) (DeleteRecord recordID)"

section \<open>Mail\<close>

definition UpsertMailDomain_check :: "maildomain option \<Rightarrow> validator" where
  "UpsertMailDomain_check domain m =
     (case domain of
        None \<Rightarrow> Some (ErrRequired ''mail domain account'')
      | Some d \<Rightarrow> if mget (Accounts m) (md_AccountID d) = None
                 then Some (ErrRequired ''mail domain account'') else None)"

definition UpsertMailDomain_write :: "maildomain option \<Rightarrow> mutator" where
  "UpsertMailDomain_write domain m =
     (case domain of None \<Rightarrow> m | Some d \<Rightarrow> m\<lparr>MailDom := mput (md_ID d) d (MailDom m)\<rparr>)"

definition UpsertMailDomainWithJob ::
    "fresh \<Rightarrow> maildomain option \<Rightarrow> job option \<Rightarrow> auditevent \<Rightarrow> memory \<Rightarrow> commit_result" where
  "UpsertMailDomainWithJob fr domain job audit =
     commitAsyncMutationLocked fr job audit
       (UpsertMailDomain_check domain) (UpsertMailDomain_write domain)"

definition UpsertMailbox_check :: "mailbox option \<Rightarrow> validator" where
  "UpsertMailbox_check mailbox m =
     (case mailbox of
        None \<Rightarrow> Some (ErrRequired ''mailbox'')
      | Some b \<Rightarrow>
          (case mget (MailDom m) (mb_DomainID b) of
             None \<Rightarrow> Some (ErrNotFound ''mail domain'' (mb_DomainID b))
           | Some d \<Rightarrow> if md_AccountID d \<noteq> mb_AccountID b
                      then Some (ErrNotFound ''mail domain'' (mb_DomainID b)) else None))"

definition UpsertMailbox_write :: "mailbox option \<Rightarrow> mutator" where
  "UpsertMailbox_write mailbox m =
     (case mailbox of None \<Rightarrow> m | Some b \<Rightarrow> m\<lparr>Mailboxes := mput (mb_ID b) b (Mailboxes m)\<rparr>)"

definition UpsertMailboxWithJob ::
    "fresh \<Rightarrow> mailbox option \<Rightarrow> job option \<Rightarrow> auditevent \<Rightarrow> memory \<Rightarrow> commit_result" where
  "UpsertMailboxWithJob fr mailbox job audit =
     commitAsyncMutationLocked fr job audit (UpsertMailbox_check mailbox) (UpsertMailbox_write mailbox)"

definition DeleteMailbox_check :: "string \<Rightarrow> string \<Rightarrow> validator" where
  "DeleteMailbox_check mailboxID accountID m =
     (case mget (Mailboxes m) mailboxID of
        None \<Rightarrow> Some (ErrNotFound ''mailbox'' mailboxID)
      | Some b \<Rightarrow> if mb_AccountID b \<noteq> accountID then Some (ErrNotFound ''mailbox'' mailboxID) else None)"

definition DeleteMailboxWithJob ::
    "fresh \<Rightarrow> string \<Rightarrow> string \<Rightarrow> job option \<Rightarrow> auditevent \<Rightarrow> memory \<Rightarrow> commit_result" where
  "DeleteMailboxWithJob fr mailboxID accountID job audit =
     commitAsyncMutationLocked fr job audit
       (DeleteMailbox_check mailboxID accountID) (DeleteMailbox mailboxID)"

definition UpsertMailAlias_check :: "mailalias option \<Rightarrow> validator" where
  "UpsertMailAlias_check alias m =
     (case alias of
        None \<Rightarrow> Some (ErrRequired ''mail alias'')
      | Some a \<Rightarrow>
          (case mget (MailDom m) (al_DomainID a) of
             None \<Rightarrow> Some (ErrNotFound ''mail domain'' (al_DomainID a))
           | Some d \<Rightarrow> if md_AccountID d \<noteq> al_AccountID a
                      then Some (ErrNotFound ''mail domain'' (al_DomainID a)) else None))"

definition UpsertMailAlias_write :: "mailalias option \<Rightarrow> mutator" where
  "UpsertMailAlias_write alias m =
     (case alias of None \<Rightarrow> m | Some a \<Rightarrow> m\<lparr>Aliases := mput (al_ID a) a (Aliases m)\<rparr>)"

definition UpsertMailAliasWithJob ::
    "fresh \<Rightarrow> mailalias option \<Rightarrow> job option \<Rightarrow> auditevent \<Rightarrow> memory \<Rightarrow> commit_result" where
  "UpsertMailAliasWithJob fr alias job audit =
     commitAsyncMutationLocked fr job audit (UpsertMailAlias_check alias) (UpsertMailAlias_write alias)"

definition DeleteMailAlias_check :: "string \<Rightarrow> string \<Rightarrow> validator" where
  "DeleteMailAlias_check aliasID accountID m =
     (case mget (Aliases m) aliasID of
        None \<Rightarrow> Some (ErrNotFound ''mail alias'' aliasID)
      | Some a \<Rightarrow> if al_AccountID a \<noteq> accountID then Some (ErrNotFound ''mail alias'' aliasID) else None)"

definition DeleteMailAliasWithJob ::
    "fresh \<Rightarrow> string \<Rightarrow> string \<Rightarrow> job option \<Rightarrow> auditevent \<Rightarrow> memory \<Rightarrow> commit_result" where
  "DeleteMailAliasWithJob fr aliasID accountID job audit =
     commitAsyncMutationLocked fr job audit
       (DeleteMailAlias_check aliasID accountID) (DeleteMailAlias aliasID)"

section \<open>Cron and FTP\<close>

definition UpsertCron_check :: "cronjob option \<Rightarrow> validator" where
  "UpsertCron_check cron m =
     (case cron of
        None \<Rightarrow> Some (ErrRequired ''cron account'')
      | Some c \<Rightarrow> if mget (Accounts m) (cron_AccountID c) = None
                 then Some (ErrRequired ''cron account'') else None)"

definition UpsertCron_write :: "cronjob option \<Rightarrow> mutator" where
  "UpsertCron_write cron m =
     (case cron of None \<Rightarrow> m | Some c \<Rightarrow> m\<lparr>Crons := mput (cron_ID c) c (Crons m)\<rparr>)"

definition UpsertCronWithJob ::
    "fresh \<Rightarrow> cronjob option \<Rightarrow> job option \<Rightarrow> auditevent \<Rightarrow> memory \<Rightarrow> commit_result" where
  "UpsertCronWithJob fr cron job audit =
     commitAsyncMutationLocked fr job audit (UpsertCron_check cron) (UpsertCron_write cron)"

definition DeleteCron_check :: "string \<Rightarrow> string \<Rightarrow> validator" where
  "DeleteCron_check cronID accountID m =
     (case mget (Crons m) cronID of
        None \<Rightarrow> Some (ErrNotFound ''cron'' cronID)
      | Some c \<Rightarrow> if cron_AccountID c \<noteq> accountID then Some (ErrNotFound ''cron'' cronID) else None)"

definition DeleteCronWithJob ::
    "fresh \<Rightarrow> string \<Rightarrow> string \<Rightarrow> job option \<Rightarrow> auditevent \<Rightarrow> memory \<Rightarrow> commit_result" where
  "DeleteCronWithJob fr cronID accountID job audit =
     commitAsyncMutationLocked fr job audit (DeleteCron_check cronID accountID) (DeleteCron cronID)"

definition UpsertFTP_check :: "ftpaccount option \<Rightarrow> validator" where
  "UpsertFTP_check ftp m =
     (case ftp of
        None \<Rightarrow> Some (ErrRequired ''FTP account owner'')
      | Some f \<Rightarrow>
          if mget (Accounts m) (ftp_AccountID f) = None then Some (ErrRequired ''FTP account owner'')
          else if \<exists>(i, e) \<in> set (FTPs m). i \<noteq> ftp_ID f \<and> ftp_Username e = ftp_Username f
          then Some (ErrExists ''FTP username'' (ftp_Username f))
          else None)"

definition UpsertFTP_write :: "ftpaccount option \<Rightarrow> mutator" where
  "UpsertFTP_write ftp m =
     (case ftp of None \<Rightarrow> m | Some f \<Rightarrow> m\<lparr>FTPs := mput (ftp_ID f) f (FTPs m)\<rparr>)"

definition UpsertFTPWithJob ::
    "fresh \<Rightarrow> ftpaccount option \<Rightarrow> job option \<Rightarrow> auditevent \<Rightarrow> memory \<Rightarrow> commit_result" where
  "UpsertFTPWithJob fr ftp job audit =
     commitAsyncMutationLocked fr job audit (UpsertFTP_check ftp) (UpsertFTP_write ftp)"

definition DeleteFTP_check :: "string \<Rightarrow> string \<Rightarrow> validator" where
  "DeleteFTP_check ftpID accountID m =
     (case mget (FTPs m) ftpID of
        None \<Rightarrow> Some (ErrNotFound ''FTP account'' ftpID)
      | Some f \<Rightarrow> if ftp_AccountID f \<noteq> accountID then Some (ErrNotFound ''FTP account'' ftpID) else None)"

definition DeleteFTPWithJob ::
    "fresh \<Rightarrow> string \<Rightarrow> string \<Rightarrow> job option \<Rightarrow> auditevent \<Rightarrow> memory \<Rightarrow> commit_result" where
  "DeleteFTPWithJob fr ftpID accountID job audit =
     commitAsyncMutationLocked fr job audit (DeleteFTP_check ftpID accountID) (DeleteFTP ftpID)"

section \<open>Domains, websites, certificates, backups (resource\_atomic.go)\<close>

text \<open>
  These methods check before they look for a replay (the domain and website methods, in part
  the others), so they are not instances of \<^const>\<open>commitAsyncMutationLocked\<close>'s order.
\<close>

definition commitDomainMutationLocked ::
    "fresh \<Rightarrow> domain \<Rightarrow> job \<Rightarrow> auditevent \<Rightarrow> memory \<Rightarrow> commit_result" where
  "commitDomainMutationLocked fr d j audit m =
     (case jobReplayLocked m j of
        Some replay \<Rightarrow> (Inr replay, m)
      | None \<Rightarrow>
          (let j' = normalizeJob (fr_job fr) (fr_now fr) j
           in case validateNewJobLocked m j' of
                Some err \<Rightarrow> (Inl err, m)
              | None \<Rightarrow>
                  (Inr j', m\<lparr> Domains := mput (dom_ID d) d (Domains m),
                              Jobs := mput (job_ID j') j' (Jobs m),
                              Audit := Audit m @ [normalizeAudit fr j' audit] \<rparr>)))"

definition CreateDomainWithJob ::
    "fresh \<Rightarrow> domain option \<Rightarrow> job option \<Rightarrow> auditevent \<Rightarrow> memory \<Rightarrow> commit_result" where
  "CreateDomainWithJob fr domain job audit m =
     (case (domain, job) of
        (Some d, Some j) \<Rightarrow>
          if mget (Accounts m) (dom_AccountID d) = None
          then (Inl (ErrNotFound ''account'' (dom_AccountID d)), m)
          else if mget (Domains m) (dom_ID d) \<noteq> None
          then (Inl (ErrExists ''domain'' (dom_ID d)), m)
          else if \<exists>e \<in> set (mvals (Domains m)). dom_ASCII e = dom_ASCII d
          then (Inl (ErrExists ''domain'' (dom_ASCII d)), m)
          else commitDomainMutationLocked fr d j audit m
      | _ \<Rightarrow> (Inl (ErrRequired ''domain and job''), m))"

definition UpdateDomainWithJob ::
    "fresh \<Rightarrow> domain option \<Rightarrow> job option \<Rightarrow> auditevent \<Rightarrow> memory \<Rightarrow> commit_result" where
  "UpdateDomainWithJob fr domain job audit m =
     (case (domain, job) of
        (Some d, Some j) \<Rightarrow>
          (case mget (Domains m) (dom_ID d) of
             None \<Rightarrow> (Inl (ErrNotFound ''domain'' (dom_ID d)), m)
           | Some current \<Rightarrow>
               if dom_AccountID current \<noteq> dom_AccountID d
               then (Inl (ErrNotFound ''domain'' (dom_ID d)), m)
               else commitDomainMutationLocked fr d j audit m)
      | _ \<Rightarrow> (Inl (ErrRequired ''domain and job''), m))"

definition UpsertWebsiteWithJob ::
    "fresh \<Rightarrow> website option \<Rightarrow> job option \<Rightarrow> auditevent \<Rightarrow> memory \<Rightarrow> commit_result" where
  "UpsertWebsiteWithJob fr website job audit m =
     (case (website, job) of
        (Some w, Some j) \<Rightarrow>
          if mget (Accounts m) (web_AccountID w) = None
          then (Inl (ErrNotFound ''account'' (web_AccountID w)), m)
          else if (case mget (Domains m) (web_DomainID w) of
                     None \<Rightarrow> True | Some d \<Rightarrow> dom_AccountID d \<noteq> web_AccountID w)
          then (Inl (ErrMismatch ''domain'' (web_DomainID w) (web_AccountID w)), m)
          else
            (case jobReplayLocked m j of
               Some replay \<Rightarrow> (Inr replay, m)
             | None \<Rightarrow>
                 (let j' = normalizeJob (fr_job fr) (fr_now fr) j
                  in case validateNewJobLocked m j' of
                       Some err \<Rightarrow> (Inl err, m)
                     | None \<Rightarrow>
                         (Inr j', m\<lparr> Websites := mput (web_ID w) w (Websites m),
                                     Jobs := mput (job_ID j') j' (Jobs m),
                                     Audit := Audit m @ [normalizeAudit fr j' audit] \<rparr>)))
      | _ \<Rightarrow> (Inl (ErrRequired ''website and job''), m))"

definition UpsertCertificateWithJob ::
    "fresh \<Rightarrow> certificate option \<Rightarrow> job option \<Rightarrow> auditevent \<Rightarrow> memory \<Rightarrow> commit_result" where
  "UpsertCertificateWithJob fr certificate job audit m =
     (case (certificate, job) of
        (Some c, Some j) \<Rightarrow>
          if cert_AccountID c = '''' \<or> mget (Accounts m) (cert_AccountID c) = None
          then (Inl (ErrNotFound ''certificate account'' (cert_AccountID c)), m)
          else
            (case jobReplayLocked m j of
               Some replay \<Rightarrow> (Inr replay, m)
             | None \<Rightarrow>
                 if \<exists>(i, e) \<in> set (Certs m). cert_AccountID e = cert_AccountID c \<and>
                      cert_Hostname e = cert_Hostname c \<and> i \<noteq> cert_ID c
                 then (Inl (ErrExists ''certificate'' (cert_Hostname c)), m)
                 else
                   (let j' = normalizeJob (fr_job fr) (fr_now fr) j
                    in case validateNewJobLocked m j' of
                         Some err \<Rightarrow> (Inl err, m)
                       | None \<Rightarrow>
                           (Inr j', m\<lparr> Certs := mput (cert_ID c) c (Certs m),
                                       Jobs := mput (job_ID j') j' (Jobs m),
                                       Audit := Audit m @ [normalizeAudit fr j' audit] \<rparr>)))
      | _ \<Rightarrow> (Inl (ErrRequired ''certificate and job''), m))"

definition CreateBackupWithJob ::
    "fresh \<Rightarrow> backuprun option \<Rightarrow> job option \<Rightarrow> auditevent \<Rightarrow> memory \<Rightarrow> commit_result" where
  "CreateBackupWithJob fr backup job audit m =
     (case (backup, job) of
        (Some b, Some j) \<Rightarrow>
          if mget (Accounts m) (bak_AccountID b) = None
          then (Inl (ErrNotFound ''backup account'' (bak_AccountID b)), m)
          else
            (case jobReplayLocked m j of
               Some replay \<Rightarrow> (Inr replay, m)
             | None \<Rightarrow>
                 if mget (Backups m) (bak_ID b) \<noteq> None
                 then (Inl (ErrExists ''backup'' (bak_ID b)), m)
                 else
                   (let j' = normalizeJob (fr_job fr) (fr_now fr) j
                    in case validateNewJobLocked m j' of
                         Some err \<Rightarrow> (Inl err, m)
                       | None \<Rightarrow>
                           (Inr j', m\<lparr> Backups := mput (bak_ID b) b (Backups m),
                                       Jobs := mput (job_ID j') j' (Jobs m),
                                       Audit := Audit m @ [normalizeAudit fr j' audit] \<rparr>)))
      | _ \<Rightarrow> (Inl (ErrRequired ''backup and job''), m))"

definition EnqueueJobWithAudit ::
    "fresh \<Rightarrow> job option \<Rightarrow> auditevent \<Rightarrow> memory \<Rightarrow> commit_result" where
  "EnqueueJobWithAudit fr job audit m =
     (case job of
        None \<Rightarrow> (Inl (ErrRequired ''job''), m)
      | Some j \<Rightarrow>
          (case jobReplayLocked m j of
             Some replay \<Rightarrow> (Inr replay, m)
           | None \<Rightarrow>
               (let j' = normalizeJob (fr_job fr) (fr_now fr) j
                in case validateNewJobLocked m j' of
                     Some err \<Rightarrow> (Inl err, m)
                   | None \<Rightarrow>
                       (Inr j', m\<lparr> Jobs := mput (job_ID j') j' (Jobs m),
                                   Audit := Audit m @ [normalizeAudit fr j' audit] \<rparr>))))"

section \<open>The requests as data\<close>

text \<open>Every asynchronous mutation of the store, and the method that serves it.\<close>

datatype async_request =
    UpsertApplicationReq "application option"
  | UpsertDatabaseReq "hosteddb option" "dbuser option"
  | DeleteDatabaseReq string string
  | UpsertZoneReq "dnszone option"
  | CreateRecordReq "dnsrecord option" string
  | DeleteRecordReq string string string
  | UpsertMailDomainReq "maildomain option"
  | UpsertMailboxReq "mailbox option"
  | DeleteMailboxReq string string
  | UpsertMailAliasReq "mailalias option"
  | DeleteMailAliasReq string string
  | UpsertCronReq "cronjob option"
  | DeleteCronReq string string
  | UpsertFTPReq "ftpaccount option"
  | DeleteFTPReq string string
  | CreateDomainReq "domain option"
  | UpdateDomainReq "domain option"
  | UpsertWebsiteReq "website option"
  | UpsertCertificateReq "certificate option"
  | CreateBackupReq "backuprun option"
  | EnqueueReq

fun serve_async ::
    "fresh \<Rightarrow> async_request \<Rightarrow> job option \<Rightarrow> auditevent \<Rightarrow> memory \<Rightarrow> commit_result" where
  "serve_async fr (UpsertApplicationReq a) = UpsertApplicationWithJob fr a"
| "serve_async fr (UpsertDatabaseReq d u) = UpsertDatabaseWithJob fr d u"
| "serve_async fr (DeleteDatabaseReq i a) = DeleteDatabaseWithJob fr i a"
| "serve_async fr (UpsertZoneReq z) = UpsertZoneWithJob fr z"
| "serve_async fr (CreateRecordReq r a) = CreateRecordWithJob fr r a"
| "serve_async fr (DeleteRecordReq i z a) = DeleteRecordWithJob fr i z a"
| "serve_async fr (UpsertMailDomainReq d) = UpsertMailDomainWithJob fr d"
| "serve_async fr (UpsertMailboxReq b) = UpsertMailboxWithJob fr b"
| "serve_async fr (DeleteMailboxReq i a) = DeleteMailboxWithJob fr i a"
| "serve_async fr (UpsertMailAliasReq a) = UpsertMailAliasWithJob fr a"
| "serve_async fr (DeleteMailAliasReq i a) = DeleteMailAliasWithJob fr i a"
| "serve_async fr (UpsertCronReq c) = UpsertCronWithJob fr c"
| "serve_async fr (DeleteCronReq i a) = DeleteCronWithJob fr i a"
| "serve_async fr (UpsertFTPReq f) = UpsertFTPWithJob fr f"
| "serve_async fr (DeleteFTPReq i a) = DeleteFTPWithJob fr i a"
| "serve_async fr (CreateDomainReq d) = CreateDomainWithJob fr d"
| "serve_async fr (UpdateDomainReq d) = UpdateDomainWithJob fr d"
| "serve_async fr (UpsertWebsiteReq w) = UpsertWebsiteWithJob fr w"
| "serve_async fr (UpsertCertificateReq c) = UpsertCertificateWithJob fr c"
| "serve_async fr (CreateBackupReq b) = CreateBackupWithJob fr b"
| "serve_async fr EnqueueReq = EnqueueJobWithAudit fr"

section \<open>What a commit does\<close>

text \<open>
  The contract of an asynchronous mutation: it fails and changes nothing, or it replays an
  earlier job and changes nothing, or it commits. A commit applies a change \<open>m1\<close> of the resource
  tables that leaves queue, fences and audit log alone, files the one new job and appends the
  one audit event.
\<close>

definition resource_change :: "memory \<Rightarrow> memory \<Rightarrow> bool" where
  "resource_change m m1 \<longleftrightarrow>
     Jobs m1 = Jobs m \<and> Audit m1 = Audit m \<and> resourceFences m1 = resourceFences m \<and>
     (mem_tables m \<longrightarrow> mem_tables m1) \<and> (mem_tables m \<longrightarrow> refs_ok m \<longrightarrow> refs_ok m1)"

definition commit_of :: "fresh \<Rightarrow> job \<Rightarrow> auditevent \<Rightarrow> memory \<Rightarrow> memory" where
  "commit_of fr j audit m1 = m1\<lparr> Jobs := mput (job_ID j) j (Jobs m1),
                                Audit := Audit m1 @ [normalizeAudit fr j audit] \<rparr>"

definition atomic_outcome ::
    "fresh \<Rightarrow> job option \<Rightarrow> auditevent \<Rightarrow> memory \<Rightarrow> commit_result \<Rightarrow> bool" where
  "atomic_outcome fr job audit m out \<longleftrightarrow>
     (\<exists>e. out = (Inl e, m)) \<or>
     (\<exists>j r. job = Some j \<and> jobReplayLocked m j = Some r \<and> out = (Inr r, m)) \<or>
     (\<exists>j j' m1. job = Some j \<and> jobReplayLocked m j = None \<and>
        j' = normalizeJob (fr_job fr) (fr_now fr) j \<and> validateNewJobLocked m j' = None \<and>
        resource_change m m1 \<and> out = (Inr j', commit_of fr j' audit m1))"

lemma atomic_outcomeE:
  assumes "atomic_outcome fr job audit m out"
  obtains e where "out = (Inl e, m)"
  | j r where "job = Some j" "jobReplayLocked m j = Some r" "out = (Inr r, m)"
  | j j' m1 where "job = Some j" "jobReplayLocked m j = None"
      "j' = normalizeJob (fr_job fr) (fr_now fr) j" "validateNewJobLocked m j' = None"
      "resource_change m m1" "out = (Inr j', commit_of fr j' audit m1)"
  using assms unfolding atomic_outcome_def by metis

lemma atomic_errorI [intro]: "atomic_outcome fr job audit m (Inl e, m)"
  by (simp add: atomic_outcome_def)

lemma atomic_replayI [intro]: "jobReplayLocked m j = Some r \<Longrightarrow> atomic_outcome fr (Some j) audit m (Inr r, m)"
  by (simp add: atomic_outcome_def)

lemma atomic_commitI:
  assumes "jobReplayLocked m j = None"
    and "validateNewJobLocked m (normalizeJob (fr_job fr) (fr_now fr) j) = None"
    and "resource_change m m1"
  shows "atomic_outcome fr (Some j) audit m
    (Inr (normalizeJob (fr_job fr) (fr_now fr) j), commit_of fr (normalizeJob (fr_job fr) (fr_now fr) j) audit m1)"
  using assms unfolding atomic_outcome_def by blast

text \<open>
  The interface of the two closures: the check guards the change, the change stays within the
  resource tables and keeps them well-formed.
\<close>

locale async_mutation =
  fixes validate :: "memory \<Rightarrow> store_error option"
    and mutate :: "memory \<Rightarrow> memory"
  assumes change: "validate m = None \<Longrightarrow> resource_change m (mutate m)"
begin

lemma commit_outcome:
  "atomic_outcome fr job audit m (commitAsyncMutationLocked fr job audit validate mutate m)"
proof (cases job)
  case (Some j)
  then show ?thesis
    by (auto simp: commitAsyncMutationLocked_def Let_def commit_of_def [symmetric]
        intro!: atomic_commitI change split: option.splits)
qed (auto simp: commitAsyncMutationLocked_def)

end

lemmas resource_change_simps = resource_change_def mem_tables_def refs_ok_def

interpretation upsert_app: async_mutation "UpsertApplication_check a" "UpsertApplication_write a" for a
  by unfold_locales
    (auto simp: UpsertApplication_check_def UpsertApplication_write_def resource_change_simps
      split: option.splits if_splits)

interpretation upsert_db: async_mutation "UpsertDatabase_check d u" "UpsertDatabase_write d u" for d u
  by unfold_locales
    (auto simp: UpsertDatabase_check_def UpsertDatabase_write_def resource_change_simps
      split: option.splits if_splits)

interpretation delete_db: async_mutation "DeleteDatabase_check i a" "DeleteDatabase_write i" for i a
  by unfold_locales
    (auto simp: DeleteDatabase_check_def DeleteDatabase_write_def resource_change_simps
      intro!: table_put_id dest: table_id split: option.splits if_splits)

interpretation upsert_zone: async_mutation "UpsertZone_check z" "UpsertZone_write z" for z
  by unfold_locales
    (auto simp: UpsertZone_check_def UpsertZone_write_def resource_change_simps
      split: option.splits if_splits)

interpretation create_record: async_mutation "CreateRecord_check r a" "CreateRecord_write r" for r a
  by unfold_locales
    (auto simp: CreateRecord_check_def CreateRecord_write_def resource_change_simps
      split: option.splits if_splits)

interpretation delete_record: async_mutation "DeleteRecord_check i z a" "DeleteRecord i" for i z a
  by unfold_locales (auto simp: DeleteRecord_def resource_change_simps split: if_splits)

interpretation upsert_mail_domain: async_mutation "UpsertMailDomain_check d" "UpsertMailDomain_write d" for d
  by unfold_locales
    (auto simp: UpsertMailDomain_check_def UpsertMailDomain_write_def resource_change_simps
      split: option.splits if_splits)

interpretation upsert_mailbox: async_mutation "UpsertMailbox_check b" "UpsertMailbox_write b" for b
  by unfold_locales
    (auto simp: UpsertMailbox_check_def UpsertMailbox_write_def resource_change_simps
      split: option.splits if_splits)

interpretation delete_mailbox: async_mutation "DeleteMailbox_check i a" "DeleteMailbox i" for i a
  by unfold_locales (auto simp: DeleteMailbox_def resource_change_simps split: if_splits)

interpretation upsert_alias: async_mutation "UpsertMailAlias_check a" "UpsertMailAlias_write a" for a
  by unfold_locales
    (auto simp: UpsertMailAlias_check_def UpsertMailAlias_write_def resource_change_simps
      split: option.splits if_splits)

interpretation delete_alias: async_mutation "DeleteMailAlias_check i a" "DeleteMailAlias i" for i a
  by unfold_locales (auto simp: DeleteMailAlias_def resource_change_simps split: if_splits)

interpretation upsert_cron: async_mutation "UpsertCron_check c" "UpsertCron_write c" for c
  by unfold_locales
    (auto simp: UpsertCron_check_def UpsertCron_write_def resource_change_simps
      split: option.splits if_splits)

interpretation delete_cron: async_mutation "DeleteCron_check i a" "DeleteCron i" for i a
  by unfold_locales (auto simp: DeleteCron_def resource_change_simps)

interpretation upsert_ftp: async_mutation "UpsertFTP_check f" "UpsertFTP_write f" for f
  by unfold_locales
    (auto simp: UpsertFTP_check_def UpsertFTP_write_def resource_change_simps
      split: option.splits if_splits)

interpretation delete_ftp: async_mutation "DeleteFTP_check i a" "DeleteFTP i" for i a
  by unfold_locales (auto simp: DeleteFTP_def resource_change_simps)

text \<open>The methods that check before they look for a replay have the same outcomes.\<close>

lemma resource_change_refl [simp]: "resource_change m m"
  by (simp add: resource_change_def)

lemma commitDomain_outcome:
  "atomic_outcome fr (Some j) audit m (commitDomainMutationLocked fr d j audit m)"
proof -
  have "resource_change m (m\<lparr>Domains := mput (dom_ID d) d (Domains m)\<rparr>)"
    by (auto simp: resource_change_simps)
  from atomic_commitI [OF _ _ this] show ?thesis
    by (auto simp: commitDomainMutationLocked_def Let_def commit_of_def split: option.splits)
qed

lemma CreateDomain_outcome: "atomic_outcome fr job audit m (CreateDomainWithJob fr d job audit m)"
  by (auto simp: CreateDomainWithJob_def intro: commitDomain_outcome split: option.splits)

lemma UpdateDomain_outcome: "atomic_outcome fr job audit m (UpdateDomainWithJob fr d job audit m)"
  by (auto simp: UpdateDomainWithJob_def intro: commitDomain_outcome split: option.splits)

lemma UpsertWebsite_outcome: "atomic_outcome fr job audit m (UpsertWebsiteWithJob fr w job audit m)"
proof -
  have "resource_change m (m\<lparr>Websites := mput (web_ID v) v (Websites m)\<rparr>)"
    if "mget (Domains m) (web_DomainID v) \<noteq> None" for v
    using that by (auto simp: resource_change_simps)
  from atomic_commitI [OF _ _ this] show ?thesis
    by (auto simp: UpsertWebsiteWithJob_def Let_def commit_of_def split: option.splits if_splits)
qed

lemma UpsertCertificate_outcome:
  "atomic_outcome fr job audit m (UpsertCertificateWithJob fr c job audit m)"
proof -
  have "resource_change m (m\<lparr>Certs := mput (cert_ID v) v (Certs m)\<rparr>)" for v
    by (simp add: resource_change_simps)
  from atomic_commitI [OF _ _ this] show ?thesis
    by (auto simp: UpsertCertificateWithJob_def Let_def commit_of_def split: option.splits)
qed

lemma CreateBackup_outcome: "atomic_outcome fr job audit m (CreateBackupWithJob fr b job audit m)"
proof -
  have "resource_change m (m\<lparr>Backups := mput (bak_ID v) v (Backups m)\<rparr>)" for v
    by (simp add: resource_change_simps)
  from atomic_commitI [OF _ _ this] show ?thesis
    by (auto simp: CreateBackupWithJob_def Let_def commit_of_def split: option.splits)
qed

lemma EnqueueJobWithAudit_outcome: "atomic_outcome fr job audit m (EnqueueJobWithAudit fr job audit m)"
  using atomic_commitI [OF _ _ resource_change_refl]
  by (auto simp: EnqueueJobWithAudit_def Let_def commit_of_def split: option.splits)

lemma serve_async_outcome: "atomic_outcome fr job audit m (serve_async fr q job audit m)"
  by (cases q)
    (simp_all add: UpsertApplicationWithJob_def upsert_app.commit_outcome
      UpsertDatabaseWithJob_def upsert_db.commit_outcome DeleteDatabaseWithJob_def delete_db.commit_outcome
      UpsertZoneWithJob_def upsert_zone.commit_outcome CreateRecordWithJob_def create_record.commit_outcome
      DeleteRecordWithJob_def delete_record.commit_outcome
      UpsertMailDomainWithJob_def upsert_mail_domain.commit_outcome
      UpsertMailboxWithJob_def upsert_mailbox.commit_outcome
      DeleteMailboxWithJob_def delete_mailbox.commit_outcome
      UpsertMailAliasWithJob_def upsert_alias.commit_outcome
      DeleteMailAliasWithJob_def delete_alias.commit_outcome
      UpsertCronWithJob_def upsert_cron.commit_outcome DeleteCronWithJob_def delete_cron.commit_outcome
      UpsertFTPWithJob_def upsert_ftp.commit_outcome DeleteFTPWithJob_def delete_ftp.commit_outcome
      CreateDomain_outcome UpdateDomain_outcome UpsertWebsite_outcome UpsertCertificate_outcome
      CreateBackup_outcome EnqueueJobWithAudit_outcome)

section \<open>Replays\<close>

lemma jobReplay_SomeD:
  assumes "mem_tables m" and "jobReplayLocked m j = Some r"
  shows "job_IdempotencyKey j \<noteq> []" "job_IdempotencyKey r = job_IdempotencyKey j"
    "mget (Jobs m) (job_ID r) = Some r"
proof -
  have f: "find (\<lambda>e. job_IdempotencyKey e = job_IdempotencyKey j) (mvals (Jobs m)) = Some r"
    and "job_IdempotencyKey j \<noteq> []"
    using assms(2) by (simp_all add: jobReplayLocked_def split: if_splits)
  moreover have "table job_ID (Jobs m)" using assms(1) by (simp add: mem_tables_def)
  ultimately show "job_IdempotencyKey j \<noteq> []" "job_IdempotencyKey r = job_IdempotencyKey j"
    "mget (Jobs m) (job_ID r) = Some r"
    using find_mvals_SomeD [OF _ f] by blast+
qed

lemma find_append: "find P (xs @ ys) = (case find P xs of None \<Rightarrow> find P ys | Some x \<Rightarrow> Some x)"
  by (induction xs) auto

lemma replay_after_commit:
  assumes "validateNewJobLocked m j' = None" and "job_IdempotencyKey j' \<noteq> []"
    and "job_IdempotencyKey j = job_IdempotencyKey j'" and "Jobs m' = mput (job_ID j') j' (Jobs m)"
  shows "jobReplayLocked m' j = Some j'"
proof -
  have "find (\<lambda>e. job_IdempotencyKey e = job_IdempotencyKey j') (mvals (Jobs m)) = None"
    using validated_new(2) [OF assms(1)] assms(2) by (simp add: find_None_iff)
  with assms validated_new(1) [OF assms(1)] show ?thesis
    by (simp add: jobReplayLocked_def mput_new find_append)
qed

lemma commit_replay:
  "jobReplayLocked m j = Some r \<Longrightarrow> commitAsyncMutationLocked fr (Some j) audit v w m = (Inr r, m)"
  by (simp add: commitAsyncMutationLocked_def)

text \<open>After a success the job's key answers in the state that is left.\<close>

lemma success_replays:
  assumes "atomic_outcome fr (Some j) audit m (Inr r, m')" and "job_IdempotencyKey j \<noteq> []"
  shows "jobReplayLocked m' j = Some r"
  using assms(1)
proof (cases rule: atomic_outcomeE)
  case (3 j0 j' m1)
  then show ?thesis
    using assms(2) replay_after_commit [of m j' j m']
    by (simp add: commit_of_def resource_change_def)
qed (use assms(2) in auto)

lemma commit_step:
  assumes "validateNewJobLocked m j' = None" "resource_change m m1" "job_Fence j' = 0"
  shows "job_step m (commit_of fr j' audit m1)"
  using assms by (intro job_step.commit [of m j']) (simp_all add: commit_of_def resource_change_def)

lemma commit_keeps:
  assumes "resource_change m m1" "mem_tables m"
  shows "mem_tables (commit_of fr j audit m1)" "refs_ok m \<Longrightarrow> refs_ok (commit_of fr j audit m1)"
  using assms by (simp_all add: commit_of_def resource_change_def mem_tables_def refs_ok_def)

lemma commit_cases:
  "commitAsyncMutationLocked fr job audit v w m = (r, m') \<Longrightarrow>
     m' = m \<or> (v m = None \<and> (\<exists>js evs. m' = (w m)\<lparr>Jobs := js, Audit := evs\<rparr>))"
  by (auto simp: commitAsyncMutationLocked_def Let_def split: option.splits)

section \<open>Properties\<close>


text \<open>
  C5. Every asynchronous mutation keeps the store well-formed: tables stay filed under their
  identifiers, children keep their parents, and for the queue the mutation is a step, so its
  invariant is kept too.
\<close>

theorem async_mutation_invariants:
  assumes "mem_tables m" "refs_ok m" "jobs_inv m"
    and "\<And>j. job = Some j \<Longrightarrow> job_Fence j = 0"
    and "serve_async fr q job audit m = (r, m')"
  shows "mem_tables m' \<and> refs_ok m' \<and> jobs_inv m' \<and> job_step m m'"
  using serve_async_outcome [of fr job audit m q] unfolding assms(5)
proof (cases rule: atomic_outcomeE)
  case (3 j j' m1)
  have "job_step m m'"
    using commit_step [OF 3(4,5)] 3 assms(4) by simp
  moreover from this have "jobs_inv m'" using assms(3) by (rule job_step_inv)
  ultimately show ?thesis using commit_keeps [OF 3(5) assms(1)] 3(6) assms(2) by simp
qed (use assms job_step.other in auto)

text \<open>
  Retrying a request that succeeded under an idempotency key is harmless: except for
  \<^verbatim>\<open>CreateDomainWithJob\<close>, the retry returns the same job and leaves the store as the first
  call left it, whatever identifiers and time it reads.
\<close>

theorem async_retry_replays:
  assumes s: "serve_async fr q (Some j) audit m = (Inr r, m')"
    and key: "job_IdempotencyKey j \<noteq> []" and q: "\<forall>d. q \<noteq> CreateDomainReq d"
  shows "serve_async fr' q (Some j) audit' m' = (Inr r, m')"
proof -
  have rep: "jobReplayLocked m' j = Some r"
    using serve_async_outcome [of fr "Some j" audit m q] key unfolding s by (rule success_replays)
  have "\<exists>d. q = UpdateDomainReq d \<or> (\<exists>w. q = UpsertWebsiteReq w) \<or> (\<exists>c. q = UpsertCertificateReq c) \<or>
      (\<exists>b. q = CreateBackupReq b) \<or> serve_async fr' q (Some j) audit' m' = (Inr r, m')"
    using rep q
    by (cases q) (simp_all add: UpsertApplicationWithJob_def UpsertDatabaseWithJob_def
        DeleteDatabaseWithJob_def UpsertZoneWithJob_def CreateRecordWithJob_def DeleteRecordWithJob_def
        UpsertMailDomainWithJob_def UpsertMailboxWithJob_def DeleteMailboxWithJob_def
        UpsertMailAliasWithJob_def DeleteMailAliasWithJob_def UpsertCronWithJob_def
        DeleteCronWithJob_def UpsertFTPWithJob_def DeleteFTPWithJob_def EnqueueJobWithAudit_def
        commit_replay)
  then consider d where "q = UpdateDomainReq d" | w where "q = UpsertWebsiteReq w"
    | c where "q = UpsertCertificateReq c" | b where "q = CreateBackupReq b"
    | "serve_async fr' q (Some j) audit' m' = (Inr r, m')" by blast
  then show ?thesis
    by cases (use s rep in \<open>auto simp: UpdateDomainWithJob_def UpsertWebsiteWithJob_def
        UpsertCertificateWithJob_def CreateBackupWithJob_def commitDomainMutationLocked_def Let_def
        split: option.splits if_splits\<close>)
qed

text \<open>
  \<^verbatim>\<open>CreateDomainWithJob\<close> rejects the replay of its own success: its uniqueness checks run
  before the lookup of the idempotency key, so the same request sent again fails with
  ``already exists'' where every other mutation returns the job.
\<close>

theorem CreateDomain_retry_rejected:
  assumes "CreateDomainWithJob fr (Some d) (Some j) audit m = (Inr r, m')" and "m' \<noteq> m"
  shows "CreateDomainWithJob fr' (Some d) (Some j) audit' m' = (Inl (ErrExists ''domain'' (dom_ID d)), m')"
  using assms
  by (auto simp: CreateDomainWithJob_def commitDomainMutationLocked_def Let_def
      split: if_splits option.splits)

text \<open>
  A delete request made for one account never removes another account's resource: the
  databases, mailboxes, aliases, cron entries and FTP users of other accounts, and the records
  in zones of other accounts, are the same after it.
\<close>

theorem delete_requests_isolated:
  assumes "serve_async fr q job audit m = (r, m')" and "a' \<noteq> a"
    and "q \<in> {DeleteDatabaseReq i a, DeleteMailboxReq i a, DeleteMailAliasReq i a, DeleteCronReq i a,
               DeleteFTPReq i a, DeleteRecordReq i z a}"
  shows "(\<forall>k v. mget (DBs m) k = Some v \<and> db_AccountID v = a' \<longrightarrow> mget (DBs m') k = Some v) \<and>
    (\<forall>k v. mget (Mailboxes m) k = Some v \<and> mb_AccountID v = a' \<longrightarrow> mget (Mailboxes m') k = Some v) \<and>
    (\<forall>k v. mget (Aliases m) k = Some v \<and> al_AccountID v = a' \<longrightarrow> mget (Aliases m') k = Some v) \<and>
    (\<forall>k v. mget (Crons m) k = Some v \<and> cron_AccountID v = a' \<longrightarrow> mget (Crons m') k = Some v) \<and>
    (\<forall>k v. mget (FTPs m) k = Some v \<and> ftp_AccountID v = a' \<longrightarrow> mget (FTPs m') k = Some v) \<and>
    (\<forall>k v zn. mget (Records m) k = Some v \<and> mget (Zones m) (rec_ZoneID v) = Some zn \<and>
        zone_AccountID zn = a' \<longrightarrow> mget (Records m') k = Some v)"
  using assms(3,1)
  by (auto simp: DeleteDatabaseWithJob_def DeleteMailboxWithJob_def DeleteMailAliasWithJob_def
      DeleteCronWithJob_def DeleteFTPWithJob_def DeleteRecordWithJob_def
      dest!: commit_cases)
    (use assms(2) in \<open>auto simp: DeleteDatabase_check_def DeleteDatabase_write_def
      DeleteMailbox_check_def DeleteMailbox_def DeleteMailAlias_check_def DeleteMailAlias_def
      DeleteCron_check_def DeleteCron_def DeleteFTP_check_def DeleteFTP_def
      DeleteRecord_check_def DeleteRecord_def split: option.splits if_splits\<close>)

section \<open>Witnesses\<close>

text \<open>Two accounts; the first has a domain, a mail domain and a mailbox.\<close>

definition ex_store :: memory where
  "ex_store = NewMemory\<lparr>
     Accounts := [(''a1'', account0\<lparr>acc_ID := ''a1'', acc_Username := ''alice''\<rparr>),
                  (''a2'', account0\<lparr>acc_ID := ''a2'', acc_Username := ''bob''\<rparr>)],
     Domains := [(''d1'', domain0\<lparr>dom_ID := ''d1'', dom_AccountID := ''a1'', dom_ASCII := ''a.example''\<rparr>)],
     MailDom := [(''md1'', maildomain0\<lparr>md_ID := ''md1'', md_AccountID := ''a1'', md_DomainID := ''d1''\<rparr>)],
     Mailboxes := [(''b1'', mailbox0\<lparr>mb_ID := ''b1'', mb_AccountID := ''a1'', mb_DomainID := ''md1''\<rparr>)] \<rparr>"

definition ex_fresh :: fresh where
  "ex_fresh = \<lparr> fr_job = ''j9'', fr_audit = ''e9'', fr_now = 100 \<rparr>"

definition ex_mutation_job :: job where
  "ex_mutation_job = job0\<lparr> job_Type := ''mailbox.create'', job_IdempotencyKey := ''k1'', job_RequestID := ''r1'' \<rparr>"

definition ex_mailbox :: mailbox where
  "ex_mailbox = mailbox0\<lparr>mb_ID := ''b2'', mb_AccountID := ''a1'', mb_DomainID := ''md1''\<rparr>"

definition ex_commit :: commit_result where
  "ex_commit = serve_async ex_fresh (UpsertMailboxReq (Some ex_mailbox)) (Some ex_mutation_job) auditevent0 ex_store"

lemma ex_store_ok: "mem_tables ex_store" "refs_ok ex_store" "jobs_inv ex_store"
proof -
  show "mem_tables ex_store"
    by (simp add: ex_store_def mem_tables_def NewMemory_def account0_def domain0_def maildomain0_def mailbox0_def)
  show "refs_ok ex_store"
    by (simp add: ex_store_def refs_ok_def NewMemory_def maildomain0_def mailbox0_def)
  show "jobs_inv ex_store"
    by (rule jobs_inv_queue_part [OF _ NewMemory_jobs_inv]) (simp add: queue_part_def ex_store_def NewMemory_def)
qed

lemma ex_served:
  "serve_async ex_fresh (UpsertMailboxReq (Some ex_mailbox)) (Some ex_mutation_job) auditevent0 ex_store =
     (Inr (projr (fst ex_commit)), snd ex_commit)"
  by code_simp


theorem async_mutation_invariants_witness:
  "mem_tables (snd ex_commit) \<and> refs_ok (snd ex_commit) \<and> jobs_inv (snd ex_commit) \<and>
     job_step ex_store (snd ex_commit)"
  by (rule async_mutation_invariants [OF ex_store_ok _ ex_served]) (simp add: ex_mutation_job_def job0_def)

theorem async_retry_replays_witness:
  "serve_async (ex_fresh\<lparr>fr_job := ''other''\<rparr>) (UpsertMailboxReq (Some ex_mailbox)) (Some ex_mutation_job) auditevent0
     (snd ex_commit) = (Inr (projr (fst ex_commit)), snd ex_commit)"
  by (rule async_retry_replays [OF ex_served]) (simp_all add: ex_mutation_job_def)

definition ex_domain :: domain where
  "ex_domain = domain0\<lparr>dom_ID := ''d2'', dom_AccountID := ''a1'', dom_ASCII := ''b.example''\<rparr>"

definition ex_create :: commit_result where
  "ex_create = CreateDomainWithJob ex_fresh (Some ex_domain) (Some ex_mutation_job) auditevent0 ex_store"

theorem CreateDomain_retry_rejected_witness:
  "CreateDomainWithJob ex_fresh (Some ex_domain) (Some ex_mutation_job) auditevent0 (snd ex_create) =
     (Inl (ErrExists ''domain'' ''d2''), snd ex_create)"
proof -
  have "CreateDomainWithJob ex_fresh (Some ex_domain) (Some ex_mutation_job) auditevent0 ex_store =
      (Inr (projr (fst ex_create)), snd ex_create)" "snd ex_create \<noteq> ex_store" "dom_ID ex_domain = ''d2''"
    by code_simp+
  then show ?thesis using CreateDomain_retry_rejected by metis
qed

theorem delete_requests_isolated_witness:
  "mget (Mailboxes (snd (serve_async ex_fresh (DeleteMailboxReq ''b1'' ''a2'') (Some ex_mutation_job) auditevent0 ex_store)))
     ''b1'' \<noteq> None"
proof -
  let ?out = "serve_async ex_fresh (DeleteMailboxReq ''b1'' ''a2'') (Some ex_mutation_job) auditevent0 ex_store"
  obtain b where "mget (Mailboxes ex_store) ''b1'' = Some b" "mb_AccountID b = ''a1''"
    by (simp add: ex_store_def mailbox0_def)
  then show ?thesis
    using delete_requests_isolated [of ex_fresh "DeleteMailboxReq ''b1'' ''a2''" "Some ex_mutation_job" auditevent0 ex_store
        "fst ?out" "snd ?out" "''a1''" "''a2''" "''b1''"] by auto
qed

end
