(* ===== verification/Store_Accounts.thy ===== *)
theory Store_Accounts
  imports Store_Commit
begin

text \<open>
  The life of a hosting account in the store: creation with its owner and first domain, updates
  under optimistic concurrency, import of a whole account, and purge
  (\<^verbatim>\<open>internal/store/memory.go\<close>, \<^verbatim>\<open>internal/store/import_atomic.go\<close>).

  The lemmas show that names, addresses and Linux user identifiers stay unique, that of two
  updates prepared from one revision the second is refused, that an import brings in a closed
  set of objects owned by the account, and that a purge removes the account's objects and no
  others.
\<close>

section \<open>Creation\<close>

definition append_audit :: "fresh \<Rightarrow> job \<Rightarrow> auditevent option \<Rightarrow> memory \<Rightarrow> memory" where
  "append_audit fr j audit m =
     (case audit of None \<Rightarrow> m | Some ev \<Rightarrow> m\<lparr>Audit := Audit m @ [normalizeAudit fr j ev]\<rparr>)"

text \<open>\<^verbatim>\<open>if account.LinuxUID < 20000 { ... m.NextUID++ }\<close>\<close>

definition assign_uid :: "account \<Rightarrow> memory \<Rightarrow> account \<times> memory" where
  "assign_uid a m =
     (if acc_LinuxUID a < 20000
      then (a\<lparr>acc_LinuxUID := NextUID m, acc_LinuxGID := NextUID m\<rparr>, m\<lparr>NextUID := NextUID m + 1\<rparr>)
      else (a, m))"

definition with_revision :: "account \<Rightarrow> job \<Rightarrow> job" where
  "with_revision a j = (if job_TargetRevision j = 0 then j\<lparr>job_TargetRevision := acc_DesiredRevision a\<rparr> else j)"

text \<open>The checks between the replay and the normalisation of the job, in the code's order.\<close>

definition user_clash :: "user \<Rightarrow> user \<Rightarrow> store_error option" where
  "user_clash owner e =
     (if usr_Username e = usr_Username owner then Some (ErrExists ''username'' (usr_Username owner))
      else if usr_Email e = usr_Email owner then Some (ErrExists ''email'' (usr_Email owner))
      else None)"

text \<open>A loop that returns the first error.\<close>

fun first_error :: "('a \<Rightarrow> store_error option) \<Rightarrow> 'a list \<Rightarrow> store_error option" where
  "first_error f [] = None"
| "first_error f (x # xs) = (case f x of Some e \<Rightarrow> Some e | None \<Rightarrow> first_error f xs)"

definition create_account_checks ::
    "user \<Rightarrow> account \<Rightarrow> domain \<Rightarrow> string list \<Rightarrow> memory \<Rightarrow> store_error option" where
  "create_account_checks owner a d members m =
     (if mget (Packages m) (acc_PackageID a) = None then Some (ErrNotFound ''package'' (acc_PackageID a))
      else if acc_ResellerID a \<noteq> '''' \<and> mget (Resellers m) (acc_ResellerID a) = None
      then Some (ErrNotFound ''reseller'' (acc_ResellerID a))
      else if mget (Users m) (usr_ID owner) \<noteq> None then Some (ErrExists ''user'' (usr_ID owner))
      else case first_error (user_clash owner) (mvals (Users m)) of Some e \<Rightarrow> Some e | None \<Rightarrow>
      if mget (Accounts m) (acc_ID a) \<noteq> None then Some (ErrExists ''account'' (acc_ID a))
      else if \<exists>e \<in> set (mvals (Accounts m)). acc_Username e = acc_Username a
      then Some (ErrExists ''account username'' (acc_Username a))
      else if mget (Domains m) (dom_ID d) \<noteq> None then Some (ErrExists ''domain'' (dom_ID d))
      else if \<exists>e \<in> set (mvals (Domains m)). dom_ASCII e = dom_ASCII d
      then Some (ErrExists ''domain'' (dom_ASCII d))
      else first_error (\<lambda>uid. if uid = '''' \<or> (uid \<noteq> usr_ID owner \<and> mget (Users m) uid = None)
                              then Some (ErrNotFound ''member user'' uid) else None) members)"

definition createAccountWithJob ::
    "fresh \<Rightarrow> user option \<Rightarrow> account option \<Rightarrow> domain option \<Rightarrow> string list \<Rightarrow> job option \<Rightarrow>
     auditevent option \<Rightarrow> memory \<Rightarrow> commit_result" where
  "createAccountWithJob fr owner account domain members job audit m =
     (case (owner, account, domain, job) of
        (Some u, Some a, Some d, Some j) \<Rightarrow>
          if usr_ID u = '''' \<or> acc_ID a = '''' \<or> dom_ID d = ''''
          then (Inl (ErrRequired ''owner, account, and domain IDs''), m)
          else if acc_OwnerUserID a \<noteq> usr_ID u
          then (Inl (ErrMismatch ''account owner'' (acc_OwnerUserID a) (usr_ID u)), m)
          else if dom_AccountID d \<noteq> acc_ID a
          then (Inl (ErrMismatch ''domain account'' (dom_AccountID d) (acc_ID a)), m)
          else if job_ResourceID j \<noteq> '''' \<and> job_ResourceID j \<noteq> acc_ID a
          then (Inl (ErrMismatch ''job resource'' (job_ResourceID j) (acc_ID a)), m)
          else
            (case jobReplayLocked m j of
               Some replay \<Rightarrow> (Inr replay, m)
             | None \<Rightarrow>
                 (case create_account_checks u a d members m of
                    Some e \<Rightarrow> (Inl e, m)
                  | None \<Rightarrow>
                      (let j' = normalizeJob (fr_job fr) (fr_now fr) (with_revision a j)
                       in case validateNewJobLocked m j' of
                            Some e \<Rightarrow> (Inl e, m)
                          | None \<Rightarrow>
                              (let (a', m1) = assign_uid a m
                               in (Inr j', append_audit fr j' audit
                                     (m1\<lparr> Users := mput (usr_ID u) u (Users m1),
                                          Accounts := mput (acc_ID a') a' (Accounts m1),
                                          Members := mput (acc_ID a') (unique members) (Members m1),
                                          Domains := mput (dom_ID d) d (Domains m1),
                                          Jobs := mput (job_ID j') j' (Jobs m1) \<rparr>))))))
      | _ \<Rightarrow> (Inl (ErrRequired ''owner, account, domain, and job''), m))"

definition CreateAccountWithJob ::
    "fresh \<Rightarrow> user option \<Rightarrow> account option \<Rightarrow> domain option \<Rightarrow> string list \<Rightarrow> job option \<Rightarrow>
     memory \<Rightarrow> commit_result" where
  "CreateAccountWithJob fr owner account domain members job =
     createAccountWithJob fr owner account domain members job None"

definition CreateAccountWithJobAndAudit ::
    "fresh \<Rightarrow> user option \<Rightarrow> account option \<Rightarrow> domain option \<Rightarrow> string list \<Rightarrow> job option \<Rightarrow>
     auditevent \<Rightarrow> memory \<Rightarrow> commit_result" where
  "CreateAccountWithJobAndAudit fr owner account domain members job audit =
     createAccountWithJob fr owner account domain members job (Some audit)"

section \<open>Update\<close>

definition updateAccountWithJob ::
    "fresh \<Rightarrow> account option \<Rightarrow> job option \<Rightarrow> auditevent option \<Rightarrow> memory \<Rightarrow> commit_result" where
  "updateAccountWithJob fr account job audit m =
     (case (account, job) of
        (Some a, Some j) \<Rightarrow>
          (case jobReplayLocked m j of
             Some replay \<Rightarrow> (Inr replay, m)
           | None \<Rightarrow>
               (case (if acc_ID a = '''' then None else mget (Accounts m) (acc_ID a)) of
                  None \<Rightarrow> (Inl (ErrNotFound ''account'' (acc_ID a)), m)
                | Some current \<Rightarrow>
                    if acc_DesiredRevision a \<noteq> acc_DesiredRevision current + 1
                    then (Inl (ErrStaleAccount (acc_ID a)), m)
                    else if job_ResourceID j \<noteq> '''' \<and> job_ResourceID j \<noteq> acc_ID a
                    then (Inl (ErrMismatch ''job resource'' (job_ResourceID j) (acc_ID a)), m)
                    else if mget (Packages m) (acc_PackageID a) = None
                    then (Inl (ErrNotFound ''package'' (acc_PackageID a)), m)
                    else if acc_ResellerID a \<noteq> '''' \<and> mget (Resellers m) (acc_ResellerID a) = None
                    then (Inl (ErrNotFound ''reseller'' (acc_ResellerID a)), m)
                    else
                      (let j' = normalizeJob (fr_job fr) (fr_now fr) (with_revision a j)
                       in case validateNewJobLocked m j' of
                            Some e \<Rightarrow> (Inl e, m)
                          | None \<Rightarrow>
                              (Inr j', append_audit fr j' audit
                                 (m\<lparr> Accounts := mput (acc_ID a) a (Accounts m),
                                     Jobs := mput (job_ID j') j' (Jobs m) \<rparr>)))))
      | _ \<Rightarrow> (Inl (ErrRequired ''account and job''), m))"

definition UpdateAccountWithJob ::
    "fresh \<Rightarrow> account option \<Rightarrow> job option \<Rightarrow> memory \<Rightarrow> commit_result" where
  "UpdateAccountWithJob fr account job = updateAccountWithJob fr account job None"

definition UpdateAccountWithJobAndAudit ::
    "fresh \<Rightarrow> account option \<Rightarrow> job option \<Rightarrow> auditevent \<Rightarrow> memory \<Rightarrow> commit_result" where
  "UpdateAccountWithJobAndAudit fr account job audit = updateAccountWithJob fr account job (Some audit)"

section \<open>Purge\<close>

text \<open>\<^verbatim>\<open>memoryOwnerStillReferenced\<close>\<close>

definition memoryOwnerStillReferenced :: "memory \<Rightarrow> string \<Rightarrow> bool" where
  "memoryOwnerStillReferenced m uid \<longleftrightarrow>
     (\<exists>a \<in> set (mvals (Accounts m)). acc_OwnerUserID a = uid) \<or>
     (\<exists>r \<in> set (mvals (Resellers m)). rsl_UserID r = uid) \<or>
     (case mget (Users m) uid of
        None \<Rightarrow> False
      | Some u \<Rightarrow> \<exists>role \<in> set (usr_Roles u). role \<noteq> '''' \<and> role \<noteq> ''customer_owner'')"

definition purge_domains :: "string \<Rightarrow> memory \<Rightarrow> memory" where
  "purge_domains aid m = fold (\<lambda>d. DeleteDomain (dom_ID d)) (ListDomains m aid) m"

definition purge_websites :: "string \<Rightarrow> memory \<Rightarrow> memory" where
  "purge_websites aid m = fold (\<lambda>w. DeleteWebsite (web_ID w)) (ListWebsites m aid) m"

definition purge_apps :: "string \<Rightarrow> memory \<Rightarrow> memory" where
  "purge_apps aid m = fold (\<lambda>a. DeleteApp (app_ID a)) (ListApps m aid) m"

definition purge_dbs :: "string \<Rightarrow> memory \<Rightarrow> memory" where
  "purge_dbs aid m = fold (\<lambda>d. DeleteDB (db_ID d)) (ListDBs m aid) m"

text \<open>The part that runs under one lock.\<close>

definition purge_tables :: "string \<Rightarrow> memory \<Rightarrow> memory" where
  "purge_tables aid m =
     m\<lparr> DBUsers := mdel_if (\<lambda>_ u. dbu_AccountID u = aid) (DBUsers m),
        Certs := mdel_if (\<lambda>_ c. cert_AccountID c = aid) (Certs m),
        Backups := mdel_if (\<lambda>_ b. bak_AccountID b = aid) (Backups m),
        Restores := mdel_if (\<lambda>_ r. rst_AccountID r = aid) (Restores m),
        Crons := mdel_if (\<lambda>_ c. cron_AccountID c = aid) (Crons m),
        SSHKeys := mdel_if (\<lambda>_ k. ssh_AccountID k = aid) (SSHKeys m),
        FTPs := mdel_if (\<lambda>_ f. ftp_AccountID f = aid) (FTPs m),
        Usages := mdel aid (Usages m),
        Members := mdel aid (Members m),
        Accounts := mdel aid (Accounts m) \<rparr>"

definition purge_owner :: "string \<Rightarrow> memory \<Rightarrow> memory" where
  "purge_owner uid m =
     (if uid \<noteq> '''' \<and> \<not> memoryOwnerStillReferenced m uid
      then m\<lparr> Sessions := mdel_if (\<lambda>_ s. ses_UserID s = uid) (Sessions m),
              Tokens := mdel_if (\<lambda>_ t. tok_UserID t = uid) (Tokens m),
              Users := mdel uid (Users m) \<rparr>
      else m)"

definition PurgeAccount :: "string \<Rightarrow> memory \<Rightarrow> memory" where
  "PurgeAccount aid m =
     (case GetAccount m aid of
        None \<Rightarrow> m
      | Some acc \<Rightarrow>
          purge_owner (acc_OwnerUserID acc)
            (purge_tables aid (purge_dbs aid (purge_apps aid (purge_websites aid (purge_domains aid m))))))"

section \<open>Import\<close>

text \<open>
  Validation of an import. The loops over domains, websites, mail domains and zones also build
  the maps the later loops look into; the others only check.
\<close>

fun import_domains ::
    "memory \<Rightarrow> string \<Rightarrow> (string, domain) gomap \<Rightarrow> domain list \<Rightarrow> (string, domain) gomap res" where
  "import_domains m aid acc [] = Inr acc"
| "import_domains m aid acc (d # ds) =
     (if dom_ID d = '''' \<or> dom_AccountID d \<noteq> aid \<or> mget (Domains m) (dom_ID d) \<noteq> None
      then Inl (ErrInvalid ''domain'' (dom_ID d))
      else if \<exists>e \<in> set (mvals (Domains m)). dom_ASCII d \<noteq> '''' \<and> dom_ASCII e = dom_ASCII d
      then Inl (ErrExists ''domain'' (dom_ASCII d))
      else if mget acc (dom_ID d) \<noteq> None
      then Inl (ErrExists ''imported domain'' (dom_ID d))
      else import_domains m aid (mput (dom_ID d) d acc) ds)"

definition owned_domain :: "(string, domain) gomap \<Rightarrow> string \<Rightarrow> string \<Rightarrow> bool" where
  "owned_domain domains aid i \<longleftrightarrow>
     (case mget domains i of None \<Rightarrow> False | Some d \<Rightarrow> dom_AccountID d = aid)"

fun import_websites ::
    "memory \<Rightarrow> string \<Rightarrow> (string, domain) gomap \<Rightarrow> (string, website) gomap \<Rightarrow> website list \<Rightarrow>
     (string, website) gomap res" where
  "import_websites m aid domains acc [] = Inr acc"
| "import_websites m aid domains acc (w # ws) =
     (if web_ID w = '''' \<or> web_AccountID w \<noteq> aid \<or> \<not> owned_domain domains aid (web_DomainID w) \<or>
         mget (Websites m) (web_ID w) \<noteq> None
      then Inl (ErrInvalid ''website'' (web_ID w))
      else if mget acc (web_ID w) \<noteq> None
      then Inl (ErrExists ''imported website'' (web_ID w))
      else import_websites m aid domains (mput (web_ID w) w acc) ws)"

fun import_maildomains ::
    "memory \<Rightarrow> string \<Rightarrow> (string, domain) gomap \<Rightarrow> (string, maildomain) gomap \<Rightarrow> maildomain list \<Rightarrow>
     (string, maildomain) gomap res" where
  "import_maildomains m aid domains acc [] = Inr acc"
| "import_maildomains m aid domains acc (d # ds) =
     (if md_ID d = '''' \<or> md_AccountID d \<noteq> aid \<or> \<not> owned_domain domains aid (md_DomainID d) \<or>
         mget (MailDom m) (md_ID d) \<noteq> None
      then Inl (ErrInvalid ''mail domain'' (md_ID d))
      else import_maildomains m aid domains (mput (md_ID d) d acc) ds)"

fun import_zones ::
    "memory \<Rightarrow> string \<Rightarrow> (string, domain) gomap \<Rightarrow> (string, dnszone) gomap \<Rightarrow> dnszone list \<Rightarrow>
     (string, dnszone) gomap res" where
  "import_zones m aid domains acc [] = Inr acc"
| "import_zones m aid domains acc (z # zs) =
     (if zone_ID z = '''' \<or> zone_AccountID z \<noteq> aid \<or> \<not> owned_domain domains aid (zone_DomainID z) \<or>
         mget (Zones m) (zone_ID z) \<noteq> None
      then Inl (ErrInvalid ''DNS zone'' (zone_ID z))
      else import_zones m aid domains (mput (zone_ID z) z acc) zs)"

definition import_app_error ::
    "memory \<Rightarrow> string \<Rightarrow> (string, website) gomap \<Rightarrow> application \<Rightarrow> store_error option" where
  "import_app_error m aid websites a =
     (if app_ID a = '''' \<or> app_AccountID a \<noteq> aid \<or>
         (case mget websites (app_WebsiteID a) of None \<Rightarrow> True | Some w \<Rightarrow> web_AccountID w \<noteq> aid) \<or>
         mget (Apps m) (app_ID a) \<noteq> None
      then Some (ErrInvalid ''application'' (app_ID a)) else None)"

definition import_db_error :: "memory \<Rightarrow> string \<Rightarrow> hosteddb \<Rightarrow> store_error option" where
  "import_db_error m aid d =
     (if db_ID d = '''' \<or> db_AccountID d \<noteq> aid \<or> mget (DBs m) (db_ID d) \<noteq> None
      then Some (ErrInvalid ''database'' (db_ID d)) else None)"

definition import_dbuser_error :: "memory \<Rightarrow> string \<Rightarrow> dbuser \<Rightarrow> store_error option" where
  "import_dbuser_error m aid u =
     (if dbu_ID u = '''' \<or> dbu_AccountID u \<noteq> aid \<or> mget (DBUsers m) (dbu_ID u) \<noteq> None
      then Some (ErrInvalid ''database user'' (dbu_ID u)) else None)"

definition owned_maildomain :: "(string, maildomain) gomap \<Rightarrow> string \<Rightarrow> string \<Rightarrow> bool" where
  "owned_maildomain mailDomains aid i \<longleftrightarrow>
     (case mget mailDomains i of None \<Rightarrow> False | Some d \<Rightarrow> md_AccountID d = aid)"

definition import_mailbox_error ::
    "memory \<Rightarrow> string \<Rightarrow> (string, maildomain) gomap \<Rightarrow> mailbox \<Rightarrow> store_error option" where
  "import_mailbox_error m aid mailDomains b =
     (if mb_ID b = '''' \<or> mb_AccountID b \<noteq> aid \<or> \<not> owned_maildomain mailDomains aid (mb_DomainID b) \<or>
         mget (Mailboxes m) (mb_ID b) \<noteq> None
      then Some (ErrInvalid ''mailbox'' (mb_ID b)) else None)"

definition import_alias_error ::
    "memory \<Rightarrow> string \<Rightarrow> (string, maildomain) gomap \<Rightarrow> mailalias \<Rightarrow> store_error option" where
  "import_alias_error m aid mailDomains a =
     (if al_ID a = '''' \<or> al_AccountID a \<noteq> aid \<or> \<not> owned_maildomain mailDomains aid (al_DomainID a) \<or>
         mget (Aliases m) (al_ID a) \<noteq> None
      then Some (ErrInvalid ''mail alias'' (al_ID a)) else None)"

definition import_record_error ::
    "memory \<Rightarrow> (string, dnszone) gomap \<Rightarrow> dnsrecord \<Rightarrow> store_error option" where
  "import_record_error m zones r =
     (if rec_ID r = '''' \<or> mget (Records m) (rec_ID r) \<noteq> None
      then Some (ErrInvalid ''DNS record'' (rec_ID r))
      else if mget zones (rec_ZoneID r) = None then Some (ErrNotFound ''DNS record zone'' (rec_ID r))
      else None)"

definition import_cron_error :: "memory \<Rightarrow> string \<Rightarrow> cronjob \<Rightarrow> store_error option" where
  "import_cron_error m aid c =
     (if cron_ID c = '''' \<or> cron_AccountID c \<noteq> aid \<or> mget (Crons m) (cron_ID c) \<noteq> None
      then Some (ErrInvalid ''cron'' (cron_ID c)) else None)"

definition import_ssh_error :: "memory \<Rightarrow> string \<Rightarrow> sshkey \<Rightarrow> store_error option" where
  "import_ssh_error m aid k =
     (if ssh_ID k = '''' \<or> ssh_AccountID k \<noteq> aid \<or> mget (SSHKeys m) (ssh_ID k) \<noteq> None
      then Some (ErrInvalid ''SSH key'' (ssh_ID k)) else None)"

definition import_ftp_error :: "memory \<Rightarrow> string \<Rightarrow> ftpaccount \<Rightarrow> store_error option" where
  "import_ftp_error m aid f =
     (if ftp_ID f = '''' \<or> ftp_AccountID f \<noteq> aid \<or> mget (FTPs m) (ftp_ID f) \<noteq> None
      then Some (ErrInvalid ''FTP account'' (ftp_ID f))
      else if \<exists>e \<in> set (mvals (FTPs m)). ftp_Username e = ftp_Username f
      then Some (ErrExists ''FTP username'' (ftp_Username f))
      else None)"

record import_plan =
  pl_domains :: "(string, domain) gomap"
  pl_websites :: "(string, website) gomap"
  pl_mailDomains :: "(string, maildomain) gomap"
  pl_zones :: "(string, dnszone) gomap"

text \<open>\<^verbatim>\<open>if err != nil { return nil, err }\<close> between the loops.\<close>

definition and_then :: "'a res \<Rightarrow> ('a \<Rightarrow> 'b res) \<Rightarrow> 'b res" where
  "and_then r f = (case r of Inl e \<Rightarrow> Inl e | Inr x \<Rightarrow> f x)"

definition unless_error :: "store_error option \<Rightarrow> 'a res \<Rightarrow> 'a res" where
  "unless_error oe r = (case oe of Some e \<Rightarrow> Inl e | None \<Rightarrow> r)"

definition import_validate :: "memory \<Rightarrow> accountimport \<Rightarrow> import_plan res" where
  "import_validate m im =
     (let aid = acc_ID (imp_Account im)
      in and_then (import_domains m aid [] (imp_Domains im)) (\<lambda>domains.
         and_then (import_websites m aid domains [] (imp_Websites im)) (\<lambda>websites.
         unless_error (first_error (import_app_error m aid websites) (imp_Applications im)) (
         unless_error (first_error (import_db_error m aid) (imp_Databases im)) (
         unless_error (first_error (import_dbuser_error m aid) (imp_DatabaseUsers im)) (
         and_then (import_maildomains m aid domains [] (imp_MailDomains im)) (\<lambda>mailDomains.
         unless_error (first_error (import_mailbox_error m aid mailDomains) (imp_Mailboxes im)) (
         unless_error (first_error (import_alias_error m aid mailDomains) (imp_Aliases im)) (
         and_then (import_zones m aid domains [] (imp_Zones im)) (\<lambda>zones.
         unless_error (first_error (import_record_error m zones) (imp_Records im)) (
         unless_error (first_error (import_cron_error m aid) (imp_Crons im)) (
         unless_error (first_error (import_ssh_error m aid) (imp_SSH im)) (
         unless_error (first_error (import_ftp_error m aid) (imp_FTP im)) (
         Inr \<lparr> pl_domains = domains, pl_websites = websites,
               pl_mailDomains = mailDomains, pl_zones = zones \<rparr>))))))))))))))"

definition put_all :: "('v \<Rightarrow> 'k) \<Rightarrow> 'v list \<Rightarrow> ('k, 'v) gomap \<Rightarrow> ('k, 'v) gomap" where
  "put_all idof vs t = fold (\<lambda>v. mput (idof v) v) vs t"

definition put_map :: "('k, 'v) gomap \<Rightarrow> ('k, 'v) gomap \<Rightarrow> ('k, 'v) gomap" where
  "put_map new t = fold (\<lambda>(k, v). mput k v) new t"

definition import_write :: "account \<Rightarrow> accountimport \<Rightarrow> import_plan \<Rightarrow> memory \<Rightarrow> memory" where
  "import_write a im pl m =
     m\<lparr> Accounts := mput (acc_ID a) a (Accounts m),
        Domains := put_map (pl_domains pl) (Domains m),
        Websites := put_map (pl_websites pl) (Websites m),
        Apps := put_all app_ID (imp_Applications im) (Apps m),
        DBs := put_all db_ID (imp_Databases im) (DBs m),
        DBUsers := put_all dbu_ID (imp_DatabaseUsers im) (DBUsers m),
        MailDom := put_map (pl_mailDomains pl) (MailDom m),
        Mailboxes := put_all mb_ID (imp_Mailboxes im) (Mailboxes m),
        Aliases := put_all al_ID (imp_Aliases im) (Aliases m),
        Zones := put_map (pl_zones pl) (Zones m),
        Records := put_all rec_ID (imp_Records im) (Records m),
        Crons := put_all cron_ID (imp_Crons im) (Crons m),
        SSHKeys := put_all ssh_ID (imp_SSH im) (SSHKeys m),
        FTPs := put_all ftp_ID (imp_FTP im) (FTPs m) \<rparr>"

definition importAccountWithJob ::
    "fresh \<Rightarrow> accountimport option \<Rightarrow> job option \<Rightarrow> auditevent option \<Rightarrow> memory \<Rightarrow> commit_result" where
  "importAccountWithJob fr imported job audit m =
     (case (imported, job) of
        (Some im, Some j) \<Rightarrow>
          (let a = imp_Account im
           in if acc_ID a = '''' \<or> acc_OwnerUserID a = '''' \<or> mget (Users m) (acc_OwnerUserID a) = None
              then (Inl (ErrRequired ''import account owner''), m)
              else if mget (Packages m) (acc_PackageID a) = None
              then (Inl (ErrNotFound ''package'' (acc_PackageID a)), m)
              else if mget (Accounts m) (acc_ID a) \<noteq> None
              then (Inl (ErrExists ''account'' (acc_ID a)), m)
              else if \<exists>e \<in> set (mvals (Accounts m)). acc_Username e = acc_Username a
              then (Inl (ErrExists ''account username'' (acc_Username a)), m)
              else
                (case jobReplayLocked m j of
                   Some replay \<Rightarrow> (Inr replay, m)
                 | None \<Rightarrow>
                     (case import_validate m im of
                        Inl e \<Rightarrow> (Inl e, m)
                      | Inr pl \<Rightarrow>
                          (let j' = normalizeJob (fr_job fr) (fr_now fr) (with_revision a j)
                           in case validateNewJobLocked m j' of
                                Some e \<Rightarrow> (Inl e, m)
                              | None \<Rightarrow>
                                  (let (a', m1) = assign_uid a m;
                                       m2 = import_write a' im pl m1
                                   in (Inr j', append_audit fr j' audit
                                         (m2\<lparr>Jobs := mput (job_ID j') j' (Jobs m2)\<rparr>)))))))
      | _ \<Rightarrow> (Inl (ErrRequired ''import and job''), m))"

definition ImportAccountWithJob ::
    "fresh \<Rightarrow> accountimport option \<Rightarrow> job option \<Rightarrow> memory \<Rightarrow> commit_result" where
  "ImportAccountWithJob fr imported job = importAccountWithJob fr imported job None"

definition ImportAccountWithJobAndAudit ::
    "fresh \<Rightarrow> accountimport option \<Rightarrow> job option \<Rightarrow> auditevent \<Rightarrow> memory \<Rightarrow> commit_result" where
  "ImportAccountWithJobAndAudit fr imported job audit = importAccountWithJob fr imported job (Some audit)"

section \<open>Unique identities\<close>

text \<open>No two entries of a table agree on \<open>f\<close>.\<close>

definition uniq_by :: "('v \<Rightarrow> 'x) \<Rightarrow> ('k, 'v) gomap \<Rightarrow> bool" where
  "uniq_by f t \<longleftrightarrow> (\<forall>k v k' v'. mget t k = Some v \<longrightarrow> mget t k' = Some v' \<longrightarrow> f v = f v' \<longrightarrow> k = k')"

lemma uniq_by_put [intro]:
  assumes u: "uniq_by f t" and new: "\<And>k' v'. mget t k' = Some v' \<Longrightarrow> k' \<noteq> k \<Longrightarrow> f v' \<noteq> f v"
  shows "uniq_by f (mput k v t)"
  unfolding uniq_by_def
proof (intro allI impI)
  fix k1 v1 k2 v2
  assume a: "mget (mput k v t) k1 = Some v1" "mget (mput k v t) k2 = Some v2" "f v1 = f v2"
  show "k1 = k2"
  proof (rule ccontr)
    assume ne: "k1 \<noteq> k2"
    consider "k1 = k" | "k2 = k" | "k1 \<noteq> k" "k2 \<noteq> k" by blast
    then show False
    proof cases
      case 1
      with a(1,2) ne have "v1 = v" "mget t k2 = Some v2" by simp_all
      with a(3) new 1 ne show False by metis
    next
      case 2
      with a(1,2) ne have "v2 = v" "mget t k1 = Some v1" by simp_all
      with a(3) new 2 ne show False by metis
    next
      case 3
      with a(1,2) have "mget t k1 = Some v1" "mget t k2 = Some v2" by simp_all
      with a(3) u ne show False unfolding uniq_by_def by metis
    qed
  qed
qed

text \<open>Linux user identifiers are unique and below the next one to hand out.\<close>

definition uids_ok :: "memory \<Rightarrow> bool" where
  "uids_ok m \<longleftrightarrow> 20000 \<le> NextUID m \<and> uniq_by acc_LinuxUID (Accounts m) \<and>
     (\<forall>k a. mget (Accounts m) k = Some a \<longrightarrow> 20000 \<le> acc_LinuxUID a \<and> acc_LinuxUID a < NextUID m)"

definition identities_ok :: "memory \<Rightarrow> bool" where
  "identities_ok m \<longleftrightarrow> uniq_by acc_Username (Accounts m) \<and> uniq_by usr_Username (Users m) \<and>
     uniq_by usr_Email (Users m) \<and> uids_ok m"

lemma first_error_None: "first_error f xs = None \<longleftrightarrow> (\<forall>x \<in> set xs. f x = None)"
  by (induction xs) (auto split: option.splits)

lemma append_audit_sel [simp]:
  "Users (append_audit fr j au m) = Users m" "Accounts (append_audit fr j au m) = Accounts m"
  "Domains (append_audit fr j au m) = Domains m" "Jobs (append_audit fr j au m) = Jobs m"
  "Members (append_audit fr j au m) = Members m" "NextUID (append_audit fr j au m) = NextUID m"
  "resourceFences (append_audit fr j au m) = resourceFences m"
  "mem_tables (append_audit fr j au m) = mem_tables m" "refs_ok (append_audit fr j au m) = refs_ok m"
  by (simp_all add: append_audit_def mem_tables_def refs_ok_def split: option.split)

lemma assign_uid_sel [simp]:
  "acc_ID (fst (assign_uid a m)) = acc_ID a" "acc_Username (fst (assign_uid a m)) = acc_Username a"
  "Accounts (snd (assign_uid a m)) = Accounts m" "Users (snd (assign_uid a m)) = Users m"
  "Domains (snd (assign_uid a m)) = Domains m" "Jobs (snd (assign_uid a m)) = Jobs m"
  "Members (snd (assign_uid a m)) = Members m" "resourceFences (snd (assign_uid a m)) = resourceFences m"
  "mem_tables (snd (assign_uid a m)) = mem_tables m" "refs_ok (snd (assign_uid a m)) = refs_ok m"
  by (simp_all add: assign_uid_def mem_tables_def refs_ok_def)

text \<open>A fresh identifier keeps the identifiers unique.\<close>

lemma assign_uid_ok:
  assumes "uids_ok m" "acc_LinuxUID a < 20000"
    and "Accounts m' = mput (acc_ID a) (fst (assign_uid a m)) (Accounts m)"
    and "NextUID m' = NextUID (snd (assign_uid a m))"
  shows "uids_ok m'"
  unfolding uids_ok_def assms(3,4)
proof (intro conjI allI impI)
  have below: "mget (Accounts m) k = Some e \<Longrightarrow> 20000 \<le> acc_LinuxUID e \<and> acc_LinuxUID e < NextUID m" for k e
    using assms(1) by (simp add: uids_ok_def)
  show "20000 \<le> NextUID (snd (assign_uid a m))"
    using assms(1,2) by (simp add: uids_ok_def assign_uid_def)
  show "uniq_by acc_LinuxUID (mput (acc_ID a) (fst (assign_uid a m)) (Accounts m))"
    using assms(1,2) by (intro uniq_by_put) (auto simp: uids_ok_def assign_uid_def dest: below)
  fix k e
  assume "mget (mput (acc_ID a) (fst (assign_uid a m)) (Accounts m)) k = Some e"
  then show "20000 \<le> acc_LinuxUID e" "acc_LinuxUID e < NextUID (snd (assign_uid a m))"
    using assms(1,2) below [of k e]
    by (auto simp: uids_ok_def [of m] assign_uid_def less_imp_le split: if_splits)
qed

text \<open>The state a successful creation leaves.\<close>

definition create_commit ::
    "fresh \<Rightarrow> user \<Rightarrow> account \<Rightarrow> domain \<Rightarrow> string list \<Rightarrow> auditevent option \<Rightarrow> job \<Rightarrow> memory \<Rightarrow> memory" where
  "create_commit fr u a d members au j' m =
     append_audit fr j' au ((snd (assign_uid a m))\<lparr>
        Users := mput (usr_ID u) u (Users m),
        Accounts := mput (acc_ID a) (fst (assign_uid a m)) (Accounts m),
        Members := mput (acc_ID a) (unique members) (Members m),
        Domains := mput (dom_ID d) d (Domains m), Jobs := mput (job_ID j') j' (Jobs m) \<rparr>)"

lemma create_commit_sel [simp]:
  "Users (create_commit fr u a d ms au j m) = mput (usr_ID u) u (Users m)"
  "Accounts (create_commit fr u a d ms au j m) = mput (acc_ID a) (fst (assign_uid a m)) (Accounts m)"
  "Members (create_commit fr u a d ms au j m) = mput (acc_ID a) (unique ms) (Members m)"
  "Domains (create_commit fr u a d ms au j m) = mput (dom_ID d) d (Domains m)"
  "Jobs (create_commit fr u a d ms au j m) = mput (job_ID j) j (Jobs m)"
  "NextUID (create_commit fr u a d ms au j m) = NextUID (snd (assign_uid a m))"
  "resourceFences (create_commit fr u a d ms au j m) = resourceFences m"
  by (simp_all add: create_commit_def)

lemma create_cases:
  "createAccountWithJob fr ou oa od members oj au m = (r, m') \<Longrightarrow>
    (\<exists>e. r = Inl e \<and> m' = m) \<or>
    (\<exists>j j'. oj = Some j \<and> jobReplayLocked m j = Some j' \<and> r = Inr j' \<and> m' = m) \<or>
    (\<exists>u a d j j'. ou = Some u \<and> oa = Some a \<and> od = Some d \<and> oj = Some j \<and> r = Inr j' \<and>
      acc_OwnerUserID a = usr_ID u \<and> dom_AccountID d = acc_ID a \<and>
      create_account_checks u a d members m = None \<and>
      j' = normalizeJob (fr_job fr) (fr_now fr) (with_revision a j) \<and>
      validateNewJobLocked m j' = None \<and> m' = create_commit fr u a d members au j' m)"
  by (auto simp: createAccountWithJob_def create_commit_def Let_def case_prod_unfold
      split: option.splits if_splits)

lemma create_checksD:
  assumes "create_account_checks u a d members m = None"
  shows "mget (Users m) (usr_ID u) = None" "mget (Accounts m) (acc_ID a) = None"
    "mget (Domains m) (dom_ID d) = None"
    "e \<in> set (mvals (Users m)) \<Longrightarrow> usr_Username e \<noteq> usr_Username u \<and> usr_Email e \<noteq> usr_Email u"
    "f \<in> set (mvals (Accounts m)) \<Longrightarrow> acc_Username f \<noteq> acc_Username a"
    "g \<in> set (mvals (Domains m)) \<Longrightarrow> dom_ASCII g \<noteq> dom_ASCII d"
    "mget (Packages m) (acc_PackageID a) \<noteq> None"
  using assms
  by (auto simp: create_account_checks_def first_error_None user_clash_def split: if_splits option.splits)

lemma with_revision_keeps [simp]:
  "job_Fence (with_revision a j) = job_Fence j" "job_IdempotencyKey (with_revision a j) = job_IdempotencyKey j"
  "job_ID (with_revision a j) = job_ID j"
  by (simp_all add: with_revision_def)

lemma create_commit_identities:
  assumes ok: "identities_ok m" and c: "create_account_checks u a d ms m = None"
    and uid: "acc_LinuxUID a < 20000"
  shows "identities_ok (create_commit fr u a d ms au j m)"
  unfolding identities_ok_def create_commit_sel
proof (intro conjI)
  have users: "usr_Username e \<noteq> usr_Username u" "usr_Email e \<noteq> usr_Email u"
    if "mget (Users m) k = Some e" for k e
    using create_checksD(4) [OF c mget_mvals [OF that]] by blast+
  have accounts: "acc_Username e \<noteq> acc_Username a" if "mget (Accounts m) k = Some e" for k e
    using create_checksD(5) [OF c mget_mvals [OF that]] .
  show "uniq_by acc_Username (mput (acc_ID a) (fst (assign_uid a m)) (Accounts m))"
    using ok by (intro uniq_by_put) (simp_all add: identities_ok_def accounts)
  show "uniq_by usr_Username (mput (usr_ID u) u (Users m))"
    using ok by (intro uniq_by_put) (simp_all add: identities_ok_def users)
  show "uniq_by usr_Email (mput (usr_ID u) u (Users m))"
    using ok by (intro uniq_by_put) (simp_all add: identities_ok_def users)
  show "uids_ok (create_commit fr u a d ms au j m)"
    using ok uid by - (rule assign_uid_ok [of m a], simp_all add: identities_ok_def)
qed

text \<open>What an update does: error or replay without change, or the next revision.\<close>

lemma update_cases:
  "updateAccountWithJob fr oa oj au m = (r, m') \<Longrightarrow>
    (\<exists>e. r = Inl e \<and> m' = m) \<or>
    (\<exists>j j'. oj = Some j \<and> jobReplayLocked m j = Some j' \<and> r = Inr j' \<and> m' = m) \<or>
    (\<exists>a j j' cur. oa = Some a \<and> oj = Some j \<and> r = Inr j' \<and> mget (Accounts m) (acc_ID a) = Some cur \<and>
      acc_DesiredRevision a = acc_DesiredRevision cur + 1 \<and> mget (Jobs m) (job_ID j') = None \<and>
      Accounts m' = mput (acc_ID a) a (Accounts m) \<and> Jobs m' = mput (job_ID j') j' (Jobs m))"
  by (auto simp: updateAccountWithJob_def Let_def dest: validated_new(1)
      split: option.splits if_splits)

section \<open>Purging\<close>

text \<open>Folding a deletion over identifiers.\<close>

lemma fold_DeleteDomain_Domains:
  "mget (Domains (fold (\<lambda>d. DeleteDomain (dom_ID d)) ds m)) k =
     (if k \<in> dom_ID ` set ds then None else mget (Domains m) k)"
  by (induction ds arbitrary: m) auto

lemma fold_DeleteWebsite_Websites:
  "mget (Websites (fold (\<lambda>w. DeleteWebsite (web_ID w)) ws m)) k =
     (if k \<in> web_ID ` set ws then None else mget (Websites m) k)"
  by (induction ws arbitrary: m) (auto simp: DeleteWebsite_def)

lemma fold_DeleteApp_Apps:
  "mget (Apps (fold (\<lambda>a. DeleteApp (app_ID a)) xs m)) k =
     (if k \<in> app_ID ` set xs then None else mget (Apps m) k)"
  by (induction xs arbitrary: m) (auto simp: DeleteApp_def)

lemma fold_DeleteDB_DBs:
  "mget (DBs (fold (\<lambda>d. DeleteDB (db_ID d)) xs m)) k =
     (if k \<in> db_ID ` set xs then None else mget (DBs m) k)"
  by (induction xs arbitrary: m) (auto simp: DeleteDB_def)

lemma fold_keeps: "(\<And>x m. P m \<Longrightarrow> P (f x m)) \<Longrightarrow> P m \<Longrightarrow> P (fold f xs m)"
  by (induction xs arbitrary: m) auto

lemma fold_frame: "(\<And>x m. g (f x m) = g m) \<Longrightarrow> g (fold f xs m) = g m"
  by (induction xs arbitrary: m) auto


lemma DeleteApp_tables [wf_intros]: "mem_tables m \<Longrightarrow> mem_tables (DeleteApp i m)"
  by (simp add: DeleteApp_def mem_tables_def)

lemma DeleteDB_tables [wf_intros]: "mem_tables m \<Longrightarrow> mem_tables (DeleteDB i m)"
  by (simp add: DeleteDB_def mem_tables_def)

lemma purge_phases_tables [wf_intros]:
  assumes "mem_tables m"
  shows "mem_tables (purge_domains a m)" "mem_tables (purge_websites a m)"
    "mem_tables (purge_apps a m)" "mem_tables (purge_dbs a m)"
    "mem_tables (purge_tables a m)" "mem_tables (purge_owner u m)"
proof -
  show "mem_tables (purge_domains a m)" unfolding purge_domains_def
    by (rule fold_keeps [where P = mem_tables]) (auto intro: wf_intros assms)
  show "mem_tables (purge_websites a m)" unfolding purge_websites_def
    by (rule fold_keeps [where P = mem_tables]) (auto intro: wf_intros assms)
  show "mem_tables (purge_apps a m)" unfolding purge_apps_def
    by (rule fold_keeps [where P = mem_tables]) (auto intro: wf_intros assms)
  show "mem_tables (purge_dbs a m)" unfolding purge_dbs_def
    by (rule fold_keeps [where P = mem_tables]) (auto intro: wf_intros assms)
  show "mem_tables (purge_tables a m)" "mem_tables (purge_owner u m)"
    using assms by (simp_all add: mem_tables_def purge_tables_def purge_owner_def)
qed

text \<open>What each phase leaves alone.\<close>

lemma purge_domains_frame [simp]:
  "DBs (purge_domains a m) = DBs m" "DBUsers (purge_domains a m) = DBUsers m"
  "Certs (purge_domains a m) = Certs m" "Backups (purge_domains a m) = Backups m"
  "Restores (purge_domains a m) = Restores m" "Crons (purge_domains a m) = Crons m"
  "SSHKeys (purge_domains a m) = SSHKeys m" "FTPs (purge_domains a m) = FTPs m"
  "Usages (purge_domains a m) = Usages m" "Members (purge_domains a m) = Members m"
  "Accounts (purge_domains a m) = Accounts m" "Users (purge_domains a m) = Users m"
  unfolding purge_domains_def by (rule fold_frame, simp add: DeleteDomain_def Let_def)+

lemma purge_websites_frame [simp]:
  "Domains (purge_websites a m) = Domains m" "Zones (purge_websites a m) = Zones m"
  "DBs (purge_websites a m) = DBs m" "DBUsers (purge_websites a m) = DBUsers m"
  "Certs (purge_websites a m) = Certs m" "Backups (purge_websites a m) = Backups m"
  "Restores (purge_websites a m) = Restores m" "Crons (purge_websites a m) = Crons m"
  "SSHKeys (purge_websites a m) = SSHKeys m" "FTPs (purge_websites a m) = FTPs m"
  "Usages (purge_websites a m) = Usages m" "Members (purge_websites a m) = Members m"
  "Accounts (purge_websites a m) = Accounts m" "Users (purge_websites a m) = Users m"
  unfolding purge_websites_def by (rule fold_frame, simp add: DeleteWebsite_def)+

lemma purge_apps_frame [simp]:
  "Domains (purge_apps a m) = Domains m" "Websites (purge_apps a m) = Websites m"
  "Zones (purge_apps a m) = Zones m" "DBs (purge_apps a m) = DBs m" "DBUsers (purge_apps a m) = DBUsers m"
  "Certs (purge_apps a m) = Certs m" "Backups (purge_apps a m) = Backups m"
  "Restores (purge_apps a m) = Restores m" "Crons (purge_apps a m) = Crons m"
  "SSHKeys (purge_apps a m) = SSHKeys m" "FTPs (purge_apps a m) = FTPs m"
  "Usages (purge_apps a m) = Usages m" "Members (purge_apps a m) = Members m"
  "Accounts (purge_apps a m) = Accounts m" "Users (purge_apps a m) = Users m"
  unfolding purge_apps_def by (rule fold_frame, simp add: DeleteApp_def)+

lemma purge_dbs_frame [simp]:
  "Domains (purge_dbs a m) = Domains m" "Websites (purge_dbs a m) = Websites m"
  "Apps (purge_dbs a m) = Apps m" "Zones (purge_dbs a m) = Zones m" "DBUsers (purge_dbs a m) = DBUsers m"
  "Certs (purge_dbs a m) = Certs m" "Backups (purge_dbs a m) = Backups m"
  "Restores (purge_dbs a m) = Restores m" "Crons (purge_dbs a m) = Crons m"
  "SSHKeys (purge_dbs a m) = SSHKeys m" "FTPs (purge_dbs a m) = FTPs m"
  "Usages (purge_dbs a m) = Usages m" "Members (purge_dbs a m) = Members m"
  "Accounts (purge_dbs a m) = Accounts m" "Users (purge_dbs a m) = Users m"
  unfolding purge_dbs_def by (rule fold_frame, simp add: DeleteDB_def)+

lemma purge_owner_frame [simp]:
  "Domains (purge_owner u m) = Domains m" "Websites (purge_owner u m) = Websites m"
  "Apps (purge_owner u m) = Apps m" "Zones (purge_owner u m) = Zones m" "DBs (purge_owner u m) = DBs m"
  "DBUsers (purge_owner u m) = DBUsers m" "Certs (purge_owner u m) = Certs m"
  "Backups (purge_owner u m) = Backups m" "Restores (purge_owner u m) = Restores m"
  "Crons (purge_owner u m) = Crons m" "SSHKeys (purge_owner u m) = SSHKeys m"
  "FTPs (purge_owner u m) = FTPs m" "Usages (purge_owner u m) = Usages m"
  "Members (purge_owner u m) = Members m" "Accounts (purge_owner u m) = Accounts m"
  by (simp_all add: purge_owner_def)

text \<open>What each phase removes.\<close>

lemma table_ids_where:
  assumes t: "table idof t"
  shows "k \<in> idof ` set (filter P (mvals t)) \<longleftrightarrow> (\<exists>v. mget t k = Some v \<and> P v)"
proof
  assume "k \<in> idof ` set (filter P (mvals t))"
  then obtain v where v: "v \<in> set (mvals t)" "P v" "k = idof v" by auto
  then have "mget t k = Some v" using table_mvals_iff [OF t] by metis
  with v(2) show "\<exists>v. mget t k = Some v \<and> P v" by blast
next
  assume "\<exists>v. mget t k = Some v \<and> P v"
  then obtain v where v: "mget t k = Some v" "P v" by blast
  then have "v \<in> set (filter P (mvals t))" "k = idof v"
    using mget_mvals [OF v(1)] table_id [OF t v(1)] by simp_all
  then show "k \<in> idof ` set (filter P (mvals t))" by blast
qed

lemma purge_domains_Domains:
  assumes "mem_tables m" "a \<noteq> []"
  shows "mget (Domains (purge_domains a m)) k = Some v \<longleftrightarrow> mget (Domains m) k = Some v \<and> dom_AccountID v \<noteq> a"
proof -
  have t: "table dom_ID (Domains m)" using assms(1) by (simp add: mem_tables_def)
  have "k \<in> dom_ID ` set (ListDomains m a) \<longleftrightarrow> (\<exists>v. mget (Domains m) k = Some v \<and> dom_AccountID v = a)"
    using assms(2) unfolding ListDomains_def table_ids_where [OF t] by simp
  then show ?thesis by (auto simp: purge_domains_def fold_DeleteDomain_Domains)
qed

lemma purge_websites_Websites:
  assumes "mem_tables m" "a \<noteq> []"
  shows "mget (Websites (purge_websites a m)) k = Some v \<longleftrightarrow> mget (Websites m) k = Some v \<and> web_AccountID v \<noteq> a"
proof -
  have t: "table web_ID (Websites m)" using assms(1) by (simp add: mem_tables_def)
  have "k \<in> web_ID ` set (ListWebsites m a) \<longleftrightarrow> (\<exists>v. mget (Websites m) k = Some v \<and> web_AccountID v = a)"
    using assms(2) unfolding ListWebsites_def table_ids_where [OF t] by simp
  then show ?thesis by (auto simp: purge_websites_def fold_DeleteWebsite_Websites)
qed

lemma purge_apps_Apps:
  assumes "mem_tables m" "a \<noteq> []"
  shows "mget (Apps (purge_apps a m)) k = Some v \<longleftrightarrow> mget (Apps m) k = Some v \<and> app_AccountID v \<noteq> a"
proof -
  have t: "table app_ID (Apps m)" using assms(1) by (simp add: mem_tables_def)
  have "k \<in> app_ID ` set (ListApps m a) \<longleftrightarrow> (\<exists>v. mget (Apps m) k = Some v \<and> app_AccountID v = a)"
    using assms(2) unfolding ListApps_def table_ids_where [OF t] by simp
  then show ?thesis by (auto simp: purge_apps_def fold_DeleteApp_Apps)
qed

lemma purge_dbs_DBs:
  assumes "mem_tables m" "a \<noteq> []"
  shows "mget (DBs (purge_dbs a m)) k = Some v \<longleftrightarrow> mget (DBs m) k = Some v \<and> db_AccountID v \<noteq> a"
proof -
  have t: "table db_ID (DBs m)" using assms(1) by (simp add: mem_tables_def)
  have "k \<in> db_ID ` set (ListDBs m a) \<longleftrightarrow> (\<exists>v. mget (DBs m) k = Some v \<and> db_AccountID v = a)"
    using assms(2) unfolding ListDBs_def table_ids_where [OF t] by simp
  then show ?thesis by (auto simp: purge_dbs_def fold_DeleteDB_DBs)
qed

text \<open>The zones that survive are those that hang on no domain of the account.\<close>

lemma fold_DeleteDomain_Zones:
  "mem_tables m \<Longrightarrow> mget (Zones (fold (\<lambda>d. DeleteDomain (dom_ID d)) ds m)) k = Some z \<longleftrightarrow>
     mget (Zones m) k = Some z \<and> zone_DomainID z \<notin> dom_ID ` set ds"
proof (induction ds arbitrary: m)
  case (Cons d ds)
  have wf: "mwf (Zones m)" using Cons.prems by (auto simp: mem_tables_def)
  show ?case
    using Cons.IH [OF DeleteDomain_tables [OF Cons.prems]]
    by (auto simp: mget_mdel_if [OF wf] split: option.splits if_splits)
qed simp

lemma mem_tables_mwf:
  assumes "mem_tables m"
  shows "mwf (DBUsers m)" "mwf (Certs m)" "mwf (Backups m)" "mwf (Restores m)" "mwf (Crons m)"
    "mwf (SSHKeys m)" "mwf (FTPs m)"
  using assms by (auto simp: mem_tables_def)

lemma PurgeAccount_exact:
  assumes t: "mem_tables m" and a: "a \<noteq> []" and acc: "mget (Accounts m) a = Some acc"
  shows "mget (Domains (PurgeAccount a m)) k = Some d \<longleftrightarrow> mget (Domains m) k = Some d \<and> dom_AccountID d \<noteq> a"
    and "mget (DBs (PurgeAccount a m)) k = Some b \<longleftrightarrow> mget (DBs m) k = Some b \<and> db_AccountID b \<noteq> a"
    and "mget (DBUsers (PurgeAccount a m)) k = Some u \<longleftrightarrow> mget (DBUsers m) k = Some u \<and> dbu_AccountID u \<noteq> a"
    and "mget (Certs (PurgeAccount a m)) k = Some c \<longleftrightarrow> mget (Certs m) k = Some c \<and> cert_AccountID c \<noteq> a"
    and "mget (Backups (PurgeAccount a m)) k = Some bk \<longleftrightarrow> mget (Backups m) k = Some bk \<and> bak_AccountID bk \<noteq> a"
    and "mget (Restores (PurgeAccount a m)) k = Some r \<longleftrightarrow> mget (Restores m) k = Some r \<and> rst_AccountID r \<noteq> a"
    and "mget (Crons (PurgeAccount a m)) k = Some cr \<longleftrightarrow> mget (Crons m) k = Some cr \<and> cron_AccountID cr \<noteq> a"
    and "mget (SSHKeys (PurgeAccount a m)) k = Some s \<longleftrightarrow> mget (SSHKeys m) k = Some s \<and> ssh_AccountID s \<noteq> a"
    and "mget (FTPs (PurgeAccount a m)) k = Some f \<longleftrightarrow> mget (FTPs m) k = Some f \<and> ftp_AccountID f \<noteq> a"
    and "Accounts (PurgeAccount a m) = mdel a (Accounts m)" "Members (PurgeAccount a m) = mdel a (Members m)"
      "Usages (PurgeAccount a m) = mdel a (Usages m)"
    and "Websites (PurgeAccount a m) = Websites (purge_websites a (purge_domains a m))"
    and "Apps (PurgeAccount a m) = Apps (purge_apps a (purge_websites a (purge_domains a m)))"
proof -
  have p: "PurgeAccount a m = purge_owner (acc_OwnerUserID acc) (purge_tables a (purge_dbs a
      (purge_apps a (purge_websites a (purge_domains a m)))))"
    using acc by (simp add: PurgeAccount_def GetAccount_def)
  show "mget (Domains (PurgeAccount a m)) k = Some d \<longleftrightarrow> mget (Domains m) k = Some d \<and> dom_AccountID d \<noteq> a"
    by (simp add: p purge_tables_def purge_domains_Domains [OF t a])
  show "mget (DBs (PurgeAccount a m)) k = Some b \<longleftrightarrow> mget (DBs m) k = Some b \<and> db_AccountID b \<noteq> a"
    using purge_dbs_DBs [OF purge_phases_tables(3) [OF purge_phases_tables(2)
          [OF purge_phases_tables(1) [OF t]]] a]
    by (simp add: p purge_tables_def)
  show "Accounts (PurgeAccount a m) = mdel a (Accounts m)" "Members (PurgeAccount a m) = mdel a (Members m)"
      "Usages (PurgeAccount a m) = mdel a (Usages m)"
    "Websites (PurgeAccount a m) = Websites (purge_websites a (purge_domains a m))"
    "Apps (PurgeAccount a m) = Apps (purge_apps a (purge_websites a (purge_domains a m)))"
    by (simp_all add: p purge_tables_def)
qed (simp_all add: PurgeAccount_def GetAccount_def acc purge_tables_def mget_mdel_if_iff
      mem_tables_mwf [OF t])

section \<open>Properties of accounts\<close>


text \<open>
  Creating an account is all or nothing. On an error nothing changes. On success either
  the job of an earlier request with the same idempotency key is returned and nothing changes,
  or the new job is on file and the account is there with its owner and its first domain
  linked to it; none of the three existed before, its package exists, and it has a Linux user
  identifier of at least 20000.
\<close>

theorem create_account_atomic:
  assumes "createAccountWithJob fr (Some u) (Some a) (Some d) members oj au m = (r, m')"
    and "20000 \<le> NextUID m"
  shows "case r of Inl e \<Rightarrow> m' = m
    | Inr j \<Rightarrow> (m' = m \<and> (\<exists>j0. oj = Some j0 \<and> jobReplayLocked m j0 = Some j)) \<or>
        (mget (Accounts m) (acc_ID a) = None \<and> mget (Users m) (usr_ID u) = None \<and>
         mget (Domains m) (dom_ID d) = None \<and> mget (Jobs m) (job_ID j) = None \<and>
         mget (Jobs m') (job_ID j) = Some j \<and> mget (Users m') (acc_OwnerUserID a) = Some u \<and>
         mget (Domains m') (dom_ID d) = Some d \<and> dom_AccountID d = acc_ID a \<and>
         mget (Packages m) (acc_PackageID a) \<noteq> None \<and>
         (\<exists>a'. mget (Accounts m') (acc_ID a) = Some a' \<and> acc_Username a' = acc_Username a \<and>
               20000 \<le> acc_LinuxUID a'))"
  using create_cases [OF assms(1)]
proof (elim disjE exE conjE)
  fix u' a' d' j j'
  assume c: "Some u = Some u'" "Some a = Some a'" "Some d = Some d'" "r = Inr j'"
    "acc_OwnerUserID a' = usr_ID u'" "dom_AccountID d' = acc_ID a'"
    "create_account_checks u' a' d' members m = None" "validateNewJobLocked m j' = None"
    "m' = create_commit fr u' a' d' members au j' m"
  have "20000 \<le> acc_LinuxUID (fst (assign_uid a m))"
    using assms(2) by (simp add: assign_uid_def)
  then show ?thesis
    using c create_checksD(1-3,7) [OF c(7)] validated_new(1) [OF c(8)] by auto
qed auto

text \<open>
  C28. Optimistic concurrency: of two updates prepared from the same revision of an account,
  the first that commits moves the revision forward by one and the other, whatever it
  changes, is refused with \<^verbatim>\<open>ErrStaleAccount\<close> and changes nothing (unless its
  idempotency key makes it the replay of a job on file).
\<close>

theorem concurrent_update_refused:
  assumes u1: "updateAccountWithJob fr1 (Some a1) (Some j1) au1 m = (Inr r1, m1)" and ch: "m1 \<noteq> m"
    and base: "mget (Accounts m) (acc_ID a1) = Some base"
    and a2: "acc_ID a2 = acc_ID a1" "acc_DesiredRevision a2 = acc_DesiredRevision base + 1"
    and norep: "jobReplayLocked m1 j2 = None" and ne: "acc_ID a1 \<noteq> []"
  shows "mget (Accounts m1) (acc_ID a1) = Some a1 \<and>
    acc_DesiredRevision a1 = acc_DesiredRevision base + 1 \<and>
    updateAccountWithJob fr2 (Some a2) (Some j2) au2 m1 = (Inl (ErrStaleAccount (acc_ID a1)), m1)"
proof -
  have c: "acc_DesiredRevision a1 = acc_DesiredRevision base + 1" "mget (Accounts m1) (acc_ID a1) = Some a1"
    using update_cases [OF u1] ch base by auto
  then show ?thesis
    using norep ne a2 by (simp add: updateAccountWithJob_def)
qed

text \<open>
  Purging an account removes it with its members, usage, domains, websites,
  applications, databases and their users, certificates, backups, restores, cron entries, SSH
  keys and FTP users, so that its name can be used again.
\<close>

theorem purge_removes_account:
  assumes t: "mem_tables m" and a: "a \<noteq> []" and acc: "mget (Accounts m) a = Some acc"
    and names: "uniq_by acc_Username (Accounts m)"
  shows "let m' = PurgeAccount a m in
    mget (Accounts m') a = None \<and> mget (Members m') a = None \<and> mget (Usages m') a = None \<and>
    AccountByUsername m' (acc_Username acc) = None \<and>
    (\<forall>k v. mget (Domains m') k = Some v \<longrightarrow> dom_AccountID v \<noteq> a) \<and>
    (\<forall>k v. mget (Websites m') k = Some v \<longrightarrow> web_AccountID v \<noteq> a) \<and>
    (\<forall>k v. mget (Apps m') k = Some v \<longrightarrow> app_AccountID v \<noteq> a) \<and>
    (\<forall>k v. mget (DBs m') k = Some v \<longrightarrow> db_AccountID v \<noteq> a) \<and>
    (\<forall>k v. mget (DBUsers m') k = Some v \<longrightarrow> dbu_AccountID v \<noteq> a) \<and>
    (\<forall>k v. mget (Certs m') k = Some v \<longrightarrow> cert_AccountID v \<noteq> a) \<and>
    (\<forall>k v. mget (Backups m') k = Some v \<longrightarrow> bak_AccountID v \<noteq> a) \<and>
    (\<forall>k v. mget (Restores m') k = Some v \<longrightarrow> rst_AccountID v \<noteq> a) \<and>
    (\<forall>k v. mget (Crons m') k = Some v \<longrightarrow> cron_AccountID v \<noteq> a) \<and>
    (\<forall>k v. mget (SSHKeys m') k = Some v \<longrightarrow> ssh_AccountID v \<noteq> a) \<and>
    (\<forall>k v. mget (FTPs m') k = Some v \<longrightarrow> ftp_AccountID v \<noteq> a)"
proof -
  note ex = PurgeAccount_exact [OF t a acc]
  have t1: "mem_tables (purge_domains a m)" and t2: "mem_tables (purge_websites a (purge_domains a m))"
    using t by (auto intro: wf_intros)
  have tA: "table acc_ID (Accounts m)" using t by (simp add: mem_tables_def)
  have "acc_Username e \<noteq> acc_Username acc" if "mget (mdel a (Accounts m)) k = Some e" for k e
    using that names acc unfolding uniq_by_def by (metis mget_mdel option.distinct(1))
  then have "AccountByUsername (PurgeAccount a m) (acc_Username acc) = None"
    unfolding AccountByUsername_def ex find_mvals_None [OF gotable.keyed_remove [OF tA]] by blast
  with ex purge_websites_Websites [OF t1 a] purge_apps_Apps [OF t2 a] show ?thesis
    by (simp add: Let_def)
qed

text \<open>
  Purging an account leaves the others alone: every other account with its members and
  usage, and every domain, database, database user, certificate, backup, restore, cron entry,
  SSH key and FTP user of another account, is the same afterwards.
\<close>

theorem purge_spares_others:
  assumes t: "mem_tables m" and a: "a \<noteq> []" and b: "b \<noteq> a"
  shows "let m' = PurgeAccount a m in
    mget (Accounts m') b = mget (Accounts m) b \<and> mget (Members m') b = mget (Members m) b \<and>
    mget (Usages m') b = mget (Usages m) b \<and>
    (\<forall>k v. mget (Domains m) k = Some v \<longrightarrow> dom_AccountID v = b \<longrightarrow> mget (Domains m') k = Some v) \<and>
    (\<forall>k v. mget (DBs m) k = Some v \<longrightarrow> db_AccountID v = b \<longrightarrow> mget (DBs m') k = Some v) \<and>
    (\<forall>k v. mget (DBUsers m) k = Some v \<longrightarrow> dbu_AccountID v = b \<longrightarrow> mget (DBUsers m') k = Some v) \<and>
    (\<forall>k v. mget (Certs m) k = Some v \<longrightarrow> cert_AccountID v = b \<longrightarrow> mget (Certs m') k = Some v) \<and>
    (\<forall>k v. mget (Backups m) k = Some v \<longrightarrow> bak_AccountID v = b \<longrightarrow> mget (Backups m') k = Some v) \<and>
    (\<forall>k v. mget (Restores m) k = Some v \<longrightarrow> rst_AccountID v = b \<longrightarrow> mget (Restores m') k = Some v) \<and>
    (\<forall>k v. mget (Crons m) k = Some v \<longrightarrow> cron_AccountID v = b \<longrightarrow> mget (Crons m') k = Some v) \<and>
    (\<forall>k v. mget (SSHKeys m) k = Some v \<longrightarrow> ssh_AccountID v = b \<longrightarrow> mget (SSHKeys m') k = Some v) \<and>
    (\<forall>k v. mget (FTPs m) k = Some v \<longrightarrow> ftp_AccountID v = b \<longrightarrow> mget (FTPs m') k = Some v)"
proof (cases "mget (Accounts m) a")
  case None
  then show ?thesis by (simp add: PurgeAccount_def GetAccount_def)
next
  case (Some acc)
  with b show ?thesis by (simp add: Let_def PurgeAccount_exact [OF t a Some])
qed

text \<open>
  The in-memory purge does not reach a DNS zone of the account that hangs on none of the
  account's domains: the zone survives, owned by an account that no longer exists.
\<close>

theorem purge_leaves_detached_zone:
  assumes t: "mem_tables m" and acc: "mget (Accounts m) a = Some acc" and a: "a \<noteq> []"
    and z: "mget (Zones m) k = Some z" "zone_AccountID z = a"
    and detached: "mget (Domains m) (zone_DomainID z) = None"
  shows "mget (Zones (PurgeAccount a m)) k = Some z \<and> mget (Accounts (PurgeAccount a m)) (zone_AccountID z) = None"
proof -
  have tD: "table dom_ID (Domains m)" using t by (simp add: mem_tables_def)
  have "zone_DomainID z \<notin> dom_ID ` set (ListDomains m a)"
    using detached unfolding ListDomains_def table_ids_where [OF tD] by simp
  then have "mget (Zones (purge_domains a m)) k = Some z"
    using z(1) by (simp add: purge_domains_def fold_DeleteDomain_Zones [OF t])
  then have "mget (Zones (PurgeAccount a m)) k = Some z"
    using acc by (simp add: PurgeAccount_def GetAccount_def purge_tables_def)
  with z(2) show ?thesis by (simp add: PurgeAccount_exact(10) [OF t a acc])
qed

section \<open>Imports\<close>

lemma put_all_simps [simp]:
  "put_all idof [] t = t" "put_all idof (v # vs) t = put_all idof vs (mput (idof v) v t)"
  by (simp_all add: put_all_def)

lemma put_all_old: "k \<notin> idof ` set vs \<Longrightarrow> mget (put_all idof vs t) k = mget t k"
  by (induction vs arbitrary: t) auto

lemma put_all_Some:
  "mget (put_all idof vs t) k = Some v \<Longrightarrow> (v \<in> set vs \<and> idof v = k) \<or> mget t k = Some v"
  by (induction vs arbitrary: t) (force split: if_splits)+

lemma put_all_mem: "k \<in> idof ` set vs \<Longrightarrow> mget (put_all idof vs t) k \<noteq> None"
proof (induction vs arbitrary: t)
  case (Cons v vs)
  then show ?case
    by (cases "k \<in> idof ` set vs") (auto simp: put_all_old)
qed simp

lemma put_all_table [wf_intros]: "table idof t \<Longrightarrow> table idof (put_all idof vs t)"
  by (induction vs arbitrary: t) auto

lemma put_map_get: "mwf new \<Longrightarrow> mget (put_map new t) k = (case mget new k of None \<Rightarrow> mget t k | Some v \<Rightarrow> Some v)"
proof (induction new arbitrary: t)
  case (Cons kv new)
  obtain k0 v0 where kv: "kv = (k0, v0)" by (cases kv)
  from Cons.prems kv have "mwf new" "mget new k0 = None" by (auto simp: mwf_def map_of_eq_None_iff)
  with Cons.IH show ?case by (auto simp: put_map_def kv split: option.splits)
qed (simp add: put_map_def)

lemma put_map_table: "table idof new \<Longrightarrow> table idof t \<Longrightarrow> table idof (put_map new t)"
proof (induction new arbitrary: t)
  case (Cons kv new)
  then show ?case by (cases kv) (auto simp: put_map_def)
qed (simp add: put_map_def)

text \<open>
  The loops that collect a checked list into a map: if the loop succeeds, every element passed
  the check and the map holds exactly the list.
\<close>

locale checked_collect =
  fixes loop :: "('k, 'v) gomap \<Rightarrow> 'v list \<Rightarrow> ('k, 'v) gomap res"
    and idof :: "'v \<Rightarrow> 'k"
    and ok :: "'v \<Rightarrow> bool"
  assumes loop_Nil: "loop acc [] = Inr acc"
    and loop_Cons: "loop acc (x # xs) = Inr out \<Longrightarrow> ok x \<and> loop (mput (idof x) x acc) xs = Inr out"
begin

lemma loop_collects: "loop acc xs = Inr out \<Longrightarrow> out = put_all idof xs acc \<and> (\<forall>x \<in> set xs. ok x)"
proof (induction xs arbitrary: acc)
  case Nil
  then show ?case by (simp add: loop_Nil)
next
  case (Cons x xs)
  from loop_Cons [OF Cons.prems] Cons.IH show ?case by auto
qed

end

interpretation collect_domains: checked_collect "import_domains m aid" dom_ID
    "\<lambda>d. dom_AccountID d = aid \<and> mget (Domains m) (dom_ID d) = None \<and>
      (dom_ASCII d \<noteq> [] \<longrightarrow> (\<forall>e \<in> set (mvals (Domains m)). dom_ASCII e \<noteq> dom_ASCII d))" for m aid
  by unfold_locales (auto split: if_splits)

interpretation collect_websites: checked_collect "import_websites m aid ds" web_ID
    "\<lambda>w. web_AccountID w = aid \<and> mget (Websites m) (web_ID w) = None \<and> mget ds (web_DomainID w) \<noteq> None"
    for m aid ds
  by unfold_locales (auto simp: owned_domain_def split: if_splits option.splits)

interpretation collect_maildomains: checked_collect "import_maildomains m aid ds" md_ID
    "\<lambda>d. md_AccountID d = aid \<and> mget (MailDom m) (md_ID d) = None \<and> mget ds (md_DomainID d) \<noteq> None"
    for m aid ds
  by unfold_locales (auto simp: owned_domain_def split: if_splits option.splits)

interpretation collect_zones: checked_collect "import_zones m aid ds" zone_ID
    "\<lambda>z. zone_AccountID z = aid \<and> mget (Zones m) (zone_ID z) = None \<and> mget ds (zone_DomainID z) \<noteq> None"
    for m aid ds
  by unfold_locales (auto simp: owned_domain_def split: if_splits option.splits)

text \<open>Adding entries under unused identifiers: old entries stay, new ones come from the list.\<close>

lemma put_all_keeps:
  "\<forall>x \<in> set xs. mget t (idof x) = None \<Longrightarrow> mget t k = Some v \<Longrightarrow> mget (put_all idof xs t) k = Some v"
  by (subst put_all_old) auto

lemma put_all_new: "mget (put_all idof xs t) k = Some v \<Longrightarrow> mget t k = None \<Longrightarrow> v \<in> set xs"
  using put_all_Some by fastforce

lemma collected_table: "table idof (put_all idof xs [])"
  by (simp add: put_all_table)

lemma put_map_keeps:
  assumes "\<forall>x \<in> set xs. mget t (idof x) = None" "mget t k = Some v"
  shows "mget (put_map (put_all idof xs []) t) k = Some v"
proof -
  have "mget (put_all idof xs []) k = None"
    using put_all_Some [of idof xs "[]" k] assms by (cases "mget (put_all idof xs []) k") auto
  with assms(2) show ?thesis
    by (simp add: put_map_get [OF table_mwf [OF collected_table]])
qed

lemma put_map_new:
  "mget (put_map (put_all idof xs []) t) k = Some v \<Longrightarrow> mget t k = None \<Longrightarrow> v \<in> set xs"
  using put_all_Some [of idof xs "[]" k]
  by (auto simp: put_map_get [OF table_mwf [OF collected_table]] split: option.splits)

lemma put_map_mem:
  "mget (put_all idof xs []) k \<noteq> None \<Longrightarrow> mget (put_map (put_all idof xs []) t) k \<noteq> None"
  by (auto simp: put_map_get [OF table_mwf [OF collected_table]])

definition list_fresh :: "('v \<Rightarrow> 'k) \<Rightarrow> ('k, 'v) gomap \<Rightarrow> ('v \<Rightarrow> bool) \<Rightarrow> 'v list \<Rightarrow> bool" where
  "list_fresh idof t owned xs \<longleftrightarrow> (\<forall>x \<in> set xs. mget t (idof x) = None \<and> owned x)"

lemma unless_error_Inr [simp]: "unless_error oe r = Inr x \<longleftrightarrow> oe = None \<and> r = Inr x"
  by (simp add: unless_error_def split: option.split)

lemma and_then_Inr [simp]: "and_then r f = Inr x \<longleftrightarrow> (\<exists>y. r = Inr y \<and> f y = Inr x)"
  by (simp add: and_then_def split: sum.split)

lemma fresh_of_check:
  "first_error f xs = None \<Longrightarrow> (\<And>x. f x = None \<Longrightarrow> mget t (idof x) = None \<and> owned x) \<Longrightarrow>
     list_fresh idof t owned xs"
  by (simp add: first_error_None list_fresh_def)

lemma import_validate_ok:
  assumes v: "import_validate m im = Inr pl" and aid: "aid = acc_ID (imp_Account im)"
  shows "pl_domains pl = put_all dom_ID (imp_Domains im) []"
    "pl_websites pl = put_all web_ID (imp_Websites im) []"
    "pl_mailDomains pl = put_all md_ID (imp_MailDomains im) []"
    "pl_zones pl = put_all zone_ID (imp_Zones im) []"
    "list_fresh dom_ID (Domains m) (\<lambda>d. dom_AccountID d = aid) (imp_Domains im)"
    "list_fresh web_ID (Websites m) (\<lambda>w. web_AccountID w = aid \<and> mget (pl_domains pl) (web_DomainID w) \<noteq> None)
       (imp_Websites im)"
    "list_fresh app_ID (Apps m) (\<lambda>a. app_AccountID a = aid \<and> mget (pl_websites pl) (app_WebsiteID a) \<noteq> None)
       (imp_Applications im)"
    "list_fresh db_ID (DBs m) (\<lambda>d. db_AccountID d = aid) (imp_Databases im)"
    "list_fresh dbu_ID (DBUsers m) (\<lambda>u. dbu_AccountID u = aid) (imp_DatabaseUsers im)"
    "list_fresh md_ID (MailDom m) (\<lambda>d. md_AccountID d = aid) (imp_MailDomains im)"
    "list_fresh mb_ID (Mailboxes m) (\<lambda>b. mb_AccountID b = aid \<and> mget (pl_mailDomains pl) (mb_DomainID b) \<noteq> None)
       (imp_Mailboxes im)"
    "list_fresh al_ID (Aliases m) (\<lambda>a. al_AccountID a = aid \<and> mget (pl_mailDomains pl) (al_DomainID a) \<noteq> None)
       (imp_Aliases im)"
    "list_fresh zone_ID (Zones m) (\<lambda>z. zone_AccountID z = aid) (imp_Zones im)"
    "list_fresh rec_ID (Records m) (\<lambda>r. mget (pl_zones pl) (rec_ZoneID r) \<noteq> None) (imp_Records im)"
    "list_fresh cron_ID (Crons m) (\<lambda>c. cron_AccountID c = aid) (imp_Crons im)"
    "list_fresh ssh_ID (SSHKeys m) (\<lambda>k. ssh_AccountID k = aid) (imp_SSH im)"
    "list_fresh ftp_ID (FTPs m) (\<lambda>f. ftp_AccountID f = aid) (imp_FTP im)"
proof -
  obtain ds ws mds zs where
    d: "import_domains m aid [] (imp_Domains im) = Inr ds"
    and w: "import_websites m aid ds [] (imp_Websites im) = Inr ws"
    and md: "import_maildomains m aid ds [] (imp_MailDomains im) = Inr mds"
    and z: "import_zones m aid ds [] (imp_Zones im) = Inr zs"
    and pl: "pl = \<lparr> pl_domains = ds, pl_websites = ws, pl_mailDomains = mds, pl_zones = zs \<rparr>"
    and errs: "first_error (import_app_error m aid ws) (imp_Applications im) = None"
      "first_error (import_db_error m aid) (imp_Databases im) = None"
      "first_error (import_dbuser_error m aid) (imp_DatabaseUsers im) = None"
      "first_error (import_mailbox_error m aid mds) (imp_Mailboxes im) = None"
      "first_error (import_alias_error m aid mds) (imp_Aliases im) = None"
      "first_error (import_record_error m zs) (imp_Records im) = None"
      "first_error (import_cron_error m aid) (imp_Crons im) = None"
      "first_error (import_ssh_error m aid) (imp_SSH im) = None"
      "first_error (import_ftp_error m aid) (imp_FTP im) = None"
    using v by (auto simp: import_validate_def Let_def aid)
  note col = collect_domains.loop_collects [OF d] collect_websites.loop_collects [OF w]
    collect_maildomains.loop_collects [OF md] collect_zones.loop_collects [OF z]
  show "pl_domains pl = put_all dom_ID (imp_Domains im) []"
    "pl_websites pl = put_all web_ID (imp_Websites im) []"
    "pl_mailDomains pl = put_all md_ID (imp_MailDomains im) []"
    "pl_zones pl = put_all zone_ID (imp_Zones im) []"
    using col by (simp_all add: pl)
  show "list_fresh dom_ID (Domains m) (\<lambda>d. dom_AccountID d = aid) (imp_Domains im)"
    "list_fresh web_ID (Websites m) (\<lambda>w. web_AccountID w = aid \<and> mget (pl_domains pl) (web_DomainID w) \<noteq> None)
       (imp_Websites im)"
    "list_fresh md_ID (MailDom m) (\<lambda>d. md_AccountID d = aid) (imp_MailDomains im)"
    "list_fresh zone_ID (Zones m) (\<lambda>z. zone_AccountID z = aid) (imp_Zones im)"
    using col by (simp_all add: list_fresh_def pl)
  show "list_fresh app_ID (Apps m) (\<lambda>a. app_AccountID a = aid \<and> mget (pl_websites pl) (app_WebsiteID a) \<noteq> None)
       (imp_Applications im)"
    using errs(1) by (rule fresh_of_check) (auto simp: import_app_error_def pl split: if_splits option.splits)
  show "list_fresh db_ID (DBs m) (\<lambda>d. db_AccountID d = aid) (imp_Databases im)"
    using errs(2) by (rule fresh_of_check) (auto simp: import_db_error_def split: if_splits)
  show "list_fresh dbu_ID (DBUsers m) (\<lambda>u. dbu_AccountID u = aid) (imp_DatabaseUsers im)"
    using errs(3) by (rule fresh_of_check) (auto simp: import_dbuser_error_def split: if_splits)
  show "list_fresh mb_ID (Mailboxes m) (\<lambda>b. mb_AccountID b = aid \<and> mget (pl_mailDomains pl) (mb_DomainID b) \<noteq> None)
       (imp_Mailboxes im)"
    using errs(4) by (rule fresh_of_check)
      (auto simp: import_mailbox_error_def owned_maildomain_def pl split: if_splits option.splits)
  show "list_fresh al_ID (Aliases m) (\<lambda>a. al_AccountID a = aid \<and> mget (pl_mailDomains pl) (al_DomainID a) \<noteq> None)
       (imp_Aliases im)"
    using errs(5) by (rule fresh_of_check)
      (auto simp: import_alias_error_def owned_maildomain_def pl split: if_splits option.splits)
  show "list_fresh rec_ID (Records m) (\<lambda>r. mget (pl_zones pl) (rec_ZoneID r) \<noteq> None) (imp_Records im)"
    using errs(6) by (rule fresh_of_check) (auto simp: import_record_error_def pl split: if_splits)
  show "list_fresh cron_ID (Crons m) (\<lambda>c. cron_AccountID c = aid) (imp_Crons im)"
    using errs(7) by (rule fresh_of_check) (auto simp: import_cron_error_def split: if_splits)
  show "list_fresh ssh_ID (SSHKeys m) (\<lambda>k. ssh_AccountID k = aid) (imp_SSH im)"
    using errs(8) by (rule fresh_of_check) (auto simp: import_ssh_error_def split: if_splits)
  show "list_fresh ftp_ID (FTPs m) (\<lambda>f. ftp_AccountID f = aid) (imp_FTP im)"
    using errs(9) by (rule fresh_of_check) (auto simp: import_ftp_error_def split: if_splits)
qed

text \<open>What the import leaves of a table, and what it adds.\<close>

lemma list_fresh_keeps:
  "list_fresh idof t owned xs \<Longrightarrow> mget t k = Some v \<Longrightarrow> mget (put_all idof xs t) k = Some v"
  "list_fresh idof t owned xs \<Longrightarrow> mget t k = Some v \<Longrightarrow> mget (put_map (put_all idof xs []) t) k = Some v"
  by (auto simp: list_fresh_def intro: put_all_keeps put_map_keeps)

lemma list_fresh_owned:
  assumes "list_fresh idof t owned xs" "mget (put_all idof xs t) k = Some v"
  shows "mget t k = Some v \<or> owned v"
proof (cases "mget t k")
  case None
  with put_all_new [OF assms(2)] assms(1) show ?thesis by (simp add: list_fresh_def)
next
  case (Some w)
  with list_fresh_keeps(1) [OF assms(1) Some] assms(2) show ?thesis by simp
qed

lemma list_fresh_owned_map:
  assumes "list_fresh idof t owned xs" "mget (put_map (put_all idof xs []) t) k = Some v"
  shows "mget t k = Some v \<or> owned v"
proof (cases "mget t k")
  case None
  with put_map_new [OF assms(2)] assms(1) show ?thesis by (simp add: list_fresh_def)
next
  case (Some w)
  with list_fresh_keeps(2) [OF assms(1) Some] assms(2) show ?thesis by simp
qed

lemma import_cases:
  "importAccountWithJob fr oi oj au m = (r, m') \<Longrightarrow>
    (\<exists>e. r = Inl e \<and> m' = m) \<or>
    (\<exists>j j'. oj = Some j \<and> jobReplayLocked m j = Some j' \<and> r = Inr j' \<and> m' = m) \<or>
    (\<exists>im j j' pl a. oi = Some im \<and> oj = Some j \<and> r = Inr j' \<and> a = imp_Account im \<and>
      mget (Accounts m) (acc_ID a) = None \<and>
      (\<forall>e \<in> set (mvals (Accounts m)). acc_Username e \<noteq> acc_Username a) \<and>
      import_validate m im = Inr pl \<and> validateNewJobLocked m j' = None \<and>
      m' = append_audit fr j' au
        ((import_write (fst (assign_uid a m)) im pl (snd (assign_uid a m)))\<lparr>Jobs := mput (job_ID j') j' (Jobs m)\<rparr>))"
  by (auto simp: importAccountWithJob_def Let_def case_prod_unfold import_write_def
      split: option.splits if_splits sum.splits)

lemma import_write_tables:
  assumes "mem_tables m" "import_validate m0 im = Inr pl"
  shows "mem_tables (import_write a im pl m)"
  using assms(1) import_validate_ok(1-4) [OF assms(2) refl]
  by (simp add: import_write_def mem_tables_def put_all_table put_map_table)

text \<open>A child added with its parent in the plan, or an old child with its parent kept.\<close>

lemma import_ref:
  assumes old: "\<forall>k c. mget children k = Some c \<longrightarrow> mget parents (ref c) \<noteq> None"
    and P: "list_fresh pid parents p_owned ps"
    and C: "list_fresh cid children (\<lambda>c. c_owned c \<and> mget (put_all pid ps []) (ref c) \<noteq> None) cs"
  shows "mget (put_all cid cs children) k = Some c \<Longrightarrow>
           mget (put_map (put_all pid ps []) parents) (ref c) \<noteq> None"
    and "mget (put_map (put_all cid cs []) children) k = Some c \<Longrightarrow>
           mget (put_map (put_all pid ps []) parents) (ref c) \<noteq> None"
proof -
  have kept: "mget (put_map (put_all pid ps []) parents) (ref c) \<noteq> None"
    if "mget children k = Some c \<or> (c_owned c \<and> mget (put_all pid ps []) (ref c) \<noteq> None)"
    using that
  proof
    assume "mget children k = Some c"
    with old obtain p where "mget parents (ref c) = Some p" by blast
    from list_fresh_keeps(2) [OF P this] show ?thesis by simp
  qed (simp add: put_map_mem)
  show "mget (put_all cid cs children) k = Some c \<Longrightarrow>
           mget (put_map (put_all pid ps []) parents) (ref c) \<noteq> None"
    using list_fresh_owned [OF C, of k c] kept by metis
  show "mget (put_map (put_all cid cs []) children) k = Some c \<Longrightarrow>
           mget (put_map (put_all pid ps []) parents) (ref c) \<noteq> None"
    using list_fresh_owned_map [OF C, of k c] kept by metis
qed

lemma import_write_refs:
  assumes r: "refs_ok m" and v: "import_validate m im = Inr pl"
    and same: "Domains m1 = Domains m" "Websites m1 = Websites m" "Apps m1 = Apps m" "MailDom m1 = MailDom m"
      "Mailboxes m1 = Mailboxes m" "Aliases m1 = Aliases m" "Zones m1 = Zones m" "Records m1 = Records m"
  shows "refs_ok (import_write a im pl m1)"
proof -
  note ok = import_validate_ok [OF v refl, unfolded import_validate_ok(1-4) [OF v refl]]
  have rec': "list_fresh rec_ID (Records m) (\<lambda>r. True \<and> mget (put_all zone_ID (imp_Zones im) []) (rec_ZoneID r) \<noteq> None)
      (imp_Records im)" using ok(14) by simp
  have old: "\<forall>k c. mget (Websites m) k = Some c \<longrightarrow> mget (Domains m) (web_DomainID c) \<noteq> None"
    "\<forall>k c. mget (Apps m) k = Some c \<longrightarrow> mget (Websites m) (app_WebsiteID c) \<noteq> None"
    "\<forall>k c. mget (Mailboxes m) k = Some c \<longrightarrow> mget (MailDom m) (mb_DomainID c) \<noteq> None"
    "\<forall>k c. mget (Aliases m) k = Some c \<longrightarrow> mget (MailDom m) (al_DomainID c) \<noteq> None"
    "\<forall>k c. mget (Records m) k = Some c \<longrightarrow> mget (Zones m) (rec_ZoneID c) \<noteq> None"
    using r by (simp_all add: refs_ok_def)
  show ?thesis
    unfolding refs_ok_def
    by (simp add: import_write_def same import_validate_ok(1-4) [OF v refl] del: not_None_eq)
      (intro conjI allI impI import_ref(2) [OF old(1) ok(5) ok(6)] import_ref(1) [OF old(2) ok(6) ok(7)]
        import_ref(1) [OF old(3) ok(10) ok(11)] import_ref(1) [OF old(4) ok(10) ok(12)]
        import_ref(1) [OF old(5) ok(13) rec'])
qed

section \<open>Properties of imports\<close>

text \<open>
  An import is all or nothing and leaves a well-formed store: an error changes nothing;
  otherwise tables stay filed under their identifiers and every website, application, mailbox,
  alias and record, old or imported, has its parent in the store.
\<close>

theorem import_keeps_store:
  assumes "mem_tables m" "refs_ok m" "importAccountWithJob fr (Some im) oj au m = (r, m')"
  shows "mem_tables m' \<and> refs_ok m' \<and> (\<forall>e. r = Inl e \<longrightarrow> m' = m)"
  using import_cases [OF assms(3)]
proof (elim disjE exE conjE)
  fix im' j j' pl a
  assume c: "Some im = Some im'" "import_validate m im' = Inr pl" "r = Inr j'"
    "m' = append_audit fr j' au
        ((import_write (fst (assign_uid a m)) im' pl (snd (assign_uid a m)))\<lparr>Jobs := mput (job_ID j') j' (Jobs m)\<rparr>)"
  let ?w = "import_write (fst (assign_uid a m)) im' pl (snd (assign_uid a m))"
  have "mem_tables ?w" using assms(1) c(2) by (intro import_write_tables) simp_all
  moreover have "refs_ok ?w"
    using assms(2) c(2) by (rule import_write_refs) (simp_all add: assign_uid_def)
  moreover have "table job_ID (mput (job_ID j') j' (Jobs m))" using assms(1) by (simp add: mem_tables_def)
  ultimately have "mem_tables (?w\<lparr>Jobs := mput (job_ID j') j' (Jobs m)\<rparr>)"
    "refs_ok (?w\<lparr>Jobs := mput (job_ID j') j' (Jobs m)\<rparr>)" by (simp_all add: mem_tables_def refs_ok_def)
  with c(3,4) show ?thesis by simp
qed (use assms in simp_all)

text \<open>
  An import touches nothing that was there and brings in only objects of the imported
  account: every domain, website, application, database, mailbox, zone, cron entry and FTP user
  on file stays as it is, and every new one belongs to the account.
\<close>

theorem import_only_adds_owned:
  assumes "importAccountWithJob fr (Some im) oj au m = (r, m')" and "aid = acc_ID (imp_Account im)"
  shows
    "(\<forall>k v. mget (Domains m) k = Some v \<longrightarrow> mget (Domains m') k = Some v) \<and>
     (\<forall>k v. mget (Domains m') k = Some v \<longrightarrow> mget (Domains m) k = Some v \<or> dom_AccountID v = aid) \<and>
     (\<forall>k v. mget (Websites m) k = Some v \<longrightarrow> mget (Websites m') k = Some v) \<and>
     (\<forall>k v. mget (Websites m') k = Some v \<longrightarrow> mget (Websites m) k = Some v \<or> web_AccountID v = aid) \<and>
     (\<forall>k v. mget (Apps m) k = Some v \<longrightarrow> mget (Apps m') k = Some v) \<and>
     (\<forall>k v. mget (Apps m') k = Some v \<longrightarrow> mget (Apps m) k = Some v \<or> app_AccountID v = aid) \<and>
     (\<forall>k v. mget (DBs m) k = Some v \<longrightarrow> mget (DBs m') k = Some v) \<and>
     (\<forall>k v. mget (DBs m') k = Some v \<longrightarrow> mget (DBs m) k = Some v \<or> db_AccountID v = aid) \<and>
     (\<forall>k v. mget (Mailboxes m) k = Some v \<longrightarrow> mget (Mailboxes m') k = Some v) \<and>
     (\<forall>k v. mget (Mailboxes m') k = Some v \<longrightarrow> mget (Mailboxes m) k = Some v \<or> mb_AccountID v = aid) \<and>
     (\<forall>k v. mget (Zones m) k = Some v \<longrightarrow> mget (Zones m') k = Some v) \<and>
     (\<forall>k v. mget (Zones m') k = Some v \<longrightarrow> mget (Zones m) k = Some v \<or> zone_AccountID v = aid) \<and>
     (\<forall>k v. mget (Crons m) k = Some v \<longrightarrow> mget (Crons m') k = Some v) \<and>
     (\<forall>k v. mget (Crons m') k = Some v \<longrightarrow> mget (Crons m) k = Some v \<or> cron_AccountID v = aid) \<and>
     (\<forall>k v. mget (FTPs m) k = Some v \<longrightarrow> mget (FTPs m') k = Some v) \<and>
     (\<forall>k v. mget (FTPs m') k = Some v \<longrightarrow> mget (FTPs m) k = Some v \<or> ftp_AccountID v = aid)"
  using import_cases [OF assms(1)]
proof (elim disjE exE conjE)
  fix im' j j' pl a
  assume c: "Some im = Some im'" "import_validate m im' = Inr pl"
    "m' = append_audit fr j' au
        ((import_write (fst (assign_uid a m)) im' pl (snd (assign_uid a m)))\<lparr>Jobs := mput (job_ID j') j' (Jobs m)\<rparr>)"
  note ok = import_validate_ok [OF c(2) refl]
  have tabs: "Domains m' = put_map (put_all dom_ID (imp_Domains im) []) (Domains m)"
    "Websites m' = put_map (put_all web_ID (imp_Websites im) []) (Websites m)"
    "Apps m' = put_all app_ID (imp_Applications im) (Apps m)"
    "DBs m' = put_all db_ID (imp_Databases im) (DBs m)"
    "Mailboxes m' = put_all mb_ID (imp_Mailboxes im) (Mailboxes m)"
    "Zones m' = put_map (put_all zone_ID (imp_Zones im) []) (Zones m)"
    "Crons m' = put_all cron_ID (imp_Crons im) (Crons m)"
    "FTPs m' = put_all ftp_ID (imp_FTP im) (FTPs m)"
    using c ok(1-4)
    by (simp_all add: import_write_def append_audit_def assign_uid_def split: option.splits)
  have im: "im' = im" using c(1) by simp
  note ok' = ok(5-8,11,13,15,17) [unfolded im]
  show ?thesis
    unfolding tabs assms(2)
    using list_fresh_keeps(2) [OF ok'(1)] list_fresh_owned_map [OF ok'(1)]
      list_fresh_keeps(2) [OF ok'(2)] list_fresh_owned_map [OF ok'(2)]
      list_fresh_keeps(1) [OF ok'(3)] list_fresh_owned [OF ok'(3)]
      list_fresh_keeps(1) [OF ok'(4)] list_fresh_owned [OF ok'(4)]
      list_fresh_keeps(1) [OF ok'(5)] list_fresh_owned [OF ok'(5)]
      list_fresh_keeps(2) [OF ok'(6)] list_fresh_owned_map [OF ok'(6)]
      list_fresh_keeps(1) [OF ok'(7)] list_fresh_owned [OF ok'(7)]
      list_fresh_keeps(1) [OF ok'(8)] list_fresh_owned [OF ok'(8)]
    by (intro conjI) blast+
qed simp_all

section \<open>Witnesses\<close>

definition ex_owner :: user where
  "ex_owner = user0\<lparr>usr_ID := ''u3'', usr_Username := ''carol'', usr_Email := ''c@x''\<rparr>"

definition ex_account :: account where
  "ex_account = account0\<lparr>acc_ID := ''a3'', acc_OwnerUserID := ''u3'', acc_Username := ''carol'',
     acc_PackageID := ''p1'', acc_DesiredRevision := 1\<rparr>"

definition ex_first_domain :: domain where
  "ex_first_domain = domain0\<lparr>dom_ID := ''d3'', dom_AccountID := ''a3'', dom_ASCII := ''c.example''\<rparr>"

definition ex_base :: memory where
  "ex_base = NewMemory\<lparr>Packages := [(''p1'', package0\<lparr>pkg_ID := ''p1''\<rparr>)]\<rparr>"

definition ex_created :: commit_result where
  "ex_created = createAccountWithJob ex_fresh (Some ex_owner) (Some ex_account) (Some ex_first_domain)
     [''u3''] (Some ex_mutation_job) None ex_base"

lemma ex_created_eq:
  "createAccountWithJob ex_fresh (Some ex_owner) (Some ex_account) (Some ex_first_domain)
     [''u3''] (Some ex_mutation_job) None ex_base = (Inr (projr (fst ex_created)), snd ex_created)"
  by code_simp

lemma ex_base_ok: "mem_tables ex_base" "refs_ok ex_base" "identities_ok ex_base" "uniq_by dom_ASCII (Domains ex_base)"
  "20000 \<le> NextUID ex_base"
  by (simp_all add: ex_base_def mem_tables_def refs_ok_def identities_ok_def uniq_by_def uids_ok_def
      NewMemory_def package0_def)


theorem create_account_atomic_witness:
  "\<exists>a'. mget (Accounts (snd ex_created)) ''a3'' = Some a' \<and> 20000 \<le> acc_LinuxUID a'"
proof -
  have "jobReplayLocked ex_base ex_mutation_job = None" "acc_ID ex_account = ''a3''" by code_simp+
  then show ?thesis
    using create_account_atomic [OF ex_created_eq ex_base_ok(5)] by auto
qed

definition ex_updated :: commit_result where
  "ex_updated = updateAccountWithJob (ex_fresh\<lparr>fr_job := ''j10''\<rparr>)
     (Some (ex_account\<lparr>acc_DesiredRevision := 2, acc_Status := ''suspended''\<rparr>)) (Some job0) None (snd ex_created)"

theorem concurrent_update_refused_witness:
  "updateAccountWithJob (ex_fresh\<lparr>fr_job := ''j11''\<rparr>)
     (Some (ex_account\<lparr>acc_DesiredRevision := 2, acc_ShellClass := ''jailed''\<rparr>)) (Some job0) None (snd ex_updated) =
   (Inl (ErrStaleAccount ''a3''), snd ex_updated)"
proof -
  let ?a1 = "ex_account\<lparr>acc_DesiredRevision := 2, acc_Status := ''suspended''\<rparr>"
  let ?a2 = "ex_account\<lparr>acc_DesiredRevision := 2, acc_ShellClass := ''jailed''\<rparr>"
  have "updateAccountWithJob (ex_fresh\<lparr>fr_job := ''j10''\<rparr>) (Some ?a1) (Some job0) None (snd ex_created) =
      (Inr (projr (fst ex_updated)), snd ex_updated)" "snd ex_updated \<noteq> snd ex_created"
    "mget (Accounts (snd ex_created)) (acc_ID ?a1) = Some (the (mget (Accounts (snd ex_created)) ''a3''))"
    "acc_ID ?a2 = acc_ID ?a1"
    "acc_DesiredRevision ?a2 = acc_DesiredRevision (the (mget (Accounts (snd ex_created)) ''a3'')) + 1"
    "jobReplayLocked (snd ex_updated) job0 = None" "acc_ID ?a1 \<noteq> []" "acc_ID ?a1 = ''a3''"
    by code_simp+
  then show ?thesis using concurrent_update_refused by metis
qed

text \<open>\<open>ex_store\<close> with a zone of the first account on no domain.\<close>

definition ex_purge :: memory where
  "ex_purge = ex_store\<lparr>Zones := [(''z1'', dnszone0\<lparr>zone_ID := ''z1'', zone_AccountID := ''a1'', zone_DomainID := ''gone''\<rparr>)]\<rparr>"

lemma ex_purge_ok:
  "mem_tables ex_purge" "uniq_by acc_Username (Accounts ex_purge)"
  "mget (Accounts ex_purge) ''a1'' = Some (the (mget (Accounts ex_purge) ''a1''))"
  "acc_Username (the (mget (Accounts ex_purge) ''a1'')) = ''alice''"
proof -
  show "mem_tables ex_purge"
    using ex_store_ok(1) by (simp add: ex_purge_def mem_tables_def dnszone0_def)
  show "uniq_by acc_Username (Accounts ex_purge)"
    by (simp add: uniq_by_def ex_purge_def ex_store_def account0_def)
qed (code_simp, code_simp)

theorem purge_removes_account_witness:
  "mget (Accounts (PurgeAccount ''a1'' ex_purge)) ''a1'' = None \<and>
   AccountByUsername (PurgeAccount ''a1'' ex_purge) ''alice'' = None"
  using purge_removes_account [OF ex_purge_ok(1) _ ex_purge_ok(3,2)] ex_purge_ok(4) by (simp add: Let_def)

theorem purge_spares_others_witness:
  "mget (Accounts (PurgeAccount ''a1'' ex_purge)) ''a2'' = mget (Accounts ex_purge) ''a2''"
  using purge_spares_others [OF ex_purge_ok(1), of "''a1''" "''a2''"] by (simp add: Let_def)

theorem purge_leaves_detached_zone_witness:
  "\<exists>z. mget (Zones (PurgeAccount ''a1'' ex_purge)) ''z1'' = Some z \<and>
     mget (Accounts (PurgeAccount ''a1'' ex_purge)) (zone_AccountID z) = None"
proof -
  obtain z where "mget (Zones ex_purge) ''z1'' = Some z" "zone_AccountID z = ''a1''"
    "mget (Domains ex_purge) (zone_DomainID z) = None"
    by (simp add: ex_purge_def ex_store_def dnszone0_def)
  then show ?thesis
    using purge_leaves_detached_zone [OF ex_purge_ok(1,3)] by blast
qed

definition ex_import :: accountimport where
  "ex_import = accountimport0\<lparr>
     imp_Account := account0\<lparr>acc_ID := ''a9'', acc_OwnerUserID := ''u3'', acc_Username := ''dave'', acc_PackageID := ''p1''\<rparr>,
     imp_Domains := [domain0\<lparr>dom_ID := ''d8'', dom_AccountID := ''a9'', dom_ASCII := ''same.example''\<rparr>,
                     domain0\<lparr>dom_ID := ''d9'', dom_AccountID := ''a9'', dom_ASCII := ''same.example''\<rparr>],
     imp_Websites := [website0\<lparr>web_ID := ''w9'', web_AccountID := ''a9'', web_DomainID := ''d9''\<rparr>] \<rparr>"

definition ex_imported :: commit_result where
  "ex_imported = importAccountWithJob (ex_fresh\<lparr>fr_job := ''j12''\<rparr>) (Some ex_import) (Some job0) None (snd ex_created)"

lemma ex_imported_eq:
  "importAccountWithJob (ex_fresh\<lparr>fr_job := ''j12''\<rparr>) (Some ex_import) (Some job0) None (snd ex_created) =
     (Inr (projr (fst ex_imported)), snd ex_imported)"
  by code_simp

lemma create_commit_keeps:
  assumes "mem_tables m" "refs_ok m" "mget (Domains m) (dom_ID d) = None"
  shows "mem_tables (create_commit fr u a d ms au j m)" "refs_ok (create_commit fr u a d ms au j m)"
proof -
  have "mem_tables (snd (assign_uid a m))" "refs_ok (snd (assign_uid a m))" using assms by simp_all
  moreover have "table acc_ID (mput (acc_ID a) (fst (assign_uid a m)) (Accounts m))"
    using assms by (intro table_put_id) (simp_all add: mem_tables_def)
  ultimately show "mem_tables (create_commit fr u a d ms au j m)" "refs_ok (create_commit fr u a d ms au j m)"
    using assms unfolding create_commit_def append_audit_sel by (simp_all add: mem_tables_def refs_ok_def)
qed

lemma ex_created_ok: "mem_tables (snd ex_created)" "refs_ok (snd ex_created)"
proof -
  have "mem_tables (snd ex_created) \<and> refs_ok (snd ex_created)"
    using create_cases [OF ex_created_eq] ex_base_ok(1,2) create_checksD(3)
    by (elim disjE exE conjE) (simp_all add: create_commit_keeps)
  then show "mem_tables (snd ex_created)" "refs_ok (snd ex_created)" by simp_all
qed

theorem import_keeps_store_witness: "mem_tables (snd ex_imported) \<and> refs_ok (snd ex_imported)"
  using import_keeps_store [OF ex_created_ok ex_imported_eq] by blast

theorem import_only_adds_owned_witness:
  "\<exists>d. mget (Domains (snd ex_imported)) ''d3'' = Some d \<and> dom_ASCII d = ''c.example''"
proof -
  have "mget (Domains (snd ex_created)) ''d3'' = Some ex_first_domain" "dom_ASCII ex_first_domain = ''c.example''"
    by code_simp+
  then show ?thesis using conjunct1 [OF import_only_adds_owned [OF ex_imported_eq refl]] by blast
qed

text \<open>
  The import check compares the names of imported domains with the names on file but not
  with each other: this import of two domains with one name succeeds, and both are on file
  afterwards.
\<close>

theorem import_accepts_duplicate_names:
  "\<exists>j m'. importAccountWithJob (ex_fresh\<lparr>fr_job := ''j12''\<rparr>) (Some ex_import) (Some job0) None (snd ex_created) = (Inr j, m') \<and>
     (\<exists>d e. mget (Domains m') ''d8'' = Some d \<and> mget (Domains m') ''d9'' = Some e \<and> dom_ASCII d = dom_ASCII e)"
proof -
  have "mget (Domains (snd ex_imported)) ''d8'' = Some (domain0\<lparr>dom_ID := ''d8'', dom_AccountID := ''a9'', dom_ASCII := ''same.example''\<rparr>)"
    "mget (Domains (snd ex_imported)) ''d9'' = Some (domain0\<lparr>dom_ID := ''d9'', dom_AccountID := ''a9'', dom_ASCII := ''same.example''\<rparr>)"
    by code_simp+
  with ex_imported_eq show ?thesis by auto
qed

end
