(* ===== verification/Store_Restore.thy ===== *)
theory Store_Restore
  imports Store_Commit
begin

text \<open>
  Restore journals of the store (\<^verbatim>\<open>internal/store/memory.go\<close>): beginning a restore, alone or
  with its job, checkpoints, failure and completion, and the fence counter of restores.

  The lemmas show that an account has at most one restore under way and that the fences of its
  restores increase.
\<close>

section \<open>States and operations\<close>

definition StateRestoreRequested :: string where "StateRestoreRequested = ''restore_requested''"
definition StateRestoreComplete :: string where "StateRestoreComplete = ''complete''"
definition StateRestoreFailed :: string where "StateRestoreFailed = ''failed''"

definition restoreIsActive :: "string \<Rightarrow> bool" where
  "restoreIsActive state \<longleftrightarrow>
     (if state = StateRestoreComplete \<or> state = StateRestoreFailed then False else state \<noteq> '''')"

definition BumpResourceFence :: "string \<Rightarrow> memory \<Rightarrow> int \<times> memory" where
  "BumpResourceFence key m =
     (fence_of m key + 1, m\<lparr>resourceFences := mput key (fence_of m key + 1) (resourceFences m)\<rparr>)"

definition activeRestoreLocked :: "memory \<Rightarrow> string \<Rightarrow> restorejournal option" where
  "activeRestoreLocked m aid =
     find (\<lambda>r. rst_AccountID r = aid \<and> restoreIsActive (rst_State r)) (mvals (Restores m))"

definition normalizeRestore :: "string \<Rightarrow> gotime \<Rightarrow> restorejournal \<Rightarrow> restorejournal" where
  "normalizeRestore fresh_id now j0 =
     (let j = (if rst_ID j0 = '''' then j0\<lparr>rst_ID := fresh_id\<rparr> else j0);
          j = (if rst_State j = '''' then j\<lparr>rst_State := StateRestoreRequested\<rparr> else j);
          j = (if rst_CreatedAt j = 0 then j\<lparr>rst_CreatedAt := now\<rparr> else j)
      in j\<lparr>rst_UpdatedAt := now\<rparr>)"

definition restore_fence_key :: "string \<Rightarrow> string" where
  "restore_fence_key aid = ''restore:'' @ aid"

text \<open>\<^verbatim>\<open>if journal.Fence == 0 { m.resourceFences["restore:"+...]++; ... }\<close>\<close>

definition assign_restore_fence :: "restorejournal \<Rightarrow> memory \<Rightarrow> restorejournal \<times> memory" where
  "assign_restore_fence j m =
     (if rst_Fence j = 0
      then (let (f, m1) = BumpResourceFence (restore_fence_key (rst_AccountID j)) m
            in (j\<lparr>rst_Fence := f\<rparr>, m1))
      else (j, m))"

definition BeginRestore ::
    "string \<Rightarrow> gotime \<Rightarrow> restorejournal option \<Rightarrow> memory \<Rightarrow> restorejournal res \<times> memory" where
  "BeginRestore fresh_id now journal m =
     (case journal of
        None \<Rightarrow> (Inl (ErrRequired ''restore journal''), m)
      | Some j \<Rightarrow>
          (case activeRestoreLocked m (rst_AccountID j) of
             Some e \<Rightarrow>
               if rst_BackupID e = rst_BackupID j \<and> rst_ObjectKey e = rst_ObjectKey j then (Inr e, m)
               else (Inl ErrRestoreInProgress, m)
           | None \<Rightarrow>
               (let (j', m1) = assign_restore_fence (normalizeRestore fresh_id now j) m
                in (Inr j', m1\<lparr>Restores := mput (rst_ID j') j' (Restores m1)\<rparr>))))"

definition CreateRestoreWithJob ::
    "fresh \<Rightarrow> string \<Rightarrow> restorejournal option \<Rightarrow> job option \<Rightarrow> auditevent \<Rightarrow> memory \<Rightarrow> commit_result" where
  "CreateRestoreWithJob fr fresh_id journal job audit m =
     (case (journal, job) of
        (Some r, Some j) \<Rightarrow>
          (case jobReplayLocked m j of
             Some replay \<Rightarrow> (Inr replay, m)
           | None \<Rightarrow>
               if activeRestoreLocked m (rst_AccountID r) \<noteq> None then (Inl ErrRestoreInProgress, m)
               else
                 (let j' = normalizeJob (fr_job fr) (fr_now fr) j
                  in case validateNewJobLocked m j' of
                       Some e \<Rightarrow> (Inl e, m)
                     | None \<Rightarrow>
                         (let (r', m1) = assign_restore_fence (normalizeRestore fresh_id (fr_now fr) r) m
                          in (Inr j', m1\<lparr> Restores := mput (rst_ID r') r' (Restores m1),
                                          Jobs := mput (job_ID j') j' (Jobs m1),
                                          Audit := Audit m1 @ [normalizeAudit fr j' audit] \<rparr>))))
      | _ \<Rightarrow> (Inl (ErrRequired ''restore journal and job''), m))"

definition GetRestore :: "memory \<Rightarrow> string \<Rightarrow> restorejournal option" where
  "GetRestore m i = mget (Restores m) i"

definition GetActiveRestore :: "memory \<Rightarrow> string \<Rightarrow> restorejournal option" where
  "GetActiveRestore m aid = activeRestoreLocked m aid"

definition CheckpointRestore ::
    "gotime \<Rightarrow> string \<Rightarrow> string \<Rightarrow> (string, any) gomap option \<Rightarrow> memory \<Rightarrow> store_error option \<times> memory" where
  "CheckpointRestore now i state extra m =
     (case mget (Restores m) i of
        None \<Rightarrow> (Some (ErrRequired ''restore journal''), m)
      | Some item \<Rightarrow>
          (let item' = item\<lparr>rst_State := state, rst_Checkpoints := rst_Checkpoints item @ [state],
                            rst_UpdatedAt := now\<rparr>;
               item'' = (if extra \<noteq> None then item'\<lparr>rst_Extra := extra\<rparr> else item')
           in (None, m\<lparr>Restores := mput i item'' (Restores m)\<rparr>)))"

definition FailRestore :: "gotime \<Rightarrow> string \<Rightarrow> string \<Rightarrow> bool \<Rightarrow> memory \<Rightarrow> store_error option \<times> memory" where
  "FailRestore now i state manual m =
     (case mget (Restores m) i of
        None \<Rightarrow> (Some (ErrRequired ''restore journal''), m)
      | Some item \<Rightarrow>
          (None, m\<lparr>Restores := mput i (item\<lparr>rst_State := state, rst_ManualIntervention := manual,
                                           rst_UpdatedAt := now\<rparr>) (Restores m)\<rparr>))"

definition FinishRestore :: "gotime \<Rightarrow> string \<Rightarrow> memory \<Rightarrow> store_error option \<times> memory" where
  "FinishRestore now i m =
     (case mget (Restores m) i of
        None \<Rightarrow> (Some (ErrRequired ''restore journal''), m)
      | Some item \<Rightarrow>
          (None, m\<lparr>Restores := mput i (item\<lparr>rst_State := StateRestoreComplete,
                                           rst_UpdatedAt := now\<rparr>) (Restores m)\<rparr>))"

section \<open>One restore at a time\<close>

definition active_at :: "memory \<Rightarrow> string \<Rightarrow> string \<Rightarrow> bool" where
  "active_at m aid k \<longleftrightarrow>
     (\<exists>r. mget (Restores m) k = Some r \<and> rst_AccountID r = aid \<and> restoreIsActive (rst_State r))"

definition restores_inv :: "memory \<Rightarrow> bool" where
  "restores_inv m \<longleftrightarrow> table rst_ID (Restores m) \<and> (\<forall>aid k k'. active_at m aid k \<longrightarrow> active_at m aid k' \<longrightarrow> k' = k)"

text \<open>
  Steps of the restore journals. A worker checkpoints or fails a restore that is under way; the
  store does not check this itself.
\<close>

inductive restore_step :: "memory \<Rightarrow> memory \<Rightarrow> bool" where
  start: "BeginRestore i now j m = (Inr r, m') \<Longrightarrow> restore_step m m'"
| create: "CreateRestoreWithJob fr i r j ev m = (Inr j', m') \<Longrightarrow> restore_step m m'"
| checkpoint: "CheckpointRestore now k st ex m = (None, m') \<Longrightarrow> mget (Restores m) k = Some e \<Longrightarrow>
     restoreIsActive (rst_State e) \<Longrightarrow> restore_step m m'"
| fail: "FailRestore now k st man m = (None, m') \<Longrightarrow> mget (Restores m) k = Some e \<Longrightarrow>
     restoreIsActive (rst_State e) \<Longrightarrow> restore_step m m'"
| finish: "FinishRestore now k m = (None, m') \<Longrightarrow> restore_step m m'"

lemma activeRestore_None:
  "table rst_ID (Restores m) \<Longrightarrow> activeRestoreLocked m aid = None \<longleftrightarrow> (\<forall>k. \<not> active_at m aid k)"
  by (simp add: activeRestoreLocked_def find_mvals_None active_at_def) metis

text \<open>Filing a restore of an account without an active one.\<close>

lemma new_restore_inv:
  assumes inv: "restores_inv m" and none: "activeRestoreLocked m (rst_AccountID j) = None"
    and m': "Restores m' = mput (rst_ID j) j (Restores m)"
  shows "restores_inv m'"
proof -
  have t: "table rst_ID (Restores m)" using inv by (simp add: restores_inv_def)
  have no: "\<not> active_at m (rst_AccountID j) k" for k
    using none activeRestore_None [OF t] by blast
  have at: "active_at m' aid k \<Longrightarrow> (k = rst_ID j \<and> aid = rst_AccountID j) \<or> (k \<noteq> rst_ID j \<and> active_at m aid k)"
    for aid k by (auto simp: active_at_def m' split: if_splits)
  have "k' = k" if "active_at m' aid k" "active_at m' aid k'" for aid k k'
    using at [OF that(1)] at [OF that(2)] no inv unfolding restores_inv_def by metis
  moreover have "table rst_ID (Restores m')" using t by (simp add: m')
  ultimately show ?thesis by (auto simp: restores_inv_def)
qed

text \<open>Rewriting a restore so that it is active only if it was.\<close>

lemma rewrite_restore_inv:
  assumes inv: "restores_inv m" and e: "mget (Restores m) k = Some e"
    and j: "rst_ID j = rst_ID e" "rst_AccountID j = rst_AccountID e"
      "restoreIsActive (rst_State j) \<Longrightarrow> restoreIsActive (rst_State e)"
  shows "restores_inv (m\<lparr>Restores := mput k j (Restores m)\<rparr>)"
proof -
  have t: "table rst_ID (Restores m)" using inv by (simp add: restores_inv_def)
  have at: "active_at (m\<lparr>Restores := mput k j (Restores m)\<rparr>) aid i \<Longrightarrow> active_at m aid i" for aid i
    using e j by (auto simp: active_at_def split: if_splits)
  have "table rst_ID (mput k j (Restores m))"
    using t e j(1) by (auto intro: table_put_id dest: table_id)
  with inv at show ?thesis unfolding restores_inv_def by simp blast
qed

lemma assign_restore_fence_sel [simp]:
  "Restores (snd (assign_restore_fence j m)) = Restores m"
  "rst_AccountID (fst (assign_restore_fence j m)) = rst_AccountID j"
  "rst_ID (fst (assign_restore_fence j m)) = rst_ID j"
  by (simp_all add: assign_restore_fence_def BumpResourceFence_def)

lemma normalizeRestore_sel [simp]: "rst_AccountID (normalizeRestore i now j) = rst_AccountID j"
  "rst_Fence (normalizeRestore i now j) = rst_Fence j"
  by (simp_all add: normalizeRestore_def Let_def)

lemma BeginRestore_inv:
  assumes "restores_inv m" "BeginRestore i now j m = (r, m')"
  shows "restores_inv m'"
  using assms
  by (auto simp: BeginRestore_def Let_def case_prod_unfold split: option.splits if_splits
      intro: new_restore_inv [of m "fst (assign_restore_fence (normalizeRestore i now (the j)) m)"])

lemma CreateRestore_inv:
  assumes "restores_inv m" "CreateRestoreWithJob fr i r j ev m = (x, m')"
  shows "restores_inv m'"
  using assms
  by (auto simp: CreateRestoreWithJob_def Let_def case_prod_unfold split: option.splits if_splits
      intro: new_restore_inv [of m "fst (assign_restore_fence (normalizeRestore i (fr_now fr) (the r)) m)"])

lemma restore_step_inv: "restore_step m m' \<Longrightarrow> restores_inv m \<Longrightarrow> restores_inv m'"
proof (induction rule: restore_step.induct)
  case (start i now j m r m')
  then show ?case by (auto intro: BeginRestore_inv)
next
  case (create fr i r j ev m j' m')
  then show ?case by (auto intro: CreateRestore_inv)
next
  case (checkpoint now k st ex m m' e)
  then show ?case
    by (auto simp: CheckpointRestore_def Let_def intro!: rewrite_restore_inv [of m k e] split: if_splits)
next
  case (fail now k st man m m' e)
  then show ?case
    by (auto simp: FailRestore_def intro!: rewrite_restore_inv [of m k e])
next
  case (finish now k m m')
  then show ?case
    by (auto simp: FinishRestore_def restoreIsActive_def intro!: rewrite_restore_inv split: option.splits)
qed

section \<open>Properties\<close>


text \<open>
  A restore that begins without a fence of its own gets one above the account's counter,
  which moves to it; so of two restores of an account the later has the greater fence.
\<close>

theorem restore_fences_increase:
  assumes "BeginRestore i now (Some j) m = (Inr r, m')" and "m' \<noteq> m" and "rst_Fence j = 0"
  shows "fence_of m (restore_fence_key (rst_AccountID j)) < rst_Fence r \<and>
    fence_of m' (restore_fence_key (rst_AccountID j)) = rst_Fence r \<and>
    mget (Restores m') (rst_ID r) = Some r"
  using assms
  by (auto simp: BeginRestore_def assign_restore_fence_def BumpResourceFence_def fence_of_def
      split: option.splits if_splits)

section \<open>Witnesses\<close>

definition ex_restore :: restorejournal where
  "ex_restore = restorejournal0\<lparr>rst_AccountID := ''a1'', rst_BackupID := ''bk1'', rst_ObjectKey := ''o1''\<rparr>"

definition ex_restoring :: "restorejournal res \<times> memory" where
  "ex_restoring = BeginRestore ''r1'' 5 (Some ex_restore) NewMemory"

lemma ex_restoring_eq: "BeginRestore ''r1'' 5 (Some ex_restore) NewMemory = (Inr (projr (fst ex_restoring)), snd ex_restoring)"
  by code_simp


theorem restore_fences_increase_witness:
  "0 < rst_Fence (projr (fst ex_restoring))"
proof -
  have "snd ex_restoring \<noteq> NewMemory" "rst_Fence ex_restore = 0" by code_simp+
  then show ?thesis
    using restore_fences_increase [OF ex_restoring_eq] by (simp add: fence_of_def NewMemory_def)
qed

end
