(* ===== verification/Agent_Fence.thy ===== *)
theory Agent_Fence
  imports Prelude
begin

text \<open>
  The host agent's side of fencing (\<^verbatim>\<open>agent/operations/fence.go\<close> and \<^verbatim>\<open>Dispatch\<close> of
  \<^verbatim>\<open>agent/operations/ops.go\<close>): the last accepted fence of every resource with the receipt
  of the operation, kept in memory and in a file, and the dispatch of a request behind it.

  What is not fence code is a parameter of the model, collected in a record: the method that a
  request names (\<^verbatim>\<open>dispatchMethod\<close>), as a function on the state \<open>'w\<close> of the host; the hook
  \<^verbatim>\<open>BeforeDispatch\<close>; the forwarding to another agent; the cancellation state of the context;
  the SHA-256 hex digest; JSON encoding and decoding of results; whether the state file could be
  written. Statements hold for all of them.

  Requests are dispatched one after the other here; the window between the check of the fence
  and its recording, which concurrent requests of the same resource could use, is not modelled.
\<close>

section \<open>Data\<close>

record envelope =
  env_OperationID :: string
  env_RequestID :: string
  env_ActorID :: string
  env_ResourceID :: string
  env_ExpectedRevision :: int
  env_Fence :: int

record request =
  req_Method :: string
  req_Env :: envelope
  req_Params :: string

record fenceRecord =
  fnc_Fence :: int
  fnc_OperationID :: string
  fnc_Method :: string
  fnc_Fingerprint :: string
  fnc_Receipt :: string

definition fenceRecord0 :: fenceRecord where
  "fenceRecord0 = \<lparr> fnc_Fence = 0, fnc_OperationID = '''', fnc_Method = '''', fnc_Fingerprint = '''',
     fnc_Receipt = '''' \<rparr>"

text \<open>\<open>hst_file\<close> is the content of \<^verbatim>\<open>fences.json\<close>, if it can be read and decoded.\<close>

record host =
  hst_Sock :: string
  hst_boundEnv :: envelope
  hst_fences :: "(string, fenceRecord) gomap option"
  hst_file :: "(string, fenceRecord) gomap option"

datatype agent_error = StaleFence | ContextDone | AgentErr string

record 'w platform =
  plf_ctx_err :: bool
  plf_before :: "(request \<Rightarrow> agent_error option) option"
  plf_call_unix :: "string \<Rightarrow> request \<Rightarrow> 'w \<Rightarrow> (agent_error + any) \<times> 'w"
  plf_method :: "request \<Rightarrow> 'w \<Rightarrow> (agent_error + any) \<times> 'w"
  plf_sha256_hex :: "string \<Rightarrow> string"
  plf_marshal :: "any \<Rightarrow> string option"
  plf_unmarshal :: "string \<Rightarrow> any"
  plf_write_ok :: bool

section \<open>Fences\<close>

definition requestFingerprint :: "'w platform \<Rightarrow> request \<Rightarrow> string" where
  "requestFingerprint p req = plf_sha256_hex p (req_Method req @ [CHR 0x00] @ req_Params req)"

definition fenceKey :: "envelope \<Rightarrow> string" where
  "fenceKey env = (if env_ResourceID env \<noteq> '''' then env_ResourceID env else env_OperationID env)"

definition ensureFences :: "host \<Rightarrow> host" where
  "ensureFences h =
     (case hst_fences h of
        Some _ \<Rightarrow> h
      | None \<Rightarrow> h\<lparr>hst_fences := Some (case hst_file h of None \<Rightarrow> [] | Some stored \<Rightarrow> stored)\<rparr>)"

definition fences_of :: "host \<Rightarrow> (string, fenceRecord) gomap" where
  "fences_of h = the (hst_fences (ensureFences h))"

definition loadFence :: "string \<Rightarrow> host \<Rightarrow> fenceRecord" where
  "loadFence key h = (case mget (fences_of h) key of Some rec \<Rightarrow> rec | None \<Rightarrow> fenceRecord0)"

definition persistFences :: "'w platform \<Rightarrow> (string, fenceRecord) gomap \<Rightarrow> host \<Rightarrow> host" where
  "persistFences p snapshot h = (if plf_write_ok p then h\<lparr>hst_file := Some snapshot\<rparr> else h)"

definition storeFence :: "'w platform \<Rightarrow> string \<Rightarrow> fenceRecord \<Rightarrow> host \<Rightarrow> host" where
  "storeFence p key rec h =
     (let h1 = ensureFences h;
          fs = mput key rec (fences_of h)
      in persistFences p fs (h1\<lparr>hst_fences := Some fs\<rparr>))"

text \<open>
  \<^verbatim>\<open>acceptFence\<close>: an error, or a receipt to replay (\<open>Some\<close>), or go ahead (\<open>None\<close>). Loading the
  fences is its only effect on the host.
\<close>

definition acceptFence :: "'w platform \<Rightarrow> request \<Rightarrow> host \<Rightarrow> (agent_error + any option) \<times> host" where
  "acceptFence p req h =
     (let env = req_Env req
      in if env_Fence env = 0 then (Inr None, h)
         else let key = fenceKey env
         in if key = '''' then (Inl StaleFence, h)
            else
              (let rec = loadFence key h; h1 = ensureFences h
               in if fnc_Fence rec > env_Fence env then (Inl StaleFence, h1)
                  else if fnc_Fence rec = env_Fence env \<and> fnc_OperationID rec = env_OperationID env \<and>
                          fnc_Method rec = req_Method req \<and>
                          fnc_Fingerprint rec = requestFingerprint p req \<and>
                          fnc_Fingerprint rec \<noteq> '''' \<and> length (fnc_Receipt rec) > 0
                  then (Inr (Some (plf_unmarshal p (fnc_Receipt rec))), h1)
                  else if fnc_Fence rec = env_Fence env \<and> fnc_OperationID rec \<noteq> '''' \<and>
                          fnc_OperationID rec \<noteq> env_OperationID env
                  then (Inl StaleFence, h1)
                  else (Inr None, h1)))"

definition rememberFence ::
    "'w platform \<Rightarrow> request \<Rightarrow> any \<Rightarrow> host \<Rightarrow> agent_error option \<times> host" where
  "rememberFence p req result h =
     (let env = req_Env req
      in if env_Fence env = 0 then (None, h)
         else let key = fenceKey env
         in if key = '''' then (None, h)
            else
              (case plf_marshal p result of
                 None \<Rightarrow> (Some (AgentErr ''marshal''), h)
               | Some raw \<Rightarrow>
                   (None, storeFence p key
                      \<lparr> fnc_Fence = env_Fence env, fnc_OperationID = env_OperationID env,
                        fnc_Method = req_Method req, fnc_Fingerprint = requestFingerprint p req,
                        fnc_Receipt = raw \<rparr> h)))"

section \<open>Dispatch\<close>

definition BindEnvelope :: "envelope \<Rightarrow> host \<Rightarrow> host" where
  "BindEnvelope env h = h\<lparr>hst_boundEnv := env\<rparr>"

definition effective_request :: "host \<Rightarrow> request \<Rightarrow> request" where
  "effective_request h req =
     (if env_Fence (req_Env req) = 0 \<and> env_Fence (hst_boundEnv h) \<noteq> 0
      then req\<lparr>req_Env := hst_boundEnv h\<rparr> else req)"

definition Dispatch ::
    "'w platform \<Rightarrow> request \<Rightarrow> host \<times> 'w \<Rightarrow> (agent_error + any) \<times> host \<times> 'w" where
  "Dispatch p req0 hw =
     (let (h, w) = hw;
          req = effective_request h req0
      in if plf_ctx_err p then (Inl ContextDone, h, w)
         else
           (case acceptFence p req h of
              (Inl e, h1) \<Rightarrow> (Inl e, h1, w)
            | (Inr (Some replay), h1) \<Rightarrow> (Inr replay, h1, w)
            | (Inr None, h1) \<Rightarrow>
                (case (case plf_before p of None \<Rightarrow> None | Some hook \<Rightarrow> hook req) of
                   Some e \<Rightarrow> (Inl e, h1, w)
                 | None \<Rightarrow>
                     if hst_Sock h1 \<noteq> ''''
                     then (case plf_call_unix p (hst_Sock h1) req w of (r, w1) \<Rightarrow> (r, h1, w1))
                     else
                       (case plf_method p req w of
                          (Inl e, w1) \<Rightarrow> (Inl e, h1, w1)
                        | (Inr result, w1) \<Rightarrow>
                            (case rememberFence p req result h1 of
                               (Some e, h2) \<Rightarrow> (Inl e, h2, w1)
                             | (None, h2) \<Rightarrow> (Inr result, h2, w1))))))"

text \<open>A restart of the agent forgets the memory and keeps the file.\<close>

definition restart :: "host \<Rightarrow> host" where
  "restart h = h\<lparr>hst_fences := None\<rparr>"

section \<open>Fences only grow\<close>

definition fence_at :: "host \<Rightarrow> string \<Rightarrow> int" where
  "fence_at h key = fnc_Fence (loadFence key h)"

lemma fences_ensure [simp]: "fences_of (ensureFences h) = fences_of h"
  by (simp add: fences_of_def ensureFences_def split: option.split)

lemma load_ensure [simp]: "loadFence k (ensureFences h) = loadFence k h"
  by (simp add: loadFence_def)

lemma ensure_frame [simp]: "hst_Sock (ensureFences h) = hst_Sock h" "hst_boundEnv (ensureFences h) = hst_boundEnv h"
  by (simp_all add: ensureFences_def split: option.split)

lemma load_store:
  "loadFence k (storeFence p key rec h) = (if k = key then rec else loadFence k h)"
  by (simp add: storeFence_def persistFences_def loadFence_def fences_of_def Let_def ensureFences_def
      split: option.splits)

lemma acceptFence_post:
  "acceptFence p req h = (r, h') \<Longrightarrow> (h' = h \<or> h' = ensureFences h) \<and>
     (r = Inr None \<longrightarrow> env_Fence (req_Env req) \<noteq> 0 \<longrightarrow>
        fence_at h (fenceKey (req_Env req)) \<le> env_Fence (req_Env req))"
  by (auto simp: acceptFence_def Let_def fence_at_def split: if_splits)

lemma stored_file [simp]: "plf_write_ok p \<Longrightarrow> hst_file (storeFence p key rec h) = Some (mput key rec (fences_of h))"
  by (simp add: storeFence_def persistFences_def Let_def)

lemma stored_fences [simp]: "fences_of (storeFence p key rec h) = mput key rec (fences_of h)"
  by (simp add: storeFence_def persistFences_def Let_def fences_of_def ensureFences_def split: option.splits)

lemma rememberFence_cases:
  "rememberFence p req res h = (r, h') \<Longrightarrow>
     h' = h \<or> (\<exists>raw. env_Fence (req_Env req) \<noteq> 0 \<and> fenceKey (req_Env req) \<noteq> [] \<and> r = None \<and>
       plf_marshal p res = Some raw \<and>
       h' = storeFence p (fenceKey (req_Env req))
              \<lparr> fnc_Fence = env_Fence (req_Env req), fnc_OperationID = env_OperationID (req_Env req),
                fnc_Method = req_Method req, fnc_Fingerprint = requestFingerprint p req,
                fnc_Receipt = raw \<rparr> h)"
  by (auto simp: rememberFence_def Let_def split: if_splits option.splits)

text \<open>What a dispatch leaves of the fences: nothing new, or the request's own record.\<close>

lemma Dispatch_host:
  assumes "Dispatch p req0 (h, w) = (r, h', w')" and "req = effective_request h req0"
  shows "fences_of h' = fences_of h \<or>
    (\<exists>rec. fences_of h' = mput (fenceKey (req_Env req)) rec (fences_of h) \<and>
       env_Fence (req_Env req) \<noteq> 0 \<and> fnc_Fence rec = env_Fence (req_Env req) \<and>
       fence_at h (fenceKey (req_Env req)) \<le> env_Fence (req_Env req))"
  using assms
  by (auto simp: Dispatch_def Let_def
      dest!: acceptFence_post rememberFence_cases
      split: prod.splits sum.splits option.splits if_splits)

text \<open>Runs of the agent: any requests on any platform behaviour, and restarts that find the file.\<close>

inductive agent_step :: "host \<times> 'w \<Rightarrow> host \<times> 'w \<Rightarrow> bool" where
  dispatch: "Dispatch p req (h, w) = (r, h', w') \<Longrightarrow> agent_step (h, w) (h', w')"
| bind: "agent_step (h, w) (BindEnvelope env h, w)"
| host_change: "agent_step (h, w) (h, w')"
| restarted: "hst_file h = Some (fences_of h) \<Longrightarrow> agent_step (h, w) (restart h, w)"

lemma fence_at_fences: "fences_of h' = fences_of h \<Longrightarrow> fence_at h' = fence_at h"
  by (rule ext) (simp add: fence_at_def loadFence_def)

lemma Dispatch_fence_mono:
  assumes "Dispatch p req0 (h, w) = (r, h', w')"
  shows "fence_at h key \<le> fence_at h' key"
  using Dispatch_host [OF assms refl]
proof (elim disjE exE conjE)
  assume "fences_of h' = fences_of h"
  from fence_at_fences [OF this] show ?thesis by simp
next
  fix rec
  assume "fences_of h' = mput (fenceKey (req_Env (effective_request h req0))) rec (fences_of h)"
    and "fnc_Fence rec = env_Fence (req_Env (effective_request h req0))"
    and "fence_at h (fenceKey (req_Env (effective_request h req0))) \<le> env_Fence (req_Env (effective_request h req0))"
  then show ?thesis by (auto simp: fence_at_def loadFence_def)
qed

lemma agent_step_mono: "agent_step s s' \<Longrightarrow> fence_at (fst s) key \<le> fence_at (fst s') key"
proof (induction rule: agent_step.induct)
  case (dispatch p req h w r h' w')
  then show ?case by (simp add: Dispatch_fence_mono)
next
  case (bind h w env)
  have "fences_of (BindEnvelope env h) = fences_of h"
    by (simp add: BindEnvelope_def fences_of_def ensureFences_def split: option.split)
  from fence_at_fences [OF this] show ?case by simp
next
  case (restarted h w)
  then have "fences_of (restart h) = fences_of h"
    unfolding fences_of_def [of "restart h"] by (simp add: restart_def ensureFences_def)
  from fence_at_fences [OF this] show ?case by simp
qed simp

lemma agent_steps_mono: "agent_step\<^sup>*\<^sup>* s s' \<Longrightarrow> fence_at (fst s) key \<le> fence_at (fst s') key"
  by (induction rule: rtranclp_induct) (auto dest: agent_step_mono intro: order_trans)

text \<open>A request below the recorded fence does not reach the host.\<close>

lemma stale_refused:
  assumes "env_Fence (req_Env req) \<noteq> 0" "env_Fence (req_Env req) < fence_at h (fenceKey (req_Env req))"
    and "\<not> plf_ctx_err p"
  shows "\<exists>h'. Dispatch p req (h, w) = (Inl StaleFence, h', w)"
  using assms
  by (auto simp: Dispatch_def effective_request_def acceptFence_def Let_def fence_at_def)

text \<open>A request that was carried out leaves its fence with its receipt.\<close>

lemma Dispatch_records:
  assumes d: "Dispatch p req (h, w) = (Inr res, h', w')" and sock: "hst_Sock h = []"
    and f: "env_Fence (req_Env req) \<noteq> 0"
    and acc: "acceptFence p req h = (Inr None, h1)"
  shows "\<exists>raw. plf_marshal p res = Some raw \<and> loadFence (fenceKey (req_Env req)) h' =
     \<lparr> fnc_Fence = env_Fence (req_Env req), fnc_OperationID = env_OperationID (req_Env req),
       fnc_Method = req_Method req, fnc_Fingerprint = requestFingerprint p req, fnc_Receipt = raw \<rparr>"
proof -
  have key: "fenceKey (req_Env req) \<noteq> []"
    using acc f by (auto simp: acceptFence_def Let_def split: if_splits)
  have "effective_request h req = req" using f by (simp add: effective_request_def)
  moreover have "hst_Sock h1 = []" using acceptFence_post [OF acc] sock by auto
  ultimately obtain w1 where "rememberFence p req res h1 = (None, h')" "plf_method p req w = (Inr res, w1)"
    using d acc by (auto simp: Dispatch_def Let_def split: prod.splits sum.splits option.splits if_splits)
  then show ?thesis
    using f key by (auto simp: rememberFence_def Let_def load_store split: option.splits)
qed

section \<open>Properties\<close>

text \<open>
  The agent refuses stale work for good: once a request with fence \<open>f\<close> has been carried
  out for a resource, every later request for that resource with a smaller (non-zero) fence is
  answered with \<^verbatim>\<open>ErrStaleFence\<close> and leaves the host untouched, whatever requests, host
  changes and restarts come in between.
\<close>

theorem agent_refuses_stale:
  assumes d: "Dispatch p req (h, w) = (Inr res, h1, w1)" and acc: "acceptFence p req h = (Inr None, h0)"
    and sock: "hst_Sock h = []" and f: "env_Fence (req_Env req) \<noteq> 0"
    and run: "agent_step\<^sup>*\<^sup>* (h1, w1) (h2, w2)"
    and stale: "env_Fence (req_Env old) \<noteq> 0" "env_Fence (req_Env old) < env_Fence (req_Env req)"
      "fenceKey (req_Env old) = fenceKey (req_Env req)"
    and ctx: "\<not> plf_ctx_err p'"
  shows "\<exists>h3. Dispatch p' old (h2, w2) = (Inl StaleFence, h3, w2)"
proof (rule stale_refused [OF stale(1) _ ctx])
  from Dispatch_records [OF d sock f acc] have "env_Fence (req_Env req) = fence_at h1 (fenceKey (req_Env req))"
    by (auto simp: fence_at_def)
  also have "fence_at h1 (fenceKey (req_Env req)) \<le> fence_at h2 (fenceKey (req_Env req))"
    using agent_steps_mono [OF run] by simp
  finally show "env_Fence (req_Env old) < fence_at h2 (fenceKey (req_Env old))"
    using stale by simp
qed

text \<open>
  Retrying a request that was carried out does not run it again: sent once more right
  after, the same request gets the recorded result back and the host is left untouched. JSON
  encoding is taken to be invertible and non-empty and digests to be non-empty.
\<close>

theorem agent_replays_receipt:
  assumes d: "Dispatch p req (h, w) = (Inr res, h1, w1)" and acc: "acceptFence p req h = (Inr None, h0)"
    and sock: "hst_Sock h = []" and f: "env_Fence (req_Env req) \<noteq> 0" and ctx: "\<not> plf_ctx_err p"
    and json: "\<forall>x s. plf_marshal p x = Some s \<longrightarrow> s \<noteq> [] \<and> plf_unmarshal p s = x"
    and sha: "\<forall>s. plf_sha256_hex p s \<noteq> []"
  shows "\<exists>h2. Dispatch p req (h1, w1) = (Inr res, h2, w1)"
proof -
  obtain raw where raw: "plf_marshal p res = Some raw"
    "loadFence (fenceKey (req_Env req)) h1 =
       \<lparr> fnc_Fence = env_Fence (req_Env req), fnc_OperationID = env_OperationID (req_Env req),
         fnc_Method = req_Method req, fnc_Fingerprint = requestFingerprint p req, fnc_Receipt = raw \<rparr>"
    using Dispatch_records [OF d sock f acc] by blast
  have key: "fenceKey (req_Env req) \<noteq> []"
    using acc f by (auto simp: acceptFence_def Let_def split: if_splits)
  have "acceptFence p req h1 = (Inr (Some res), ensureFences h1)"
    using raw f key json sha by (simp add: acceptFence_def Let_def requestFingerprint_def)
  with f ctx show ?thesis by (auto simp: Dispatch_def effective_request_def)
qed

section \<open>Witnesses\<close>

definition ex_env :: "int \<Rightarrow> envelope" where
  "ex_env f = \<lparr> env_OperationID = ''op'', env_RequestID = '''', env_ActorID = '''',
     env_ResourceID = ''site1'', env_ExpectedRevision = 0, env_Fence = f \<rparr>"

definition ex_req :: "int \<Rightarrow> request" where
  "ex_req f = \<lparr> req_Method = ''write'', req_Env = ex_env f, req_Params = ''x'' \<rparr>"

text \<open>A host whose state counts the calls.\<close>

definition ex_platform :: "nat platform" where
  "ex_platform = \<lparr> plf_ctx_err = False, plf_before = None,
     plf_call_unix = (\<lambda>_ _ w. (Inl (AgentErr ''off''), w)), plf_method = (\<lambda>_ w. (Inr (VString ''ok''), Suc w)),
     plf_sha256_hex = (\<lambda>s. CHR ''d'' # s), plf_marshal = (\<lambda>x. case x of VString s \<Rightarrow> Some (CHR ''j'' # s) | _ \<Rightarrow> None),
     plf_unmarshal = (\<lambda>s. VString (tl s)), plf_write_ok = True \<rparr>"

definition ex_host :: host where
  "ex_host = \<lparr> hst_Sock = '''', hst_boundEnv = ex_env 0, hst_fences = None, hst_file = None \<rparr>"

lemma ex_dispatch:
  "Dispatch ex_platform (ex_req 7) (ex_host, 0) =
     (Inr (VString ''ok''), fst (snd (Dispatch ex_platform (ex_req 7) (ex_host, 0))), 1)"
  "acceptFence ex_platform (ex_req 7) ex_host = (Inr None, ensureFences ex_host)"
  by (simp_all add: Dispatch_def ex_platform_def ex_req_def ex_env_def ex_host_def acceptFence_def Let_def
      effective_request_def loadFence_def fences_of_def ensureFences_def fenceRecord0_def fenceKey_def
      rememberFence_def)

theorem agent_refuses_stale_witness:
  "\<exists>h3. Dispatch ex_platform (ex_req 3) (fst (snd (Dispatch ex_platform (ex_req 7) (ex_host, 0))), 1) =
     (Inl StaleFence, h3, 1)"
  by (rule agent_refuses_stale [OF ex_dispatch _ _ rtranclp.rtrancl_refl])
    (simp_all add: ex_host_def ex_req_def ex_env_def ex_platform_def fenceKey_def)

theorem agent_replays_receipt_witness:
  "\<exists>h2. Dispatch ex_platform (ex_req 7) (fst (snd (Dispatch ex_platform (ex_req 7) (ex_host, 0))), 1) =
     (Inr (VString ''ok''), h2, 1)"
  by (rule agent_replays_receipt [OF ex_dispatch])
    (auto simp: ex_host_def ex_req_def ex_env_def ex_platform_def split: any.splits)

end
