(* ===== verification/Worker.thy ===== *)
theory Worker
  imports Store_Jobs Agent_Fence
begin

text \<open>
  The worker (\<^verbatim>\<open>internal/job/worker.go\<close>): the run of one claimed job, the loop that drains the
  queue, the reaper and the scan for drifted accounts.

  What the handlers do to the host is a parameter: a \<open>handler\<close> takes the job and the state of the
  worker (the bound agent, if there is one, and the store) and returns an error text or none, the
  job as it left it, whether the context was cancelled meanwhile, and the new state. Whatever other
  workers and the API server do while the handler runs is part of its effect on the store.
\<close>

section \<open>Running one job\<close>

text \<open>The envelope that \<^verbatim>\<open>execute\<close> binds for a claimed job, so that every request of the job carries it.\<close>

definition job_envelope :: "job \<Rightarrow> envelope" where
  "job_envelope j = \<lparr> env_OperationID = job_OperationID j, env_RequestID = job_RequestID j,
     env_ActorID = job_ActorID j, env_ResourceID = job_ResourceID j,
     env_ExpectedRevision = job_TargetRevision j, env_Fence = job_Fence j \<rparr>"

definition envelope0 :: envelope where
  "envelope0 = \<lparr> env_OperationID = '''', env_RequestID = '''', env_ActorID = '''',
     env_ResourceID = '''', env_ExpectedRevision = 0, env_Fence = 0 \<rparr>"

type_synonym wstate = "host option \<times> memory"
type_synonym handler = "job \<Rightarrow> wstate \<Rightarrow> string option \<times> job \<times> bool \<times> wstate"

definition gone :: "string option \<Rightarrow> bool" where
  "gone err = (case err of None \<Rightarrow> False | Some s \<Rightarrow> contains s ''missing'')"

text \<open>The job as it is announced before the handler runs, and as the handler's result leaves it.\<close>

definition started_job :: "job \<Rightarrow> job" where
  "started_job j = j\<lparr> job_Logs := job_Logs j @ [''started '' @ job_Type j], job_Progress := 5 \<rparr>"

definition finished_job :: "gotime \<Rightarrow> string option \<Rightarrow> job \<Rightarrow> job" where
  "finished_job now err j =
     (case err of
        Some e \<Rightarrow>
          (let j1 = j\<lparr> job_LastError := e, job_Logs := job_Logs j @ [''error: '' @ e] \<rparr>
           in if job_Attempts j1 \<ge> job_MaxAttempts j1 \<or> gone err
              then j1\<lparr> job_State := ''failed'', job_FinishedAt := Some now \<rparr>
              else j1\<lparr> job_State := ''retrying'', job_RunAfter := now + RetryDelay (job_Attempts j1 + 1) \<rparr>)
      | None \<Rightarrow>
          j\<lparr> job_State := ''succeeded'', job_Progress := 100, job_FinishedAt := Some now,
             job_Logs := job_Logs j @ [''succeeded''] \<rparr>)"

definition execute :: "gotime \<Rightarrow> handler \<Rightarrow> job \<Rightarrow> wstate \<Rightarrow> wstate" where
  "execute now handle j s =
     (let (agent, m) = s;
          agent1 = map_option (BindEnvelope (job_envelope j)) agent;
          unbind = map_option (BindEnvelope envelope0)
      in case UpdateJob (started_job j) m of
           (Some _, m1) \<Rightarrow> (unbind agent1, m1)
         | (None, m1) \<Rightarrow>
             (case handle ((started_job j)\<lparr>job_Retryable := None\<rparr>) (agent1, m1) of
                (err, j2, cancelled, (agent2, m2)) \<Rightarrow>
                  if cancelled then (unbind agent2, m2)
                  else (unbind agent2, snd (UpdateJob (finished_job now err j2) m2))))"

section \<open>The loops\<close>

text \<open>
  \<^verbatim>\<open>Drain\<close> with fuel: \<open>clk n\<close> is the clock at the \<open>n\<close>-th claim, \<open>fin n\<close> the clock when that job
  is finished. \<open>None\<close> means that the fuel was not enough.
\<close>

fun Drain :: "nat \<Rightarrow> (nat \<Rightarrow> gotime) \<Rightarrow> (nat \<Rightarrow> gotime) \<Rightarrow> handler \<Rightarrow> string \<Rightarrow> wstate \<Rightarrow> wstate option" where
  "Drain 0 clk fin handle name s = None"
| "Drain (Suc n) clk fin handle name (agent, m) =
     (case ClaimJob (clk 0) name m of
        (None, m1) \<Rightarrow> Some (agent, m1)
      | (Some j, m1) \<Rightarrow>
          Drain n (\<lambda>i. clk (Suc i)) (\<lambda>i. fin (Suc i)) handle name (execute (fin 0) handle j (agent, m1)))"

definition reap :: "gotime \<Rightarrow> gotime \<Rightarrow> memory \<Rightarrow> memory" where
  "reap now clock m = ExpireStaleLeases now clock m"

text \<open>The job that \<^verbatim>\<open>scanDrift\<close> files for an account, and its loop over the drifted accounts.\<close>

definition reconcile_key :: "account \<Rightarrow> string" where
  "reconcile_key a = ''reconcile:'' @ acc_ID a @ '':'' @ itoa (acc_DesiredRevision a)"

definition reconcile_job :: "account \<Rightarrow> job" where
  "reconcile_job a = job0\<lparr> job_Type := ''account.reconcile'', job_ResourceType := ''account'',
     job_ResourceID := acc_ID a, job_TargetRevision := acc_DesiredRevision a,
     job_Payload := [(''account_id'', VString (acc_ID a)), (''target_revision'', VInt64 (acc_DesiredRevision a))],
     job_State := ''queued'', job_IdempotencyKey := reconcile_key a \<rparr>"

fun scan_drifted :: "(nat \<Rightarrow> string) \<Rightarrow> gotime \<Rightarrow> account list \<Rightarrow> memory \<Rightarrow> memory" where
  "scan_drifted fresh now [] m = m"
| "scan_drifted fresh now (a # as) m =
     scan_drifted (\<lambda>n. fresh (Suc n)) now as (snd (EnqueueJob (fresh 0) now (reconcile_job a) m))"

definition scanDrift_accounts :: "(nat \<Rightarrow> string) \<Rightarrow> gotime \<Rightarrow> memory \<Rightarrow> memory" where
  "scanDrift_accounts fresh now m = scan_drifted fresh now (DriftedAccounts m) m"

text \<open>The account a job is about.\<close>

definition any_str :: "any option \<Rightarrow> string" where
  "any_str v = (case v of Some (VString s) \<Rightarrow> s | _ \<Rightarrow> '''')"

definition jobAccount :: "memory \<Rightarrow> job \<Rightarrow> account option" where
  "jobAccount m j =
     (case GetAccount m (any_str (mget (job_Payload j) ''account_id'')) of
        Some a \<Rightarrow> Some a
      | None \<Rightarrow> if job_ResourceType j = ''account'' then GetAccount m (job_ResourceID j) else None)"

section \<open>What a run leaves in the queue\<close>

lemma started_sel [simp]:
  "job_ID (started_job j) = job_ID j" "job_Fence (started_job j) = job_Fence j"
  "job_Attempts (started_job j) = job_Attempts j" "job_State (started_job j) = job_State j"
  by (simp_all add: started_job_def)

lemma finished_sel [simp]:
  "job_ID (finished_job now err j) = job_ID j" "job_Fence (finished_job now err j) = job_Fence j"
  "job_Attempts (finished_job now err j) = job_Attempts j"
  "same_resource e (finished_job now err j) \<longleftrightarrow> same_resource e j"
  by (simp_all add: finished_job_def same_resource_def Let_def split: option.split)

lemma same_resource_upd [simp]:
  "same_resource j (started_job j')  \<longleftrightarrow> same_resource j j'"
  "same_resource j (j'\<lparr>job_Retryable := r\<rparr>) \<longleftrightarrow> same_resource j j'"
  by (simp_all add: same_resource_def started_job_def)

lemma UpdateJob_accepted:
  assumes "mget (Jobs m) (job_ID j) = Some e" "job_Fence e = job_Fence j"
  shows "UpdateJob j m = (None, m\<lparr>Jobs := mput (job_ID j) (j\<lparr>job_Retryable := None\<rparr>) (Jobs m)\<rparr>)"
  using assms by (simp add: UpdateJob_def acceptJobMutation_def)

lemma UpdateJob_stale:
  assumes "mget (Jobs m) (job_ID j) = Some e" "job_Fence e \<noteq> 0" "job_Fence e \<noteq> job_Fence j"
  shows "UpdateJob j m = (Some ErrStaleFence, m)"
  using assms by (auto simp: UpdateJob_def acceptJobMutation_def)

lemma UpdateJob_inv:
  assumes "jobs_inv m" "mget (Jobs m) (job_ID j) = Some e" "job_Fence e = job_Fence j" "same_resource e j"
  shows "jobs_inv (snd (UpdateJob j m))"
  using UpdateJob_accepted [OF assms(2,3)] rewrite_job_inv [OF assms(1,2), of "j\<lparr>job_Retryable := None\<rparr>"]
    assms(3,4) by simp

text \<open>What a claim leaves in the store, in one place.\<close>

lemma claimed_facts:
  assumes "jobs_inv m" and "ClaimJob now w m = (Some j, m')"
  obtains e where "jobs_inv m'" "mget (Jobs m') (job_ID j) = Some j" "job_State j = ''running''"
    "0 < job_Fence j" "job_LeaseExpires j = Some (now + JobLeaseTTL)" "job_LockedBy j = w"
    "mget (Jobs m) (job_ID j) = Some e" "claimable now e" "job_Attempts j = job_Attempts e + 1"
    "\<And>k. k \<noteq> job_ID j \<Longrightarrow> mget (Jobs m') k = mget (Jobs m) k"
proof -
  from ClaimJob_post [OF assms] obtain e where e: "mget (Jobs m) (job_ID e) = Some e" "claimable now e"
    "same_resource e j" "m' = granted (job_ID e) e j m" "job_Attempts j = job_Attempts e + 1" by metis
  have "job_ID e = job_ID j" using e(3) by (simp add: same_resource_def)
  moreover have "job_State j = ''running''" "job_LeaseExpires j = Some (now + JobLeaseTTL)" "job_LockedBy j = w"
    using assms(2) by (auto elim: ClaimJob_granted)
  ultimately show thesis
    using that e claimed_counter(3,4) [OF assms] ClaimJob_inv [OF assms] by simp
qed

lemma retry_delay_ge: "2 \<le> n \<Longrightarrow> 10000000000 \<le> RetryDelay n"
  by (auto simp: RetryDelay_def)

text \<open>The announced run: the store when the handler is called.\<close>

definition announced :: "job \<Rightarrow> memory \<Rightarrow> memory" where
  "announced j m = m\<lparr>Jobs := mput (job_ID j) ((started_job j)\<lparr>job_Retryable := None\<rparr>) (Jobs m)\<rparr>"

lemma execute_run:
  assumes "mget (Jobs m) (job_ID j) = Some e" "job_Fence e = job_Fence j"
    and "handle ((started_job j)\<lparr>job_Retryable := None\<rparr>)
           (map_option (BindEnvelope (job_envelope j)) agent, announced j m) = (err, j2, c, agent2, m2)"
  shows "execute now handle j (agent, m) =
     (map_option (BindEnvelope envelope0) agent2,
      if c then m2 else snd (UpdateJob (finished_job now err j2) m2))"
  using assms UpdateJob_accepted [of m "started_job j"]
  by (simp add: execute_def announced_def Let_def)

lemma announced_inv:
  assumes "jobs_inv m" "mget (Jobs m) (job_ID j) = Some j"
  shows "jobs_inv (announced j m)"
  unfolding announced_def using assms
  by (intro rewrite_job_inv) (auto simp: same_resource_def started_job_def)

section \<open>Draining the queue\<close>

text \<open>
  A handler is tame when it leaves the rest of the queue as it is and its own job running under
  the same fence.
\<close>

definition tame :: "handler \<Rightarrow> bool" where
  "tame handle \<longleftrightarrow> (\<forall>j a m err j2 c a2 m2. handle j (a, m) = (err, j2, c, a2, m2) \<longrightarrow> jobs_inv m \<longrightarrow>
     mget (Jobs m) (job_ID j) = Some j \<longrightarrow> job_State j = ''running'' \<longrightarrow>
     jobs_inv m2 \<and> same_resource j j2 \<and> job_Fence j2 = job_Fence j \<and> job_Attempts j2 = job_Attempts j \<and>
     (\<forall>k. k \<noteq> job_ID j \<longrightarrow> mget (Jobs m2) k = mget (Jobs m) k) \<and>
     (\<exists>e. mget (Jobs m2) (job_ID j) = Some e \<and> same_resource j e \<and> job_State e = ''running'' \<and>
        job_Fence e = job_Fence j \<and> job_Attempts e = job_Attempts j))"

definition due :: "gotime \<Rightarrow> memory \<Rightarrow> string set" where
  "due t m = {k. \<exists>j. mget (Jobs m) k = Some j \<and> claimable t j}"

lemma finite_due [simp]: "finite (due t m)"
proof (rule finite_subset)
  show "due t m \<subseteq> fst ` set (Jobs m)" by (force simp: due_def dest: map_of_SomeD)
qed simp

lemma finished_not_claimable:
  assumes "0 < job_Attempts j" "t < now + 10000000000"
  shows "\<not> claimable t ((finished_job now err j)\<lparr>job_Retryable := None\<rparr>)"
proof -
  have "10000000000 \<le> RetryDelay (job_Attempts j + 1)" using assms(1) by (intro retry_delay_ge) simp
  with assms(2) show ?thesis
    by (auto simp: claimable_def finished_job_def Let_def split: option.split)
qed

definition attempts_ok :: "memory \<Rightarrow> bool" where
  "attempts_ok m \<longleftrightarrow> (\<forall>k j. mget (Jobs m) k = Some j \<longrightarrow> 0 \<le> job_Attempts j)"

lemma claim_execute:
  assumes t: "tame handle" and inv: "jobs_inv m" and att: "attempts_ok m"
    and c: "ClaimJob now w m = (Some j, m1)" and time: "now \<le> T" "T < fin + 10000000000"
    and x: "execute fin handle j (a, m1) = (a', m')"
  shows "jobs_inv m' \<and> attempts_ok m' \<and> job_ID j \<in> due T m \<and> due T m' = due T m - {job_ID j}"
proof -
  from inv c obtain e where j: "jobs_inv m1" "mget (Jobs m1) (job_ID j) = Some j" "job_State j = ''running''"
    "mget (Jobs m) (job_ID j) = Some e" "claimable now e" "job_Attempts j = job_Attempts e + 1"
    "\<And>k. k \<noteq> job_ID j \<Longrightarrow> mget (Jobs m1) k = mget (Jobs m) k"
    by (rule claimed_facts) metis
  have pos: "0 < job_Attempts j" using att j(4,6) by (auto simp: attempts_ok_def)
  obtain err j2 cn a2 m2 where h: "handle ((started_job j)\<lparr>job_Retryable := None\<rparr>)
      (map_option (BindEnvelope (job_envelope j)) a, announced j m1) = (err, j2, cn, a2, m2)"
    by (metis prod.exhaust)
  have here: "mget (Jobs (announced j m1)) (job_ID j) = Some ((started_job j)\<lparr>job_Retryable := None\<rparr>)"
    by (simp add: announced_def)
  obtain e2 where m2: "jobs_inv m2" "same_resource j j2" "job_Fence j2 = job_Fence j" "job_Attempts j2 = job_Attempts j"
    "\<And>k. k \<noteq> job_ID j \<Longrightarrow> mget (Jobs m2) k = mget (Jobs m) k"
    "mget (Jobs m2) (job_ID j) = Some e2" "same_resource j e2" "job_State e2 = ''running''"
    "job_Fence e2 = job_Fence j" "job_Attempts e2 = job_Attempts j"
    using t [unfolded tame_def, rule_format, OF h announced_inv [OF j(1,2)]] here j(3,7)
    by (auto simp: same_resource_def announced_def started_job_def)
  have id2: "job_ID j2 = job_ID j" using m2(2) by (simp add: same_resource_def)
  let ?f = "(finished_job fin err j2)\<lparr>job_Retryable := None\<rparr>"
  have m': "m' = (if cn then m2 else m2\<lparr>Jobs := mput (job_ID j) ?f (Jobs m2)\<rparr>)"
    using execute_run [where handle = handle and agent = a and now = fin, OF j(2) refl h] x UpdateJob_accepted [of m2 "finished_job fin err j2"] m2(3,6,9) id2
    by simp
  have "same_resource e2 j2" using m2(2,7) by (simp add: same_resource_def)
  then have "jobs_inv m'"
    using m' m2(1,3,6,9) by (auto intro!: rewrite_job_inv)
  moreover have rest: "mget (Jobs m') k = mget (Jobs m) k" if "k \<noteq> job_ID j" for k
    using m' m2(5) that by simp
  obtain e' where e': "mget (Jobs m') (job_ID j) = Some e'" "\<not> claimable T e'" "0 \<le> job_Attempts e'"
  proof (cases cn)
    case True
    then show thesis using that [of e2] m' m2(6,8,10) pos by (simp add: claimable_def)
  next
    case False
    then show thesis using that [of ?f] m' m2(4) pos time finished_not_claimable [of j2 T fin err] by simp
  qed
  moreover have "attempts_ok m'"
    unfolding attempts_ok_def
  proof (intro allI impI)
    fix k i assume "mget (Jobs m') k = Some i"
    then show "0 \<le> job_Attempts i" using rest e'(1,3) att by (cases "k = job_ID j") (auto simp: attempts_ok_def)
  qed
  moreover have "claimable T e" using j(5) time(1) by (auto simp: claimable_def)
  then have "job_ID j \<in> due T m" using j(4) by (auto simp: due_def)
  moreover have "k \<in> due T m' \<longleftrightarrow> k \<in> due T m - {job_ID j}" for k
    using rest e'(1,2) by (cases "k = job_ID j") (simp_all add: due_def)
  ultimately show ?thesis by blast
qed

lemma Drain_ends:
  assumes "tame handle"
  shows "jobs_inv m \<Longrightarrow> attempts_ok m \<Longrightarrow> \<forall>i. clk i \<le> T \<Longrightarrow> \<forall>i. T < fin i + 10000000000 \<Longrightarrow>
    card (due T m) < n \<Longrightarrow>
    \<exists>a' m' k. Drain n clk fin handle w (a, m) = Some (a', m') \<and> k \<le> card (due T m) \<and>
      jobs_inv m' \<and> due T m' \<subseteq> due T m \<and> due (clk k) m' = {}"
proof (induction n arbitrary: clk fin a m)
  case (Suc n)
  obtain r m1 where c: "ClaimJob (clk 0) w m = (r, m1)" by (metis prod.exhaust)
  show ?case
  proof (cases r)
    case None
    with c have "m1 = m" "due (clk 0) m = {}"
      by (auto simp: ClaimJob_def pick_best_None due_def Let_def dest!: mget_mvals
          split: option.splits prod.splits)
    with None c Suc.prems(1) show ?thesis by (auto intro!: exI [of _ 0])
  next
    case (Some j)
    obtain a' m' where x: "execute (fin 0) handle j (a, m1) = (a', m')" by (metis prod.exhaust)
    have m': "jobs_inv m'" "attempts_ok m'" "job_ID j \<in> due T m" "due T m' = due T m - {job_ID j}"
      using claim_execute [OF assms Suc.prems(1,2) c [unfolded Some] _ _ x, of T] Suc.prems(3,4) by auto
    then have card: "Suc (card (due T m')) = card (due T m)" by (metis card_Suc_Diff1 finite_due)
    have "\<exists>a'' m'' k. Drain n (\<lambda>i. clk (Suc i)) (\<lambda>i. fin (Suc i)) handle w (a', m') = Some (a'', m'') \<and>
        k \<le> card (due T m') \<and> jobs_inv m'' \<and> due T m'' \<subseteq> due T m' \<and> due (clk (Suc k)) m'' = {}"
      using Suc.prems(3-5) card by (intro Suc.IH m'(1,2)) auto
    then obtain a'' m'' k where "Drain n (\<lambda>i. clk (Suc i)) (\<lambda>i. fin (Suc i)) handle w (a', m') = Some (a'', m'')"
      "k \<le> card (due T m')" "jobs_inv m''" "due T m'' \<subseteq> due T m'" "due (clk (Suc k)) m'' = {}" by blast
    with c Some x card m'(4) show ?thesis
      by (intro exI [of _ a''] exI [of _ m''] exI [of _ "Suc k"]) auto
  qed
qed simp

section \<open>The scan for drifted accounts\<close>

lemma EnqueueJob_sel:
  "Accounts (snd (EnqueueJob i t j m)) = Accounts m"
  by (simp add: EnqueueJob_def Let_def split: option.split)

lemma EnqueueJob_known:
  assumes "job_IdempotencyKey j \<noteq> []" "\<exists>e \<in> set (mvals (Jobs m)). job_IdempotencyKey e = job_IdempotencyKey j"
  shows "snd (EnqueueJob i t j m) = m"
proof -
  have "find (\<lambda>e. job_IdempotencyKey e = job_IdempotencyKey j) (mvals (Jobs m)) \<noteq> None"
    using assms(2) by (auto simp: find_None_iff)
  then show ?thesis using assms(1) by (auto simp: EnqueueJob_def)
qed

lemma EnqueueJob_unknown:
  assumes "\<forall>e \<in> set (mvals (Jobs m)). job_IdempotencyKey e \<noteq> job_IdempotencyKey j"
  shows "snd (EnqueueJob i t j m) =
    m\<lparr>Jobs := mput (job_ID (normalizeJob i t j)) (normalizeJob i t j) (Jobs m)\<rparr>"
proof -
  have "find (\<lambda>e. job_IdempotencyKey e = job_IdempotencyKey j) (mvals (Jobs m)) = None"
    using assms by (auto simp: find_None_iff)
  then show ?thesis by (simp add: EnqueueJob_def Let_def)
qed

definition fresh_ids :: "(nat \<Rightarrow> string) \<Rightarrow> memory \<Rightarrow> bool" where
  "fresh_ids fresh m \<longleftrightarrow> inj fresh \<and> (\<forall>n. fresh n \<noteq> [] \<and> mget (Jobs m) (fresh n) = None)"

lemma reconcile_key_ne [simp]: "reconcile_key a \<noteq> []"
  by (simp add: reconcile_key_def)

lemma normalizeJob_ID: "job_ID (normalizeJob i t j) = (if job_ID j = [] then i else job_ID j)"
  unfolding normalizeJob_def Let_def
  by (cases "payload_revision (job_Payload (j\<lparr>job_Retryable := None\<rparr>))")
    (simp_all add: if_distrib [of job_ID] cong: if_cong)

lemma reconcile_sel [simp]:
  "job_IdempotencyKey (reconcile_job a) = reconcile_key a" "job_Fence (reconcile_job a) = 0"
  "job_ID (reconcile_job a) = []"
  by (simp_all add: reconcile_job_def job0_def)

lemma reconcile_ID [simp]: "job_ID (normalizeJob i t (reconcile_job a)) = i"
  by (simp add: normalizeJob_ID)

text \<open>One enqueue of the scan: nothing when the key is known, one new job otherwise.\<close>

lemma scan_step:
  assumes inv: "jobs_inv m" and f: "fresh_ids fresh m" and m1: "m1 = snd (EnqueueJob (fresh 0) now (reconcile_job a) m)"
  shows "jobs_inv m1" "fresh_ids (\<lambda>n. fresh (Suc n)) m1" "Accounts m1 = Accounts m"
    and "\<exists>e \<in> set (mvals (Jobs m1)). job_IdempotencyKey e = reconcile_key a"
    and "mget (Jobs m) k = Some j \<Longrightarrow> mget (Jobs m1) k = Some j"
    and "mget (Jobs m1) k = Some j \<Longrightarrow> mget (Jobs m) k = None \<Longrightarrow>
      j = normalizeJob k now (reconcile_job a) \<and>
      (\<forall>e \<in> set (mvals (Jobs m)). job_IdempotencyKey e \<noteq> reconcile_key a)"
proof -
  let ?j = "normalizeJob (fresh 0) now (reconcile_job a)"
  have new: "mget (Jobs m) (fresh 0) = None" and inj: "\<And>n. fresh (Suc n) \<noteq> fresh 0"
    using f by (auto simp: fresh_ids_def dest: injD)
  have cases: "m1 = m \<and> (\<exists>e \<in> set (mvals (Jobs m)). job_IdempotencyKey e = reconcile_key a) \<or>
      m1 = m\<lparr>Jobs := mput (fresh 0) ?j (Jobs m)\<rparr> \<and>
      (\<forall>e \<in> set (mvals (Jobs m)). job_IdempotencyKey e \<noteq> reconcile_key a)"
    (is "_ \<and> ?known \<or> _ \<and> _")
  proof (cases ?known)
    case True
    then show ?thesis using EnqueueJob_known [of "reconcile_job a" m] m1 by simp
  next
    case False
    then show ?thesis using EnqueueJob_unknown [of m "reconcile_job a"] m1 by simp
  qed
  then show "jobs_inv m1"
    using inv new new_job_inv [of m ?j] by auto
  show "Accounts m1 = Accounts m" using m1 by (simp add: EnqueueJob_sel)
  have "inj (\<lambda>n. fresh (Suc n))" using f by (auto simp: fresh_ids_def inj_def)
  then show "fresh_ids (\<lambda>n. fresh (Suc n)) m1"
    using cases f inj by (auto simp: fresh_ids_def)
  have "?j \<in> set (mvals (mput (fresh 0) ?j (Jobs m)))" by (rule mget_mvals [of _ "fresh 0"]) simp
  then have "\<exists>e \<in> set (mvals (mput (fresh 0) ?j (Jobs m))). job_IdempotencyKey e = reconcile_key a"
    by (rule bexI [rotated]) simp
  then show "\<exists>e \<in> set (mvals (Jobs m1)). job_IdempotencyKey e = reconcile_key a"
    using cases by (elim disjE) simp_all
  show "mget (Jobs m1) k = Some j" if "mget (Jobs m) k = Some j"
    using cases new that by auto
  show "j = normalizeJob k now (reconcile_job a) \<and>
      (\<forall>e \<in> set (mvals (Jobs m)). job_IdempotencyKey e \<noteq> reconcile_key a)"
    if "mget (Jobs m1) k = Some j" "mget (Jobs m) k = None"
    using cases that by (auto split: if_splits)
qed

text \<open>The whole scan.\<close>

lemma scan_drifted_spec:
  assumes "jobs_inv m" "fresh_ids fresh m"
  shows "jobs_inv (scan_drifted fresh now as m)" "Accounts (scan_drifted fresh now as m) = Accounts m"
    and "mget (Jobs m) k = Some j \<Longrightarrow> mget (Jobs (scan_drifted fresh now as m)) k = Some j"
    and "mget (Jobs (scan_drifted fresh now as m)) k = Some j \<Longrightarrow> mget (Jobs m) k = None \<Longrightarrow>
      \<exists>a \<in> set as. j = normalizeJob k now (reconcile_job a) \<and>
        (\<forall>k' e. mget (Jobs m) k' = Some e \<longrightarrow> job_IdempotencyKey e \<noteq> reconcile_key a)"
    and "a \<in> set as \<Longrightarrow> \<exists>k e. mget (Jobs (scan_drifted fresh now as m)) k = Some e \<and>
      job_IdempotencyKey e = reconcile_key a"
  using assms
proof (induction as arbitrary: fresh m k j a)
  case Nil
  { case 1 then show ?case by simp }
  { case 2 then show ?case by simp }
  { case 3 then show ?case by simp }
  { case 4 then show ?case by simp }
  { case 5 then show ?case by simp }
next
  case (Cons b as)
  { case 1 then show ?case using scan_step(1,2) [OF _ _ refl] Cons.IH(1) by simp }
  { case 2 then show ?case using scan_step(1,2,3) [OF _ _ refl] Cons.IH(2) by simp }
  { case 3 then show ?case using scan_step(1,2,5) [OF _ _ refl] Cons.IH(3) by simp }
  { case 4
    let ?m1 = "snd (EnqueueJob (fresh 0) now (reconcile_job b) m)"
    note st = scan_step [OF 4(3,4) refl, where now = now and a = b]
    show ?case
    proof (cases "mget (Jobs ?m1) k")
      case None
      from Cons.IH(4) [OF _ None st(1,2)] 4(1) obtain a where
        "a \<in> set as" "j = normalizeJob k now (reconcile_job a)"
        "\<forall>k' e. mget (Jobs ?m1) k' = Some e \<longrightarrow> job_IdempotencyKey e \<noteq> reconcile_key a" by auto
      then show ?thesis using st(5) by (auto intro!: bexI [of _ a])
    next
      case (Some i)
      with Cons.IH(3) [OF Some st(1,2)] 4(1) have "i = j" by simp
      with st(6) [OF Some 4(2)] have "j = normalizeJob k now (reconcile_job b)"
        "\<And>k' e. mget (Jobs m) k' = Some e \<Longrightarrow> job_IdempotencyKey e \<noteq> reconcile_key b"
        using mget_mvals by metis+
      then show ?thesis by auto
    qed }
  { case 5
    note st = scan_step [OF 5(2,3) refl, where now = now and a = b]
    have "mwf (Jobs (snd (EnqueueJob (fresh 0) now (reconcile_job b) m)))"
      using st(1) by (simp add: jobs_inv_def table_def)
    with st(4) obtain k e where "mget (Jobs (snd (EnqueueJob (fresh 0) now (reconcile_job b) m))) k = Some e"
      "job_IdempotencyKey e = reconcile_key b" by (metis mvals_mget)
    with Cons.IH(3) [OF _ st(1,2)] Cons.IH(5) [OF _ st(1,2)] 5(1) show ?case by auto }
qed

section \<open>Properties\<close>

text \<open>
  The result of a superseded run is discarded. A worker runs the job it claimed; when its
  handler returns, the stored job carries a greater fence, because the lease was expired or the
  resource claimed again. Then whatever the handler reported, the store stays as the handler left
  it: the stale worker neither finishes nor fails nor retries the job.
\<close>

theorem stale_result_discarded:
  assumes inv: "jobs_inv m0" and c: "ClaimJob t w m0 = (Some j, m1)"
    and h: "handle ((started_job j)\<lparr>job_Retryable := None\<rparr>)
        (map_option (BindEnvelope (job_envelope j)) agent, announced j m1) = (err, j2, cancelled, agent2, m2)"
    and keeps: "job_ID j2 = job_ID j" "job_Fence j2 = job_Fence j"
    and passed: "mget (Jobs m2) (job_ID j) = Some e" "job_Fence j < job_Fence e"
  shows "execute now handle j (agent, m1) = (map_option (BindEnvelope envelope0) agent2, m2)"
proof -
  from inv c have j: "mget (Jobs m1) (job_ID j) = Some j" "0 < job_Fence j" by (auto elim: claimed_facts)
  have "UpdateJob (finished_job now err j2) m2 = (Some ErrStaleFence, m2)"
    using passed keeps j(2) by (intro UpdateJob_stale) auto
  then show ?thesis using execute_run [where handle = handle, OF j(1) refl h] by simp
qed


text \<open>
  C8. \<^verbatim>\<open>Drain\<close> ends: when the handlers leave the rest of the queue alone and all claims happen
  within ten seconds of every finish, so that no retry becomes due, then one iteration more than
  there are due jobs is enough, and at the end no job is due.
\<close>

theorem Drain_terminates:
  assumes "tame handle" and "jobs_inv m" and "attempts_ok m"
    and "\<forall>i. clk i \<le> T" and "\<forall>i. T < fin i + 10000000000" and "card (due T m) < n"
  shows "\<exists>agent' m' k. Drain n clk fin handle name (agent, m) = Some (agent', m') \<and>
      k \<le> card (due T m) \<and> (\<forall>i j. mget (Jobs m') i = Some j \<longrightarrow> \<not> claimable (clk k) j)"
  using Drain_ends [OF assms, of name agent] by (auto simp: due_def)

text \<open>
  The scan for drifted accounts files exactly the missing reconcile jobs: every drifted
  account has a job for its desired revision afterwards, existing jobs stay as they are, a new job
  belongs to a drifted account whose revision had none, and a second scan adds nothing.
\<close>

theorem scanDrift_exact:
  assumes inv: "jobs_inv m" and f: "fresh_ids fresh m" and f': "fresh_ids fresh' (scanDrift_accounts fresh now m)"
  shows "let m' = scanDrift_accounts fresh now m in
    (\<forall>a \<in> set (DriftedAccounts m). \<exists>k e. mget (Jobs m') k = Some e \<and> job_IdempotencyKey e = reconcile_key a) \<and>
    (\<forall>k e. mget (Jobs m) k = Some e \<longrightarrow> mget (Jobs m') k = Some e) \<and>
    (\<forall>k e. mget (Jobs m') k = Some e \<longrightarrow> mget (Jobs m) k = None \<longrightarrow>
       (\<exists>a \<in> set (DriftedAccounts m). e = normalizeJob k now (reconcile_job a) \<and>
          (\<forall>k' i. mget (Jobs m) k' = Some i \<longrightarrow> job_IdempotencyKey i \<noteq> reconcile_key a))) \<and>
    (\<forall>k. mget (Jobs (scanDrift_accounts fresh' now' m')) k = mget (Jobs m') k)"
proof -
  define m' where "m' = scanDrift_accounts fresh now m"
  note spec = scan_drifted_spec [OF inv f, where as = "DriftedAccounts m" and now = now, folded scanDrift_accounts_def, folded m'_def]
  have drift: "DriftedAccounts m' = DriftedAccounts m" using spec(2) by (simp add: DriftedAccounts_def)
  note spec' = scan_drifted_spec [OF spec(1) f' [folded m'_def], where as = "DriftedAccounts m'" and now = now',
      folded scanDrift_accounts_def]
  have "mget (Jobs (scanDrift_accounts fresh' now' m')) k = mget (Jobs m') k" for k
  proof (cases "mget (Jobs m') k")
    case None
    show ?thesis
    proof (rule ccontr)
      assume "mget (Jobs (scanDrift_accounts fresh' now' m')) k \<noteq> mget (Jobs m') k"
      then obtain e where "mget (Jobs (scanDrift_accounts fresh' now' m')) k = Some e" using None by auto
      from spec'(4) [OF this None] spec(5) show False by (auto simp: drift)
    qed
  qed (use spec'(3) in auto)
  then show ?thesis unfolding Let_def m'_def [symmetric] using spec(3-5) by auto
qed

text \<open>
  A progress update written by a handler undoes what happened to the job since it was claimed,
  because \<^verbatim>\<open>UpdateJob\<close> stores the worker's whole copy: a cancellation requested meanwhile is
  forgotten, and the lease that a heartbeat extended is set back, so that the reaper takes the job
  from a live worker.
\<close>

theorem progress_update_reverts:
  assumes inv: "jobs_inv m0" and c: "ClaimJob t w m0 = (Some j, m1)"
    and hb: "HeartbeatJob t2 (job_ID j) w (job_Fence j) m1 = (None, m2)"
    and rc: "RequestJobCancel (job_ID j) m2 = (None, m3)"
    and now: "t + JobLeaseTTL \<le> now" "now < t2 + JobLeaseTTL"
  shows "\<exists>e3 e4 m4. mget (Jobs m3) (job_ID j) = Some e3 \<and> job_CancelRequested e3 \<and> \<not> lease_expired now e3 \<and>
      UpdateJob (j\<lparr>job_HeartbeatAt := Some t3, job_Progress := 20\<rparr>) m3 = (None, m4) \<and>
      mget (Jobs m4) (job_ID j) = Some e4 \<and> \<not> job_CancelRequested e4 \<and>
      job_Fence e4 = job_Fence j \<and> lease_expired now e4"
proof -
  from inv c have j: "mget (Jobs m1) (job_ID j) = Some j" "job_LeaseExpires j = Some (t + JobLeaseTTL)"
    by (auto elim: claimed_facts)
  have nc: "\<not> job_CancelRequested j"
    using c by (auto simp: ClaimJob_def Let_def split: option.splits prod.splits)
  define j2 where "j2 = j\<lparr>job_HeartbeatAt := Some t2, job_LeaseExpires := Some (t2 + JobLeaseTTL)\<rparr>"
  have m2: "m2 = m1\<lparr>Jobs := mput (job_ID j) j2 (Jobs m1)\<rparr>"
    using hb j(1) by (auto simp: HeartbeatJob_def j2_def split: if_splits)
  have m3: "mget (Jobs m3) (job_ID j) = Some (j2\<lparr>job_CancelRequested := True\<rparr>)"
    using rc by (auto simp: RequestJobCancel_def m2 split: if_splits)
  let ?u = "j\<lparr>job_HeartbeatAt := Some t3, job_Progress := 20\<rparr>"
  have "UpdateJob ?u m3 = (None, m3\<lparr>Jobs := mput (job_ID j) (?u\<lparr>job_Retryable := None\<rparr>) (Jobs m3)\<rparr>)"
    using UpdateJob_accepted [of m3 ?u] m3 by (simp add: j2_def)
  with m3 j(2) now nc show ?thesis by (simp add: lease_expired_def j2_def)
qed

section \<open>Witnesses\<close>

text \<open>A handler that reports an error and leaves the store alone.\<close>

definition ex_handler :: handler where
  "ex_handler j s = (Some ''timeout'', j, False, s)"

lemma ex_tame: "tame ex_handler"
  by (auto simp: tame_def ex_handler_def)

lemma ex_attempts: "attempts_ok ex_queue"
proof -
  have "\<forall>kj \<in> set (Jobs ex_queue). 0 \<le> job_Attempts (snd kj)" by code_simp
  then show ?thesis by (auto simp: attempts_ok_def dest!: map_of_SomeD)
qed

text \<open>A handler during which the reaper takes the job back.\<close>

definition ex_slow_handler :: handler where
  "ex_slow_handler j s = (None, j, False, fst s, ExpireStaleLeases 200000000000 7 (snd s))"

definition ex_reaped :: memory where
  "ex_reaped = ExpireStaleLeases 200000000000 7 (announced (fst ex_claimed) (snd ex_claimed))"

lemma ex_reaped_sel:
  "mget (Jobs ex_reaped) (job_ID (fst ex_claimed)) = Some (the (mget (Jobs ex_reaped) ''j2''))"
  "job_Fence (fst ex_claimed) < job_Fence (the (mget (Jobs ex_reaped) ''j2''))"
  by code_simp+

theorem stale_result_discarded_witness:
  "execute 300000000000 ex_slow_handler (fst ex_claimed) (None, snd ex_claimed) = (None, ex_reaped)"
  using stale_result_discarded [OF ex_queue_inv ex_claims(1), where handle = ex_slow_handler and cancelled = False and agent = None
      and now = 300000000000 and ?agent2.0 = None and ?m2.0 = ex_reaped, OF _ _ _ ex_reaped_sel]
  by (simp add: ex_slow_handler_def ex_reaped_def)

lemma ex_announced:
  "mget (Jobs (announced (fst ex_claimed) (snd ex_claimed))) (job_ID (fst ex_claimed)) =
     Some ((started_job (fst ex_claimed))\<lparr>job_Retryable := None\<rparr>)"
  by (simp add: announced_def)


theorem Drain_terminates_witness:
  "\<exists>agent' m'. Drain 3 (\<lambda>i. 10) (\<lambda>i. 11) ex_handler ''wk1'' (None, ex_queue) = Some (agent', m') \<and>
     (\<forall>i j. mget (Jobs m') i = Some j \<longrightarrow> \<not> claimable 10 j)"
proof -
  have "due 10 ex_queue \<subseteq> set (map fst (Jobs ex_queue))"
    by (force simp: due_def dest: map_of_SomeD)
  then have "card (due 10 ex_queue) \<le> length (Jobs ex_queue)"
    by (metis card_length card_mono finite_set le_trans length_map)
  also have "length (Jobs ex_queue) = 2" by code_simp
  finally have "card (due 10 ex_queue) < 3" by simp
  from Drain_terminates [OF ex_tame ex_queue_inv ex_attempts _ _ this, where clk = "\<lambda>i. 10" and fin = "\<lambda>i. 11"
      and name = "''wk1''" and agent = None]
  show ?thesis by auto
qed

text \<open>A store with one drifted account; identifiers of growing length are fresh.\<close>

definition ex_drifted :: memory where
  "ex_drifted = NewMemory\<lparr>Accounts := [(''a1'', account0\<lparr>acc_ID := ''a1'', acc_DesiredRevision := 2\<rparr>)]\<rparr>"

definition ex_ids :: "char \<Rightarrow> nat \<Rightarrow> string" where
  "ex_ids c n = replicate (Suc n) c"

lemma ex_ids_fresh:
  assumes "\<forall>kj \<in> set (Jobs m). \<forall>x \<in> set (fst kj). x \<noteq> c"
  shows "fresh_ids (ex_ids c) m"
proof -
  have "inj (ex_ids c)" by (rule injI) (simp add: ex_ids_def)
  moreover have "mget (Jobs m) (ex_ids c n) = None" for n
    using assms by (fastforce simp: map_of_eq_None_iff ex_ids_def)
  ultimately show ?thesis by (simp add: fresh_ids_def ex_ids_def)
qed

theorem scanDrift_exact_witness:
  "\<exists>k e. mget (Jobs (scanDrift_accounts (ex_ids CHR ''x'') 5 ex_drifted)) k = Some e \<and>
     job_IdempotencyKey e = ''reconcile:a1:2''"
proof -
  have f: "fresh_ids (ex_ids CHR ''x'') ex_drifted" by (rule ex_ids_fresh) code_simp
  have f': "fresh_ids (ex_ids CHR ''y'') (scanDrift_accounts (ex_ids CHR ''x'') 5 ex_drifted)"
    by (rule ex_ids_fresh) code_simp
  have "jobs_inv ex_drifted"
    by (rule jobs_inv_queue_part [OF _ NewMemory_jobs_inv]) (simp add: queue_part_def ex_drifted_def)
  from conjunct1 [OF scanDrift_exact [OF this f f', unfolded Let_def]]
  have each: "\<forall>a \<in> set (DriftedAccounts ex_drifted). \<exists>k e.
      mget (Jobs (scanDrift_accounts (ex_ids CHR ''x'') 5 ex_drifted)) k = Some e \<and>
      job_IdempotencyKey e = reconcile_key a" .
  have "\<exists>a \<in> set (DriftedAccounts ex_drifted). reconcile_key a = ''reconcile:a1:2''" by code_simp
  then obtain a where a: "a \<in> set (DriftedAccounts ex_drifted)" "reconcile_key a = ''reconcile:a1:2''" ..
  from bspec [OF each a(1)] show ?thesis unfolding a(2) .
qed

theorem progress_update_reverts_witness:
  "\<exists>(m4 :: memory) e4. mget (Jobs m4) ''j2'' = Some e4 \<and> lease_expired 130000000000 e4"
proof -
  define m2 where "m2 = snd (HeartbeatJob 115000000000 ''j2'' ''wk1'' 1 (snd ex_claimed))"
  have hb: "HeartbeatJob 115000000000 (job_ID (fst ex_claimed)) ''wk1'' (job_Fence (fst ex_claimed)) (snd ex_claimed) = (None, m2)"
    unfolding m2_def ex_claimed_sel(4,5) by code_simp
  have rc: "RequestJobCancel (job_ID (fst ex_claimed)) m2 = (None, snd (RequestJobCancel ''j2'' m2))"
    unfolding m2_def ex_claimed_sel(4) by code_simp
  show ?thesis
    using progress_update_reverts [OF ex_queue_inv ex_claims(1) hb rc, of 130000000000 0]
    unfolding ex_claimed_sel(4) by (simp add: JobLeaseTTL_def) blast
qed

end
