(* ===== verification/Go_Strings.thy ===== *)
theory Go_Strings
  imports Prelude
begin

text \<open>
  Lemmas on Go's string routines that the validators and path rules share: splitting and
  joining are inverse, lower-casing and trimming leave normalised text alone. Then
  \<^verbatim>\<open>filepath.Clean\<close> on rooted Unix paths, as the documentation of Go's \<^verbatim>\<open>path/filepath\<close>
  states it: empty and \<^verbatim>\<open>.\<close> elements go, \<^verbatim>\<open>..\<close> removes the element before it, and at the
  root it goes.
\<close>

section \<open>Split and join\<close>

lemma split_on_ne [simp]: "split_on sep s \<noteq> []"
  by (induction s) (auto split: list.splits)

lemma split_on_no_sep: "w \<in> set (split_on sep s) \<Longrightarrow> sep \<notin> set w"
proof (induction s arbitrary: w)
  case (Cons c s)
  then show ?case by (cases "split_on sep s") (auto split: if_splits)
qed simp

lemma split_on_single: "sep \<notin> set s \<Longrightarrow> split_on sep s = [s]"
  by (induction s) (auto split: list.splits)

lemma split_on_append_sep: "sep \<notin> set w \<Longrightarrow> split_on sep (w @ sep # s) = w # split_on sep s"
  by (induction w) (auto split: list.splits)

lemma join_split [simp]: "join_with sep (split_on sep s) = s"
proof (induction s)
  case (Cons c s)
  show ?case
  proof (cases "split_on sep s")
    case Nil
    then show ?thesis by simp
  next
    case (Cons w ws)
    with Cons.IH show ?thesis by (cases ws) auto
  qed
qed simp

lemma split_join: "ws \<noteq> [] \<Longrightarrow> \<forall>w \<in> set ws. sep \<notin> set w \<Longrightarrow> split_on sep (join_with sep ws) = ws"
  by (induction sep ws rule: join_with.induct) (auto simp: split_on_single split_on_append_sep)

lemma join_with_Cons: "ws \<noteq> [] \<Longrightarrow> join_with sep (w # ws) = w @ sep # join_with sep ws"
  by (cases ws) auto

lemma set_join: "set (join_with sep ws) \<subseteq> insert sep (\<Union> (set ` set ws))"
  by (induction sep ws rule: join_with.induct) auto

section \<open>Trimming and case\<close>

lemma trim_space_id: "(\<forall>c \<in> set s. \<not> is_space c) \<Longrightarrow> trim_space s = s"
proof -
  assume a: "\<forall>c \<in> set s. \<not> is_space c"
  have d: "dropWhile is_space t = t" if "\<forall>c \<in> set t. \<not> is_space c" for t
    using that by (cases t) auto
  show ?thesis using a by (simp add: trim_space_def d)
qed

lemma trim_suffix_id: "\<not> suffix p s \<Longrightarrow> trim_suffix s p = s"
  by (simp add: trim_suffix_def)

lemma to_lower_id: "(\<forall>c \<in> set s. \<not> is_upper c) \<Longrightarrow> to_lower s = s"
  by (simp add: to_lower_def lower_char_def map_idI)

section \<open>Clean paths\<close>

text \<open>The element stack is kept in reverse.\<close>

fun clean_parts :: "string list \<Rightarrow> string list \<Rightarrow> string list" where
  "clean_parts stack [] = rev stack"
| "clean_parts stack (w # ws) =
     (if w = '''' \<or> w = ''.'' then clean_parts stack ws
      else if w = ''..'' then clean_parts (tl stack) ws
      else clean_parts (w # stack) ws)"

definition path_parts :: "string \<Rightarrow> string list" where
  "path_parts p = clean_parts [] (split_on (CHR ''/'') p)"

definition filepath_Clean :: "string \<Rightarrow> string" where
  "filepath_Clean p = CHR ''/'' # join_with (CHR ''/'') (path_parts p)"

definition filepath_IsAbs :: "string \<Rightarrow> bool" where
  "filepath_IsAbs p \<longleftrightarrow> has_prefix p ''/''"

text \<open>\<^verbatim>\<open>filepath.Join(a, b)\<close> for a rooted \<open>a\<close>: empty elements are ignored.\<close>

definition filepath_Join :: "string \<Rightarrow> string \<Rightarrow> string" where
  "filepath_Join a b = (if b = '''' then filepath_Clean a else filepath_Clean (a @ ''/'' @ b))"

text \<open>An element that names something below its directory.\<close>

definition plain_part :: "string \<Rightarrow> bool" where
  "plain_part w \<longleftrightarrow> w \<noteq> '''' \<and> w \<noteq> ''.'' \<and> w \<noteq> ''..'' \<and> CHR ''/'' \<notin> set w"

lemma clean_parts_plain:
  assumes "\<forall>w \<in> set ws. CHR ''/'' \<notin> set w" "\<forall>w \<in> set stack. plain_part w"
  shows "\<forall>w \<in> set (clean_parts stack ws). plain_part w"
  using assms
proof (induction ws arbitrary: stack)
  case (Cons w ws)
  have tl: "\<forall>v \<in> set (tl stack). plain_part v"
    using Cons.prems(2) by (cases stack) simp_all
  have hd: "plain_part w" if "w \<noteq> ''''" "w \<noteq> ''.''" "w \<noteq> ''..''"
    using that Cons.prems(1) unfolding plain_part_def by simp
  have ws: "\<forall>v \<in> set ws. CHR ''/'' \<notin> set v" using Cons.prems(1) by simp
  consider "w = '''' \<or> w = ''.''" | "w = ''..''" | "w \<noteq> ''''" "w \<noteq> ''.''" "w \<noteq> ''..''" by blast
  then show ?case
  proof cases
    case 1
    then have "clean_parts stack (w # ws) = clean_parts stack ws" by auto
    with Cons.IH [OF ws Cons.prems(2)] show ?thesis by simp
  next
    case 2
    then have "clean_parts stack (w # ws) = clean_parts (tl stack) ws" by simp
    with Cons.IH [OF ws tl] show ?thesis by simp
  next
    case 3
    then have "clean_parts stack (w # ws) = clean_parts (w # stack) ws" by simp
    with Cons.IH [OF ws, of "w # stack"] Cons.prems(2) hd [OF 3] show ?thesis by simp
  qed
qed simp

lemma clean_parts_id: "\<forall>w \<in> set ws. plain_part w \<Longrightarrow> clean_parts stack ws = rev stack @ ws"
proof (induction ws arbitrary: stack)
  case (Cons w ws)
  then have "w \<noteq> ''''" "w \<noteq> ''.''" "w \<noteq> ''..''" by (simp_all add: plain_part_def)
  then have "clean_parts stack (w # ws) = clean_parts (w # stack) ws" by simp
  with Cons show ?case by simp
qed simp

lemma path_parts_plain: "\<forall>w \<in> set (path_parts p). plain_part w"
  unfolding path_parts_def by (rule clean_parts_plain) (auto dest: split_on_no_sep)

lemma path_parts_of_clean:
  assumes "\<forall>w \<in> set ws. plain_part w"
  shows "path_parts (CHR ''/'' # join_with (CHR ''/'') ws) = ws"
proof (cases "ws = []")
  case True
  then show ?thesis by (simp add: path_parts_def)
next
  case False
  have "split_on (CHR ''/'') (CHR ''/'' # join_with (CHR ''/'') ws) = '''' # ws"
    using assms False by (simp add: split_join plain_part_def)
  then show ?thesis using assms by (simp add: path_parts_def clean_parts_id)
qed

lemma parts_Clean [simp]: "path_parts (filepath_Clean p) = path_parts p"
  unfolding filepath_Clean_def by (rule path_parts_of_clean) (rule path_parts_plain)

lemma Clean_idem [simp]: "filepath_Clean (filepath_Clean p) = filepath_Clean p"
  unfolding filepath_Clean_def [of "filepath_Clean p"] parts_Clean by (simp only: filepath_Clean_def)

lemma path_parts_sub:
  assumes "prefix ''/'' p" "plain_part w" "p = CHR ''/'' # join_with (CHR ''/'') ds" "\<forall>d \<in> set ds. plain_part d" "ds \<noteq> []"
  shows "path_parts (p @ CHR ''/'' # w) = ds @ [w]"
proof -
  have "join_with (CHR ''/'') ds @ CHR ''/'' # w = join_with (CHR ''/'') (ds @ [w])"
    using assms(5) by (induction ds rule: induct_list012) auto
  then show ?thesis
    using path_parts_of_clean [of "ds @ [w]"] assms by simp
qed

end
