(* ===== verification/Validate.thy ===== *)
theory Validate
  imports Go_Strings
begin

text \<open>
  The validators of \<^verbatim>\<open>internal/pkg/validate/domain.go\<close>: domain names, mailbox names, account
  names, crontab schedules and commands. An error is its text; \<open>None\<close> means that the value is
  accepted. The validators of IP addresses only call \<^verbatim>\<open>net.ParseIP\<close> and are not modelled.
\<close>

section \<open>Names\<close>

fun first_failing :: "('a \<Rightarrow> string option) \<Rightarrow> 'a list \<Rightarrow> string option" where
  "first_failing f [] = None"
| "first_failing f (x # xs) = (case f x of Some e \<Rightarrow> Some e | None \<Rightarrow> first_failing f xs)"

definition label_char :: "char \<Rightarrow> bool" where
  "label_char c \<longleftrightarrow> is_lower c \<or> is_digit c \<or> c = CHR ''-''"

definition hostnameLabel :: "string \<Rightarrow> string option" where
  "hostnameLabel label =
     (if label = '''' \<or> length label > 63 then Some ''invalid DNS label''
      else if label ! 0 = CHR ''-'' \<or> label ! (length label - 1) = CHR ''-'' then Some ''invalid DNS label''
      else first_failing (\<lambda>r. if \<not> label_char r then Some ''invalid DNS label character'' else None) label)"

definition NormalizeDomain :: "string \<Rightarrow> string + string" where
  "NormalizeDomain raw =
     (let s = trim_suffix (trim_space (to_lower raw)) ''.''
      in if s = '''' \<or> length s > 253 then Inl ''invalid domain length''
         else if contains_any s [CHR '' '', CHR 0x09, CHR 0x0A, CHR 0x0D, CHR ''/''] then Inl ''invalid domain characters''
         else let labels = split_on (CHR ''.'') s
         in if length labels < 2 then Inl ''domain requires at least two labels''
            else (case first_failing hostnameLabel labels of Some e \<Rightarrow> Inl e | None \<Rightarrow> Inr s))"

definition local_char :: "char \<Rightarrow> bool" where
  "local_char r \<longleftrightarrow> is_lower r \<or> is_digit r \<or> r = CHR ''.'' \<or> r = CHR ''_'' \<or> r = CHR ''-''"

definition local_rune :: "nat \<times> char \<Rightarrow> string option" where
  "local_rune ir = (let (i, r) = ir
     in if \<not> local_char r then Some ''invalid mailbox local part''
        else if i = 0 \<and> (r = CHR ''.'' \<or> r = CHR ''-'' \<or> r = CHR ''_'') then Some ''invalid mailbox local part''
        else None)"

definition LocalPart :: "string \<Rightarrow> string option" where
  "LocalPart s =
     (if length s < 1 \<or> length s > 64 then Some ''invalid mailbox local part''
      else first_failing local_rune (enumerate 0 s))"

definition ReservedUsernames :: "string list" where
  "ReservedUsernames = [''kelmor'', ''kelmor-agent'', ''kelmor-api'', ''kelmor-worker'']"

definition username_char :: "char \<Rightarrow> bool" where
  "username_char r \<longleftrightarrow> is_lower r \<or> is_digit r \<or> r = CHR ''_'' \<or> r = CHR ''-''"

definition username_rune :: "nat \<times> char \<Rightarrow> string option" where
  "username_rune ir = (let (i, r) = ir
     in if \<not> username_char r then Some ''username must be lowercase alphanumeric''
        else if i = 0 \<and> (r = CHR ''-'' \<or> r = CHR ''_'' \<or> is_digit r) then Some ''username must start with a letter''
        else None)"

definition Username :: "string \<Rightarrow> string option" where
  "Username s =
     (if length s < 2 \<or> length s > 32 then Some ''username must be 2-32 characters''
      else case first_failing username_rune (enumerate 0 s) of Some e \<Rightarrow> Some e | None \<Rightarrow>
        if s \<in> set [''root'', ''panel'', ''panel-agent'', ''panel-backup'', ''www-data'', ''nobody'', ''postgres'', ''mysql'']
        then Some ''reserved username''
        else if \<exists>reserved \<in> set ReservedUsernames. s = reserved then Some ''reserved username''
        else None)"

section \<open>Crontab entries\<close>

definition shell_meta :: string where
  "shell_meta = [CHR '';'', CHR ''|'', CHR ''&'', CHR ''$'', CHR 0x60, CHR 0x0A]"

definition cron_char :: "char \<Rightarrow> bool" where
  "cron_char r \<longleftrightarrow> is_digit r \<or> r = CHR ''*'' \<or> r = CHR ''/'' \<or> r = CHR ''-'' \<or> r = CHR '',''"

definition cron_field :: "string \<Rightarrow> string option" where
  "cron_field f =
     (if f = '''' \<or> contains_any f shell_meta then Some ''invalid cron schedule''
      else first_failing (\<lambda>r. if \<not> cron_char r then Some ''invalid cron schedule'' else None) f)"

definition CronSchedule :: "string \<Rightarrow> string option" where
  "CronSchedule s =
     (let fs = str_fields s
      in if length fs \<noteq> 5 then Some ''cron schedule must have 5 fields'' else first_failing cron_field fs)"

definition CronCommand :: "string \<Rightarrow> string option" where
  "CronCommand s0 =
     (let s = trim_space s0
      in if s = '''' \<or> length s > 256 then Some ''invalid cron command''
         else if contains_any s shell_meta then Some ''cron command contains shell metacharacters''
         else None)"

section \<open>What the validators accept\<close>

lemma first_failing_None [simp]: "first_failing f xs = None \<longleftrightarrow> (\<forall>x \<in> set xs. f x = None)"
  by (induction xs) (auto split: option.splits)

lemma hostnameLabel_iff:
  "hostnameLabel l = None \<longleftrightarrow> l \<noteq> [] \<and> length l \<le> 63 \<and> hd l \<noteq> CHR ''-'' \<and> last l \<noteq> CHR ''-'' \<and>
     (\<forall>c \<in> set l. label_char c)"
  by (auto simp: hostnameLabel_def hd_conv_nth last_conv_nth)

lemma username_rune_None:
  "username_rune (i, r) = None \<longleftrightarrow> username_char r \<and> (i = 0 \<longrightarrow> r \<noteq> CHR ''-'' \<and> r \<noteq> CHR ''_'' \<and> \<not> is_digit r)"
  by (auto simp: username_rune_def)

lemma Username_chars:
  assumes "Username u = None"
  shows "2 \<le> length u" "length u \<le> 32" "\<forall>c \<in> set u. username_char c" "is_lower (hd u)"
proof -
  from assms have len: "2 \<le> length u" "length u \<le> 32" and all: "\<forall>ir \<in> set (enumerate 0 u). username_rune ir = None"
    by (auto simp: Username_def split: if_splits option.splits)
  then show "2 \<le> length u" "length u \<le> 32" by simp_all
  have each: "username_rune (i, u ! i) = None" if "i < length u" for i
    using all that by (auto simp: in_set_enumerate_eq)
  then show "\<forall>c \<in> set u. username_char c"
    by (auto simp: in_set_conv_nth username_rune_None)
  have "u \<noteq> []" using len by auto
  with each [of 0] show "is_lower (hd u)"
    by (auto simp: hd_conv_nth username_rune_None username_char_def)
qed

text \<open>Characters of a name are none of the separators of paths, lines and fields.\<close>

lemma username_char_not:
  "username_char c \<Longrightarrow> \<not> is_space c \<and> c \<noteq> CHR ''/'' \<and> c \<noteq> CHR ''.'' \<and> c \<noteq> CHR 0x00 \<and> c \<noteq> CHR ''#''"
  by (auto simp: username_char_def is_lower_def is_digit_def in_range_def is_space_def)

lemma label_char_not:
  "label_char c \<Longrightarrow> \<not> is_space c \<and> c \<noteq> CHR ''/'' \<and> c \<noteq> CHR ''.'' \<and> \<not> is_upper c"
  by (auto simp: label_char_def is_lower_def is_digit_def in_range_def is_space_def is_upper_def)

text \<open>The names the panel stores: what \<^verbatim>\<open>NormalizeDomain\<close> is to return.\<close>

definition dns_name :: "string \<Rightarrow> bool" where
  "dns_name s \<longleftrightarrow> length s \<le> 253 \<and> 2 \<le> length (split_on (CHR ''.'') s) \<and>
     (\<forall>l \<in> set (split_on (CHR ''.'') s). 1 \<le> length l \<and> length l \<le> 63 \<and> hd l \<noteq> CHR ''-'' \<and> last l \<noteq> CHR ''-'' \<and>
        (\<forall>c \<in> set l. is_lower c \<or> is_digit c \<or> c = CHR ''-''))"

lemma dns_name_labels:
  "dns_name s \<longleftrightarrow> length s \<le> 253 \<and> 2 \<le> length (split_on (CHR ''.'') s) \<and>
     (\<forall>l \<in> set (split_on (CHR ''.'') s). hostnameLabel l = None)"
  by (auto simp: dns_name_def hostnameLabel_iff label_char_def Suc_le_eq)

lemma dns_name_chars:
  assumes "dns_name s" "c \<in> set s"
  shows "label_char c \<or> c = CHR ''.''"
proof -
  have "c \<in> insert (CHR ''.'') (\<Union> (set ` set (split_on (CHR ''.'') s)))"
    using assms(2) set_join [of "CHR ''.''" "split_on (CHR ''.'') s"] by auto
  with assms(1) show ?thesis by (auto simp: dns_name_labels hostnameLabel_iff)
qed

lemma to_lower_idem [simp]: "to_lower (to_lower s) = to_lower s"
proof -
  have "lower_char (lower_char c) = lower_char c" for c
    by (auto simp: lower_char_def is_upper_def in_range_def)
  then show ?thesis by (simp add: to_lower_def)
qed

lemma split_on_snoc_sep: "split_on sep (s @ [sep]) = split_on sep s @ [[]]"
proof (induction s)
  case (Cons c s)
  then show ?case by (cases "split_on sep s") auto
qed simp

lemma dns_name_fixed:
  assumes "dns_name s"
  shows "s \<noteq> []" "to_lower s = s" "trim_space s = s" "trim_suffix s ''.'' = s"
    "\<not> contains_any s [CHR '' '', CHR 0x09, CHR 0x0A, CHR 0x0D, CHR ''/'']"
proof -
  show "s \<noteq> []" using assms by (auto simp: dns_name_labels)
  have ch: "\<not> is_upper c \<and> \<not> is_space c \<and> c \<noteq> CHR ''/''" if "c \<in> set s" for c
    using dns_name_chars [OF assms that] label_char_not [of c]
    by (auto simp: is_upper_def in_range_def is_space_def)
  then show "to_lower s = s" "trim_space s = s" by (simp_all add: to_lower_id trim_space_id)
  have "\<not> suffix ''.'' s"
  proof
    assume "suffix ''.'' s"
    then obtain t where "s = t @ [CHR ''.'']" by (auto simp: suffix_def)
    then have "[] \<in> set (split_on (CHR ''.'') s)" by (simp add: split_on_snoc_sep)
    then show False using assms by (auto simp: dns_name_def)
  qed
  then show "trim_suffix s ''.'' = s" by (rule trim_suffix_id)
  show "\<not> contains_any s [CHR '' '', CHR 0x09, CHR 0x0A, CHR 0x0D, CHR ''/'']"
    using ch by (fastforce simp: contains_any_def is_space_def)
qed

section \<open>Properties\<close>



end
