(* ===== verification/Crontab.thy ===== *)
theory Crontab
  imports Validate Store_Memory
begin

text \<open>
  From stored cron jobs to the system crontab: the text that the worker sends
  (\<^verbatim>\<open>applyCron\<close> of \<^verbatim>\<open>internal/job/worker.go\<close>) and the file that the agent makes of it
  (\<^verbatim>\<open>renderSystemCron\<close> of \<^verbatim>\<open>agent/operations/stack.go\<close>). The entries of \<^verbatim>\<open>/etc/cron.d\<close>
  carry the user they run as in the sixth field, so that a line break that got through would let an
  account run commands as somebody else.
\<close>

definition nl :: char where "nl = CHR 0x0A"

text \<open>The em dash of the headings, in UTF-8.\<close>

definition em_dash :: string where "em_dash = [CHR 0xE2, CHR 0x80, CHR 0x94]"

definition cron_body :: "cronjob list \<Rightarrow> string" where
  "cron_body cs = ''# panel crontab '' @ em_dash @ '' generated, do not edit'' @ [nl] @
     concat (map (\<lambda>c. if \<not> cron_Enabled c then '''' else cron_Schedule c @ '' '' @ cron_Command c @ [nl]) cs)"

text \<open>The user and the text that \<^verbatim>\<open>applyCron\<close> sends to the agent for the account of a job.\<close>

definition applyCron :: "memory \<Rightarrow> string \<Rightarrow> string + string \<times> string" where
  "applyCron m account_id =
     (case GetAccount m account_id of
        None \<Rightarrow> Inl ''account missing''
      | Some acc \<Rightarrow> Inr (acc_Username acc, cron_body (ListCrons m (acc_ID acc))))"

definition cron_head :: string where
  "cron_head = ''# Managed by Kelmor '' @ em_dash @ '' do not edit'' @ [nl] @ ''SHELL=/bin/sh'' @ [nl] @ ''PATH=/usr/bin:/bin'' @ [nl]"

text \<open>The loop over the lines, with the text written so far and the number of entries.\<close>

fun render_lines :: "string \<Rightarrow> string \<times> nat \<Rightarrow> string list \<Rightarrow> string + string \<times> nat" where
  "render_lines username acc [] = Inr acc"
| "render_lines username (out, wrote) (l # ls) =
     (let line = trim_space l
      in if line = '''' \<or> has_prefix line ''#'' then render_lines username (out, wrote) ls
         else let fs = str_fields line
         in if length fs < 6 then Inl ''invalid cron line''
            else let sched = join_with (CHR '' '') (take 5 fs); cmd = join_with (CHR '' '') (drop 5 fs)
            in case CronSchedule sched of Some e \<Rightarrow> Inl e | None \<Rightarrow>
               (case CronCommand cmd of Some e \<Rightarrow> Inl e | None \<Rightarrow>
                  render_lines username (out @ sched @ '' '' @ username @ '' '' @ cmd @ [nl], wrote + 1) ls))"

definition renderSystemCron :: "string \<Rightarrow> string \<Rightarrow> string + string" where
  "renderSystemCron username body =
     (case render_lines username (cron_head, 0) (split_on nl body) of
        Inl e \<Rightarrow> Inl e
      | Inr (out, wrote) \<Rightarrow> Inr (if wrote = 0 then out @ ''# no enabled jobs'' @ [nl] else out))"

section \<open>Fields\<close>

definition field :: "string \<Rightarrow> bool" where
  "field w \<longleftrightarrow> w \<noteq> [] \<and> (\<forall>c \<in> set w. \<not> is_space c)"

lemma fields_acc_word: "\<forall>c \<in> set w. \<not> is_space c \<Longrightarrow> fields_acc acc (w @ s) = fields_acc (rev w @ acc) s"
  by (induction w arbitrary: acc) auto

lemma fields_acc_space: "is_space c \<Longrightarrow> fields_acc acc (a @ c # b) = fields_acc acc a @ fields_acc [] b"
  by (induction a arbitrary: acc) auto

lemma fields_append: "is_space c \<Longrightarrow> str_fields (a @ c # b) = str_fields a @ str_fields b"
  by (simp add: str_fields_def fields_acc_space)

lemma fields_word: "field w \<Longrightarrow> str_fields w = [w]"
  using fields_acc_word [of w "[]" "[]"] by (simp add: str_fields_def field_def)

lemma space_is_space [simp]: "is_space (CHR '' '')" "is_space nl"
  by (simp_all add: is_space_def nl_def)

lemma fields_join: "\<forall>w \<in> set ws. field w \<Longrightarrow> str_fields (join_with (CHR '' '') ws) = ws"
proof (induction ws)
  case (Cons w ws)
  then show ?case
    by (cases "ws = []") (simp_all add: fields_word join_with_Cons fields_append)
qed (simp add: str_fields_def)

lemma fields_acc_fields:
  "\<forall>c \<in> set acc. \<not> is_space c \<Longrightarrow> \<forall>w \<in> set (fields_acc acc s). field w"
proof (induction s arbitrary: acc)
  case (Cons c s)
  show ?case
  proof (cases "is_space c")
    case True
    have "\<forall>w \<in> set (fields_acc [] s). field w" by (rule Cons.IH) simp
    with True Cons.prems show ?thesis by (simp add: field_def)
  next
    case False
    have "\<forall>w \<in> set (fields_acc (c # acc) s). field w" by (rule Cons.IH) (use False Cons.prems in simp)
    with False show ?thesis by simp
  qed
qed (simp add: field_def)

lemma fields_field: "w \<in> set (str_fields s) \<Longrightarrow> field w"
  using fields_acc_fields [of "[]" s] by (simp add: str_fields_def)

lemma fields_acc_chars: "\<Union> (set ` set (fields_acc acc s)) \<subseteq> set acc \<union> set s"
  by (induction acc s rule: fields_acc.induct) auto

lemma fields_chars: "w \<in> set (str_fields s) \<Longrightarrow> c \<in> set w \<Longrightarrow> c \<in> set s"
  using fields_acc_chars [of "[]" s] by (auto simp: str_fields_def)

lemma fields_dropWhile: "str_fields (dropWhile is_space s) = str_fields s"
  unfolding str_fields_def by (induction s) auto

lemma fields_snoc_space: "is_space c \<Longrightarrow> str_fields (s @ [c]) = str_fields s"
  using fields_append [of c s "[]"] by (simp add: str_fields_def)

lemma fields_drop_trailing: "str_fields (rev (dropWhile is_space (rev s))) = str_fields s"
  by (induction s rule: rev_induct) (auto simp: fields_snoc_space)

lemma fields_trim [simp]: "str_fields (trim_space s) = str_fields s"
  by (simp add: trim_space_def fields_drop_trailing fields_dropWhile)

lemma join_acc_length:
  "length (join_with (CHR '' '') (fields_acc acc s)) \<le> length acc + length s"
proof (induction acc s rule: fields_acc.induct)
  case (2 acc c s)
  then show ?case
    by (cases "fields_acc [] s") (auto simp: fields_acc.simps(2) split: if_splits)
qed simp

lemma join_fields_length: "length (join_with (CHR '' '') (str_fields s)) \<le> length s"
  using join_acc_length [of "[]" s] by (simp add: str_fields_def)

section \<open>The lines of the crontab\<close>

definition settings :: "string set" where
  "settings = {''SHELL=/bin/sh'', ''PATH=/usr/bin:/bin''}"

text \<open>An entry as cron reads it: five time fields, the user, the command.\<close>

definition entry_of :: "string \<Rightarrow> string \<Rightarrow> bool" where
  "entry_of u line \<longleftrightarrow> (\<exists>sched cmd. str_fields line = sched @ u # cmd \<and> length sched = 5 \<and> cmd \<noteq> [] \<and>
     (\<forall>f \<in> set sched. \<forall>c \<in> set f. cron_char c) \<and> (\<forall>c \<in> set line. c \<notin> set shell_meta))"

definition harmless :: "string \<Rightarrow> string \<Rightarrow> bool" where
  "harmless u line \<longleftrightarrow> line = '''' \<or> has_prefix line ''#'' \<or> line \<in> settings \<or> entry_of u line"

lemma split_lines:
  "nl \<notin> set l \<Longrightarrow> split_on nl (l @ nl # rest) = l # split_on nl rest"
  by (rule split_on_append_sep)

lemma split_on_append_line:
  assumes "split_on nl out = ls @ [[]]" "nl \<notin> set l"
  shows "split_on nl (out @ l @ [nl]) = ls @ [l, []]"
proof -
  have "split_on nl (a @ l @ [nl]) = butlast (split_on nl a) @ [last (split_on nl a) @ l, []]" for a
    using assms(2)
  proof (induction a)
    case Nil
    then show ?case by (simp add: split_lines)
  next
    case (Cons c a)
    then show ?case by (cases "split_on nl a") (auto split: if_splits)
  qed
  from this [of out] assms(1) show ?thesis by simp
qed

lemma join_chars: "c \<in> set (join_with sep ws) \<Longrightarrow> c = sep \<or> (\<exists>w \<in> set ws. c \<in> set w)"
  using set_join [of sep ws] by blast

lemma cron_char_not: "cron_char c \<Longrightarrow> c \<notin> set shell_meta \<and> c \<noteq> CHR ''#''"
  by (auto simp: cron_char_def shell_meta_def is_digit_def in_range_def)

lemma username_not_meta: "username_char c \<Longrightarrow> c \<notin> set shell_meta"
  by (auto simp: username_char_def shell_meta_def is_digit_def is_lower_def in_range_def)

lemma CronSchedule_fields:
  "CronSchedule s = None \<longleftrightarrow> length (str_fields s) = 5 \<and>
     (\<forall>f \<in> set (str_fields s). f \<noteq> [] \<and> (\<forall>c \<in> set f. cron_char c))"
proof -
  have "cron_field f = None \<longleftrightarrow> f \<noteq> [] \<and> (\<forall>c \<in> set f. cron_char c)" for f
    using cron_char_not by (auto simp: cron_field_def contains_any_def split: if_splits)
  then show ?thesis by (simp add: CronSchedule_def Let_def)
qed

lemma join_ends:
  assumes "\<forall>w \<in> set ws. field w" "ws \<noteq> []"
  shows "join_with (CHR '' '') ws \<noteq> [] \<and> \<not> is_space (hd (join_with (CHR '' '') ws)) \<and>
    \<not> is_space (last (join_with (CHR '' '') ws))"
  using assms
proof (induction ws)
  case (Cons w ws)
  have w: "w \<noteq> []" "\<not> is_space (hd w)" "\<not> is_space (last w)"
    using Cons.prems(1) by (simp_all add: field_def)
  show ?case
  proof (cases "ws = []")
    case False
    then show ?thesis using Cons w by (simp add: join_with_Cons)
  qed (use w in simp)
qed simp

lemma trim_join:
  assumes "\<forall>w \<in> set ws. field w"
  shows "trim_space (join_with (CHR '' '') ws) = join_with (CHR '' '') ws"
proof (cases "ws = []")
  case False
  have "dropWhile is_space s = s" if "\<not> is_space (hd s)" "s \<noteq> []" for s
    using that by (cases s) auto
  then show ?thesis using join_ends [OF assms False] by (simp add: trim_space_def hd_rev)
qed (simp add: trim_space_def)

lemma trim_prefix_of: "\<exists>t. dropWhile is_space s = trim_space s @ t"
proof -
  let ?d = "dropWhile is_space s"
  have "?d = rev (takeWhile is_space (rev ?d) @ dropWhile is_space (rev ?d))" by simp
  also have "\<dots> = trim_space s @ rev (takeWhile is_space (rev ?d))"
    by (simp add: trim_space_def del: takeWhile_dropWhile_id)
  finally show ?thesis by blast
qed

lemma trim_hd: "trim_space s \<noteq> [] \<Longrightarrow> \<not> is_space (hd (trim_space s))"
  using trim_prefix_of [of s] by (metis append_is_Nil_conv hd_append2 hd_dropWhile)

lemma fields_acc_hd: "fields_acc acc s = w # ws \<Longrightarrow> acc \<noteq> [] \<Longrightarrow> \<exists>t. rev acc @ s = w @ t"
proof (induction s arbitrary: acc)
  case (Cons c s)
  show ?case
  proof (cases "is_space c")
    case False
    with Cons.prems(1) have "fields_acc (c # acc) s = w # ws" by simp
    from Cons.IH [OF this] show ?thesis by simp
  qed (use Cons.prems in auto)
qed (auto split: if_splits)

lemma trim_first_field:
  assumes "str_fields s = w # ws"
  shows "\<exists>t. trim_space s = w @ t"
proof -
  have f: "fields_acc [] (trim_space s) = w # ws"
    using assms fields_trim [of s] by (simp add: str_fields_def)
  then obtain c r where cr: "trim_space s = c # r" by (cases "trim_space s") auto
  with trim_hd [of s] have "\<not> is_space c" by simp
  with f cr have "fields_acc [c] r = w # ws" by simp
  from fields_acc_hd [OF this] cr show ?thesis by simp
qed

lemma CronCommand_join:
  assumes "CronCommand cmd = None"
  shows "str_fields cmd \<noteq> []" "CronCommand (join_with (CHR '' '') (str_fields cmd)) = None"
proof -
  have c: "trim_space cmd \<noteq> []" "length (trim_space cmd) \<le> 256" "\<forall>c \<in> set (trim_space cmd). c \<notin> set shell_meta"
    using assms by (auto simp: CronCommand_def contains_any_def Let_def split: if_splits)
  show ne: "str_fields cmd \<noteq> []"
  proof
    assume "str_fields cmd = []"
    moreover have "fields_acc acc s \<noteq> []" if "acc \<noteq> []" for acc s
      using that by (induction s arbitrary: acc) auto
    ultimately show False
      using c(1) trim_hd [OF c(1)] fields_trim [of cmd]
      by (cases "trim_space cmd") (auto simp: str_fields_def)
  qed
  let ?j = "join_with (CHR '' '') (str_fields cmd)"
  have f: "\<forall>w \<in> set (str_fields cmd). field w" by (simp add: fields_field)
  have "length ?j \<le> 256"
    using join_fields_length [of "trim_space cmd"] c(2) by simp
  moreover have "d \<notin> set shell_meta" if "d \<in> set ?j" for d
    using join_chars [OF that] c(3) fields_chars [of _ "trim_space cmd" d] by (auto simp: shell_meta_def)
  ultimately show "CronCommand ?j = None"
    using join_ends [OF f ne] by (auto simp: CronCommand_def Let_def trim_join [OF f] contains_any_def)
qed

text \<open>The line of the crontab for a schedule and a command.\<close>

definition entry_text :: "string \<Rightarrow> string \<Rightarrow> string \<Rightarrow> string" where
  "entry_text u sched cmd = join_with (CHR '' '') (str_fields sched) @ '' '' @ u @ '' '' @ join_with (CHR '' '') (str_fields cmd)"

lemma render_valid_line:
  assumes s: "CronSchedule sched = None" and c: "CronCommand cmd = None"
  shows "render_lines u (out, n) ((sched @ '' '' @ cmd) # ls) =
    render_lines u (out @ entry_text u sched cmd @ [nl], n + 1) ls"
proof -
  let ?line = "sched @ '' '' @ cmd"
  have fl: "str_fields (sched @ CHR '' '' # cmd) = str_fields sched @ str_fields cmd" by (rule fields_append) simp
  from s have len: "length (str_fields sched) = 5"
    and ch: "\<forall>f \<in> set (str_fields sched). f \<noteq> [] \<and> (\<forall>c \<in> set f. cron_char c)"
    by (simp_all add: CronSchedule_fields)
  then obtain w ws where w: "str_fields sched = w # ws" "w \<noteq> []" "cron_char (hd w)"
    by (cases "str_fields sched") auto
  obtain t where t: "trim_space ?line = w @ t" using trim_first_field [of ?line w] fl w(1) by auto
  have "\<not> has_prefix (trim_space ?line) ''#''" "trim_space ?line \<noteq> []"
    using t w(2) cron_char_not [OF w(3)] by (cases w; auto simp: has_prefix_def)+
  moreover have "take 5 (str_fields ?line) = str_fields sched" "drop 5 (str_fields ?line) = str_fields cmd"
    using len by (simp_all add: fl)
  moreover have "\<not> length (str_fields ?line) < 6"
    using len CronCommand_join(1) [OF c] by (cases "str_fields cmd") (auto simp: fl)
  moreover have "CronSchedule (join_with (CHR '' '') (str_fields sched)) = None"
    using s by (simp add: CronSchedule_fields fields_join fields_field)
  ultimately show ?thesis
    using CronCommand_join(2) [OF c] by (simp add: Let_def entry_text_def)
qed

lemma valid_entry:
  assumes u: "Username u = None" and s: "CronSchedule (join_with (CHR '' '') sf) = None"
    and c: "CronCommand (join_with (CHR '' '') cf) = None" and f: "\<forall>w \<in> set sf \<union> set cf. field w"
    and line: "line = join_with (CHR '' '') sf @ '' '' @ u @ '' '' @ join_with (CHR '' '') cf"
  shows "nl \<notin> set line" "entry_of u line"
proof -
  have uc: "\<forall>c \<in> set u. username_char c" "u \<noteq> []" using Username_chars [OF u] by auto
  then have fu: "field u" using username_char_not by (auto simp: field_def)
  have "str_fields line = str_fields (join_with (CHR '' '') sf) @ str_fields u @ str_fields (join_with (CHR '' '') cf)"
    by (simp add: line fields_append)
  also have "\<dots> = sf @ u # cf" using f by (simp add: fields_join fields_word [OF fu])
  finally have fl: "str_fields line = sf @ u # cf" .
  have sch: "length sf = 5" "\<forall>f \<in> set sf. \<forall>c \<in> set f. cron_char c"
    using s f by (simp_all add: CronSchedule_fields fields_join)
  have cf: "cf \<noteq> []" using CronCommand_join(1) [OF c] f by (simp add: fields_join)
  have "c \<notin> set shell_meta" if "c \<in> set line" for c
  proof -
    have "trim_space (join_with (CHR '' '') cf) = join_with (CHR '' '') cf" using f by (simp add: trim_join)
    then have "\<forall>c \<in> set (join_with (CHR '' '') cf). c \<notin> set shell_meta"
      using c by (auto simp: CronCommand_def contains_any_def Let_def split: if_splits)
    then show ?thesis
      using that sch(2) uc(1) join_chars [of c "CHR '' ''" sf] cron_char_not [of c] username_not_meta [of c]
      by (auto simp: line shell_meta_def)
  qed
  then show "nl \<notin> set line" "entry_of u line"
    using fl sch cf by (auto simp: entry_of_def shell_meta_def nl_def)
qed

text \<open>What has been written so far: whole lines, all of them harmless.\<close>

definition rendered :: "string \<Rightarrow> string \<Rightarrow> bool" where
  "rendered u out \<longleftrightarrow> (\<exists>ls. split_on nl out = ls @ [[]] \<and> (\<forall>l \<in> set ls. harmless u l))"

lemma rendered_append:
  assumes "rendered u out" "nl \<notin> set l" "harmless u l"
  shows "rendered u (out @ l @ [nl])"
  using assms split_on_append_line by (fastforce simp: rendered_def)

lemma rendered_head: "rendered u cron_head"
proof -
  have "split_on nl cron_head = [''# Managed by Kelmor '' @ em_dash @ '' do not edit'', ''SHELL=/bin/sh'', ''PATH=/usr/bin:/bin'', []]"
    by code_simp
  moreover have "has_prefix (''# Managed by Kelmor '' @ em_dash @ '' do not edit'') ''#''" by code_simp
  ultimately show ?thesis by (simp add: rendered_def harmless_def settings_def)
qed

lemma render_lines_confined:
  assumes u: "Username u = None"
  shows "render_lines u (out, n) ls = Inr (out', n') \<Longrightarrow> rendered u out \<Longrightarrow> rendered u out'"
proof (induction ls arbitrary: out n)
  case (Cons l ls)
  let ?fs = "str_fields (trim_space l)"
  let ?s = "join_with (CHR '' '') (take 5 ?fs)" and ?c = "join_with (CHR '' '') (drop 5 ?fs)"
  show ?case
  proof (cases "trim_space l = [] \<or> has_prefix (trim_space l) ''#''")
    case True
    with Cons.prems(1) have "render_lines u (out, n) ls = Inr (out', n')" by simp
    then show ?thesis using Cons.prems(2) by (rule Cons.IH)
  next
    case False
    then have ok: "CronSchedule ?s = None" "CronCommand ?c = None"
      and nx: "render_lines u (out @ ?s @ '' '' @ u @ '' '' @ ?c @ [nl], n + 1) ls = Inr (out', n')"
      using Cons.prems(1) by (auto simp: Let_def split: if_splits option.splits)
    have "\<forall>w \<in> set (take 5 ?fs) \<union> set (drop 5 ?fs). field w"
      using fields_field by (auto dest: in_set_takeD in_set_dropD)
    note line = valid_entry [OF u ok this refl]
    have "rendered u (out @ (?s @ '' '' @ u @ '' '' @ ?c) @ [nl])"
      using Cons.prems(2) line by (intro rendered_append) (auto simp: harmless_def)
    with nx show ?thesis by (intro Cons.IH) (simp_all only: append_assoc)
  qed
qed simp

section \<open>Properties\<close>

text \<open>
  C27. Cron jobs run as their account only. Whatever text the agent is given for an account, if it
  writes a crontab, then every line of it is empty, a comment, one of the two settings, or an entry
  whose five time fields consist of time characters, whose user field is the account's name and
  which has no shell metacharacters.
\<close>

theorem cron_lines_confined:
  assumes "Username u = None" and "renderSystemCron u body = Inr out"
  shows "\<forall>line \<in> set (split_on nl out). line = '''' \<or> has_prefix line ''#'' \<or>
    line \<in> {''SHELL=/bin/sh'', ''PATH=/usr/bin:/bin''} \<or>
    (\<exists>sched cmd. str_fields line = sched @ u # cmd \<and> length sched = 5 \<and> cmd \<noteq> [] \<and>
       (\<forall>f \<in> set sched. \<forall>c \<in> set f. cron_char c) \<and> (\<forall>c \<in> set line. c \<notin> set shell_meta))"
proof -
  from assms(2) obtain o1 n where r: "render_lines u (cron_head, 0) (split_on nl body) = Inr (o1, n)"
    and out: "out = (if n = 0 then o1 @ ''# no enabled jobs'' @ [nl] else o1)"
    by (auto simp: renderSystemCron_def split: sum.splits prod.splits)
  have "rendered u o1" by (rule render_lines_confined [OF assms(1) r rendered_head])
  then have "rendered u out"
    unfolding out using rendered_append [of u o1 "''# no enabled jobs''"]
    by (simp add: harmless_def has_prefix_def nl_def)
  then show ?thesis
    unfolding rendered_def harmless_def settings_def entry_of_def by auto
qed

lemma split_cron_lines:
  assumes "\<forall>c \<in> set cs. cron_Enabled c \<longrightarrow> nl \<notin> set (cron_Schedule c) \<and> nl \<notin> set (cron_Command c)"
  shows "split_on nl (concat (map (\<lambda>c. if \<not> cron_Enabled c then '''' else cron_Schedule c @ '' '' @ cron_Command c @ [nl]) cs)) =
    map (\<lambda>c. cron_Schedule c @ '' '' @ cron_Command c) (filter cron_Enabled cs) @ [[]]"
  using assms
proof (induction cs)
  case (Cons c cs)
  have "nl \<noteq> CHR '' ''" by (simp add: nl_def)
  then show ?case
    using Cons split_lines [of "cron_Schedule c @ '' '' @ cron_Command c"] by simp
qed simp

lemma render_valid_lines:
  assumes "\<forall>c \<in> set cs. CronSchedule (cron_Schedule c) = None \<and> CronCommand (cron_Command c) = None"
  shows "render_lines u (out, n) (map (\<lambda>c. cron_Schedule c @ '' '' @ cron_Command c) cs @ [[]]) =
    Inr (out @ concat (map (\<lambda>c. entry_text u (cron_Schedule c) (cron_Command c) @ [nl]) cs), n + length cs)"
  using assms
proof (induction cs arbitrary: out n)
  case (Cons c cs)
  then have "CronSchedule (cron_Schedule c) = None" "CronCommand (cron_Command c) = None" by simp_all
  from render_valid_line [OF this] Cons show ?case by simp
qed (simp add: trim_space_def)

text \<open>
  Stored cron jobs reach the crontab: when the schedules and commands of the enabled jobs pass
  the API's checks and contain no line break, the agent accepts the worker's text and writes one
  entry per enabled job, in order, with the account as its user.
\<close>

theorem cron_jobs_installed:
  assumes ok: "\<forall>c \<in> set cs. cron_Enabled c \<longrightarrow> CronSchedule (cron_Schedule c) = None \<and>
      CronCommand (cron_Command c) = None \<and> nl \<notin> set (cron_Schedule c) \<and> nl \<notin> set (cron_Command c)"
  shows "renderSystemCron u (cron_body cs) = Inr (cron_head @
      concat (map (\<lambda>c. entry_text u (cron_Schedule c) (cron_Command c) @ [nl]) (filter cron_Enabled cs)) @
      (if filter cron_Enabled cs = [] then ''# no enabled jobs'' @ [nl] else ''''))"
proof -
  let ?h = "''# panel crontab '' @ em_dash @ '' generated, do not edit''"
  let ?ls = "map (\<lambda>c. cron_Schedule c @ '' '' @ cron_Command c) (filter cron_Enabled cs) @ [[]]"
  have "nl \<notin> set ?h" by code_simp
  then have body: "split_on nl (cron_body cs) = ?h # ?ls"
    using split_lines [of ?h] split_cron_lines [of cs] ok by (simp add: cron_body_def)
  have h: "has_prefix (trim_space ?h) ''#''" by code_simp
  have "render_lines u (cron_head, 0) (?h # ?ls) = render_lines u (cron_head, 0) ?ls"
    unfolding render_lines.simps Let_def using h by (simp only: if_True simp_thms)
  also have "\<dots> = Inr (cron_head @ concat (map (\<lambda>c. entry_text u (cron_Schedule c) (cron_Command c) @ [nl])
      (filter cron_Enabled cs)), length (filter cron_Enabled cs))"
    using ok render_valid_lines [of "filter cron_Enabled cs" u cron_head 0] by simp
  finally show ?thesis by (simp add: renderSystemCron_def body)
qed

text \<open>
  \<^verbatim>\<open>CronSchedule\<close> lets line breaks through, because it splits the schedule at white space
  before it looks for them. Such a schedule passes the API, and from then on the agent refuses the
  whole crontab of the account.
\<close>

theorem newline_schedule_blocks_crontab:
  "\<exists>s. nl \<in> set s \<and> CronSchedule s = None \<and> CronCommand ''run'' = None \<and>
     renderSystemCron ''bob'' (cron_body
       [ \<lparr> cron_ID = ''1'', cron_AccountID = ''a'', cron_Schedule = s, cron_Command = ''run'',
           cron_WorkingDirectory = '''', cron_Enabled = True \<rparr>,
         \<lparr> cron_ID = ''2'', cron_AccountID = ''a'', cron_Schedule = ''* * * * *'', cron_Command = ''run'',
           cron_WorkingDirectory = '''', cron_Enabled = True \<rparr> ]) = Inl ''invalid cron line''"
  by (rule exI [of _ "''* * *'' @ [nl] @ ''* *''"]) code_simp

section \<open>Witnesses\<close>

definition ex_cron :: cronjob where
  "ex_cron = \<lparr> cron_ID = ''1'', cron_AccountID = ''a'', cron_Schedule = ''0 3 * * *'', cron_Command = ''run  now'',
     cron_WorkingDirectory = '''', cron_Enabled = True \<rparr>"

definition ex_crontab :: string where
  "ex_crontab = (case renderSystemCron ''bob'' (cron_body [ex_cron]) of Inr out \<Rightarrow> out | Inl _ \<Rightarrow> '''')"

theorem cron_jobs_installed_witness:
  "renderSystemCron ''bob'' (cron_body [ex_cron]) = Inr (cron_head @ ''0 3 * * * bob run now'' @ [nl])"
proof -
  have "\<forall>c \<in> set [ex_cron]. cron_Enabled c \<longrightarrow> CronSchedule (cron_Schedule c) = None \<and>
      CronCommand (cron_Command c) = None \<and> nl \<notin> set (cron_Schedule c) \<and> nl \<notin> set (cron_Command c)"
    by code_simp
  from cron_jobs_installed [OF this]
  have "renderSystemCron ''bob'' (cron_body [ex_cron]) = Inr (cron_head @
      concat (map (\<lambda>c. entry_text ''bob'' (cron_Schedule c) (cron_Command c) @ [nl]) (filter cron_Enabled [ex_cron])) @
      (if filter cron_Enabled [ex_cron] = [] then ''# no enabled jobs'' @ [nl] else ''''))" .
  also have "\<dots> = Inr (cron_head @ ''0 3 * * * bob run now'' @ [nl])" by code_simp
  finally show ?thesis .
qed

theorem cron_lines_confined_witness:
  "list_all (\<lambda>line. line = '''' \<or> has_prefix line ''#'' \<or>
    line \<in> {''SHELL=/bin/sh'', ''PATH=/usr/bin:/bin''} \<or>
    (\<exists>sched cmd. str_fields line = sched @ ''bob'' # cmd \<and> length sched = 5 \<and> cmd \<noteq> [] \<and>
       (\<forall>f \<in> set sched. \<forall>c \<in> set f. cron_char c) \<and> (\<forall>c \<in> set line. c \<notin> set shell_meta)))
     (split_on nl ex_crontab)"
  unfolding list_all_iff
proof (rule cron_lines_confined)
  show "Username ''bob'' = None" by code_simp
  show "renderSystemCron ''bob'' (cron_body [ex_cron]) = Inr ex_crontab" by code_simp
qed

end
