(* ===== verification/Text_Lines.thy ===== *)
theory Text_Lines
  imports Crontab
begin

text \<open>
  Lemmas on texts that are written and read line by line: decimal numbers are read back, lines
  without a line break are split off as they were written.
\<close>

section \<open>Numbers as text\<close>

lemma is_digit_char [simp]: "d < 10 \<Longrightarrow> is_digit (digit_char d)" "d < 10 \<Longrightarrow> of_char (digit_char d) = (48 + d :: nat)"
  by (simp_all add: is_digit_def in_range_def digit_char_def)

lemma digits_value_append: "digits_value k (a @ b) = Option.bind (digits_value k a) (\<lambda>k'. digits_value k' b)"
  by (induction a arbitrary: k) auto

lemma digits_value_nat: "digits_value 0 (nat_digits n) = Some n"
proof (induction n rule: nat_digits.induct)
  case (1 n)
  show ?case
  proof (cases "n < 10")
    case False
    with 1 [OF False] have "digits_value 0 (nat_digits (n div 10)) = Some (n div 10)" by simp
    with False show ?thesis by (subst nat_digits.simps) (simp add: digits_value_append)
  qed (subst nat_digits.simps, simp)
qed

lemma nat_digits_digits: "c \<in> set (nat_digits n) \<Longrightarrow> is_digit c"
proof (induction n rule: nat_digits.induct)
  case (1 n)
  then show ?case by (subst (asm) (2) nat_digits.simps) (auto split: if_splits)
qed

lemma nat_digits_ne [simp]: "nat_digits n \<noteq> []"
  by (subst nat_digits.simps) simp

lemma digit_facts: "is_digit c \<Longrightarrow> \<not> is_space c \<and> c \<noteq> CHR ''-'' \<and> c \<noteq> CHR ''+'' \<and> c \<noteq> nl"
  by (auto simp: is_digit_def in_range_def is_space_def nl_def)

lemma itoa_field: "field (itoa i)" "nl \<notin> set (itoa i)"
  using digit_facts nat_digits_digits by (auto simp: itoa_def field_def is_space_def nl_def)

lemma atoi_itoa:
  assumes "- (2 ^ 63) \<le> i" "i < 2 ^ 63"
  shows "atoi (itoa i) = Some i"
proof (cases "i < 0")
  case True
  then have "nat (- i) \<le> 2 ^ 63" using assms by simp
  with True show ?thesis by (simp add: atoi_def itoa_def digits_value_nat)
next
  case False
  obtain c s where cs: "nat_digits (nat i) = c # s" by (cases "nat_digits (nat i)") auto
  have "is_digit c" by (rule nat_digits_digits [of c "nat i"]) (simp add: cs)
  moreover have "nat i < 2 ^ 63" using False assms by simp
  ultimately show ?thesis using False digit_facts [of c] digits_value_nat [of "nat i"] by (simp add: atoi_def itoa_def cs)
qed

section \<open>Lines\<close>

lemma trim_head: "\<not> is_space c \<Longrightarrow> \<exists>r. trim_space (c # s) = c # r"
proof -
  assume c: "\<not> is_space c"
  have "dropWhile is_space (rev s @ [c]) = dropWhile is_space (rev s) @ [c]" using c by (simp add: dropWhile_append3)
  with c show ?thesis by (simp add: trim_space_def)
qed

lemma split_text_lines: "\<forall>l \<in> set ls. nl \<notin> set l \<Longrightarrow> split_on nl (concat (map (\<lambda>l. l @ [nl]) ls)) = ls @ ['''']"
proof (induction ls)
  case (Cons l ls)
  then show ?case by (simp add: split_on_append_sep)
qed simp

lemma field_no_nl: "field w \<Longrightarrow> nl \<notin> set w"
  by (auto simp: field_def)

end
