(* ===== verification/Site_Config.thy ===== *)
theory Site_Config
  imports Text_Lines
begin

text \<open>
  Texts and names that the control plane hands to the host: document roots
  (\<^verbatim>\<open>internal/configuration\<close>), zone files (\<^verbatim>\<open>internal/dns/zonefile.go\<close>), the addresses in
  published records (\<^verbatim>\<open>internal/netaddr\<close>) and the host names of certificates
  (\<^verbatim>\<open>internal/acme/names.go\<close>). Whether a text is a private IPv4 address is an argument.
\<close>

section \<open>Web sites\<close>

definition ValidateDocumentRoot :: "string \<Rightarrow> string \<Rightarrow> string option" where
  "ValidateDocumentRoot account docroot =
     (if docroot = '''' then Some ''document root required''
      else if contains_any docroot ([CHR '' '', CHR 9, CHR 10] @ ''{};$'' @ [CHR 34, CHR 39, CHR 96] @ ''|&'') then Some ''document root contains nginx metacharacters''
      else if \<not> has_prefix docroot ''/'' \<or> contains docroot ''..'' then Some ''document root must be a canonical absolute path''
      else if account = '''' then None
      else let home = ''/home/'' @ account
           in if docroot \<noteq> home \<and> \<not> has_prefix docroot (home @ ''/'') then Some ''document root outside account boundary'' else None)"

definition AccountServiceHostnames :: "string list" where
  "AccountServiceHostnames = [''www'', ''ns1'', ''mail'', ''ftp'', ''webmail'', ''phpmyadmin'']"

section \<open>Certificates\<close>

fun uniq_loop :: "string list \<Rightarrow> string list \<Rightarrow> string list" where
  "uniq_loop out [] = out"
| "uniq_loop out (n0 # ns) = (let n = trim_space n0 in if n = '''' \<or> n \<in> set out then uniq_loop out ns else uniq_loop (out @ [n]) ns)"

definition uniqNames :: "string list \<Rightarrow> string list" where
  "uniqNames names = uniq_loop [] names"

definition HostnamesForPortal :: "string \<Rightarrow> string list" where
  "HostnamesForPortal host0 =
     (let host = trim_space host0
      in if host = '''' \<or> host = ''localhost'' then []
         else uniqNames ([host] @ (if \<not> has_prefix host ''www.'' then [''www.'' @ host] else [])))"

definition HostnamesForSite :: "string \<Rightarrow> string list \<Rightarrow> bool \<Rightarrow> string list" where
  "HostnamesForSite hostname0 aliases includeToolHosts =
     (let hostname = trim_space hostname0
      in if hostname = '''' then []
         else uniqNames ([hostname] @ aliases @ (if includeToolHosts then map (\<lambda>sub. sub @ ''.'' @ hostname) [''www'', ''webmail'', ''phpmyadmin''] else [])))"

definition IssuerName :: "string \<Rightarrow> string" where
  "IssuerName directory =
     (if directory = '''' then ''panel-dev''
      else if contains directory ''staging'' then ''letsencrypt-staging''
      else if contains directory ''pebble'' \<or> contains directory '':14000'' then ''pebble''
      else ''letsencrypt'')"

section \<open>Addresses\<close>

definition ip_char :: "char \<Rightarrow> bool" where
  "ip_char c \<longleftrightarrow> c = CHR ''.'' \<or> is_digit c"

lemma ip_rest_shorter: "length (dropWhile ip_char s) \<le> length s"
  by (rule length_dropWhile_le)

function rewrite_tokens :: "(string \<Rightarrow> bool) \<Rightarrow> string \<Rightarrow> string \<Rightarrow> string" where
  "rewrite_tokens priv pubIP s =
     (if s = '''' then ''''
      else if has_prefix s ''ip4:'' then
        let token = takeWhile ip_char (drop 4 s)
        in ''ip4:'' @ (if priv token \<and> token \<noteq> pubIP then pubIP else token) @ rewrite_tokens priv pubIP (dropWhile ip_char (drop 4 s))
      else hd s # rewrite_tokens priv pubIP (tl s))"
  by pat_completeness auto
termination
proof (relation "measure (\<lambda>(priv, ip, s). length s)", goal_cases)
  case (2 priv ip s x)
  then have "length (dropWhile ip_char (drop 4 s)) \<le> length s - 4" "4 \<le> length s"
    using ip_rest_shorter [of "drop 4 s"] by (auto simp: has_prefix_def dest: prefix_length_le)
  then show ?case by simp
qed auto

declare rewrite_tokens.simps [simp del]

definition RewritePrivateIP4Tokens :: "(string \<Rightarrow> bool) \<Rightarrow> string \<Rightarrow> string \<Rightarrow> string" where
  "RewritePrivateIP4Tokens priv content pubIP = (if pubIP = '''' \<or> priv pubIP then content else rewrite_tokens priv pubIP content)"

section \<open>Zone files\<close>

definition escape_quotes :: "string \<Rightarrow> string" where
  "escape_quotes s = concat (map (\<lambda>c. if c = CHR 34 then [CHR 92, CHR 34] else [c]) s)"

definition record_content :: "dnsrecord \<Rightarrow> string" where
  "record_content r =
     (let content = rec_Content r
      in if rec_Type r \<in> {''MX'', ''CNAME'', ''NS'', ''SRV''} then
           (if content \<noteq> '''' \<and> \<not> has_suffix content ''.'' \<and> \<not> contains content '':'' then content @ ''.'' else content)
         else if rec_Type r = ''TXT'' then
           (if content \<noteq> '''' \<and> \<not> has_prefix content [CHR 34] then [CHR 34] @ escape_quotes content @ [CHR 34] else content)
         else content)"

definition record_line :: "dnsrecord \<Rightarrow> string" where
  "record_line r =
     (let name = (if rec_Name r = '''' then ''@'' else rec_Name r);
          prio = (case rec_Priority r of Some p \<Rightarrow> if rec_Type r = ''MX'' \<or> rec_Type r = ''SRV'' then itoa p @ '' '' else '''' | None \<Rightarrow> '''')
      in name @ '' '' @ itoa (rec_TTL r) @ '' IN '' @ rec_Type r @ '' '' @ prio @ record_content r)"

definition zone_head :: "string \<Rightarrow> int \<Rightarrow> string list" where
  "zone_head origin serial =
     [''$ORIGIN '' @ origin, ''$TTL 3600'',
      ''@ IN SOA ns1.'' @ origin @ '' hostmaster.'' @ origin @ '' ('' @ itoa serial @ '' 7200 3600 1209600 3600)'',
      ''@ IN NS ns1.'' @ origin]"

text \<open>Records with the same name and type keep their order here; \<^verbatim>\<open>sort.Slice\<close> leaves it open.\<close>

definition sorted_records :: "dnsrecord list \<Rightarrow> dnsrecord list" where
  "sorted_records rs = sort_key rec_Name (sort_key rec_Type rs)"

definition ZoneFile :: "dnszone \<Rightarrow> dnsrecord list \<Rightarrow> int \<Rightarrow> string" where
  "ZoneFile zone records serial =
     (let origin = trim_suffix (zone_Name zone) ''.'' @ ''.''
      in concat (map (\<lambda>l. l @ [nl]) (zone_head origin serial @ map record_line (sorted_records records))))"

section \<open>What a zone file says\<close>

lemma nl_notin_itoa [simp]: "nl \<notin> set (itoa i)"
  by (rule itoa_field(2))

lemma escape_nl: "nl \<in> set (escape_quotes s) \<longleftrightarrow> nl \<in> set s"
  by (induction s) (auto simp: escape_quotes_def nl_def)

definition plain_record :: "dnsrecord \<Rightarrow> bool" where
  "plain_record r \<longleftrightarrow> nl \<notin> set (rec_Name r) \<and> nl \<notin> set (rec_Type r) \<and> nl \<notin> set (rec_Content r)"

lemma nl_neq [simp]: "nl \<noteq> CHR ''.''" "nl \<noteq> CHR '' ''" "nl \<noteq> CHR 34" "nl \<noteq> CHR ''@''" "nl \<noteq> CHR ''I''" "nl \<noteq> CHR ''N''"
  by (simp_all add: nl_def)

lemma record_content_plain: "nl \<notin> set (rec_Content r) \<Longrightarrow> nl \<notin> set (record_content r)"
  unfolding record_content_def Let_def by (simp add: escape_nl)

lemma record_line_plain: "plain_record r \<Longrightarrow> nl \<notin> set (record_line r)"
  unfolding plain_record_def record_line_def Let_def using record_content_plain by (simp split: option.split)

lemma zone_head_plain: "nl \<notin> set origin \<Longrightarrow> l \<in> set (zone_head origin serial) \<Longrightarrow> nl \<notin> set l"
  by (auto simp: zone_head_def) (auto simp: nl_def)

lemma split_on_app: "split_on sep (l @ sep # t) = split_on sep l @ split_on sep t"
  by (induction l) (auto simp: neq_Nil_conv split: list.splits)

lemma split_lines_app: "split_on nl (concat (map (\<lambda>l. l @ [nl]) ls) @ s) = concat (map (split_on nl) ls) @ split_on nl s"
proof (induction ls)
  case (Cons l ls)
  then show ?case by (simp add: split_on_app)
qed simp

text \<open>
  A zone file whose records have no line breaks consists of the head with origin, serial number
  and name server, and of exactly one line for each record, in the order of names and types.
\<close>

theorem zone_file_lines:
  assumes "\<forall>r \<in> set records. plain_record r" "nl \<notin> set (zone_Name zone)"
  shows "split_on nl (ZoneFile zone records serial) =
    zone_head (trim_suffix (zone_Name zone) ''.'' @ ''.'') serial @ map record_line (sorted_records records) @ ['''']"
proof -
  let ?o = "trim_suffix (zone_Name zone) ''.'' @ ''.''"
  have o1: "nl \<notin> set ?o" using assms(2) by (auto simp: trim_suffix_def dest: in_set_takeD)
  then have "\<forall>l \<in> set (zone_head ?o serial @ map record_line (sorted_records records)). nl \<notin> set l"
    using assms(1) zone_head_plain [OF o1] record_line_plain by (simp add: sorted_records_def ball_Un)
  from split_text_lines [OF this] show ?thesis unfolding ZoneFile_def Let_def by (simp only: append.assoc)
qed

definition ex_zone :: dnszone where "ex_zone = dnszone0\<lparr>zone_Name := ''x.org''\<rparr>"
definition ex_record :: dnsrecord where "ex_record = dnsrecord0\<lparr>rec_Name := ''www'', rec_Type := ''A'', rec_Content := ''10.0.0.1'', rec_TTL := 60\<rparr>"

theorem zone_file_lines_witness:
  "split_on nl (ZoneFile ex_zone [ex_record] 7) = zone_head (trim_suffix ''x.org'' ''.'' @ ''.'') 7 @ [record_line ex_record, '''']"
  using zone_file_lines [of "[ex_record]" ex_zone 7] by (simp add: ex_zone_def ex_record_def plain_record_def sorted_records_def nl_def dnsrecord0_def)

text \<open>A record whose content has a line break and begins with a quotation mark is written as it is.\<close>

lemma zone_file_inject:
  assumes "rec_Type r = ''TXT''" "rec_Content r = [CHR 34] @ a @ [nl] @ l @ [nl] @ b" "r \<in> set records" "nl \<notin> set l"
  shows "l \<in> set (split_on nl (ZoneFile zone records serial))"
proof -
  let ?ls = "zone_head (trim_suffix (zone_Name zone) ''.'' @ ''.'') serial @ map record_line (sorted_records records)"
  have "record_line r \<in> set ?ls" using assms(3) by (simp add: sorted_records_def)
  moreover have "l \<in> set (split_on nl (record_line r))"
  proof -
    obtain p where "record_line r = p @ [nl] @ l @ [nl] @ b"
      using assms(1,2) by (simp add: record_line_def record_content_def has_prefix_def Let_def split: option.split)
    then show ?thesis using assms(4) by (simp add: split_on_app split_on_single)
  qed
  ultimately show ?thesis unfolding ZoneFile_def Let_def using split_lines_app [of ?ls "[]"] by auto
qed

end
