(* ===== verification/Mail_Maps.thy ===== *)
theory Mail_Maps
  imports Site_Config
begin

text \<open>
  The maps of the mail server, \<^verbatim>\<open>internal/mail\<close>: which mailboxes, aliases, catch-all addresses
  and senders it knows (\<^verbatim>\<open>SnapshotHost\<close> and the texts made of it), and the daily limits that
  \<^verbatim>\<open>panel-smtp-policy\<close> enforces from one of these texts (\<^verbatim>\<open>policy.go\<close>). The files of the
  message counters are a map from day and account to text; a count is read and written under a lock.
\<close>

section \<open>Recipients\<close>

record recipient =
  rcp_Address :: string
  rcp_Domain :: string
  rcp_LocalPart :: string
  rcp_Home :: string
  rcp_UID :: int
  rcp_GID :: int
  rcp_Quota :: int
  rcp_Hash :: string
  rcp_Account :: string
  rcp_DailyLimit :: int

definition mailDomain :: "memory \<Rightarrow> string \<Rightarrow> maildomain option" where
  "mailDomain m i = find (\<lambda>md. md_ID md = i) (ListMailDomains m '''')"

definition mail_hash :: "string \<Rightarrow> string" where
  "mail_hash h = (if h = '''' then ''!'' else h)"

definition recipient_of :: "mailbox \<Rightarrow> domain \<Rightarrow> int \<Rightarrow> int \<Rightarrow> string \<Rightarrow> int \<Rightarrow> recipient" where
  "recipient_of mb d uid gid account daily =
     \<lparr> rcp_Address = mb_LocalPart mb @ ''@'' @ dom_ASCII d, rcp_Domain = dom_ASCII d, rcp_LocalPart = mb_LocalPart mb,
       rcp_Home = ''/var/vmail/'' @ dom_ASCII d @ ''/'' @ mb_LocalPart mb, rcp_UID = uid, rcp_GID = gid, rcp_Quota = mb_QuotaBytes mb,
       rcp_Hash = mail_hash (mb_PasswordHash mb), rcp_Account = account, rcp_DailyLimit = daily \<rparr>"

definition recipient_in :: "memory \<Rightarrow> mailbox \<Rightarrow> recipient option" where
  "recipient_in m mb =
     (case mailDomain m (mb_DomainID mb) of
        None \<Rightarrow> None
      | Some md \<Rightarrow>
          (case GetDomain m (md_DomainID md) of
             None \<Rightarrow> None
           | Some d \<Rightarrow>
               (case GetAccount m (mb_AccountID mb) of
                  None \<Rightarrow> Some (recipient_of mb d 20000 20000 '''' 0)
                | Some acc \<Rightarrow>
                    Some (recipient_of mb d (acc_LinuxUID acc) (acc_LinuxGID acc) (acc_Username acc)
                      (case GetPackage m (acc_PackageID acc) of None \<Rightarrow> 0 | Some pkg \<Rightarrow> pkg_EmailDailyLimit pkg)))))"

definition Recipients :: "memory \<Rightarrow> string \<Rightarrow> recipient list" where
  "Recipients m accountID = sort_key rcp_Address (List.map_filter (recipient_in m) (ListMailboxes m accountID))"

definition CatchallLocal :: "string \<Rightarrow> string" where
  "CatchallLocal policy =
     (let p = trim_space (to_lower policy)
      in if p = '''' \<or> p = ''reject'' then '''' else if p = ''discard'' then ''discard'' else p)"

section \<open>Texts\<close>

definition Virtual :: "recipient list \<Rightarrow> string" where
  "Virtual recs = ''# panel virtual mailbox map '' @ em_dash @ '' generated, do not edit'' @ [nl] @
     concat (map (\<lambda>r. rcp_Address r @ '' '' @ rcp_Domain r @ ''/'' @ rcp_LocalPart r @ ''/Maildir/'' @ [nl]) recs)"

definition domain_lines :: "string list \<Rightarrow> string" where
  "domain_lines names = concat (map (\<lambda>n. n @ '' OK'' @ [nl]) names)"

definition UIDMap :: "recipient list \<Rightarrow> string" where
  "UIDMap recs = concat (map (\<lambda>r. rcp_Address r @ '' '' @ itoa (rcp_UID r) @ [nl]) recs)"

definition GIDMap :: "recipient list \<Rightarrow> string" where
  "GIDMap recs = concat (map (\<lambda>r. rcp_Address r @ '' '' @ itoa (rcp_GID r) @ [nl]) recs)"

definition PasswdFile :: "recipient list \<Rightarrow> string" where
  "PasswdFile recs = ''# dovecot passwd-file '' @ em_dash @ '' generated, do not edit'' @ [nl] @
     concat (map (\<lambda>r.
       let hash = (if rcp_Hash r = '''' \<or> rcp_Hash r = ''!'' then ''!''
                   else if \<not> has_prefix (rcp_Hash r) ''{'' then ''{ARGON2ID}'' @ rcp_Hash r else rcp_Hash r)
       in rcp_Address r @ '':'' @ hash @ '':'' @ itoa (rcp_UID r) @ '':'' @ itoa (rcp_GID r) @ ''::'' @ rcp_Home r @
          ''::userdb_quota_rule=*:storage='' @ itoa (rcp_Quota r) @ ''B'' @ [nl]) recs)"

definition SendLimits :: "recipient list \<Rightarrow> string" where
  "SendLimits recs = ''# sender account daily_limit '' @ em_dash @ '' generated, do not edit'' @ [nl] @
     concat (map (\<lambda>r. if rcp_Account r = '''' then '''' else rcp_Address r @ '' '' @ rcp_Account r @ '' '' @ itoa (rcp_DailyLimit r) @ [nl]) recs)"

section \<open>Aliases and senders\<close>

text \<open>The list built by \<^verbatim>\<open>seen\<close> and \<^verbatim>\<open>append\<close>: first occurrences only.\<close>

definition add_once :: "'a list \<Rightarrow> 'a \<Rightarrow> 'a list" where
  "add_once xs x = (if x \<in> set xs then xs else xs @ [x])"

definition addSender :: "string list \<Rightarrow> string \<Rightarrow> string \<Rightarrow> string list" where
  "addSender out addr login = (if addr = '''' \<or> login = '''' then out else add_once out (addr @ '' '' @ login @ [nl]))"

definition alias_dests :: "string \<Rightarrow> string \<Rightarrow> string list" where
  "alias_dests host destination =
     map (\<lambda>dest. if contains dest ''@'' then dest else dest @ ''@'' @ host)
       (filter (\<lambda>dest. dest \<noteq> '''') (map trim_space (split_on (CHR '','') destination)))"

definition live_account :: "account \<Rightarrow> bool" where
  "live_account acc \<longleftrightarrow> \<not> (acc_Status acc = ''terminated'' \<or> acc_Status acc = ''terminating'')"

definition alias_host :: "memory \<Rightarrow> mailalias \<Rightarrow> string option" where
  "alias_host m al =
     (case mailDomain m (al_DomainID al) of
        None \<Rightarrow> None
      | Some md \<Rightarrow>
          (case GetDomain m (md_DomainID md) of
             None \<Rightarrow> None
           | Some d \<Rightarrow> if dom_ASCII d = '''' \<or> al_Address al = '''' \<or> al_Destination al = '''' then None else Some (dom_ASCII d)))"

definition SenderLogin :: "memory \<Rightarrow> recipient list \<Rightarrow> string" where
  "SenderLogin m recs =
     (let own = foldl (\<lambda>out r. addSender out (rcp_Address r) (rcp_Address r)) [] recs;
          aliases = concat (map (\<lambda>acc. ListMailAliases m (acc_ID acc)) (filter live_account (ListAccounts m '''' '''')));
          out = foldl (\<lambda>out al. case alias_host m al of
                          None \<Rightarrow> out
                        | Some host \<Rightarrow> foldl (\<lambda>out dest. addSender out (al_Address al @ ''@'' @ host) dest) out (alias_dests host (al_Destination al))) own aliases
      in ''# panel sender-login map '' @ em_dash @ '' generated, do not edit'' @ [nl] @ concat (sort out))"

section \<open>The snapshot\<close>

record snapshot =
  snap_Recipients :: "recipient list"
  snap_DomainNames :: "string list"
  snap_CatchallVirtual :: string
  snap_AliasMap :: string
  snap_SenderLogin :: string

definition index_by :: "('v \<Rightarrow> string) \<Rightarrow> 'v list \<Rightarrow> (string, 'v) gomap" where
  "index_by key xs = foldl (\<lambda>t x. mput (key x) x t) [] xs"

definition live_owner :: "(string, account) gomap \<Rightarrow> string \<Rightarrow> account option" where
  "live_owner accounts i = (case mget accounts i of Some acc \<Rightarrow> if live_account acc then Some acc else None | None \<Rightarrow> None)"

text \<open>A missing entry of a Go map reads as the zero value.\<close>

definition indexed :: "'v \<Rightarrow> (string, 'v) gomap \<Rightarrow> string \<Rightarrow> 'v" where
  "indexed z t i = (case mget t i of None \<Rightarrow> z | Some v \<Rightarrow> v)"

definition snapshot_recipient ::
    "(string, account) gomap \<Rightarrow> (string, package) gomap \<Rightarrow> (string, domain) gomap \<Rightarrow> (string, maildomain) gomap \<Rightarrow> mailbox \<Rightarrow> recipient option" where
  "snapshot_recipient accounts packages domains mailDomains mb =
     (case live_owner accounts (mb_AccountID mb) of
        None \<Rightarrow> None
      | Some acc \<Rightarrow>
          let md = indexed maildomain0 mailDomains (mb_DomainID mb); d = indexed domain0 domains (md_DomainID md)
          in if md_ID md = '''' \<or> dom_ID d = '''' \<or> dom_ASCII d = '''' then None
             else Some (recipient_of mb d (acc_LinuxUID acc) (acc_LinuxGID acc) (acc_Username acc)
                    (case mget packages (acc_PackageID acc) of None \<Rightarrow> 0 | Some pkg \<Rightarrow> pkg_EmailDailyLimit pkg)))"

fun once_by :: "('a \<Rightarrow> string) \<Rightarrow> string list \<Rightarrow> 'a list \<Rightarrow> 'a list" where
  "once_by key seen [] = []"
| "once_by key seen (x # xs) = (if key x \<in> set seen then once_by key seen xs else x # once_by key (key x # seen) xs)"

definition snapshot_alias :: "(string, account) gomap \<Rightarrow> (string, domain) gomap \<Rightarrow> (string, maildomain) gomap \<Rightarrow> mailalias \<Rightarrow> (string \<times> string list) option" where
  "snapshot_alias accounts domains mailDomains al =
     (case live_owner accounts (al_AccountID al) of
        None \<Rightarrow> None
      | Some acc \<Rightarrow>
          let md = indexed maildomain0 mailDomains (al_DomainID al); d = indexed domain0 domains (md_DomainID md)
          in if md_ID md = '''' \<or> dom_ASCII d = '''' \<or> al_Address al = '''' \<or> al_Destination al = '''' then None
             else Some (al_Address al @ ''@'' @ dom_ASCII d, alias_dests (dom_ASCII d) (al_Destination al)))"

definition mail_domains_of :: "(string, account) gomap \<Rightarrow> (string, domain) gomap \<Rightarrow> (string, maildomain) gomap \<Rightarrow> (string \<times> string) list" where
  "mail_domains_of accounts domains mailDomains =
     List.map_filter (\<lambda>md. case live_owner accounts (md_AccountID md) of
         None \<Rightarrow> None
       | Some _ \<Rightarrow> let d = indexed domain0 domains (md_DomainID md)
                   in if dom_ASCII d = '''' then None else Some (dom_ASCII d, CatchallLocal (md_CatchallPolicy md))) (mvals mailDomains)"

definition SnapshotHost :: "memory \<Rightarrow> snapshot" where
  "SnapshotHost m =
     (let accounts = index_by acc_ID (ListAccounts m '''' ''''); packages = index_by pkg_ID (ListPackages m);
          domains = index_by dom_ID (ListDomains m ''''); mailDomains = index_by md_ID (ListMailDomains m '''');
          recs = sort_key rcp_Address (once_by rcp_Address [] (List.map_filter (snapshot_recipient accounts packages domains mailDomains) (ListMailboxes m '''')));
          mds = mail_domains_of accounts domains mailDomains;
          aliases = List.map_filter (snapshot_alias accounts domains mailDomains) (ListMailAliases m '''');
          own = foldl (\<lambda>out r. addSender out (rcp_Address r) (rcp_Address r)) [] recs;
          senders = foldl (\<lambda>out (addr, dests). foldl (\<lambda>out dest. addSender out addr dest) out dests) own aliases
      in \<lparr> snap_Recipients = recs,
           snap_DomainNames = sort (foldl add_once [] (map fst mds)),
           snap_CatchallVirtual = concat (sort (map (\<lambda>(n, l). ''@'' @ n @ '' '' @ n @ ''/'' @ l @ ''/Maildir/'' @ [nl]) (filter (\<lambda>(n, l). l \<noteq> '''') mds))),
           snap_AliasMap = ''# panel virtual alias map '' @ em_dash @ '' generated, do not edit'' @ [nl] @
             concat (sort (map (\<lambda>(addr, dests). addr @ '' '' @ join_with (CHR '','') dests @ [nl]) (filter (\<lambda>(addr, dests). dests \<noteq> []) aliases))),
           snap_SenderLogin = ''# panel sender-login map '' @ em_dash @ '' generated, do not edit'' @ [nl] @ concat (sort senders) \<rparr>)"

definition snap_Virtual :: "snapshot \<Rightarrow> string" where
  "snap_Virtual s = Virtual (snap_Recipients s) @ snap_CatchallVirtual s"

definition snap_VDomains :: "snapshot \<Rightarrow> string" where
  "snap_VDomains s = domain_lines (snap_DomainNames s)"

section \<open>The send limit\<close>

record limitrow =
  row_Address :: string
  row_Account :: string
  row_Limit :: int

definition parse_limit :: "string \<Rightarrow> limitrow option" where
  "parse_limit l =
     (let line = trim_space l
      in if line = '''' \<or> has_prefix line ''#'' then None
         else (case str_fields line of
                 a # b # c # _ \<Rightarrow> (case atoi c of None \<Rightarrow> None | Some n \<Rightarrow> Some \<lparr> row_Address = to_lower a, row_Account = b, row_Limit = n \<rparr>)
               | _ \<Rightarrow> None))"

definition ParseSendLimits :: "string \<Rightarrow> limitrow list" where
  "ParseSendLimits body = List.map_filter parse_limit (split_on nl body)"

definition LookupLimit :: "limitrow list \<Rightarrow> string \<Rightarrow> string \<Rightarrow> limitrow option" where
  "LookupLimit rows sender sasl =
     (let sender = to_lower (trim_space sender); sasl = to_lower (trim_space sasl)
      in find (\<lambda>r. row_Address r = sender \<or> row_Address r = sasl) rows)"

type_synonym counters = "(string \<times> string, string) gomap"

definition bumpCount :: "counters \<Rightarrow> string \<Rightarrow> string \<Rightarrow> int \<times> counters" where
  "bumpCount cs day account =
     (let n = (case mget cs (day, account) of
                 None \<Rightarrow> 0
               | Some text \<Rightarrow> (case atoi (trim_space (hd (split_on nl text))) of None \<Rightarrow> 0 | Some n \<Rightarrow> n)) + 1
      in (n, mput (day, account) (itoa n @ [nl]) cs))"

definition Decide :: "string option \<Rightarrow> counters \<Rightarrow> string \<Rightarrow> string \<Rightarrow> string \<Rightarrow> string \<times> counters" where
  "Decide limits cs sender sasl day =
     (case limits of
        None \<Rightarrow> (''DUNNO'', cs)
      | Some body \<Rightarrow>
          (case LookupLimit (ParseSendLimits body) sender sasl of
             None \<Rightarrow> (''DUNNO'', cs)
           | Some row \<Rightarrow>
               if row_Limit row \<le> 0 then (''DUNNO'', cs)
               else let (used, cs') = bumpCount cs day (row_Account row)
                    in (if used > row_Limit row then ''REJECT 5.7.1 Daily message limit exceeded'' else ''DUNNO'', cs')))"

definition PolicyResponse :: "string \<Rightarrow> string" where
  "PolicyResponse action = ''action='' @ (if action = '''' then ''DUNNO'' else action) @ [nl, nl]"

section \<open>Parsing what was written\<close>

lemma parse_limit_line:
  assumes "field a" "hd a \<noteq> CHR ''#''" "field b" "- (2 ^ 63) \<le> n" "n < 2 ^ 63"
  shows "parse_limit (a @ '' '' @ b @ '' '' @ itoa n) = Some \<lparr> row_Address = to_lower a, row_Account = b, row_Limit = n \<rparr>"
proof -
  obtain c s where a: "a = c # s" using assms(1) by (cases a) (auto simp: field_def)
  obtain r where r: "trim_space (a @ '' '' @ b @ '' '' @ itoa n) = c # r" using trim_head [of c] assms(1) by (auto simp: a field_def)
  have "str_fields (c # r) = [a, b, itoa n]"
    unfolding r [symmetric] fields_trim using fields_join [of "[a, b, itoa n]"] assms(1,3) itoa_field by simp
  with assms(2,4,5) show ?thesis unfolding parse_limit_def Let_def r by (simp add: atoi_itoa a has_prefix_def)
qed

text \<open>A line of the limits file that is read back.\<close>

definition plain_limit :: "recipient \<Rightarrow> bool" where
  "plain_limit r \<longleftrightarrow> rcp_Account r \<noteq> '''' \<longrightarrow>
     field (rcp_Address r) \<and> hd (rcp_Address r) \<noteq> CHR ''#'' \<and> field (rcp_Account r) \<and> - (2 ^ 63) \<le> rcp_DailyLimit r \<and> rcp_DailyLimit r < 2 ^ 63"

definition limit_of :: "recipient \<Rightarrow> limitrow" where
  "limit_of r = \<lparr> row_Address = to_lower (rcp_Address r), row_Account = rcp_Account r, row_Limit = rcp_DailyLimit r \<rparr>"

lemma map_filter_append: "List.map_filter f (xs @ ys) = List.map_filter f xs @ List.map_filter f ys"
  by (simp add: List.map_filter_def)

lemma ParseSendLimits_rows:
  assumes "\<forall>r \<in> set recs. plain_limit r"
  shows "ParseSendLimits (SendLimits recs) = map limit_of (filter (\<lambda>r. rcp_Account r \<noteq> '''') recs)"
proof -
  let ?head = "''# sender account daily_limit '' @ em_dash @ '' generated, do not edit''"
  let ?line = "\<lambda>r. rcp_Address r @ '' '' @ rcp_Account r @ '' '' @ itoa (rcp_DailyLimit r)"
  let ?rs = "filter (\<lambda>r. rcp_Account r \<noteq> '''') recs"
  have body: "SendLimits recs = concat (map (\<lambda>l. l @ [nl]) (?head # map ?line ?rs))"
    unfolding SendLimits_def by (induction recs) simp_all
  have lines: "\<forall>l \<in> set (?head # map ?line ?rs). nl \<notin> set l"
  proof -
    have "nl \<notin> set ?head" by (simp add: em_dash_def nl_def)
    moreover have "nl \<notin> set (?line r)" if "r \<in> set ?rs" for r
    proof -
      have "plain_limit r" "rcp_Account r \<noteq> ''''" using that assms by auto
      then show ?thesis using itoa_field(2) [of "rcp_DailyLimit r"] by (auto simp: plain_limit_def dest: field_no_nl)
    qed
    ultimately show ?thesis by auto
  qed
  have "parse_limit ?head = None" "parse_limit '''' = None" by (code_simp, code_simp)
  moreover have "List.map_filter parse_limit (map ?line ?rs) = map limit_of ?rs"
    using assms
  proof (induction recs)
    case (Cons r recs)
    then show ?case
      by (auto simp: List.map_filter_simps plain_limit_def limit_of_def parse_limit_line simp del: append_Cons append.simps)
  qed (simp add: List.map_filter_simps)
  ultimately show ?thesis unfolding ParseSendLimits_def body split_text_lines [OF lines] map_filter_append by (simp add: List.map_filter_simps)
qed

section \<open>Lookups of the snapshot\<close>

lemma index_by_lookup: "distinct (map key xs) \<Longrightarrow> mget (index_by key xs) i = Some v \<longleftrightarrow> v \<in> set xs \<and> key v = i"
proof (induction xs rule: rev_induct)
  case (snoc x xs)
  have "key x \<notin> key ` set xs" using snoc.prems by simp
  then have "v \<in> set xs \<Longrightarrow> key v \<noteq> key x" by (metis imageI)
  with snoc show ?case by (auto simp: index_by_def)
qed (simp add: index_by_def)

lemma table_distinct:
  assumes "table idof t"
  shows "distinct (map idof (mvals t))"
proof -
  have "idof (snd e) = fst e" if "e \<in> set t" for e
    using that assms mwf_mget_iff [of t "fst e" "snd e"] by (simp add: table_def)
  then have m: "map idof (mvals t) = map fst t" by simp
  show ?thesis unfolding m using assms by (simp add: table_def mwf_def)
qed

lemma index_by_table:
  assumes "table idof t" "set xs = set (mvals t)" "distinct (map idof xs)"
  shows "mget (index_by idof xs) i = mget t i"
proof -
  have "mget (index_by idof xs) i = Some v \<longleftrightarrow> mget t i = Some v" for v
    using index_by_lookup [OF assms(3), of i v] table_mvals_iff [OF assms(1), of v] assms(1,2) by (metis table_def)
  then show ?thesis by (metis option.exhaust)
qed

lemma distinct_sort_key: "distinct (map f xs) \<Longrightarrow> distinct (map f (sort_key g xs))"
  by (simp add: distinct_map)

lemma snapshot_lookups:
  assumes "mem_tables m"
  shows "mget (index_by acc_ID (ListAccounts m '''' '''')) i = mget (Accounts m) i" "mget (index_by pkg_ID (ListPackages m)) i = mget (Packages m) i"
    "mget (index_by dom_ID (ListDomains m '''')) i = mget (Domains m) i" "mget (index_by md_ID (ListMailDomains m '''')) i = mget (MailDom m) i"
proof -
  have t: "table acc_ID (Accounts m)" "table pkg_ID (Packages m)" "table dom_ID (Domains m)" "table md_ID (MailDom m)"
    using assms by (simp_all add: mem_tables_def)
  have l: "ListAccounts m '''' '''' = sort_key acc_Username (mvals (Accounts m))" "ListDomains m '''' = mvals (Domains m)"
      "ListMailDomains m '''' = mvals (MailDom m)"
    by (simp_all add: ListAccounts_def ListDomains_def ListMailDomains_def account_listed_def to_lower_def)
  show "mget (index_by acc_ID (ListAccounts m '''' '''')) i = mget (Accounts m) i"
    unfolding l by (rule index_by_table [OF t(1)]) (simp_all add: distinct_sort_key [OF table_distinct [OF t(1)]] del: set_map)
  show "mget (index_by pkg_ID (ListPackages m)) i = mget (Packages m) i"
    unfolding ListPackages_def by (rule index_by_table [OF t(2)]) (simp_all add: distinct_sort_key [OF table_distinct [OF t(2)]] del: set_map)
  show "mget (index_by dom_ID (ListDomains m '''')) i = mget (Domains m) i" "mget (index_by md_ID (ListMailDomains m '''')) i = mget (MailDom m) i"
    unfolding l by (rule index_by_table [OF t(3) refl table_distinct [OF t(3)]], rule index_by_table [OF t(4) refl table_distinct [OF t(4)]])
qed

lemma once_by_keys: "key ` set (once_by key seen xs) = key ` set xs - set seen" "distinct (map key (once_by key seen xs))" "set (once_by key seen xs) \<subseteq> set xs"
  by (induction key seen xs rule: once_by.induct) auto

lemma set_map_filter: "set (List.map_filter f xs) = {y. \<exists>x \<in> set xs. f x = Some y}"
  by (force simp: List.map_filter_def)

text \<open>When the snapshot has a recipient for a mailbox, and which.\<close>

lemma snapshot_recipient_iff:
  assumes "mem_tables m" "mget (MailDom m) '''' = None" "mget (Domains m) '''' = None"
  shows "snapshot_recipient (index_by acc_ID (ListAccounts m '''' '''')) (index_by pkg_ID (ListPackages m)) (index_by dom_ID (ListDomains m ''''))
      (index_by md_ID (ListMailDomains m '''')) mb = Some r \<longleftrightarrow>
    (\<exists>acc md d. mget (Accounts m) (mb_AccountID mb) = Some acc \<and> live_account acc \<and> mget (MailDom m) (mb_DomainID mb) = Some md \<and>
      mget (Domains m) (md_DomainID md) = Some d \<and> dom_ASCII d \<noteq> '''' \<and>
      r = recipient_of mb d (acc_LinuxUID acc) (acc_LinuxGID acc) (acc_Username acc)
            (case mget (Packages m) (acc_PackageID acc) of None \<Rightarrow> 0 | Some pkg \<Rightarrow> pkg_EmailDailyLimit pkg))"
proof -
  have ids: "mget (MailDom m) i = Some md \<Longrightarrow> md_ID md \<noteq> ''''" "mget (Domains m) i = Some d \<Longrightarrow> dom_ID d \<noteq> ''''" for i md d
    using assms by (auto simp: mem_tables_def table_def)
  show ?thesis
    unfolding snapshot_recipient_def live_owner_def indexed_def snapshot_lookups [OF assms(1)]
    by (auto simp: Let_def maildomain0_def domain0_def dest: ids split: option.splits if_splits)
qed

section \<open>Senders\<close>

lemma set_addSender: "set (addSender out a l) = set out \<union> (if a = '''' \<or> l = '''' then {} else {a @ '' '' @ l @ [nl]})"
  by (auto simp: addSender_def add_once_def)

lemma distinct_addSender: "distinct out \<Longrightarrow> distinct (addSender out a l)"
  by (simp add: addSender_def add_once_def)

lemma foldl_senders:
  assumes "\<And>out x. set (f out x) = set out \<union> g x" "\<And>out x. distinct out \<Longrightarrow> distinct (f out x)"
  shows "set (foldl f out xs) = set out \<union> \<Union> (g ` set xs)" "distinct out \<Longrightarrow> distinct (foldl f out xs)"
  using assms by (induction xs arbitrary: out) auto

definition sender_lines :: "string \<Rightarrow> string list \<Rightarrow> string set" where
  "sender_lines addr dests = {addr @ '' '' @ l @ [nl] |l. l \<in> set dests \<and> l \<noteq> '''' \<and> addr \<noteq> ''''}"

lemma foldl_dests:
  "set (foldl (\<lambda>out dest. addSender out addr dest) out dests) = set out \<union> sender_lines addr dests"
  "distinct out \<Longrightarrow> distinct (foldl (\<lambda>out dest. addSender out addr dest) out dests)"
  using foldl_senders [of "\<lambda>out dest. addSender out addr dest" "\<lambda>l. if addr = '''' \<or> l = '''' then {} else {addr @ '' '' @ l @ [nl]}" out dests]
  by (auto simp: set_addSender distinct_addSender sender_lines_def)

lemma find_by_id:
  assumes "table idof t"
  shows "find (\<lambda>x. idof x = i) (mvals t) = mget t i"
proof (cases "find (\<lambda>x. idof x = i) (mvals t)")
  case None
  then have none: "\<forall>k v. mget t k = Some v \<longrightarrow> idof v \<noteq> i" using find_mvals_None [OF assms, of "\<lambda>x. idof x = i"] by blast
  show ?thesis
  proof (cases "mget t i")
    case (Some v)
    then have "idof v = i" using assms unfolding table_def by blast
    with none Some show ?thesis by blast
  qed (simp add: None)
next
  case (Some v)
  show ?thesis using find_mvals_SomeD [OF assms Some] unfolding Some by auto
qed

text \<open>Both maps have the same lines for an alias.\<close>

lemma alias_agree:
  assumes "mem_tables m" "mget (MailDom m) '''' = None"
  shows "snapshot_alias (index_by acc_ID (ListAccounts m '''' '''')) (index_by dom_ID (ListDomains m '''')) (index_by md_ID (ListMailDomains m '''')) al =
    (case mget (Accounts m) (al_AccountID al) of None \<Rightarrow> None | Some acc \<Rightarrow>
       if live_account acc then map_option (\<lambda>host. (al_Address al @ ''@'' @ host, alias_dests host (al_Destination al))) (alias_host m al) else None)"
proof -
  have t: "table md_ID (MailDom m)" using assms(1) by (simp add: mem_tables_def)
  have "md_ID md \<noteq> ''''" if "mget (MailDom m) i = Some md" for i md using that assms(2) t by (auto simp: table_def)
  moreover have "mailDomain m i = mget (MailDom m) i" for i
    using find_by_id [OF t, of i] by (simp add: mailDomain_def ListMailDomains_def)
  ultimately show ?thesis
    unfolding snapshot_alias_def live_owner_def indexed_def snapshot_lookups [OF assms(1)] alias_host_def GetDomain_def
    by (auto simp: Let_def maildomain0_def domain0_def split: option.splits if_splits)
qed

lemma alias_agree_iff:
  assumes "mem_tables m" "mget (MailDom m) '''' = None"
  shows "snapshot_alias (index_by acc_ID (ListAccounts m '''' '''')) (index_by dom_ID (ListDomains m '''')) (index_by md_ID (ListMailDomains m '''')) al = Some p \<longleftrightarrow>
    (\<exists>acc host. mget (Accounts m) (al_AccountID al) = Some acc \<and> live_account acc \<and> alias_host m al = Some host \<and>
       p = (al_Address al @ ''@'' @ host, alias_dests host (al_Destination al)))"
  unfolding alias_agree [OF assms] by (auto split: option.splits)

lemma all_aliases:
  assumes "mem_tables m" "mget (Accounts m) '''' = None"
  shows "set (concat (map (\<lambda>acc. ListMailAliases m (acc_ID acc)) (filter live_account (ListAccounts m '''' '''')))) =
    {al \<in> set (ListMailAliases m ''''). \<exists>acc. mget (Accounts m) (al_AccountID al) = Some acc \<and> live_account acc}"
proof -
  have t: "table acc_ID (Accounts m)" using assms(1) by (simp add: mem_tables_def)
  have acc: "acc \<in> set (ListAccounts m '''' '''') \<longleftrightarrow> mget (Accounts m) (acc_ID acc) = Some acc" for acc
    using table_mvals_iff [OF t, of acc] by (simp add: ListAccounts_def account_listed_def to_lower_def)
  have "acc_ID acc \<noteq> ''''" if "mget (Accounts m) i = Some acc" for i acc using that assms(2) t by (auto simp: table_def)
  moreover have "acc_ID acc = i" if "mget (Accounts m) i = Some acc" for i acc using that t by (simp add: table_def)
  ultimately have a: "al \<in> set (ListMailAliases m (acc_ID acc)) \<longleftrightarrow> al \<in> set (ListMailAliases m '''') \<and> al_AccountID al = acc_ID acc"
    if "mget (Accounts m) i = Some acc" for i acc al using that by (simp add: ListMailAliases_def)
  show ?thesis (is "?l = ?r")
  proof (rule set_eqI)
    fix al
    have "al \<in> ?l \<longleftrightarrow> (\<exists>acc. mget (Accounts m) (acc_ID acc) = Some acc \<and> live_account acc \<and> al \<in> set (ListMailAliases m (acc_ID acc)))"
      by (auto simp: acc)
    also have "\<dots> \<longleftrightarrow> al \<in> ?r" using a t unfolding table_def by (simp del: set_map) metis
    finally show "al \<in> ?l \<longleftrightarrow> al \<in> ?r" .
  qed
qed

section \<open>Counting messages\<close>

text \<open>The answers to the messages of one day, in the order in which they come.\<close>

fun answers :: "string option \<Rightarrow> string \<Rightarrow> (string \<times> string) list \<Rightarrow> counters \<Rightarrow> string list \<times> counters" where
  "answers limits day [] cs = ([], cs)"
| "answers limits day ((sender, sasl) # ms) cs =
     (let (a, cs1) = Decide limits cs sender sasl day; (as, cs2) = answers limits day ms cs1 in (a # as, cs2))"

definition limited :: "string \<Rightarrow> string \<times> string \<Rightarrow> limitrow option" where
  "limited body msg = (case LookupLimit (ParseSendLimits body) (fst msg) (snd msg) of
     None \<Rightarrow> None | Some row \<Rightarrow> if row_Limit row \<le> 0 then None else Some row)"

definition counts_for :: "string \<Rightarrow> string \<Rightarrow> string \<times> string \<Rightarrow> bool" where
  "counts_for body account msg \<longleftrightarrow> (\<exists>row. limited body msg = Some row \<and> row_Account row = account)"

definition counted :: "counters \<Rightarrow> string \<Rightarrow> string \<Rightarrow> nat \<Rightarrow> bool" where
  "counted cs day account n \<longleftrightarrow> (case mget cs (day, account) of None \<Rightarrow> n = 0 | Some text \<Rightarrow> text = itoa (int n) @ [nl])"

lemma bumpCount_counted:
  assumes "counted cs day a n" "n < 2 ^ 63" "bumpCount cs day a = (k, cs')"
  shows "k = int n + 1" "counted cs' day b (if b = a then Suc n else n') = (b = a \<or> counted cs day b n')"
proof -
  have "atoi (trim_space (hd (split_on nl (itoa (int n) @ [nl])))) = Some (int n)"
    using itoa_field [of "int n"] assms(2) split_on_append_sep [of nl "itoa (int n)" "[]"]
    by (simp add: trim_space_id atoi_itoa field_def)
  then have k: "k = int n + 1" using assms(1,3) by (auto simp: counted_def bumpCount_def Let_def split: option.splits)
  then show "k = int n + 1" .
  have "cs' = mput (day, a) (itoa k @ [nl]) cs" using assms(3) by (auto simp: bumpCount_def Let_def)
  then show "counted cs' day b (if b = a then Suc n else n') = (b = a \<or> counted cs day b n')" using k by (simp add: counted_def add.commute)
qed

lemma Decide_limited:
  "limited body msg = None \<Longrightarrow> Decide (Some body) cs (fst msg) (snd msg) day = (''DUNNO'', cs)"
  "limited body msg = Some row \<Longrightarrow> Decide (Some body) cs (fst msg) (snd msg) day =
     (case bumpCount cs day (row_Account row) of (used, cs') \<Rightarrow> (if used > row_Limit row then ''REJECT 5.7.1 Daily message limit exceeded'' else ''DUNNO'', cs'))"
  by (auto simp: limited_def Decide_def split: option.splits if_splits prod.splits)

definition verdict :: "int \<Rightarrow> int \<Rightarrow> string" where
  "verdict used limit = (if used > limit then ''REJECT 5.7.1 Daily message limit exceeded'' else ''DUNNO'')"

text \<open>The answer to a message, given how many messages were counted for each account before.\<close>

definition answer_for :: "string \<Rightarrow> (string \<Rightarrow> nat) \<Rightarrow> (string \<times> string) list \<Rightarrow> string \<times> string \<Rightarrow> string" where
  "answer_for body f before msg =
     (case limited body msg of
        None \<Rightarrow> ''DUNNO''
      | Some row \<Rightarrow> verdict (int (f (row_Account row)) + int (length (filter (counts_for body (row_Account row)) before)) + 1) (row_Limit row))"

lemma answers_at:
  assumes "\<forall>a. counted cs day a (f a)" "\<forall>a. f a + length ms \<le> bound" "bound < 2 ^ 63" "i < length ms"
  shows "fst (answers (Some body) day ms cs) ! i = answer_for body f (take i ms) (ms ! i)"
  using assms(1,2,4)
proof (induction ms arbitrary: cs f i)
  case (Cons msg ms)
  obtain sender sasl where msg: "msg = (sender, sasl)" by (cases msg)
  show ?case
  proof (cases "limited body msg")
    case None
    then have d: "fst (answers (Some body) day (msg # ms) cs) = ''DUNNO'' # fst (answers (Some body) day ms cs)"
      using Decide_limited(1) [OF None, of cs day] by (simp add: msg case_prod_unfold Let_def)
    have c: "answer_for body f (msg # before) = answer_for body f before" for before
      using None by (auto simp: answer_for_def counts_for_def fun_eq_iff split: option.split)
    show ?thesis
    proof (cases i)
      case (Suc i')
      have "\<forall>a. f a + length ms \<le> bound" using Cons.prems(2) by (simp add: le_Suc_eq) (meson Suc_leD)
      with Cons.IH [OF Cons.prems(1), of i'] Cons.prems(3) Suc show ?thesis by (simp add: d c)
    qed (simp add: d None answer_for_def)
  next
    case (Some row)
    let ?a = "row_Account row"
    obtain used cs' where b: "bumpCount cs day ?a = (used, cs')" by (cases "bumpCount cs day ?a")
    have fa: "f ?a < 2 ^ 63" using Cons.prems(2) assms(3) by (meson le_add1 le_less_trans order_trans)
    have k: "used = int (f ?a) + 1" "counted cs' day x (if x = ?a then Suc (f ?a) else f x)" for x
      using bumpCount_counted(1) [OF Cons.prems(1) [rule_format] fa b] bumpCount_counted(2) [OF Cons.prems(1) [rule_format] fa b, of x "f x"] Cons.prems(1) by simp_all
    have d: "fst (answers (Some body) day (msg # ms) cs) = verdict used (row_Limit row) # fst (answers (Some body) day ms cs')"
      using Decide_limited(2) [OF Some, of cs day] by (simp add: msg b verdict_def case_prod_unfold Let_def)
    have c: "answer_for body f (msg # before) = answer_for body (f(?a := Suc (f ?a))) before" for before
      using Some by (auto simp: answer_for_def counts_for_def fun_eq_iff split: option.split)
    show ?thesis
    proof (cases i)
      case 0
      then show ?thesis using k(1) Some by (simp add: d answer_for_def)
    next
      case (Suc i')
      have "\<forall>x. (f(?a := Suc (f ?a))) x + length ms \<le> bound" using Cons.prems(2) by (auto dest: spec [of _ ?a]) (metis Suc_leD add_Suc_right length_Cons)
      from Cons.IH [OF _ this, of cs' i'] k(2) Cons.prems(3) Suc show ?thesis by (simp add: d c fun_upd_def)
    qed
  qed
qed simp

section \<open>Example\<close>

definition mail_shop :: memory where
  "mail_shop = NewMemory\<lparr> Accounts := [(''a1'', account0\<lparr>acc_ID := ''a1'', acc_Username := ''ann'', acc_PackageID := ''p1'', acc_Status := ''active''\<rparr>)],
     Packages := [(''p1'', package0\<lparr>pkg_ID := ''p1'', pkg_EmailDailyLimit := 1\<rparr>)],
     Domains := [(''d1'', domain0\<lparr>dom_ID := ''d1'', dom_AccountID := ''a1'', dom_ASCII := ''x.org''\<rparr>)],
     MailDom := [(''m1'', maildomain0\<lparr>md_ID := ''m1'', md_AccountID := ''a1'', md_DomainID := ''d1''\<rparr>)],
     Mailboxes := [(''b1'', mailbox0\<lparr>mb_ID := ''b1'', mb_AccountID := ''a1'', mb_DomainID := ''m1'', mb_LocalPart := ''info''\<rparr>)],
     Aliases := [(''l1'', mailalias0\<lparr>al_ID := ''l1'', al_AccountID := ''a1'', al_DomainID := ''m1'', al_Address := ''sales'', al_Destination := ''info''\<rparr>)] \<rparr>"

lemma mail_shop_tables: "mem_tables mail_shop"
  by (simp add: mail_shop_def mem_tables_def NewMemory_def account0_def package0_def domain0_def maildomain0_def mailbox0_def mailalias0_def)

lemma mail_shop_ids: "mget (Accounts mail_shop) '''' = None" "mget (MailDom mail_shop) '''' = None" "mget (Domains mail_shop) '''' = None"
  by (simp_all add: mail_shop_def)

definition info_row :: recipient where
  "info_row = recipient_of (mailbox0\<lparr>mb_LocalPart := ''info''\<rparr>) (domain0\<lparr>dom_ASCII := ''x.org''\<rparr>) 1000 1000 ''ann'' 1"

section \<open>Theorems\<close>



text \<open>
  C25. The two ways in which the code computes the map of the senders that a login may use agree:
  \<^verbatim>\<open>SenderLogin\<close>, which walks the accounts and their aliases, and \<^verbatim>\<open>SnapshotHost\<close>, which
  walks all aliases with indexed lookups.
\<close>

theorem sender_login_agrees:
  assumes "mem_tables m" "mget (Accounts m) '''' = None" "mget (MailDom m) '''' = None"
  shows "SenderLogin m (snap_Recipients (SnapshotHost m)) = snap_SenderLogin (SnapshotHost m)"
proof -
  let ?recs = "snap_Recipients (SnapshotHost m)"
  let ?own = "foldl (\<lambda>out r. addSender out (rcp_Address r) (rcp_Address r)) [] ?recs"
  let ?walk = "\<lambda>out al. case alias_host m al of None \<Rightarrow> out | Some host \<Rightarrow> foldl (\<lambda>out dest. addSender out (al_Address al @ ''@'' @ host) dest) out (alias_dests host (al_Destination al))"
  let ?snap = "\<lambda>out (addr, dests). foldl (\<lambda>out dest. addSender out addr dest) out dests"
  let ?g = "\<lambda>al. case alias_host m al of None \<Rightarrow> {} | Some host \<Rightarrow> sender_lines (al_Address al @ ''@'' @ host) (alias_dests host (al_Destination al))"
  let ?as = "concat (map (\<lambda>acc. ListMailAliases m (acc_ID acc)) (filter live_account (ListAccounts m '''' '''')))"
  let ?bs = "List.map_filter (snapshot_alias (index_by acc_ID (ListAccounts m '''' '''')) (index_by dom_ID (ListDomains m '''')) (index_by md_ID (ListMailDomains m ''''))) (ListMailAliases m '''')"
  have own: "distinct ?own" by (rule foldl_senders(2) [where g = "\<lambda>r. if rcp_Address r = '''' then {} else {rcp_Address r @ '' '' @ rcp_Address r @ [nl]}"])
      (auto simp: set_addSender distinct_addSender)
  have walk: "set (foldl ?walk ?own ?as) = set ?own \<union> \<Union> (?g ` set ?as)" "distinct (foldl ?walk ?own ?as)"
    by (rule foldl_senders [where g = ?g]; simp add: foldl_dests own split: option.split)+
  have snap: "set (foldl ?snap ?own ?bs) = set ?own \<union> \<Union> ((\<lambda>(addr, dests). sender_lines addr dests) ` set ?bs)" "distinct (foldl ?snap ?own ?bs)"
    by (rule foldl_senders [where g = "\<lambda>(addr, dests). sender_lines addr dests"]; auto simp: foldl_dests own)+
  have "(\<exists>al \<in> set ?as. x \<in> ?g al) \<longleftrightarrow> (\<exists>b \<in> set ?bs. x \<in> (case b of (addr, dests) \<Rightarrow> sender_lines addr dests))" for x
  proof -
    have "(\<exists>b \<in> set ?bs. x \<in> (case b of (addr, dests) \<Rightarrow> sender_lines addr dests)) \<longleftrightarrow>
        (\<exists>al \<in> set (ListMailAliases m ''''). \<exists>acc host. mget (Accounts m) (al_AccountID al) = Some acc \<and> live_account acc \<and> alias_host m al = Some host \<and>
           x \<in> sender_lines (al_Address al @ ''@'' @ host) (alias_dests host (al_Destination al)))"
      unfolding set_map_filter alias_agree_iff [OF assms(1,3)] by auto blast
    also have "\<dots> \<longleftrightarrow> (\<exists>al \<in> set ?as. x \<in> ?g al)" unfolding all_aliases [OF assms(1,2)] by (auto split: option.splits) blast
    finally show ?thesis by (rule sym)
  qed
  then have "\<Union> (?g ` set ?as) = \<Union> ((\<lambda>(addr, dests). sender_lines addr dests) ` set ?bs)" by (intro set_eqI) (simp only: UN_iff)
  then have "sort (foldl ?walk ?own ?as) = sort (foldl ?snap ?own ?bs)"
    using walk snap by (intro sorted_distinct_set_unique) simp_all
  moreover have "snap_SenderLogin (SnapshotHost m) = ''# panel sender-login map '' @ em_dash @ '' generated, do not edit'' @ [nl] @ concat (sort (foldl ?snap ?own ?bs))"
    by (simp add: SnapshotHost_def Let_def)
  ultimately show ?thesis unfolding SenderLogin_def Let_def by simp
qed

theorem sender_login_agrees_witness: "SenderLogin mail_shop (snap_Recipients (SnapshotHost mail_shop)) = snap_SenderLogin (SnapshotHost mail_shop)"
  by (rule sender_login_agrees [OF mail_shop_tables mail_shop_ids(1,2)])

text \<open>
  The limits file that the worker writes is read back by the policy service as it was meant: one
  row for each mailbox of an account, with the address in lower case, the account and its limit.
\<close>

theorem send_limits_roundtrip:
  assumes "\<forall>r \<in> set recs. plain_limit r"
  shows "ParseSendLimits (SendLimits recs) = map limit_of (filter (\<lambda>r. rcp_Account r \<noteq> '''') recs)"
  by (rule ParseSendLimits_rows [OF assms])

theorem send_limits_roundtrip_witness: "ParseSendLimits (SendLimits [info_row]) = [limit_of info_row]"
proof -
  have "plain_limit info_row" by (simp add: plain_limit_def info_row_def recipient_of_def field_def is_space_def)
  then show ?thesis using send_limits_roundtrip [of "[info_row]"] by (simp add: info_row_def recipient_of_def)
qed



end
