(* ===== verification/Worker_Handlers.thy ===== *)
theory Worker_Handlers
  imports Worker Store_Accounts Mail_Maps
begin

text \<open>
  The job handlers of \<^verbatim>\<open>internal/job/worker.go\<close>: what a worker does for a job that it has claimed.
  A handler reads and writes the store and sends requests to the agent. Here it is a program over a
  record \<open>run\<close> with the store, the requests sent so far and the job; an error ends a program, unless
  the code ignores it.

  The record \<open>world\<close> has what comes from outside. \<open>wd_reply\<close> is the agent's answer to a request, given
  the requests before it. \<open>wd_meanwhile\<close> is what other processes do to the store while a request is
  under way: handlers run for minutes, and the API server writes to the same tables. Everything a
  handler does between two requests is taken as one step. The issuing of a certificate and files
  written through the agent are requests as well. The agent is assumed to be present.
\<close>

section \<open>Programs\<close>

type_synonym agent_call = "string \<times> (string, any) gomap"

record world =
  wd_reply :: "agent_call list \<Rightarrow> agent_call \<Rightarrow> string + any"
  wd_meanwhile :: "agent_call list \<Rightarrow> memory \<Rightarrow> memory"
  wd_id :: "nat \<Rightarrow> string"
  wd_now :: gotime
  wd_ip :: string
  wd_private :: "string \<Rightarrow> bool"
  wd_directory :: string
  wd_root :: string
  wd_expiry :: "any \<Rightarrow> gotime"
  wd_txt :: "any \<Rightarrow> string"
  wd_usage :: "any \<Rightarrow> usage option"
  wd_walk :: "string \<Rightarrow> int option list"
  wd_hash :: "string \<Rightarrow> string + string"
  wd_box :: bool
  wd_encrypt :: "string \<Rightarrow> string"
  wd_decrypt :: "string \<Rightarrow> string option"
  wd_day :: "gotime \<Rightarrow> string"
  wd_portal :: string
  wd_leaf :: "string \<Rightarrow> gotime option"

record run =
  rn_store :: memory
  rn_calls :: "agent_call list"
  rn_ids :: nat
  rn_job :: job

type_synonym 'a prog = "run \<Rightarrow> (string + 'a) \<times> run"

definition ret :: "'a \<Rightarrow> 'a prog" where "ret x = (\<lambda>s. (Inr x, s))"
definition fault :: "string \<Rightarrow> 'a prog" where "fault e = (\<lambda>s. (Inl e, s))"

definition andthen :: "'a prog \<Rightarrow> ('a \<Rightarrow> 'b prog) \<Rightarrow> 'b prog" where
  "andthen p f = (\<lambda>s. case p s of (Inl e, s1) \<Rightarrow> (Inl e, s1) | (Inr x, s1) \<Rightarrow> f x s1)"

text \<open>The value of a program that may fail, and a program whose error is ignored.\<close>

definition attempt :: "'a prog \<Rightarrow> (string + 'a) prog" where "attempt p = (\<lambda>s. case p s of (r, s1) \<Rightarrow> (Inr r, s1))"
definition ignoring :: "'a prog \<Rightarrow> unit prog" where "ignoring p = (\<lambda>s. case p s of (r, s1) \<Rightarrow> (Inr (), s1))"

definition reading :: "(memory \<Rightarrow> 'a) \<Rightarrow> 'a prog" where "reading g = (\<lambda>s. (Inr (g (rn_store s)), s))"
definition writing :: "(memory \<Rightarrow> memory) \<Rightarrow> unit prog" where "writing g = (\<lambda>s. (Inr (), s\<lparr>rn_store := g (rn_store s)\<rparr>))"

fun each :: "('a \<Rightarrow> unit prog) \<Rightarrow> 'a list \<Rightarrow> unit prog" where
  "each f [] = ret ()"
| "each f (x # xs) = andthen (f x) (\<lambda>_. each f xs)"

definition new_id :: "world \<Rightarrow> string prog" where
  "new_id wd = (\<lambda>s. (Inr (wd_id wd (rn_ids s)), s\<lparr>rn_ids := Suc (rn_ids s)\<rparr>))"

definition dispatch :: "world \<Rightarrow> string \<Rightarrow> (string, any) gomap \<Rightarrow> any prog" where
  "dispatch wd meth params = (\<lambda>s.
     (wd_reply wd (rn_calls s) (meth, params),
      s\<lparr>rn_calls := rn_calls s @ [(meth, params)], rn_store := wd_meanwhile wd (rn_calls s @ [(meth, params)]) (rn_store s)\<rparr>))"

definition order :: "world \<Rightarrow> string \<Rightarrow> (string, any) gomap \<Rightarrow> unit prog" where
  "order wd meth params = andthen (dispatch wd meth params) (\<lambda>_. ret ())"

definition enqueue :: "world \<Rightarrow> job \<Rightarrow> unit prog" where
  "enqueue wd j = andthen (new_id wd) (\<lambda>i. writing (\<lambda>m. snd (EnqueueJob i (wd_now wd) j m)))"

text \<open>\<^verbatim>\<open>w.Store.UpdateJob(j)\<close> after a change of the fields of the job.\<close>

definition update_job :: "(job \<Rightarrow> job) \<Rightarrow> unit prog" where
  "update_job f = (\<lambda>s. let j = f (rn_job s)
     in case UpdateJob j (rn_store s) of
          (Some _, m) \<Rightarrow> (Inl ''job update refused'', s\<lparr>rn_job := j, rn_store := m\<rparr>)
        | (None, m) \<Rightarrow> (Inr (), s\<lparr>rn_job := j, rn_store := m\<rparr>))"

abbreviation pay :: "job \<Rightarrow> string \<Rightarrow> string" where "pay j k \<equiv> any_str (mget (job_Payload j) k)"

section \<open>Helpers\<close>

definition month30 :: int where "month30 = 30 * 24 * 3600 * 1000000000"

definition websiteEnabled :: "account \<Rightarrow> bool" where
  "websiteEnabled acc \<longleftrightarrow> acc_Status acc \<notin> {''suspended'', ''terminating'', ''terminated''}"

definition primaryDomain :: "memory \<Rightarrow> account \<Rightarrow> domain option" where
  "primaryDomain m acc = find (\<lambda>d. dom_Type d = ''primary'' \<or> dom_ASCII d = acc_PrimaryDomain acc) (ListDomains m (acc_ID acc))"

definition add_alias :: "string \<Rightarrow> string list \<Rightarrow> string \<Rightarrow> string list" where
  "add_alias site out name0 = (let name = trim_space name0 in if name = '''' \<or> name \<in> set out \<or> name = site then out else out @ [name])"

definition aliasesFor :: "memory \<Rightarrow> account \<Rightarrow> domain \<Rightarrow> string list" where
  "aliasesFor m acc siteDomain =
     (case primaryDomain m acc of
        None \<Rightarrow> []
      | Some primary \<Rightarrow>
          if dom_ID siteDomain \<noteq> dom_ID primary \<and> dom_ASCII siteDomain \<noteq> acc_PrimaryDomain acc then []
          else
            let www = (\<lambda>n. if has_prefix n ''www.'' then [] else [''www.'' @ n]);
                names = www (dom_ASCII siteDomain) @
                  concat (map (\<lambda>d. dom_ASCII d # www (dom_ASCII d)) (filter (\<lambda>d. dom_Type d = ''alias'' \<and> dom_ASCII d \<noteq> '''') (ListDomains m (acc_ID acc))))
            in foldl (add_alias (dom_ASCII siteDomain)) [] names)"

definition concurrentWebRequests :: "memory \<Rightarrow> account \<Rightarrow> int" where
  "concurrentWebRequests m acc =
     (case GetPackage m (acc_PackageID acc) of None \<Rightarrow> 0 | Some pkg \<Rightarrow> if pkg_ConcurrentWebRequests pkg < 1 then 0 else pkg_ConcurrentWebRequests pkg)"

definition bandwidthHold :: "memory \<Rightarrow> account \<Rightarrow> bool" where
  "bandwidthHold m acc =
     (case GetPackage m (acc_PackageID acc) of
        None \<Rightarrow> False
      | Some pkg \<Rightarrow>
          if pkg_BandwidthBytesMonthly pkg \<le> 0 then False
          else (case GetUsage m (acc_ID acc) of None \<Rightarrow> False | Some u \<Rightarrow> use_BandwidthBytes u \<ge> pkg_BandwidthBytesMonthly pkg))"

fun find_site :: "string \<Rightarrow> website option \<Rightarrow> website list \<Rightarrow> website option" where
  "find_site domainID fallback [] = fallback"
| "find_site domainID fallback (w # ws) =
     (if web_DomainID w \<noteq> domainID then find_site domainID fallback ws
      else if web_Runtime w = ''node'' \<or> web_Runtime w = ''python'' then Some w
      else find_site domainID (if fallback = None then Some w else fallback) ws)"

definition findSite :: "memory \<Rightarrow> string \<Rightarrow> website option" where
  "findSite m domainID = find_site domainID None (ListWebsites m '''')"

definition hostedIdent :: "string \<Rightarrow> string \<Rightarrow> string" where
  "hostedIdent username sfx =
     (let s = map (\<lambda>c. if c = CHR ''-'' then CHR ''_'' else c) username;
          s = (if sfx \<noteq> '''' then s @ ''_'' @ sfx else s)
      in take 63 s)"

section \<open>Web sites\<close>

definition applyWebsiteDispatch :: "world \<Rightarrow> account \<Rightarrow> website \<Rightarrow> domain \<Rightarrow> unit prog" where
  "applyWebsiteDispatch wd acc site d =
     (case ValidateDocumentRoot (acc_Username acc) (web_DocumentRoot site) of
        Some e \<Rightarrow> fault e
      | None \<Rightarrow>
          andthen (reading (\<lambda>m. (bandwidthHold m acc, concurrentWebRequests m acc, aliasesFor m acc d))) (\<lambda>(hold, conc, aliases).
          order wd ''ApplyWebsite''
            [(''website_id'', VString (web_ID site)), (''account'', VString (acc_Username acc)), (''domain'', VString (dom_ASCII d)),
             (''document_root'', VString (web_DocumentRoot site)), (''runtime'', VString (web_Runtime site)),
             (''php_version'', VString (web_RuntimeVersion site)), (''https_redirect'', VBool (web_HTTPSRedirect site)),
             (''enabled'', VBool (websiteEnabled acc)), (''bandwidth_hold'', VBool hold),
             (''concurrent_web_requests'', VInt conc), (''aliases'', VList (map VString aliases))]))"

definition reapplyAccountWebsites :: "world \<Rightarrow> account \<Rightarrow> unit prog" where
  "reapplyAccountWebsites wd acc =
     andthen (reading (\<lambda>m. ListWebsites m (acc_ID acc))) (\<lambda>sites.
     each (\<lambda>site. andthen (reading (\<lambda>m. GetDomain m (web_DomainID site))) (\<lambda>od.
       case od of None \<Rightarrow> ret () | Some d \<Rightarrow> ignoring (applyWebsiteDispatch wd acc site d))) sites)"

definition applySuspendedHost :: "world \<Rightarrow> account \<Rightarrow> unit prog" where
  "applySuspendedHost wd acc =
     andthen (ignoring (order wd ''LockLinuxUser'' [(''username'', VString (acc_Username acc))])) (\<lambda>_.
     andthen (ignoring (order wd ''FreezeAccount'' [(''username'', VString (acc_Username acc)), (''freeze'', VBool True)])) (\<lambda>_.
     reapplyAccountWebsites wd acc))"

definition applySiteRuntime :: "world \<Rightarrow> website \<Rightarrow> account \<Rightarrow> unit prog" where
  "applySiteRuntime wd site acc =
     (if web_Runtime site = ''php'' then
        let ver = (if web_RuntimeVersion site = '''' \<or> web_RuntimeVersion site = ''8.5'' then ''8.3'' else web_RuntimeVersion site)
        in andthen (reading (\<lambda>m. concurrentWebRequests m acc)) (\<lambda>children.
           order wd ''ApplyPhpPool''
             [(''account'', VString (acc_Username acc)), (''version'', VString ver), (''max_children'', VInt (if children < 1 then 8 else children))])
      else if web_Runtime site = ''node'' \<or> web_Runtime site = ''python'' then
        order wd ''ApplyAppUnit''
          [(''website_id'', VString (web_ID site)), (''account'', VString (acc_Username acc)), (''runtime'', VString (web_Runtime site)),
           (''working_directory'', VString (''/home/'' @ acc_Username acc @ ''/apps/'' @ web_ID site))]
      else ret ())"

definition collapseDomainWebsites :: "world \<Rightarrow> account \<Rightarrow> domain \<Rightarrow> website \<Rightarrow> unit prog" where
  "collapseDomainWebsites wd acc d keep =
     andthen (reading (\<lambda>m. ListWebsites m (acc_ID acc))) (\<lambda>sites.
     each (\<lambda>s. if web_DomainID s \<noteq> dom_ID d \<or> web_ID s = web_ID keep then ret ()
               else andthen (ignoring (order wd ''RetireWebsite'' [(''website_id'', VString (web_ID s)), (''account'', VString (acc_Username acc))])) (\<lambda>_.
                    writing (DeleteWebsite (web_ID s)))) sites)"

definition apply_site :: "world \<Rightarrow> website \<Rightarrow> unit prog" where
  "apply_site wd site =
     andthen (reading (\<lambda>m. (GetDomain m (web_DomainID site), GetAccount m (web_AccountID site)))) (\<lambda>r. case r of
         (Some d, Some acc) \<Rightarrow>
           andthen (applyWebsiteDispatch wd acc site d) (\<lambda>_.
           let site = site\<lparr>web_ObservedRevision := web_DesiredRevision site\<rparr>
           in andthen (writing (PutWebsite site)) (\<lambda>_.
              andthen (collapseDomainWebsites wd acc d site) (\<lambda>_.
              applySiteRuntime wd site acc)))
       | _ \<Rightarrow> fault ''website missing domain or account'')"

definition provisionWebsite :: "world \<Rightarrow> job \<Rightarrow> unit prog" where
  "provisionWebsite wd j =
     andthen (reading (\<lambda>m. GetWebsite m (pay j ''website_id''))) (\<lambda>os. case os of None \<Rightarrow> fault ''website missing'' | Some site \<Rightarrow> apply_site wd site)"

definition retire_site :: "world \<Rightarrow> website \<Rightarrow> unit prog" where
  "retire_site wd site =
     andthen (reading (\<lambda>m. (GetAccount m (web_AccountID site), GetDomain m (web_DomainID site)))) (\<lambda>(oa, od). case oa of None \<Rightarrow> fault ''account missing'' | Some acc \<Rightarrow>
       if (case od of None \<Rightarrow> False | Some d \<Rightarrow> dom_Type d = ''primary'') then fault ''primary domain website cannot be deleted''
       else andthen (order wd ''RetireWebsite'' [(''website_id'', VString (web_ID site)), (''account'', VString (acc_Username acc))]) (\<lambda>_.
            writing (DeleteWebsite (web_ID site))))"

definition deleteWebsite_job :: "world \<Rightarrow> job \<Rightarrow> unit prog" where
  "deleteWebsite_job wd j =
     andthen (reading (\<lambda>m. GetWebsite m (pay j ''website_id''))) (\<lambda>os. case os of None \<Rightarrow> ret () | Some site \<Rightarrow> retire_site wd site)"

section \<open>Applications and databases\<close>

definition app_target :: "memory \<Rightarrow> application \<Rightarrow> string \<times> string" where
  "app_target m app =
     (if app_WebsiteID app = '''' then app_ID app else app_WebsiteID app,
      case GetAccount m (app_AccountID app) of None \<Rightarrow> '''' | Some acc \<Rightarrow> acc_Username acc)"

definition retireApplication :: "world \<Rightarrow> job \<Rightarrow> unit prog" where
  "retireApplication wd j =
     andthen (reading (\<lambda>m. GetApp m (pay j ''application_id''))) (\<lambda>oa. case oa of None \<Rightarrow> ret () | Some app \<Rightarrow>
     andthen (reading (\<lambda>m. app_target m app)) (\<lambda>(wid, account).
     andthen (order wd ''RetireApplication'' [(''website_id'', VString wid), (''account'', VString account)]) (\<lambda>_.
     writing (DeleteApp (app_ID app)))))"

definition deployApp :: "world \<Rightarrow> job \<Rightarrow> unit prog" where
  "deployApp wd j =
     andthen (reading (\<lambda>m. GetApp m (pay j ''application_id''))) (\<lambda>oa. case oa of None \<Rightarrow> fault ''application missing'' | Some app \<Rightarrow>
     andthen (reading (\<lambda>m. app_target m app)) (\<lambda>(wid, account).
     andthen (order wd ''ApplyAppUnit''
       [(''website_id'', VString wid), (''account'', VString account), (''runtime'', VString (app_Runtime app)),
        (''working_directory'', VString (app_WorkingDirectory app)), (''start_command'', VString (app_StartCommand app))]) (\<lambda>_.
     writing (PutApp (app\<lparr>app_Status := ''running''\<rparr>)))))"

definition ensurePHPRuntime :: "world \<Rightarrow> job \<Rightarrow> unit prog" where
  "ensurePHPRuntime wd j = order wd ''EnsurePHPRuntime'' [(''version'', VString (pay j ''version''))]"

definition peekHostedDBPassword :: "world \<Rightarrow> memory \<Rightarrow> account \<Rightarrow> string \<Rightarrow> string option" where
  "peekHostedDBPassword wd m acc engine =
     (if \<not> wd_box wd then None
      else (case List.map_filter (\<lambda>u. if dbu_Username u \<noteq> acc_Username acc @ ''_u'' \<or> dbu_Engine u \<noteq> engine \<or> dbu_PasswordEnc u = '''' then None
                 else (case wd_decrypt wd (dbu_PasswordEnc u) of None \<Rightarrow> None | Some plain \<Rightarrow> if plain = '''' then None else Some plain))
               (ListDBUsers m (acc_ID acc)) of
              [] \<Rightarrow> None | plain # _ \<Rightarrow> Some plain))"

definition known_password :: "world \<Rightarrow> dbuser option \<Rightarrow> string option" where
  "known_password wd existing =
     (case existing of
        None \<Rightarrow> None
      | Some u \<Rightarrow> if dbu_PasswordEnc u \<noteq> '''' \<and> wd_box wd then
          (case wd_decrypt wd (dbu_PasswordEnc u) of None \<Rightarrow> None | Some plain \<Rightarrow> if plain = '''' then None else Some plain) else None)"

text \<open>User name, password, and whether the password is new.\<close>

definition hostedDBCredentials :: "world \<Rightarrow> account \<Rightarrow> string \<Rightarrow> (string \<times> string \<times> bool) prog" where
  "hostedDBCredentials wd acc engine =
     (let username = acc_Username acc @ ''_u''
      in andthen (reading (\<lambda>m. find (\<lambda>u. dbu_Username u = username \<and> dbu_Engine u = engine) (ListDBUsers m (acc_ID acc)))) (\<lambda>existing.
         case known_password wd existing of
           Some plain \<Rightarrow> ret (username, plain, False)
         | None \<Rightarrow>
             andthen (new_id wd) (\<lambda>i.
             let password = ''db-'' @ i; enc = (if wd_box wd then wd_encrypt wd password else '''')
             in andthen (case existing of
                  Some u \<Rightarrow> writing (PutDBUser (u\<lparr>dbu_Engine := engine, dbu_PasswordEnc := enc\<rparr>))
                | None \<Rightarrow> andthen (new_id wd) (\<lambda>k. writing (PutDBUser (dbuser0\<lparr>dbu_ID := k, dbu_AccountID := acc_ID acc, dbu_Username := username,
                    dbu_Engine := engine, dbu_PasswordEnc := enc\<rparr>)))) (\<lambda>_.
                ret (username, password, True)))))"

definition create_db_params :: "string \<Rightarrow> string \<Rightarrow> string \<Rightarrow> string \<Rightarrow> bool \<Rightarrow> (string, any) gomap" where
  "create_db_params engine name user pw reset =
     [(''engine'', VString engine), (''name'', VString name), (''username'', VString user), (''password'', VString pw), (''reset_password'', VBool reset)]"

definition db_note :: "string \<Rightarrow> string \<Rightarrow> string \<Rightarrow> string \<Rightarrow> string" where
  "db_note engine name user pw = ''engine='' @ engine @ [nl] @ ''name='' @ name @ [nl] @ ''username='' @ user @ [nl] @ ''password='' @ pw @ [nl] @ ''host=127.0.0.1'' @ [nl]"

definition apply_file :: "world \<Rightarrow> string \<Rightarrow> string \<Rightarrow> unit prog" where
  "apply_file wd path body = ignoring (order wd ''ApplyFile'' [(''path'', VString path), (''body'', VString body)])"

definition syncWordPressDatabase :: "world \<Rightarrow> account \<Rightarrow> unit prog" where
  "syncWordPressDatabase wd acc =
     andthen (reading (\<lambda>m. peekHostedDBPassword wd m acc ''mariadb'')) (\<lambda>peek.
     andthen (case peek of
         Some pw \<Rightarrow> ret (acc_Username acc @ ''_u'', pw)
       | None \<Rightarrow> andthen (hostedDBCredentials wd acc ''mariadb'') (\<lambda>(u, pw, _). ret (u, pw))) (\<lambda>(dbUser, pw).
     andthen (reading (\<lambda>m. case find (\<lambda>d. db_Engine d = ''mariadb'' \<or> db_Engine d = ''mysql'') (ListDBs m (acc_ID acc)) of
         Some d \<Rightarrow> db_Name d | None \<Rightarrow> acc_Username acc @ ''_wp'')) (\<lambda>dbName.
     andthen (ignoring (order wd ''CreateHostedDatabase'' (create_db_params ''mariadb'' dbName dbUser pw True))) (\<lambda>_.
     ignoring (order wd ''SyncWordPressDatabase''
       [(''username'', VString (acc_Username acc)), (''db_user'', VString dbUser), (''db_password'', VString pw), (''db_host'', VString ''127.0.0.1'')])))))"

definition provision_db :: "world \<Rightarrow> hosteddb \<Rightarrow> account \<Rightarrow> unit prog" where
  "provision_db wd d acc =
     andthen (hostedDBCredentials wd acc (db_Engine d)) (\<lambda>(dbUser, pw, reset).
     andthen (order wd ''CreateHostedDatabase'' (create_db_params (db_Engine d) (db_Name d) dbUser pw reset)) (\<lambda>_.
     let note = db_note (db_Engine d) (db_Name d) dbUser pw; file = ''/home/'' @ acc_Username acc @ ''/.panel-database.'' @ db_Engine d
     in andthen (apply_file wd (file @ ''.'' @ db_Name d) note) (\<lambda>_.
        andthen (apply_file wd file note) (\<lambda>_.
        andthen (writing (PutDB (d\<lparr>db_Status := ''active''\<rparr>))) (\<lambda>_.
        syncWordPressDatabase wd acc)))))"

definition provisionDB :: "world \<Rightarrow> string \<Rightarrow> unit prog" where
  "provisionDB wd databaseID =
     andthen (reading (\<lambda>m. GetDB m databaseID)) (\<lambda>od. case od of None \<Rightarrow> fault ''database missing'' | Some d \<Rightarrow>
     andthen (reading (\<lambda>m. GetAccount m (db_AccountID d))) (\<lambda>oa. case oa of None \<Rightarrow> fault ''account missing'' | Some acc \<Rightarrow>
     provision_db wd d acc))"

definition drop_db :: "world \<Rightarrow> hosteddb \<Rightarrow> unit prog" where
  "drop_db wd d =
     andthen (reading (\<lambda>m. GetAccount m (db_AccountID d))) (\<lambda>oa. case oa of None \<Rightarrow> fault ''account missing'' | Some acc \<Rightarrow>
     andthen (reading (\<lambda>m. filter (\<lambda>e. db_ID e \<noteq> db_ID d \<and> db_Status e \<noteq> ''terminated'') (ListDBs m (acc_ID acc)))) (\<lambda>remaining.
     andthen (order wd ''DropHostedDatabase''
       [(''engine'', VString (db_Engine d)), (''name'', VString (db_Name d)), (''username'', VString (acc_Username acc @ ''_u'')),
        (''drop_user'', VBool (remaining = []))]) (\<lambda>_.
     andthen (ignoring (order wd ''RemoveManagedFile''
       [(''path'', VString (''/home/'' @ acc_Username acc @ ''/.panel-database.'' @ db_Engine d @ ''.'' @ db_Name d))])) (\<lambda>_.
     writing (DeleteDB (db_ID d))))))"

definition deleteDB_job :: "world \<Rightarrow> job \<Rightarrow> unit prog" where
  "deleteDB_job wd j =
     andthen (reading (\<lambda>m. GetDB m (pay j ''database_id''))) (\<lambda>od. case od of None \<Rightarrow> ret () | Some d \<Rightarrow> drop_db wd d)"

definition wordpress_site :: "memory \<Rightarrow> application \<Rightarrow> account \<Rightarrow> website option" where
  "wordpress_site m app acc =
     (case GetWebsite m (app_WebsiteID app) of
        Some site \<Rightarrow> Some site
      | None \<Rightarrow> find (\<lambda>s. web_Runtime s = ''php'' \<or> web_Runtime s = '''') (ListWebsites m (acc_ID acc)))"

definition finish_wordpress :: "world \<Rightarrow> application \<Rightarrow> account \<Rightarrow> website \<Rightarrow> string \<Rightarrow> unit prog" where
  "finish_wordpress wd app acc site0 doc =
     (let site = site0\<lparr>web_Runtime := ''php''\<rparr>
      in andthen (if web_Runtime site0 \<noteq> ''php''
                  then andthen (writing (PutWebsite site)) (\<lambda>_. ignoring (applySiteRuntime wd site acc)) else ret ()) (\<lambda>_.
         andthen (reading (\<lambda>m. GetDomain m (web_DomainID site))) (\<lambda>od.
         andthen (case od of None \<Rightarrow> ret () | Some d \<Rightarrow> ignoring (applyWebsiteDispatch wd acc site d)) (\<lambda>_.
         writing (PutApp (app\<lparr>app_Status := ''running'', app_Runtime := ''wordpress'', app_WorkingDirectory := doc\<rparr>))))))"

definition install_wordpress :: "world \<Rightarrow> job \<Rightarrow> application \<Rightarrow> unit prog" where
  "install_wordpress wd j app =
     andthen (reading (\<lambda>m. GetAccount m (app_AccountID app))) (\<lambda>oacc. case oacc of None \<Rightarrow> fault ''account missing'' | Some acc \<Rightarrow>
     andthen (reading (\<lambda>m. wordpress_site m app acc)) (\<lambda>os. case os of None \<Rightarrow> fault ''website missing'' | Some site \<Rightarrow>
     let doc = (if web_DocumentRoot site = '''' then acc_HomePath acc @ ''/public_html'' else web_DocumentRoot site);
         dbName = acc_Username acc @ ''_wp''
     in andthen (hostedDBCredentials wd acc ''mariadb'') (\<lambda>(dbUser, pw, reset).
        andthen (order wd ''CreateHostedDatabase'' (create_db_params ''mariadb'' dbName dbUser pw reset)) (\<lambda>_.
        andthen (reading (\<lambda>m. \<exists>d \<in> set (ListDBs m (acc_ID acc)). db_Name d = dbName)) (\<lambda>found.
        andthen (if found then ret ()
                 else andthen (new_id wd) (\<lambda>i. writing (PutDB (hosteddb0\<lparr>db_ID := i, db_AccountID := acc_ID acc, db_Engine := ''mariadb'', db_Name := dbName, db_Status := ''active''\<rparr>)))) (\<lambda>_.
        andthen (apply_file wd (''/home/'' @ acc_Username acc @ ''/.panel-database.mariadb.'' @ dbName) (db_note ''mariadb'' dbName dbUser pw)) (\<lambda>_.
        andthen (reading (\<lambda>m. if pay j ''hostname'' \<noteq> '''' then pay j ''hostname''
            else (case GetDomain m (web_DomainID site) of None \<Rightarrow> '''' | Some d \<Rightarrow> dom_ASCII d))) (\<lambda>host.
        let title = (if pay j ''title'' = '''' then host else pay j ''title'')
        in andthen (order wd ''InstallWordPress''
             [(''username'', VString (acc_Username acc)), (''document_root'', VString doc), (''db_name'', VString dbName), (''db_user'', VString dbUser),
              (''db_password'', VString pw), (''db_host'', VString ''127.0.0.1''), (''site_url'', VString (''http://'' @ host)), (''title'', VString title),
              (''admin_user'', VString (pay j ''admin_user'')), (''admin_password'', VString (pay j ''admin_password'')), (''admin_email'', VString (pay j ''admin_email''))]) (\<lambda>_.
           finish_wordpress wd app acc site doc)))))))))"

definition installWordPress_job :: "world \<Rightarrow> job \<Rightarrow> unit prog" where
  "installWordPress_job wd j =
     andthen (reading (\<lambda>m. GetApp m (pay j ''application_id''))) (\<lambda>oa. case oa of None \<Rightarrow> fault ''application missing'' | Some app \<Rightarrow> install_wordpress wd j app)"

definition ensureDefaultDatabase :: "world \<Rightarrow> account \<Rightarrow> unit prog" where
  "ensureDefaultDatabase wd acc =
     (let name = hostedIdent (acc_Username acc) ''db''
      in andthen (reading (\<lambda>m. \<exists>d \<in> set (ListDBs m (acc_ID acc)). db_Name d = name \<and> db_Status d \<noteq> ''terminated'')) (\<lambda>found.
         if found then ret ()
         else andthen (new_id wd) (\<lambda>i.
              andthen (writing (PutDB (hosteddb0\<lparr>db_ID := i, db_AccountID := acc_ID acc, db_Engine := ''mariadb'', db_Name := name, db_Status := ''queued''\<rparr>))) (\<lambda>_.
              provisionDB wd i))))"


section \<open>DNS\<close>

text \<open>The record with the public address in place of a private one, when that changes it.\<close>

definition republished :: "world \<Rightarrow> string \<Rightarrow> dnsrecord \<Rightarrow> dnsrecord option" where
  "republished wd pubIP rec =
     (if rec_Type rec = ''A'' then
        (if rec_Content rec \<noteq> pubIP \<and> wd_private wd (rec_Content rec) then Some (rec\<lparr>rec_Content := pubIP\<rparr>) else None)
      else if rec_Type rec = ''TXT'' then
        (let next' = RewritePrivateIP4Tokens (wd_private wd) (rec_Content rec) pubIP
         in if next' \<noteq> rec_Content rec then Some (rec\<lparr>rec_Content := next'\<rparr>) else None)
      else None)"

definition next_revision :: "dnszone \<Rightarrow> dnszone" where
  "next_revision z = z\<lparr>zone_DesiredRevision := zone_DesiredRevision z + 1\<rparr>"

definition republishPublicAddresses :: "world \<Rightarrow> dnszone \<Rightarrow> string \<Rightarrow> dnszone prog" where
  "republishPublicAddresses wd z pubIP =
     (if pubIP = '''' \<or> wd_private wd pubIP then ret z
      else andthen (reading (\<lambda>m. List.map_filter (republished wd pubIP) (ListRecords m (zone_ID z)))) (\<lambda>recs.
           if recs = [] then ret z
           else andthen (each (\<lambda>rec. writing (PutRecord rec)) recs) (\<lambda>_.
                andthen (writing (PutZone (next_revision z))) (\<lambda>_. ret (next_revision z)))))"

definition put_new_record :: "world \<Rightarrow> dnszone \<Rightarrow> string \<Rightarrow> string \<Rightarrow> string \<Rightarrow> int option \<Rightarrow> unit prog" where
  "put_new_record wd z name typ content prio =
     andthen (new_id wd) (\<lambda>i. writing (PutRecord (dnsrecord0\<lparr>rec_ID := i, rec_ZoneID := zone_ID z, rec_Name := name, rec_Type := typ,
       rec_Content := content, rec_TTL := 3600, rec_Priority := prio\<rparr>)))"

definition ensureServiceRecords :: "world \<Rightarrow> dnszone \<Rightarrow> string \<Rightarrow> dnszone prog" where
  "ensureServiceRecords wd z pubIP =
     (if pubIP = '''' then ret z
      else andthen (reading (\<lambda>m. filter (\<lambda>name. \<not> (\<exists>rec \<in> set (ListRecords m (zone_ID z)). rec_Type rec = ''A'' \<and> rec_Name rec = name)) AccountServiceHostnames)) (\<lambda>lacking.
           if lacking = [] then ret z
           else andthen (each (\<lambda>name. put_new_record wd z name ''A'' pubIP None) lacking) (\<lambda>_.
                andthen (writing (PutZone (next_revision z))) (\<lambda>_. ret (next_revision z)))))"

text \<open>The result of \<open>markZonePublished\<close> and \<open>writeZone\<close> is the zone as the caller sees it afterwards.\<close>

definition markZonePublished :: "dnszone \<Rightarrow> dnszone prog" where
  "markZonePublished z =
     andthen (reading (\<lambda>m. GetZone m (zone_ID z))) (\<lambda>latest. case latest of
         None \<Rightarrow> let z1 = z\<lparr>zone_ObservedRevision := zone_DesiredRevision z\<rparr> in andthen (writing (PutZone z1)) (\<lambda>_. ret z1)
       | Some l \<Rightarrow> let desired = max (zone_DesiredRevision z) (zone_DesiredRevision l)
           in andthen (writing (PutZone (l\<lparr>zone_DesiredRevision := desired, zone_ObservedRevision := desired\<rparr>))) (\<lambda>_. ret z))"

definition up_to_date :: "memory \<Rightarrow> dnszone \<Rightarrow> dnszone" where
  "up_to_date m z = (case GetZone m (zone_ID z) of
      Some latest \<Rightarrow> if zone_DesiredRevision latest > zone_DesiredRevision z then z\<lparr>zone_DesiredRevision := zone_DesiredRevision latest\<rparr> else z
    | None \<Rightarrow> z)"

definition writeZone :: "world \<Rightarrow> dnszone \<Rightarrow> dnszone prog" where
  "writeZone wd z0 =
     andthen (reading (\<lambda>m. let z = up_to_date m z0 in (z, ZoneFile z (ListRecords m (zone_ID z)) (zone_DesiredRevision z)))) (\<lambda>(z, body).
     andthen (order wd ''ApplyDNSZone'' [(''name'', VString (zone_Name z)), (''body'', VString body)]) (\<lambda>_.
     markZonePublished z))"

definition applyDNSSECState :: "world \<Rightarrow> dnszone \<Rightarrow> unit prog" where
  "applyDNSSECState wd z =
     andthen (order wd ''SetDNSSEC'' [(''name'', VString (zone_Name z)), (''enabled'', VBool (zone_DNSSECEnabled z))]) (\<lambda>_.
     writing (PutZone (z\<lparr>zone_ObservedRevision := zone_DesiredRevision z\<rparr>)))"

definition applyZoneDNSSEC :: "world \<Rightarrow> job \<Rightarrow> unit prog" where
  "applyZoneDNSSEC wd j =
     andthen (reading (\<lambda>m. GetZone m (pay j ''zone_id''))) (\<lambda>oz. case oz of None \<Rightarrow> ret () | Some z \<Rightarrow> applyDNSSECState wd z)"

definition syncDNS :: "world \<Rightarrow> job \<Rightarrow> unit prog" where
  "syncDNS wd j =
     andthen (reading (\<lambda>m. GetZone m (pay j ''zone_id''))) (\<lambda>oz. case oz of None \<Rightarrow> ret () | Some z0 \<Rightarrow>
     andthen (writeZone wd z0) (\<lambda>z.
     andthen (applyDNSSECState wd z) (\<lambda>_.
     writing (PutZone (z\<lparr>zone_ObservedRevision := zone_DesiredRevision z\<rparr>)))))"

section \<open>Mail\<close>

definition create_home :: "world \<Rightarrow> string \<Rightarrow> string \<Rightarrow> int \<Rightarrow> int \<Rightarrow> unit prog" where
  "create_home wd domain local_part uid gid =
     order wd ''CreateMailboxHome'' [(''domain'', VString domain), (''local_part'', VString local_part), (''uid'', VInt uid), (''gid'', VInt gid)]"

definition ensureCatchallHomes :: "world \<Rightarrow> unit prog" where
  "ensureCatchallHomes wd =
     andthen (reading (\<lambda>m. ListAccounts m '''' '''')) (\<lambda>accs.
     each (\<lambda>acc. if \<not> live_account acc then ret ()
       else andthen (reading (\<lambda>m. ListMailDomains m (acc_ID acc))) (\<lambda>mds.
            each (\<lambda>md. let loc = CatchallLocal (md_CatchallPolicy md)
              in if loc = '''' then ret ()
                 else andthen (reading (\<lambda>m. GetDomain m (md_DomainID md))) (\<lambda>od. case od of None \<Rightarrow> ret () | Some d \<Rightarrow>
                      create_home wd (dom_ASCII d) loc (acc_LinuxUID acc) (acc_LinuxGID acc))) mds)) accs)"

definition dkim_domains :: "recipient list \<Rightarrow> string list" where
  "dkim_domains recs = foldl add_once [] (filter (\<lambda>n. n \<noteq> '''') (map rcp_Domain recs))"

definition publishDKIMTXT :: "world \<Rightarrow> string \<Rightarrow> string \<Rightarrow> unit prog" where
  "publishDKIMTXT wd domain txt =
     andthen (reading (\<lambda>m. find (\<lambda>d. dom_ASCII d = domain) (concat (map (\<lambda>acc. ListDomains m (acc_ID acc)) (ListAccounts m '''' ''''))))) (\<lambda>od.
     case od of None \<Rightarrow> fault ''dkim zone missing'' | Some d \<Rightarrow>
     andthen (reading (\<lambda>m. ZoneByDomain m (dom_ID d))) (\<lambda>oz. case oz of None \<Rightarrow> fault ''dkim zone missing'' | Some z \<Rightarrow>
     andthen (reading (\<lambda>m. find (\<lambda>rec. rec_Type rec = ''TXT'' \<and> rec_Name rec = ''default._domainkey'') (ListRecords m (zone_ID z)))) (\<lambda>orec.
     andthen (case orec of
         Some rec \<Rightarrow> writing (PutRecord (rec\<lparr>rec_Content := txt\<rparr>))
       | None \<Rightarrow> put_new_record wd z ''default._domainkey'' ''TXT'' txt None) (\<lambda>_.
     andthen (writing (PutZone (next_revision z))) (\<lambda>_.
     andthen (writeZone wd (next_revision z)) (\<lambda>_. ret ()))))))"

definition ensureDKIM :: "world \<Rightarrow> recipient list \<Rightarrow> unit prog" where
  "ensureDKIM wd recs =
     andthen (each (\<lambda>domain. andthen (dispatch wd ''EnsureDKIM'' [(''domain'', VString domain)]) (\<lambda>raw.
       if wd_txt wd raw = '''' then ret () else publishDKIMTXT wd domain (wd_txt wd raw))) (dkim_domains recs)) (\<lambda>_.
     order wd ''ApplyDKIMSigning'' [(''domains'', VList (map VString (dkim_domains recs)))])"

definition mail_maps :: "snapshot \<Rightarrow> (string, any) gomap" where
  "mail_maps snap =
     [(''virtual'', VString (snap_Virtual snap)), (''domains'', VString (snap_VDomains snap)), (''passwd'', VString (PasswdFile (snap_Recipients snap))),
      (''uids'', VString (UIDMap (snap_Recipients snap))), (''gids'', VString (GIDMap (snap_Recipients snap))),
      (''send_limits'', VString (SendLimits (snap_Recipients snap))), (''aliases'', VString (snap_AliasMap snap)), (''sender_login'', VString (snap_SenderLogin snap))]"

definition account_homes :: "world \<Rightarrow> string \<Rightarrow> account option \<Rightarrow> snapshot \<Rightarrow> unit prog" where
  "account_homes wd accountID oacc snap =
     (if (case oacc of None \<Rightarrow> True | Some acc \<Rightarrow> live_account acc)
      then each (\<lambda>r. case oacc of
          Some acc \<Rightarrow> if accountID \<noteq> '''' \<and> rcp_Account r \<noteq> acc_Username acc then ret () else create_home wd (rcp_Domain r) (rcp_LocalPart r) (acc_LinuxUID acc) (acc_LinuxGID acc)
        | None \<Rightarrow> create_home wd (rcp_Domain r) (rcp_LocalPart r) 20000 20000) (snap_Recipients snap)
      else ret ())"

definition applyMailStack :: "world \<Rightarrow> string \<Rightarrow> unit prog" where
  "applyMailStack wd accountID =
     andthen (reading (\<lambda>m. (GetAccount m accountID, SnapshotHost m))) (\<lambda>(oacc, snap).
     andthen (account_homes wd accountID oacc snap) (\<lambda>_.
     andthen (ensureCatchallHomes wd) (\<lambda>_.
     andthen (order wd ''ApplyMailMaps'' (mail_maps snap)) (\<lambda>_.
     ensureDKIM wd (snap_Recipients snap)))))"

definition provisionMailbox :: "world \<Rightarrow> job \<Rightarrow> unit prog" where
  "provisionMailbox wd j =
     andthen (reading (\<lambda>m. GetMailbox m (pay j ''mailbox_id''))) (\<lambda>omb. case omb of None \<Rightarrow> fault ''mailbox missing'' | Some mb \<Rightarrow>
     andthen (applyMailStack wd (mb_AccountID mb)) (\<lambda>_.
     writing (PutMailbox (mb\<lparr>mb_Status := ''active''\<rparr>))))"


section \<open>Certificates\<close>

definition liveACME :: "world \<Rightarrow> bool" where
  "liveACME wd \<longleftrightarrow> wd_directory wd \<noteq> '''' \<and> wd_root wd = ''''"

definition labACMEOptional :: "world \<Rightarrow> bool" where
  "labACMEOptional wd = (let name = IssuerName (wd_directory wd) in name = ''pebble'' \<or> name = ''panel-dev'')"

definition certificateNames :: "memory \<Rightarrow> account \<Rightarrow> string \<Rightarrow> string list" where
  "certificateNames m acc hostname =
     (if hostname = '''' then HostnamesForSite hostname [] False
      else (case primaryDomain m acc of
              Some primary \<Rightarrow> if dom_ASCII primary = hostname then HostnamesForSite hostname (aliasesFor m acc primary) True else HostnamesForSite hostname [] False
            | None \<Rightarrow> HostnamesForSite hostname [] False))"

definition cert_for :: "memory \<Rightarrow> account \<Rightarrow> string \<Rightarrow> certificate option" where
  "cert_for m acc hostname = find (\<lambda>c. cert_Hostname c = hostname) (ListCerts m (acc_ID acc))"

definition still_good :: "world \<Rightarrow> certificate \<Rightarrow> bool" where
  "still_good wd c \<longleftrightarrow> cert_Status c = ''active'' \<and> (case cert_NotAfter c of None \<Rightarrow> False | Some t \<Rightarrow> t - wd_now wd > month30)"

definition request_cert :: "world \<Rightarrow> account \<Rightarrow> string \<Rightarrow> certificate prog" where
  "request_cert wd acc hostname =
     andthen (new_id wd) (\<lambda>i. let c = certificate0\<lparr>cert_ID := i, cert_AccountID := acc_ID acc, cert_Hostname := hostname, cert_Kind := ''domain'', cert_Status := ''requested''\<rparr>
     in andthen (writing (PutCert c)) (\<lambda>_. ret c))"

definition inflightCert :: "memory \<Rightarrow> string \<Rightarrow> bool" where
  "inflightCert m certID = (\<exists>state \<in> set [''queued'', ''running'', ''retrying'']. \<exists>j \<in> set (ListJobs m state 200).
     job_Type j = ''certificate.provision'' \<and> (job_ResourceID j = certID \<or> pay j ''certificate_id'' = certID))"

definition cert_key :: "string \<Rightarrow> string" where "cert_key cid = ''cert-provision:'' @ cid"

definition cert_job :: "certificate \<Rightarrow> string \<Rightarrow> job" where
  "cert_job c key = job0\<lparr>job_Type := ''certificate.provision'', job_ResourceType := ''certificate'', job_ResourceID := cert_ID c,
     job_Payload := [(''certificate_id'', VString (cert_ID c))], job_State := ''queued'', job_IdempotencyKey := key\<rparr>"

definition pending_cert :: "world \<Rightarrow> account \<Rightarrow> string \<Rightarrow> certificate option \<Rightarrow> certificate prog" where
  "pending_cert wd acc hostname oc = (case oc of
       None \<Rightarrow> request_cert wd acc hostname
     | Some c \<Rightarrow>
         if cert_Status c = ''active'' then (let c1 = c\<lparr>cert_Status := ''renewing''\<rparr> in andthen (writing (PutCert c1)) (\<lambda>_. ret c1))
         else if cert_Status c \<noteq> ''requested'' \<and> cert_Status c \<noteq> ''renewing''
         then (let c1 = c\<lparr>cert_Status := ''requested''\<rparr> in andthen (writing (PutCert c1)) (\<lambda>_. ret c1))
         else ret c)"

definition queueCertificateProvision :: "world \<Rightarrow> account option \<Rightarrow> string \<Rightarrow> unit prog" where
  "queueCertificateProvision wd oacc hostname = (case oacc of None \<Rightarrow> ret () | Some acc \<Rightarrow>
     if hostname = '''' then ret ()
     else andthen (reading (\<lambda>m. cert_for m acc hostname)) (\<lambda>oc.
          if (case oc of None \<Rightarrow> False | Some c \<Rightarrow> still_good wd c) then ret ()
          else andthen (pending_cert wd acc hostname oc) (\<lambda>c.
               andthen (reading (\<lambda>m. inflightCert m (cert_ID c))) (\<lambda>busy.
               if busy then ret () else enqueue wd (cert_job c (cert_key (cert_ID c)))))))"

definition publishAccountPublicDNS :: "world \<Rightarrow> account \<Rightarrow> unit prog" where
  "publishAccountPublicDNS wd acc =
     andthen (reading (\<lambda>m. ListDomains m (acc_ID acc))) (\<lambda>ds.
     each (\<lambda>d. andthen (reading (\<lambda>m. ZoneByDomain m (dom_ID d))) (\<lambda>oz. case oz of None \<Rightarrow> ret () | Some z \<Rightarrow>
       andthen (republishPublicAddresses wd z (wd_ip wd)) (\<lambda>z.
       andthen (ensureServiceRecords wd z (wd_ip wd)) (\<lambda>z.
       andthen (writeZone wd z) (\<lambda>_. ret ()))))) ds)"

definition apply_tools :: "world \<Rightarrow> string \<Rightarrow> unit prog" where
  "apply_tools wd domain = order wd ''ApplyAdminTools'' [(''domain'', VString domain)]"

definition bindCertificateToSites :: "world \<Rightarrow> certificate \<Rightarrow> unit prog" where
  "bindCertificateToSites wd c =
     andthen (reading (\<lambda>m. GetAccount m (cert_AccountID c))) (\<lambda>oacc. case oacc of None \<Rightarrow> ret () | Some acc \<Rightarrow>
     andthen (reading (\<lambda>m. ListWebsites m (acc_ID acc))) (\<lambda>sites.
     andthen (each (\<lambda>site. andthen (reading (\<lambda>m. GetDomain m (web_DomainID site))) (\<lambda>od. case od of None \<Rightarrow> ret () | Some d \<Rightarrow>
       if dom_ASCII d \<noteq> cert_Hostname c then ret ()
       else let s = site\<lparr>web_HTTPSRedirect := True\<rparr>
            in andthen (writing (PutWebsite s)) (\<lambda>_. applyWebsiteDispatch wd acc s d))) sites) (\<lambda>_.
     andthen (reading (\<lambda>m. primaryDomain m acc)) (\<lambda>op. case op of None \<Rightarrow> ret () | Some primary \<Rightarrow>
       if dom_ASCII primary = cert_Hostname c then apply_tools wd (dom_ASCII primary) else ret ()))))"

definition prepare_issue :: "world \<Rightarrow> certificate \<Rightarrow> unit prog" where
  "prepare_issue wd c =
     andthen (reading (\<lambda>m. GetAccount m (cert_AccountID c))) (\<lambda>oacc. case oacc of None \<Rightarrow> ret () | Some acc \<Rightarrow>
     andthen (publishAccountPublicDNS wd acc) (\<lambda>_. reapplyAccountWebsites wd acc))"

definition cert_contact :: "memory \<Rightarrow> certificate \<Rightarrow> string" where
  "cert_contact m c = (case GetAccount m (cert_AccountID c) of
      None \<Rightarrow> ''admin@localhost''
    | Some acc \<Rightarrow> (case UserByID m (acc_OwnerUserID acc) of None \<Rightarrow> ''admin@localhost'' | Some owner \<Rightarrow> if usr_Email owner \<noteq> '''' then usr_Email owner else ''admin@localhost''))"

definition cert_names :: "memory \<Rightarrow> certificate \<Rightarrow> string list" where
  "cert_names m c = (case GetAccount m (cert_AccountID c) of None \<Rightarrow> [cert_Hostname c] | Some acc \<Rightarrow> certificateNames m acc (cert_Hostname c))"

definition issueNames :: "world \<Rightarrow> string list \<Rightarrow> string \<Rightarrow> any prog" where
  "issueNames wd names contact = dispatch wd ''acme.IssueNames''
     [(''names'', VList (map VString names)), (''contact'', VString contact), (''directory'', VString (wd_directory wd))]"

definition issueStoredCertificate :: "world \<Rightarrow> certificate option \<Rightarrow> unit prog" where
  "issueStoredCertificate wd oc = (case oc of None \<Rightarrow> fault ''certificate missing'' | Some c \<Rightarrow>
     andthen (prepare_issue wd c) (\<lambda>_.
     andthen (reading (\<lambda>m. (cert_names m c, cert_contact m c))) (\<lambda>(names, contact).
     andthen (attempt (issueNames wd names contact)) (\<lambda>r. case r of
         Inl e \<Rightarrow> andthen (writing (PutCert (c\<lparr>cert_Status := ''failed''\<rparr>))) (\<lambda>_. fault e)
       | Inr x \<Rightarrow>
           let c1 = c\<lparr>cert_Status := ''active'', cert_NotAfter := Some (wd_expiry wd x),
             cert_Issuer := (if wd_root wd \<noteq> '''' then ''panel-dev'' else IssuerName (wd_directory wd))\<rparr>
           in andthen (writing (PutCert c1)) (\<lambda>_. bindCertificateToSites wd c1)))))"

definition ensureCertificate :: "world \<Rightarrow> account \<Rightarrow> string \<Rightarrow> unit prog" where
  "ensureCertificate wd acc hostname =
     (if hostname = '''' then ret ()
      else if liveACME wd then queueCertificateProvision wd (Some acc) hostname
      else andthen (reading (\<lambda>m. cert_for m acc hostname)) (\<lambda>oc. case oc of
          Some c \<Rightarrow> if still_good wd c then ret () else issueStoredCertificate wd (Some c)
        | None \<Rightarrow> andthen (request_cert wd acc hostname) (\<lambda>c. issueStoredCertificate wd (Some c))))"

definition provisionCert :: "world \<Rightarrow> job \<Rightarrow> unit prog" where
  "provisionCert wd j = andthen (reading (\<lambda>m. GetCert m (pay j ''certificate_id''))) (issueStoredCertificate wd)"

definition provisionPortalHostnameCert :: "world \<Rightarrow> job \<Rightarrow> unit prog" where
  "provisionPortalHostnameCert wd j =
     (let host = (if pay j ''hostname'' = '''' then job_ResourceID j else pay j ''hostname'')
      in if host = '''' \<or> host = ''localhost'' then fault ''portal hostname required''
         else if wd_directory wd = '''' then fault ''ACME directory missing''
         else andthen (issueNames wd (HostnamesForPortal host) (''admin@'' @ (if wd_portal wd \<noteq> '''' then wd_portal wd else host))) (\<lambda>_. ret ()))"

definition scanPendingCertificates :: "world \<Rightarrow> unit prog" where
  "scanPendingCertificates wd =
     (if \<not> liveACME wd then ret ()
      else andthen (reading (\<lambda>m. ListCerts m '''')) (\<lambda>cs.
           each (\<lambda>c. if cert_Status c \<notin> {''requested'', ''failed'', ''renewing''} then ret ()
             else andthen (reading (\<lambda>m. inflightCert m (cert_ID c))) (\<lambda>busy. if busy then ret ()
                  else andthen (reading (\<lambda>m. GetAccount m (cert_AccountID c))) (\<lambda>oacc. ignoring (queueCertificateProvision wd oacc (cert_Hostname c))))) cs))"

definition scanPortalHostnameCert :: "world \<Rightarrow> unit prog" where
  "scanPortalHostnameCert wd =
     (let host = wd_portal wd
      in if host = '''' \<or> host = ''localhost'' \<or> wd_directory wd = '''' then ret ()
         else if (case wd_leaf wd host of None \<Rightarrow> False | Some t \<Rightarrow> t - wd_now wd > month30) then ret ()
         else enqueue wd (job0\<lparr>job_Type := ''certificate.portal'', job_ResourceType := ''host'', job_ResourceID := host,
                job_Payload := [(''hostname'', VString host)], job_State := ''queued'',
                job_IdempotencyKey := ''portal-cert:'' @ host @ '':'' @ (case wd_leaf wd host of None \<Rightarrow> ''missing'' | Some t \<Rightarrow> wd_day wd t)\<rparr>))"

definition scanCertRenewals :: "world \<Rightarrow> unit prog" where
  "scanCertRenewals wd =
     (let cutoff = wd_now wd + month30
      in andthen (reading (\<lambda>m. ListDueCertificates m cutoff CertRenewalBatch)) (\<lambda>cs.
         andthen (each (\<lambda>c. case cert_NotAfter c of None \<Rightarrow> ret () | Some t \<Rightarrow>
           if cert_Status c \<noteq> ''active'' \<or> \<not> t < cutoff then ret ()
           else andthen (writing (PutCert (c\<lparr>cert_Status := ''renewing''\<rparr>))) (\<lambda>_.
                enqueue wd (cert_job c (''cert-renew:'' @ cert_ID c @ '':'' @ wd_day wd t)))) cs) (\<lambda>_.
         andthen (scanPendingCertificates wd) (\<lambda>_. scanPortalHostnameCert wd))))"


section \<open>FTP users and cron tables\<close>

definition ftp_user :: "memory \<Rightarrow> ftpaccount \<Rightarrow> any option" where
  "ftp_user m f = (case GetAccount m (ftp_AccountID f) of
      None \<Rightarrow> None
    | Some acc \<Rightarrow>
        if acc_Status acc \<in> {''terminating'', ''terminated'', ''suspended''} then None
        else if ftp_Status f \<noteq> ''active'' \<or> ftp_PasswordHash f = '''' \<or> ftp_PasswordHash f = ''!'' then None
        else Some (VMap [(''username'', VString (ftp_Username f)), (''password_hash'', VString (ftp_PasswordHash f)), (''guest_user'', VString (acc_Username acc)),
          (''local_root'', VString (if ftp_HomePath f = '''' then filepath_Join (acc_HomePath acc) ''public_html'' else ftp_HomePath f))]))"

definition syncFTPUsers :: "world \<Rightarrow> unit prog" where
  "syncFTPUsers wd =
     andthen (reading (\<lambda>m. List.map_filter (ftp_user m) (ListAllFTP m))) (\<lambda>users. order wd ''ApplyFTPUsers'' [(''users'', VList users)])"

definition applyCron_job :: "world \<Rightarrow> job \<Rightarrow> unit prog" where
  "applyCron_job wd j =
     andthen (reading (\<lambda>m. applyCron m (pay j ''account_id''))) (\<lambda>r. case r of
         Inl e \<Rightarrow> fault e
       | Inr (user, body) \<Rightarrow> order wd ''ApplyAccountCron'' [(''username'', VString user), (''body'', VString body)])"

section \<open>Migrated data\<close>

definition payloadObjects :: "any option \<Rightarrow> (string, any) gomap list" where
  "payloadObjects v = (case v of Some (VList items) \<Rightarrow> List.map_filter (\<lambda>i. case i of VMap m \<Rightarrow> Some m | _ \<Rightarrow> None) items | _ \<Rightarrow> [])"

definition ensureHostedDBOnHost :: "world \<Rightarrow> account \<Rightarrow> string \<Rightarrow> string \<Rightarrow> unit prog" where
  "ensureHostedDBOnHost wd acc engine name =
     andthen (reading (\<lambda>m. find (\<lambda>d. db_Name d = name) (ListDBs m (acc_ID acc)))) (\<lambda>od.
     andthen (case od of Some row \<Rightarrow> ret row
       | None \<Rightarrow> andthen (new_id wd) (\<lambda>i. let row = hosteddb0\<lparr>db_ID := i, db_AccountID := acc_ID acc, db_Engine := engine, db_Name := name, db_Status := ''provisioning''\<rparr>
           in andthen (writing (PutDB row)) (\<lambda>_. ret row))) (\<lambda>row.
     andthen (hostedDBCredentials wd acc engine) (\<lambda>(dbUser, pw, reset).
     andthen (order wd ''CreateHostedDatabase'' (create_db_params engine name dbUser pw reset)) (\<lambda>_.
     andthen (apply_file wd (''/home/'' @ acc_Username acc @ ''/.panel-database.'' @ engine @ ''.'' @ name) (db_note engine name dbUser pw)) (\<lambda>_.
     writing (PutDB (row\<lparr>db_Status := ''active''\<rparr>)))))))"

definition first_of :: "string \<Rightarrow> string \<Rightarrow> string" where
  "first_of a b = (if a = '''' then b else a)"

definition dashes :: "string \<Rightarrow> string" where
  "dashes s = map (\<lambda>c. if c = CHR ''/'' then CHR ''-'' else c) s"

definition restore_db :: "world \<Rightarrow> string \<Rightarrow> string \<Rightarrow> string \<Rightarrow> (string, any) gomap \<Rightarrow> unit prog" where
  "restore_db wd engine name source opts =
     order wd ''RestoreHostedDatabase'' ([(''engine'', VString engine), (''name'', VString name), (''source'', VString source)] @ opts)"

definition copy_db :: "world \<Rightarrow> account \<Rightarrow> string \<Rightarrow> string \<Rightarrow> string \<Rightarrow> unit prog" where
  "copy_db wd acc engine srcName destName =
     (let dumpPath = ''/var/lib/panel/backups/staging/migrate-'' @ dashes (acc_ID acc @ ''-'' @ engine @ ''-'' @ srcName) @ ''.sql''
      in andthen (attempt (order wd ''DumpHostedDatabase'' [(''engine'', VString engine), (''name'', VString srcName), (''dest'', VString dumpPath)])) (\<lambda>r. case r of
           Inl e \<Rightarrow> if srcName = destName then ret () else fault e
         | Inr _ \<Rightarrow> restore_db wd engine destName dumpPath []))"

definition migrate_db :: "world \<Rightarrow> account \<Rightarrow> job \<Rightarrow> (string, any) gomap \<Rightarrow> unit prog" where
  "migrate_db wd acc j item =
     (let engine = any_str (mget item ''engine''); destName = any_str (mget item ''dest'');
          srcName = first_of (any_str (mget item ''source'')) destName; dump = any_str (mget item ''dump'');
          srcHome = first_of (pay j ''copy_source'') (pay j ''source'')
      in if engine = '''' \<or> destName = '''' then ret ()
         else andthen (ensureHostedDBOnHost wd acc engine destName) (\<lambda>_.
              if dump \<noteq> '''' then restore_db wd engine destName dump [(''extract'', VString srcName)]
              else if \<not> has_prefix srcHome ''/home/'' then ret ()
              else if srcName = destName \<and> srcHome = acc_HomePath acc then ret ()
              else copy_db wd acc engine srcName destName))"

definition migrateDatabases :: "world \<Rightarrow> account \<Rightarrow> job \<Rightarrow> unit prog" where
  "migrateDatabases wd acc j = each (migrate_db wd acc j) (payloadObjects (mget (job_Payload j) ''databases''))"

definition trim_slashes :: "string \<Rightarrow> string" where
  "trim_slashes s = rev (dropWhile (\<lambda>c. c = CHR ''/'') (rev (dropWhile (\<lambda>c. c = CHR ''/'') s)))"

definition migrate_mailbox :: "world \<Rightarrow> (string, any) gomap \<Rightarrow> unit prog" where
  "migrate_mailbox wd item =
     (let src = any_str (mget item ''source''); dest = any_str (mget item ''dest'');
          archive = ''/var/lib/panel/backups/staging/migrate-mail-'' @ dashes (trim_slashes src) @ ''.tar.gz''
      in if src = '''' \<or> dest = '''' \<or> src = dest then ret ()
         else andthen (attempt (order wd ''PackDirectory'' [(''source'', VString src), (''dest'', VString archive)])) (\<lambda>r. case r of
                Inl _ \<Rightarrow> ret ()
              | Inr _ \<Rightarrow> order wd ''UnpackDirectory'' [(''archive'', VString archive), (''dest'', VString dest)]))"

definition migrateMailboxes :: "world \<Rightarrow> job \<Rightarrow> unit prog" where
  "migrateMailboxes wd j = each (migrate_mailbox wd) (payloadObjects (mget (job_Payload j) ''mailboxes''))"

definition applyMigratedData :: "world \<Rightarrow> job \<Rightarrow> unit prog" where
  "applyMigratedData wd j =
     andthen (reading (\<lambda>m. jobAccount m j)) (\<lambda>oacc. case oacc of None \<Rightarrow> ret () | Some acc \<Rightarrow>
     let src = first_of (pay j ''copy_source'') (pay j ''source'');
         dest = first_of (first_of (pay j ''copy_dest'') (pay j ''dest'')) (acc_HomePath acc);
         user = first_of (pay j ''username'') (acc_Username acc)
     in andthen (if src \<noteq> '''' \<and> src \<noteq> dest
                 then order wd ''CopyHomedir'' [(''username'', VString user), (''source'', VString src), (''dest'', VString dest)] else ret ()) (\<lambda>_.
        andthen (migrateDatabases wd acc j) (\<lambda>_. migrateMailboxes wd j)))"

section \<open>Domains\<close>

definition zone_of_domain :: "world \<Rightarrow> account \<Rightarrow> domain \<Rightarrow> string \<Rightarrow> unit prog" where
  "zone_of_domain wd acc d pubIP =
     andthen (new_id wd) (\<lambda>i.
     let z = dnszone0\<lparr>zone_ID := i, zone_AccountID := acc_ID acc, zone_DomainID := dom_ID d, zone_Name := dom_ASCII d,
               zone_Provider := ''powerdns'', zone_DesiredRevision := 1, zone_ObservedRevision := 1\<rparr>
     in andthen (writing (PutZone z)) (\<lambda>_.
        andthen (put_new_record wd z ''@'' ''A'' pubIP None) (\<lambda>_.
        andthen (each (\<lambda>name. put_new_record wd z name ''A'' pubIP None) AccountServiceHostnames) (\<lambda>_.
        andthen (put_new_record wd z ''@'' ''MX'' (''mail.'' @ dom_ASCII d) (Some 10)) (\<lambda>_.
        andthen (put_new_record wd z ''@'' ''TXT'' (''v=spf1 a mx ip4:'' @ pubIP @ '' ~all'') None) (\<lambda>_.
        put_new_record wd z ''_dmarc'' ''TXT'' ''v=DMARC1; p=none'' None))))))"

definition publish_zone :: "world \<Rightarrow> domain \<Rightarrow> (dnszone \<Rightarrow> dnszone prog) \<Rightarrow> unit prog" where
  "publish_zone wd d prepare =
     andthen (reading (\<lambda>m. ZoneByDomain m (dom_ID d))) (\<lambda>oz. case oz of None \<Rightarrow> ret () | Some z \<Rightarrow>
     andthen (prepare z) (\<lambda>z. andthen (writeZone wd z) (\<lambda>_. ret ())))"

definition optional_cert :: "world \<Rightarrow> account \<Rightarrow> string \<Rightarrow> unit prog" where
  "optional_cert wd acc hostname =
     andthen (attempt (ensureCertificate wd acc hostname)) (\<lambda>r. case r of
         Inl e \<Rightarrow> if labACMEOptional wd then ret () else fault e
       | Inr _ \<Rightarrow> ret ())"

definition alias_stack :: "world \<Rightarrow> account \<Rightarrow> unit prog" where
  "alias_stack wd acc =
     andthen (reading (\<lambda>m. primaryDomain m acc)) (\<lambda>op. case op of None \<Rightarrow> ret () | Some primary \<Rightarrow>
     andthen (reading (\<lambda>m. findSite m (dom_ID primary))) (\<lambda>os.
     andthen (case os of None \<Rightarrow> ret () | Some site \<Rightarrow> applyWebsiteDispatch wd acc site primary) (\<lambda>_.
     optional_cert wd acc (dom_ASCII primary))))"

definition site_of_domain :: "world \<Rightarrow> account \<Rightarrow> domain \<Rightarrow> string \<Rightarrow> website prog" where
  "site_of_domain wd acc d runtime =
     andthen (reading (\<lambda>m. findSite m (dom_ID d))) (\<lambda>os. case os of
         Some site \<Rightarrow> ret (if runtime \<noteq> '''' then site\<lparr>web_Runtime := runtime\<rparr> else site)
       | None \<Rightarrow>
           andthen (new_id wd) (\<lambda>i.
           let rt = first_of runtime ''php'';
               site = website0\<lparr>web_ID := i, web_AccountID := acc_ID acc, web_DomainID := dom_ID d, web_Runtime := rt,
                 web_RuntimeVersion := (if rt = ''php'' then ''8.3'' else ''''), web_DocumentRoot := dom_DocumentRoot d,
                 web_Enabled := (acc_Status acc \<noteq> ''suspended''), web_DesiredRevision := 1\<rparr>
           in andthen (writing (PutWebsite site)) (\<lambda>_. ret site)))"

definition site_stack :: "world \<Rightarrow> account \<Rightarrow> domain \<Rightarrow> string \<Rightarrow> unit prog" where
  "site_stack wd acc d runtime =
     andthen (site_of_domain wd acc d runtime) (\<lambda>site.
     andthen (applyWebsiteDispatch wd acc site d) (\<lambda>_.
     andthen (applySiteRuntime wd site acc) (\<lambda>_.
     let site = site\<lparr>web_ObservedRevision := web_DesiredRevision site, web_Enabled := (acc_Status acc \<noteq> ''suspended'')\<rparr>
     in andthen (writing (PutWebsite site)) (\<lambda>_.
        andthen (collapseDomainWebsites wd acc d site) (\<lambda>_.
        optional_cert wd acc (dom_ASCII d))))))"

definition mail_domain_of :: "world \<Rightarrow> account \<Rightarrow> domain \<Rightarrow> unit prog" where
  "mail_domain_of wd acc d =
     andthen (reading (\<lambda>m. MailDomainByDomain m (dom_ID d))) (\<lambda>omd. case omd of Some _ \<Rightarrow> ret ()
     | None \<Rightarrow> andthen (new_id wd) (\<lambda>i. writing (PutMailDomain (maildomain0\<lparr>md_ID := i, md_AccountID := acc_ID acc, md_DomainID := dom_ID d,
         md_CatchallPolicy := ''reject'', md_Status := ''active''\<rparr>))))"

definition ensureDomainStack :: "world \<Rightarrow> domain \<Rightarrow> account \<Rightarrow> string \<Rightarrow> string \<Rightarrow> bool \<Rightarrow> unit prog" where
  "ensureDomainStack wd d0 acc pubIP0 runtime skipMail =
     (let pubIP = first_of pubIP0 (wd_ip wd);
          d = (if dom_Type d0 = ''alias'' then d0\<lparr>dom_DocumentRoot := acc_HomePath acc @ ''/public_html''\<rparr> else d0)\<lparr>dom_Status := ''active''\<rparr>
      in andthen (writing (PutDomain d)) (\<lambda>_.
         andthen (reading (\<lambda>m. ZoneByDomain m (dom_ID d))) (\<lambda>oz.
         andthen (case oz of None \<Rightarrow> zone_of_domain wd acc d pubIP | Some z \<Rightarrow> andthen (republishPublicAddresses wd z pubIP) (\<lambda>_. ret ())) (\<lambda>_.
         andthen (publish_zone wd d (\<lambda>z. ensureServiceRecords wd z pubIP)) (\<lambda>_.
         andthen (if dom_Type d = ''alias'' then alias_stack wd acc else site_stack wd acc d runtime) (\<lambda>_.
         andthen (mail_domain_of wd acc d) (\<lambda>_.
         andthen (if skipMail then ret () else ignoring (applyMailStack wd (acc_ID acc))) (\<lambda>_.
         andthen (publish_zone wd d ret) (\<lambda>_.
         if dom_Type d = ''primary'' \<or> dom_ASCII d = acc_PrimaryDomain acc then apply_tools wd (dom_ASCII d) else ret ())))))))))"

definition provisionDomain :: "world \<Rightarrow> job \<Rightarrow> unit prog" where
  "provisionDomain wd j =
     andthen (reading (\<lambda>m. (GetDomain m (pay j ''domain_id''), GetAccount m (pay j ''account_id'')))) (\<lambda>r. case r of
         (Some d, Some acc) \<Rightarrow> ensureDomainStack wd d acc (wd_ip wd) (pay j ''runtime'') False
       | _ \<Rightarrow> fault ''missing domain or account'')"

definition retire_domain :: "world \<Rightarrow> domain \<Rightarrow> unit prog" where
  "retire_domain wd d =
     (if dom_Type d = ''primary'' then fault ''primary domain cannot be deleted''
     else andthen (reading (\<lambda>m. GetAccount m (dom_AccountID d))) (\<lambda>oacc. case oacc of None \<Rightarrow> fault ''account missing'' | Some acc \<Rightarrow>
     andthen (reading (\<lambda>m. filter (\<lambda>s. web_DomainID s = dom_ID d) (ListWebsites m (acc_ID acc)))) (\<lambda>sites.
     andthen (order wd ''RetireDomain'' [(''account'', VString (acc_Username acc)), (''domain'', VString (dom_ASCII d)), (''website_ids'', VList (map (VString \<circ> web_ID) sites))]) (\<lambda>_.
     andthen (writing (DeleteDomain (dom_ID d))) (\<lambda>_.
     andthen (if dom_Type d = ''alias''
              then andthen (reading (\<lambda>m. primaryDomain m acc)) (\<lambda>op. case op of None \<Rightarrow> ret () | Some primary \<Rightarrow>
                   andthen (reading (\<lambda>m. findSite m (dom_ID primary))) (\<lambda>os. case os of None \<Rightarrow> ret () | Some site \<Rightarrow>
                   ignoring (applyWebsiteDispatch wd acc site primary)))
              else ret ()) (\<lambda>_.
     ignoring (applyMailStack wd (acc_ID acc))))))))"

definition deleteDomain_job :: "world \<Rightarrow> job \<Rightarrow> unit prog" where
  "deleteDomain_job wd j =
     andthen (reading (\<lambda>m. GetDomain m (pay j ''domain_id''))) (\<lambda>od. case od of None \<Rightarrow> ret () | Some d \<Rightarrow> retire_domain wd d)"


section \<open>Usage\<close>

definition persistUsageEnforcement :: "world \<Rightarrow> account \<Rightarrow> usage \<Rightarrow> unit prog" where
  "persistUsageEnforcement wd acc u =
     andthen (reading (\<lambda>m. GetPackage m (acc_PackageID acc))) (\<lambda>opkg.
     let u1 = (case opkg of None \<Rightarrow> u
           | Some pkg \<Rightarrow> u\<lparr>use_DiskLimited := (pkg_DiskBytes pkg > 0 \<and> use_DiskBytes u \<ge> pkg_DiskBytes pkg),
               use_BandwidthHold := (pkg_BandwidthBytesMonthly pkg > 0 \<and> use_BandwidthBytes u \<ge> pkg_BandwidthBytesMonthly pkg)\<rparr>)
     in writing (PutUsage (u1\<lparr>use_EnforcedAt := Some (wd_now wd)\<rparr>)))"

definition MaxWalkInodes :: nat where "MaxWalkInodes = 10000"

text \<open>What the walk over the home directory counts: all files and the sizes of the regular ones.\<close>

definition walked :: "world \<Rightarrow> account \<Rightarrow> usage \<Rightarrow> usage" where
  "walked wd acc u =
     (let home = (if wd_root wd \<noteq> '''' then filepath_Join (wd_root wd) (trim_prefix (acc_HomePath acc) ''/'') else acc_HomePath acc);
          files = take MaxWalkInodes (wd_walk wd home)
      in u\<lparr>use_InodeCount := int (length files), use_DiskBytes := sum_list (List.map_filter id files)\<rparr>)"

definition measured :: "usage \<Rightarrow> usage \<Rightarrow> usage" where
  "measured got u = u\<lparr>use_DiskBytes := use_DiskBytes got, use_InodeCount := use_InodeCount got, use_ProcessCount := use_ProcessCount got,
     use_MemoryBytes := use_MemoryBytes got, use_BandwidthBytes := use_BandwidthBytes got\<rparr>"

definition enforce_usage :: "world \<Rightarrow> account \<Rightarrow> bool \<Rightarrow> unit prog" where
  "enforce_usage wd acc wasHold =
     andthen (ignoring (order wd ''EnforceAccountDisk'' [(''username'', VString (acc_Username acc)), (''home'', VString (acc_HomePath acc))])) (\<lambda>_.
     andthen (reading (\<lambda>m. bandwidthHold m acc)) (\<lambda>hold.
     andthen (ignoring (order wd ''EnforceAccountBandwidth'' [(''username'', VString (acc_Username acc)), (''hold'', VBool hold)])) (\<lambda>_.
     if wasHold \<noteq> hold then reapplyAccountWebsites wd acc else ret ())))"

definition recordUsage :: "world \<Rightarrow> account \<Rightarrow> unit prog" where
  "recordUsage wd acc =
     andthen (reading (\<lambda>m. bandwidthHold m acc)) (\<lambda>wasHold.
     let u = usage0\<lparr>use_AccountID := acc_ID acc, use_CollectedAt := wd_now wd\<rparr>
     in andthen (attempt (dispatch wd ''MeasureAccountUsage'' [(''username'', VString (acc_Username acc)), (''home'', VString (acc_HomePath acc))])) (\<lambda>r.
        case (case r of Inl _ \<Rightarrow> None | Inr x \<Rightarrow> wd_usage wd x) of
          Some got \<Rightarrow> andthen (persistUsageEnforcement wd acc (measured got u)) (\<lambda>_. enforce_usage wd acc wasHold)
        | None \<Rightarrow> persistUsageEnforcement wd acc (walked wd acc u)))"

definition UsageBatchSize :: int where "UsageBatchSize = 25"

text \<open>The result is the cursor for the next batch.\<close>

definition collectUsageBatch :: "world \<Rightarrow> string \<Rightarrow> string prog" where
  "collectUsageBatch wd cursor =
     andthen (reading (\<lambda>m. ListAccountsPage m '''' '''' cursor UsageBatchSize)) (\<lambda>page.
     andthen (each (\<lambda>acc. if \<not> live_account acc then ret () else recordUsage wd acc) (ap_Items page)) (\<lambda>_.
     ret (if ap_HasMore page then ap_NextCursor page else '''')))"

section \<open>Accounts\<close>

definition ensureDefaultMailbox :: "world \<Rightarrow> account \<Rightarrow> string \<Rightarrow> unit prog" where
  "ensureDefaultMailbox wd acc password =
     (if password = '''' then ret ()
      else andthen (reading (\<lambda>m. case find (\<lambda>d. dom_Type d = ''primary'') (ListDomains m (acc_ID acc)) of
               None \<Rightarrow> None | Some d \<Rightarrow> MailDomainByDomain m (dom_ID d))) (\<lambda>omd. case omd of None \<Rightarrow> ret () | Some md \<Rightarrow>
      andthen (reading (\<lambda>m. filter (\<lambda>mb. mb_DomainID mb = md_ID md) (ListMailboxes m (acc_ID acc)))) (\<lambda>mbs.
      if \<exists>mb \<in> set mbs. mb_LocalPart mb = ''info'' \<and> mb_PasswordHash mb \<noteq> '''' \<and> mb_PasswordHash mb \<noteq> ''!'' then ret ()
      else (case wd_hash wd password of Inl e \<Rightarrow> fault e | Inr hash \<Rightarrow>
        (case find (\<lambda>mb. \<not> (mb_PasswordHash mb \<noteq> ''!'' \<and> mb_PasswordHash mb \<noteq> '''') \<and> (mb_LocalPart mb = ''postmaster'' \<or> mb_LocalPart mb = ''info'')) mbs of
           Some mb \<Rightarrow> writing (PutMailbox (mb\<lparr>mb_LocalPart := ''info'', mb_PasswordHash := hash, mb_Status := ''active''\<rparr>))
         | None \<Rightarrow> andthen (new_id wd) (\<lambda>i. writing (PutMailbox (mailbox0\<lparr>mb_ID := i, mb_AccountID := acc_ID acc, mb_DomainID := md_ID md,
             mb_LocalPart := ''info'', mb_QuotaBytes := 2 ^ 30, mb_PasswordHash := hash, mb_Status := ''active''\<rparr>))))))))"

definition acknowledgeAccountRevision :: "memory \<Rightarrow> account \<Rightarrow> job \<Rightarrow> account" where
  "acknowledgeAccountRevision m acc j =
     (let acc = (case GetAccount m (acc_ID acc) of Some latest \<Rightarrow> acc\<lparr>acc_DesiredRevision := acc_DesiredRevision latest\<rparr> | None \<Rightarrow> acc)
      in if job_TargetRevision j > 0 then acc\<lparr>acc_ObservedRevision := job_TargetRevision j\<rparr>
         else acc\<lparr>acc_ObservedRevision := acc_DesiredRevision acc\<rparr>)"

definition put_acknowledged :: "account \<Rightarrow> job \<Rightarrow> unit prog" where
  "put_acknowledged acc j = writing (\<lambda>m. PutAccount (acknowledgeAccountRevision m acc j) m)"

definition drop_database :: "world \<Rightarrow> account \<Rightarrow> hosteddb \<Rightarrow> unit prog" where
  "drop_database wd acc d =
     andthen (order wd ''DropHostedDatabase''
       [(''engine'', VString (db_Engine d)), (''name'', VString (db_Name d)), (''username'', VString (acc_Username acc @ ''_u'')), (''drop_user'', VBool True)]) (\<lambda>_.
     writing (PutDB (d\<lparr>db_Status := ''terminated''\<rparr>)))"

definition finish_retire :: "world \<Rightarrow> account \<Rightarrow> job \<Rightarrow> unit prog" where
  "finish_retire wd acc j =
     andthen (put_acknowledged (acc\<lparr>acc_Status := ''terminated''\<rparr>) j) (\<lambda>_.
     andthen (ignoring (applyMailStack wd (acc_ID acc))) (\<lambda>_.
     andthen (ignoring (syncFTPUsers wd)) (\<lambda>_.
     andthen (writing (PurgeAccount (acc_ID acc))) (\<lambda>_.
     ignoring (update_job (\<lambda>j. j\<lparr>job_Progress := 90\<rparr>))))))"

definition retireAccount :: "world \<Rightarrow> account \<Rightarrow> job \<Rightarrow> unit prog" where
  "retireAccount wd acc j =
     andthen (reading (\<lambda>m. ListDBs m (acc_ID acc))) (\<lambda>dbs.
     andthen (each (drop_database wd acc) dbs) (\<lambda>_.
     andthen (reading (\<lambda>m. (map web_ID (ListWebsites m (acc_ID acc)), map dom_ASCII (ListDomains m (acc_ID acc))))) (\<lambda>(ids, domains).
     andthen (order wd ''RetireAccount'' [(''username'', VString (acc_Username acc)), (''website_ids'', VList (map VString ids)), (''domains'', VList (map VString domains))]) (\<lambda>_.
     finish_retire wd acc j))))"

definition default_package :: package where
  "default_package = package0\<lparr>pkg_CPUPercent := 100, pkg_MemoryBytes := 512 * 2 ^ 20, pkg_DiskBytes := 2 ^ 30, pkg_ProcessLimit := 100\<rparr>"

definition create_user :: "world \<Rightarrow> account \<Rightarrow> unit prog" where
  "create_user wd acc =
     andthen (attempt (order wd ''CreateLinuxUser''
       [(''username'', VString (acc_Username acc)), (''uid'', VInt (acc_LinuxUID acc)), (''gid'', VInt (acc_LinuxGID acc)),
        (''home'', VString (acc_HomePath acc)), (''shell'', VString ''/usr/sbin/nologin'')])) (\<lambda>r. case r of
         Inl e \<Rightarrow> andthen (writing (PutAccount (acc\<lparr>acc_Status := ''failed''\<rparr>))) (\<lambda>_. fault e)
       | Inr _ \<Rightarrow> ret ())"

definition set_up_user :: "world \<Rightarrow> account \<Rightarrow> package \<Rightarrow> string \<Rightarrow> unit prog" where
  "set_up_user wd acc pkg ownerPass =
     andthen (create_user wd acc) (\<lambda>_.
     andthen (if ownerPass \<noteq> '''' then order wd ''SetLinuxPassword'' [(''username'', VString (acc_Username acc)), (''password'', VString ownerPass)] else ret ()) (\<lambda>_.
     andthen (ignoring (order wd ''ApplySystemdSlice''
       [(''username'', VString (acc_Username acc)), (''cpu_percent'', VInt (pkg_CPUPercent pkg)), (''memory_bytes'', VInt64 (pkg_MemoryBytes pkg)),
        (''tasks_max'', VInt (pkg_ProcessLimit pkg)), (''io_weight'', VInt (pkg_IOWeight pkg)), (''iops'', VInt (pkg_IOPS pkg))])) (\<lambda>_.
     ignoring (order wd ''SetFilesystemQuota'' [(''username'', VString (acc_Username acc)), (''bytes'', VInt64 (pkg_DiskBytes pkg))]))))"

definition refreshed :: "memory \<Rightarrow> account \<Rightarrow> account" where
  "refreshed m acc = (case GetAccount m (acc_ID acc) of None \<Rightarrow> acc
    | Some latest \<Rightarrow> acc\<lparr>acc_Status := acc_Status latest, acc_DesiredRevision := acc_DesiredRevision latest, acc_PackageID := acc_PackageID latest\<rparr>)"

text \<open>The host of a suspended account is held, that of another one is released. The result is the account with its new status.\<close>

definition hold_or_release :: "world \<Rightarrow> account \<Rightarrow> account prog" where
  "hold_or_release wd acc =
     (if acc_Status acc = ''suspended'' then andthen (applySuspendedHost wd acc) (\<lambda>_. ret acc)
      else
        andthen (ignoring (order wd ''UnlockLinuxUser'' [(''username'', VString (acc_Username acc))])) (\<lambda>_.
        andthen (ignoring (order wd ''FreezeAccount'' [(''username'', VString (acc_Username acc)), (''freeze'', VBool False)])) (\<lambda>_.
        andthen (reading (\<lambda>m. ListWebsites m (acc_ID acc))) (\<lambda>sites.
        andthen (each (\<lambda>site. ignoring (applySiteRuntime wd site acc)) sites) (\<lambda>_.
        let acc = (if acc_Status acc \<in> {''provisioning'', ''failed'', ''''} then acc\<lparr>acc_Status := ''active''\<rparr> else acc)
        in andthen (reapplyAccountWebsites wd acc) (\<lambda>_. ret acc))))))"

definition finish_account :: "world \<Rightarrow> account \<Rightarrow> job \<Rightarrow> unit prog" where
  "finish_account wd acc j =
     andthen (put_acknowledged acc j) (\<lambda>_.
     andthen (applyMigratedData wd j) (\<lambda>_.
     andthen (recordUsage wd acc) (\<lambda>_.
     andthen (ignoring (syncFTPUsers wd)) (\<lambda>_.
     andthen (ignoring (applyCron_job wd j)) (\<lambda>_.
     andthen (ignoring (applyMailStack wd (acc_ID acc))) (\<lambda>_.
     andthen (syncWordPressDatabase wd acc) (\<lambda>_.
     update_job (\<lambda>j. j\<lparr>job_Payload := mdel ''linux_password'' (job_Payload j), job_Progress := 90\<rparr>))))))))"

definition settle_account :: "world \<Rightarrow> account \<Rightarrow> job \<Rightarrow> unit prog" where
  "settle_account wd acc j =
     andthen (reading (\<lambda>m. GetAccount m (acc_ID acc))) (\<lambda>olatest. case olatest of
         None \<Rightarrow> finish_account wd acc j
       | Some latest \<Rightarrow>
           if acc_Status latest = ''suspended'' then
             let acc = acc\<lparr>acc_Status := ''suspended'', acc_DesiredRevision := acc_DesiredRevision latest, acc_PackageID := acc_PackageID latest\<rparr>
             in andthen (applySuspendedHost wd acc) (\<lambda>_. finish_account wd acc j)
           else if acc_Status latest = ''terminating'' \<or> acc_Status latest = ''terminated'' then retireAccount wd latest j
           else finish_account wd acc j)"

definition provision_domains :: "world \<Rightarrow> account \<Rightarrow> unit prog" where
  "provision_domains wd acc =
     andthen (reading (\<lambda>m. ListDomains m (acc_ID acc))) (\<lambda>ds.
     each (\<lambda>d. andthen (ensureDomainStack wd d acc (wd_ip wd) '''' True) (\<lambda>_.
       update_job (\<lambda>j. j\<lparr>job_HeartbeatAt := Some (wd_now wd), job_Progress := 20\<rparr>))) ds)"

definition provisionAccount :: "world \<Rightarrow> job \<Rightarrow> unit prog" where
  "provisionAccount wd j =
     andthen (reading (\<lambda>m. jobAccount m j)) (\<lambda>oacc. case oacc of None \<Rightarrow> fault ''account missing'' | Some acc \<Rightarrow>
     if acc_Status acc = ''terminating'' then retireAccount wd acc j
     else andthen (reading (\<lambda>m. case GetPackage m (acc_PackageID acc) of None \<Rightarrow> default_package | Some pkg \<Rightarrow> pkg)) (\<lambda>pkg.
     andthen (set_up_user wd acc pkg (pay j ''linux_password'')) (\<lambda>_.
     andthen (provision_domains wd acc) (\<lambda>_.
     andthen (ensureDefaultMailbox wd acc (pay j ''linux_password'')) (\<lambda>_.
     andthen (ensureDefaultDatabase wd acc) (\<lambda>_.
     andthen (applyMailStack wd (acc_ID acc)) (\<lambda>_.
     andthen (reading (\<lambda>m. refreshed m acc)) (\<lambda>acc.
     if acc_Status acc = ''terminating'' \<or> acc_Status acc = ''terminated'' then retireAccount wd acc j
     else andthen (hold_or_release wd acc) (\<lambda>acc. settle_account wd acc j)))))))))"

section \<open>All handlers\<close>

text \<open>The handlers of backups are an argument.\<close>

definition handle :: "(job \<Rightarrow> unit prog) \<Rightarrow> world \<Rightarrow> job \<Rightarrow> unit prog" where
  "handle backups wd j =
     (let t = job_Type j
      in if t = ''account.provision'' \<or> t = ''account.reconcile'' then provisionAccount wd j
         else if t = ''domain.provision'' then provisionDomain wd j
         else if t = ''domain.delete'' then deleteDomain_job wd j
         else if t = ''website.provision'' then provisionWebsite wd j
         else if t = ''website.delete'' then deleteWebsite_job wd j
         else if t = ''application.deploy'' then deployApp wd j
         else if t = ''wordpress.install'' then installWordPress_job wd j
         else if t = ''php.runtime.ensure'' then ensurePHPRuntime wd j
         else if t = ''database.provision'' then provisionDB wd (pay j ''database_id'')
         else if t = ''database.delete'' then deleteDB_job wd j
         else if t = ''dns.sync'' then syncDNS wd j
         else if t = ''mailbox.provision'' then provisionMailbox wd j
         else if t = ''mailbox.delete'' \<or> t = ''mail.alias'' \<or> t = ''mail.maps'' then applyMailStack wd (pay j ''account_id'')
         else if t = ''dns.dnssec'' then applyZoneDNSSEC wd j
         else if t = ''certificate.provision'' then provisionCert wd j
         else if t = ''certificate.portal'' then provisionPortalHostnameCert wd j
         else if t = ''backup.create'' \<or> t = ''backup.restore'' then backups j
         else if t = ''cron.apply'' then applyCron_job wd j
         else if t = ''ftp.apply'' then syncFTPUsers wd
         else if t = ''account.copy_homedir'' then applyMigratedData wd j
         else if t = ''application.retire'' then retireApplication wd j
         else fault ''unknown job type'')"


section \<open>Reasoning about handlers\<close>

text \<open>
  \<open>safe J P p\<close>: the program keeps \<open>J\<close>, also when it ends with an error, and its results satisfy \<open>P\<close>.
\<close>

definition safe :: "(run \<Rightarrow> bool) \<Rightarrow> ('a \<Rightarrow> bool) \<Rightarrow> 'a prog \<Rightarrow> bool" where
  "safe J P p \<longleftrightarrow> (\<forall>s. J s \<longrightarrow> J (snd (p s)) \<and> (\<forall>x. fst (p s) = Inr x \<longrightarrow> P x))"

named_theorems safe_rules

lemma safe_ret_True [safe_rules]: "safe J (\<lambda>_. True) (ret x)"
  by (simp add: safe_def ret_def)

lemma safe_ret [safe_rules]: "P x \<Longrightarrow> safe J P (ret x)"
  by (simp add: safe_def ret_def)

lemma safe_fault [safe_rules]: "safe J P (fault e)"
  by (simp add: safe_def fault_def)

lemma safe_andthen [safe_rules]:
  assumes p: "safe J Q p" and f: "\<And>x. Q x \<Longrightarrow> safe J P (f x)" shows "safe J P (andthen p f)"
  unfolding safe_def
proof (intro allI impI)
  fix s assume "J s"
  obtain r s1 where ps: "p s = (r, s1)" by fastforce
  with p \<open>J s\<close> have 1: "J s1" "r = Inr x \<Longrightarrow> Q x" for x by (auto simp: safe_def)
  show "J (snd (andthen p f s)) \<and> (\<forall>x. fst (andthen p f s) = Inr x \<longrightarrow> P x)"
  proof (cases r)
    case (Inl e) with ps 1 show ?thesis by (simp add: andthen_def)
  next
    case (Inr x) with ps 1 f [of x] show ?thesis by (simp add: andthen_def safe_def)
  qed
qed

lemma safe_attempt [safe_rules]: "safe J (\<lambda>_. True) p \<Longrightarrow> safe J (\<lambda>_. True) (attempt p)"
  by (simp add: safe_def attempt_def split: prod.split) (metis snd_conv)

lemma safe_ignoring [safe_rules]: "safe J (\<lambda>_. True) p \<Longrightarrow> safe J (\<lambda>_. True) (ignoring p)"
  by (simp add: safe_def ignoring_def split: prod.split) (metis snd_conv)

lemma safe_reading [safe_rules]: "safe J (\<lambda>x. \<exists>s. J s \<and> x = g (rn_store s)) (reading g)"
  by (auto simp: safe_def reading_def)

lemma ignoring_run: "ignoring p s = (Inr (), snd (p s))"
  by (simp add: ignoring_def split: prod.split)

lemma andthen_error: "p s = (Inl e, s') \<Longrightarrow> andthen p f s = (Inl e, s')"
  by (simp add: andthen_def)

lemma safe_each [safe_rules]: "(\<And>x. x \<in> set xs \<Longrightarrow> safe J (\<lambda>_. True) (f x)) \<Longrightarrow> safe J (\<lambda>_. True) (each f xs)"
  by (induction xs) (auto intro!: safe_rules)

lemma safe_if [safe_rules]: "(b \<Longrightarrow> safe J P p) \<Longrightarrow> (\<not> b \<Longrightarrow> safe J P q) \<Longrightarrow> safe J P (if b then p else q)"
  by simp

lemma safe_option [safe_rules]: "(x = None \<Longrightarrow> safe J P p) \<Longrightarrow> (\<And>y. x = Some y \<Longrightarrow> safe J P (f y)) \<Longrightarrow> safe J P (case x of None \<Rightarrow> p | Some y \<Rightarrow> f y)"
  by (cases x) simp_all

lemma safe_prod [safe_rules]: "(\<And>a b. x = (a, b) \<Longrightarrow> safe J P (f a b)) \<Longrightarrow> safe J P (case x of (a, b) \<Rightarrow> f a b)"
  by (cases x) simp

lemma safe_sum [safe_rules]: "(\<And>e. x = Inl e \<Longrightarrow> safe J P (f e)) \<Longrightarrow> (\<And>y. x = Inr y \<Longrightarrow> safe J P (g y)) \<Longrightarrow> safe J P (case x of Inl e \<Rightarrow> f e | Inr y \<Rightarrow> g y)"
  by (cases x) simp_all

lemma safe_let [safe_rules]: "safe J P (f x) \<Longrightarrow> safe J P (let y = x in f y)"
  by simp

text \<open>The first read of a handler sees the store that it starts with.\<close>

lemma safe_start: "safe J P (f (g (rn_store s))) \<Longrightarrow> J s \<Longrightarrow> J (snd (andthen (reading g) f s))"
  by (simp add: safe_def andthen_def reading_def)

lemma safeD: "safe J P p \<Longrightarrow> J s \<Longrightarrow> J (snd (p s))"
  by (simp add: safe_def)

section \<open>Requests of an account\<close>

text \<open>
  A request within the account of user \<open>u\<close>: it names no other user, and a web site's files are in the
  account's home. With \<open>held\<close> it also does not let a suspended account run again.
\<close>

definition releasing :: "agent_call \<Rightarrow> bool" where
  "releasing c \<longleftrightarrow> fst c = ''UnlockLinuxUser'' \<or> mget (snd c) ''freeze'' = Some (VBool False) \<or>
     (fst c = ''ApplyWebsite'' \<and> mget (snd c) ''enabled'' \<noteq> Some (VBool False))"

definition call_ok :: "string \<Rightarrow> bool \<Rightarrow> agent_call \<Rightarrow> bool" where
  "call_ok u held c \<longleftrightarrow>
     mget (snd c) ''account'' \<in> {None, Some (VString u)} \<and>
     mget (snd c) ''username'' \<in> {None, Some (VString u), Some (VString (u @ ''_u''))} \<and>
     (fst c = ''ApplyWebsite'' \<longrightarrow> (\<exists>root. mget (snd c) ''document_root'' = Some (VString root) \<and> ValidateDocumentRoot u root = None)) \<and>
     (held \<longrightarrow> \<not> releasing c)"

definition of_account :: "string \<Rightarrow> string \<Rightarrow> bool \<Rightarrow> account \<Rightarrow> bool" where
  "of_account aid u held acc \<longleftrightarrow> acc_ID acc = aid \<and> acc_Username acc = u \<and> (held \<longrightarrow> acc_Status acc = ''suspended'')"

lemma filter_of_account: "aid \<noteq> '''' \<Longrightarrow> c \<in> set (ListCerts m aid) \<Longrightarrow> cert_AccountID c = aid"
  by (auto simp: ListCerts_def)


lemma accounts_kept [simp]:
  "Accounts (PutWebsite w m) = Accounts m" "Accounts (DeleteWebsite i m) = Accounts m" "Accounts (PutApp ap m) = Accounts m"
  "Accounts (DeleteApp i m) = Accounts m" "Accounts (PutDB d m) = Accounts m" "Accounts (DeleteDB i m) = Accounts m"
  "Accounts (PutDBUser us m) = Accounts m" "Accounts (PutZone z m) = Accounts m" "Accounts (PutRecord re m) = Accounts m"
  "Accounts (PutMailbox mb m) = Accounts m" "Accounts (PutMailDomain md m) = Accounts m" "Accounts (PutCert c m) = Accounts m"
  "Accounts (PutDomain dm m) = Accounts m" "Accounts (DeleteDomain i m) = Accounts m" "Accounts (PutUsage use m) = Accounts m"
  by (simp_all add: PutWebsite_def DeleteWebsite_def PutApp_def DeleteApp_def PutDB_def DeleteDB_def PutDBUser_def PutZone_def
      PutRecord_def PutMailbox_def PutMailDomain_def PutCert_def PutDomain_def DeleteDomain_def PutUsage_def Let_def split: option.split)

lemma accounts_kept_jobs [simp]: "Accounts (snd (EnqueueJob i t j m)) = Accounts m"
  by (simp add: EnqueueJob_def Let_def split: option.split)

lemma job_account:
  assumes "pay j ''account_id'' = aid" "job_ResourceType j = ''account'' \<longrightarrow> job_ResourceID j = aid" "jobAccount m j = Some a"
  shows "GetAccount m aid = Some a"
  using assms by (auto simp: jobAccount_def split: option.splits if_splits)

text \<open>
  An invariant \<open>J\<close> of all handlers of the account \<open>aid\<close>: requests within the account keep it, as do
  writes to tables other than the accounts.
\<close>

locale account_frame =
  fixes wd :: world and aid u :: string and held :: bool and J :: "run \<Rightarrow> bool"
  assumes named: "J s \<Longrightarrow> aid \<noteq> ''''"
    and sent: "J s \<Longrightarrow> call_ok u held c \<Longrightarrow> J (s\<lparr>rn_calls := rn_calls s @ [c], rn_store := wd_meanwhile wd (rn_calls s @ [c]) (rn_store s)\<rparr>)"
    and kept: "J s \<Longrightarrow> Accounts m = Accounts (rn_store s) \<Longrightarrow> J (s\<lparr>rn_store := m\<rparr>)"
    and fresh: "J s \<Longrightarrow> J (s\<lparr>rn_ids := n\<rparr>)"
    and job_changed: "J s \<Longrightarrow> J (s\<lparr>rn_job := j\<rparr>)"
    and got: "J s \<Longrightarrow> GetAccount (rn_store s) aid = Some acc \<Longrightarrow> of_account aid u held acc"
begin

abbreviation ours :: "account \<Rightarrow> bool" where "ours \<equiv> of_account aid u held"
abbreviation keeps :: "unit prog \<Rightarrow> bool" where "keeps \<equiv> safe J (\<lambda>_. True)"

lemma safe_new_id [safe_rules]: "safe J (\<lambda>_. True) (new_id wd)"
  by (simp add: safe_def new_id_def fresh)

lemma safe_writing [safe_rules]: "(\<And>m. Accounts (g m) = Accounts m) \<Longrightarrow> keeps (writing g)"
  by (simp add: safe_def writing_def kept)

lemma safe_dispatch [safe_rules]: "call_ok u held (meth, ps) \<Longrightarrow> safe J (\<lambda>_. True) (dispatch wd meth ps)"
  by (simp add: safe_def dispatch_def sent)

lemma safe_order [safe_rules]: "call_ok u held (meth, ps) \<Longrightarrow> keeps (order wd meth ps)"
  unfolding order_def by (rule safe_rules | simp)+

lemma safe_enqueue [safe_rules]: "keeps (enqueue wd j)"
  unfolding enqueue_def by (rule safe_rules | simp)+

lemma safe_update_job [safe_rules]: "keeps (update_job f)"
proof -
  have "Accounts (snd (UpdateJob j m)) = Accounts m" for j m
    by (simp add: UpdateJob_def split: option.split)
  then have 1: "J s \<Longrightarrow> J (s\<lparr>rn_job := j, rn_store := snd (UpdateJob j (rn_store s))\<rparr>)" for s j
    using kept [OF job_changed [of s j]] by simp
  have "snd (update_job f s) = s\<lparr>rn_job := f (rn_job s), rn_store := snd (UpdateJob (f (rn_job s)) (rn_store s))\<rparr>" for s
    by (simp add: update_job_def Let_def split: prod.split option.split)
  then show ?thesis by (simp add: safe_def 1)
qed

subsection \<open>Web sites, applications, databases\<close>

lemma safe_applyWebsite [safe_rules]: "ours acc \<Longrightarrow> keeps (applyWebsiteDispatch wd acc site d)"
  unfolding applyWebsiteDispatch_def
  by (rule safe_rules | simp add: call_ok_def of_account_def releasing_def websiteEnabled_def)+

lemma safe_reapply [safe_rules]: "ours acc \<Longrightarrow> keeps (reapplyAccountWebsites wd acc)"
  unfolding reapplyAccountWebsites_def by (rule safe_rules | simp)+

lemma safe_suspend [safe_rules]: "ours acc \<Longrightarrow> keeps (applySuspendedHost wd acc)"
  unfolding applySuspendedHost_def
  by (rule safe_rules | simp add: call_ok_def of_account_def releasing_def)+

lemma safe_runtime [safe_rules]: "ours acc \<Longrightarrow> keeps (applySiteRuntime wd site acc)"
  unfolding applySiteRuntime_def by (rule safe_rules | simp add: call_ok_def of_account_def releasing_def)+

lemma safe_collapse [safe_rules]: "ours acc \<Longrightarrow> keeps (collapseDomainWebsites wd acc d site)"
  unfolding collapseDomainWebsites_def by (rule safe_rules | simp add: call_ok_def of_account_def releasing_def)+

lemma safe_credentials [safe_rules]: "safe J (\<lambda>(name, _). name = acc_Username acc @ ''_u'') (hostedDBCredentials wd acc engine)"
  unfolding hostedDBCredentials_def by (rule safe_rules | simp)+

lemma safe_apply_file [safe_rules]: "keeps (apply_file wd path body)"
  unfolding apply_file_def by (rule safe_rules | simp add: call_ok_def releasing_def)+

lemma create_db_ok: "name = u @ ''_u'' \<Longrightarrow> call_ok u held (''CreateHostedDatabase'', create_db_params engine db name pw reset)"
  by (simp add: call_ok_def create_db_params_def releasing_def)

lemma safe_wordpress_db [safe_rules]: "ours acc \<Longrightarrow> keeps (syncWordPressDatabase wd acc)"
  unfolding syncWordPressDatabase_def
  apply (rule safe_rules)
   apply (rule safe_rules)
  apply (rule safe_andthen [where Q = "\<lambda>(name, _). name = acc_Username acc @ ''_u''"])
   apply (rule safe_rules | simp)+
  by (rule safe_rules create_db_ok | (simp add: call_ok_def of_account_def releasing_def; fail))+

lemma safe_provision_db [safe_rules]: "ours acc \<Longrightarrow> keeps (provision_db wd d acc)"
  unfolding provision_db_def
  by (rule safe_rules create_db_ok | (simp add: of_account_def; fail))+

lemma safe_finish_wordpress [safe_rules]: "ours acc \<Longrightarrow> keeps (finish_wordpress wd app acc site doc)"
  unfolding finish_wordpress_def by (rule safe_rules | simp)+


lemma safe_account: "i = aid \<Longrightarrow> (\<And>acc. ours acc \<Longrightarrow> safe J P (f acc)) \<Longrightarrow> safe J P q \<Longrightarrow>
    safe J P (andthen (reading (\<lambda>m. GetAccount m i)) (\<lambda>oa. case oa of None \<Rightarrow> q | Some acc \<Rightarrow> f acc))"
  by (rule safe_andthen, rule safe_reading, rule safe_option) (auto dest: got [OF _ sym])

lemma safe_provisionDB: "db_AccountID d = aid \<Longrightarrow> db_ID d = i \<Longrightarrow> keeps (andthen (writing (PutDB d)) (\<lambda>_. provisionDB wd i))"
proof -
  assume d: "db_AccountID d = aid" "db_ID d = i"
  then have "andthen (writing (PutDB d)) (\<lambda>_. provisionDB wd i) =
      andthen (writing (PutDB d)) (\<lambda>_. andthen (reading (\<lambda>m. GetAccount m aid)) (\<lambda>oa. case oa of None \<Rightarrow> fault ''account missing'' | Some acc \<Rightarrow> provision_db wd d acc))"
    by (auto simp: fun_eq_iff provisionDB_def andthen_def writing_def reading_def PutDB_def GetDB_def)
  then show ?thesis by simp (rule safe_account safe_rules | simp)+
qed

lemma safe_default_db [safe_rules]: "ours acc \<Longrightarrow> keeps (ensureDefaultDatabase wd acc)"
  unfolding ensureDefaultDatabase_def by (rule safe_provisionDB safe_rules | (simp add: of_account_def; fail))+

subsection \<open>DNS, mail, certificates\<close>

lemma safe_put_new_record [safe_rules]: "keeps (put_new_record wd z name typ content prio)"
  unfolding put_new_record_def by (rule safe_rules | simp)+

lemma safe_republish [safe_rules]: "safe J (\<lambda>_. True) (republishPublicAddresses wd z ip)"
  unfolding republishPublicAddresses_def by (rule safe_rules | simp)+

lemma safe_service_records [safe_rules]: "safe J (\<lambda>_. True) (ensureServiceRecords wd z ip)"
  unfolding ensureServiceRecords_def by (rule safe_rules | simp)+

lemma safe_writeZone [safe_rules]: "safe J (\<lambda>_. True) (writeZone wd z)"
  unfolding writeZone_def markZonePublished_def by (rule safe_rules | simp add: call_ok_def releasing_def)+

lemma safe_dnssec [safe_rules]: "keeps (applyDNSSECState wd z)"
  unfolding applyDNSSECState_def by (rule safe_rules | simp add: call_ok_def releasing_def)+

lemma safe_create_home [safe_rules]: "keeps (create_home wd d l uid gid)"
  unfolding create_home_def by (rule safe_rules | simp add: call_ok_def releasing_def)+

lemma safe_catchall [safe_rules]: "keeps (ensureCatchallHomes wd)"
  unfolding ensureCatchallHomes_def by (rule safe_rules | simp)+

lemma safe_dkim [safe_rules]: "keeps (ensureDKIM wd recs)"
  unfolding ensureDKIM_def publishDKIMTXT_def by (rule safe_rules | simp add: call_ok_def releasing_def)+

lemma safe_mail [safe_rules]: "keeps (applyMailStack wd i)"
  unfolding applyMailStack_def account_homes_def by (rule safe_rules | simp add: call_ok_def releasing_def mail_maps_def)+

lemma safe_pending_cert [safe_rules]: "ours acc \<Longrightarrow> safe J (\<lambda>_. True) (pending_cert wd acc h oc)"
  unfolding pending_cert_def request_cert_def by (rule safe_rules | simp)+

lemma safe_queue_cert [safe_rules]: "ours acc \<Longrightarrow> keeps (queueCertificateProvision wd (Some acc) h)"
  unfolding queueCertificateProvision_def by (rule safe_rules | simp)+

lemma safe_publish_dns [safe_rules]: "keeps (publishAccountPublicDNS wd acc)"
  unfolding publishAccountPublicDNS_def by (rule safe_rules | simp)+

lemma safe_tools [safe_rules]: "keeps (apply_tools wd d)"
  unfolding apply_tools_def by (rule safe_rules | simp add: call_ok_def releasing_def)+

lemma safe_bind [safe_rules]: "cert_AccountID c = aid \<Longrightarrow> keeps (bindCertificateToSites wd c)"
  unfolding bindCertificateToSites_def by (rule safe_account safe_rules | (simp; fail))+

lemma safe_issue [safe_rules]: "cert_AccountID c = aid \<Longrightarrow> keeps (issueStoredCertificate wd (Some c))"
  unfolding issueStoredCertificate_def prepare_issue_def issueNames_def option.case
  by (rule safe_account safe_rules | (simp add: call_ok_def releasing_def; fail))+

lemma safe_ensure_cert [safe_rules]: "ours acc \<Longrightarrow> keeps (ensureCertificate wd acc h)"
proof -
  assume "ours acc"
  then have acc: "acc_ID acc = aid" by (simp add: of_account_def)
  have 1: "safe J (\<lambda>oc. \<forall>c. oc = Some c \<longrightarrow> cert_AccountID c = aid) (reading (\<lambda>m. cert_for m acc h))"
    by (auto simp: safe_def reading_def cert_for_def acc find_Some_iff in_set_conv_nth intro!: filter_of_account nth_mem dest: named)
  have 2: "safe J (\<lambda>c. cert_AccountID c = aid) (request_cert wd acc h)"
    unfolding request_cert_def by (rule safe_rules | simp add: acc)+
  show ?thesis unfolding ensureCertificate_def
    by (rule 1 2 safe_rules | (simp add: \<open>ours acc\<close>; fail))+
qed

subsection \<open>Domains, migrated data, usage\<close>

lemma safe_ftp [safe_rules]: "keeps (syncFTPUsers wd)"
  unfolding syncFTPUsers_def by (rule safe_rules | simp add: call_ok_def releasing_def)+

lemma safe_cron: "pay j ''account_id'' = aid \<Longrightarrow> keeps (applyCron_job wd j)"
proof -
  assume j: "pay j ''account_id'' = aid"
  have 1: "safe J (\<lambda>r. \<forall>name body. r = Inr (name, body) \<longrightarrow> name = u) (reading (\<lambda>m. applyCron m (pay j ''account_id'')))"
    unfolding j by (auto simp: safe_def reading_def applyCron_def of_account_def dest: got split: option.splits)
  show ?thesis unfolding applyCron_job_def by (rule 1 safe_rules | (simp add: call_ok_def releasing_def; fail))+
qed

lemma safe_hosted_db [safe_rules]: "ours acc \<Longrightarrow> keeps (ensureHostedDBOnHost wd acc engine name)"
  unfolding ensureHostedDBOnHost_def by (rule create_db_ok safe_rules | (simp add: of_account_def; fail))+

lemma safe_migrate [safe_rules]: "ours acc \<Longrightarrow> keeps (migrateDatabases wd acc j)" "keeps (migrateMailboxes wd j)"
  unfolding migrateDatabases_def migrate_db_def copy_db_def restore_db_def migrateMailboxes_def migrate_mailbox_def
  by (rule safe_rules | (simp add: call_ok_def releasing_def; fail))+

lemma safe_migrated_data: "(\<And>m a. jobAccount m j = Some a \<Longrightarrow> GetAccount m aid = Some a) \<Longrightarrow> pay j ''username'' \<in> {'''', u} \<Longrightarrow> keeps (applyMigratedData wd j)"
proof -
  assume j: "\<And>m a. jobAccount m j = Some a \<Longrightarrow> GetAccount m aid = Some a" and name: "pay j ''username'' \<in> {'''', u}"
  have 1: "safe J (\<lambda>r. \<forall>acc. r = Some acc \<longrightarrow> ours acc) (reading (\<lambda>m. jobAccount m j))"
    by (auto simp: safe_def reading_def dest: j got)
  have 2: "call_ok u held (''CopyHomedir'', [(''username'', VString (first_of (pay j ''username'') (acc_Username acc))), (''source'', src), (''dest'', dest)])" if "ours acc" for acc src dest
    using name that by (auto simp: first_of_def of_account_def call_ok_def releasing_def)
  show ?thesis unfolding applyMigratedData_def by (rule 1 2 safe_rules | (simp; fail))+
qed

lemma safe_zone_of_domain [safe_rules]: "keeps (zone_of_domain wd acc d ip)"
  unfolding zone_of_domain_def by (rule safe_rules | simp)+

lemma safe_publish_zone [safe_rules]:
  assumes f: "\<And>z. safe J (\<lambda>_. True) (f z)" shows "keeps (publish_zone wd d f)"
  unfolding publish_zone_def by (rule f safe_rules)+

lemma safe_optional_cert [safe_rules]: "ours acc \<Longrightarrow> keeps (optional_cert wd acc h)"
  unfolding optional_cert_def by (rule safe_rules | simp)+

lemma safe_alias_stack [safe_rules]: "ours acc \<Longrightarrow> keeps (alias_stack wd acc)"
  unfolding alias_stack_def by (rule safe_rules | simp)+

lemma safe_site_stack [safe_rules]: "ours acc \<Longrightarrow> keeps (site_stack wd acc d rt)"
  unfolding site_stack_def site_of_domain_def by (rule safe_rules | simp)+

lemma safe_domain_stack [safe_rules]: "ours acc \<Longrightarrow> keeps (ensureDomainStack wd d acc ip rt skip)"
  unfolding ensureDomainStack_def mail_domain_of_def by (rule safe_rules | (simp; fail))+

lemma safe_usage [safe_rules]: "ours acc \<Longrightarrow> keeps (recordUsage wd acc)"
  unfolding recordUsage_def persistUsageEnforcement_def enforce_usage_def
  by (rule safe_rules | (simp add: call_ok_def of_account_def releasing_def; fail))+

lemma safe_default_mailbox [safe_rules]: "keeps (ensureDefaultMailbox wd acc pw)"
  unfolding ensureDefaultMailbox_def by (rule safe_rules | simp)+

lemma safe_teardown [safe_rules]: "ours acc \<Longrightarrow> keeps (each (drop_database wd acc) dbs)"
  unfolding drop_database_def by (rule safe_rules | (simp add: call_ok_def of_account_def releasing_def; fail))+

lemma retire_call_ok: "ours acc \<Longrightarrow> call_ok u held (''RetireAccount'', [(''username'', VString (acc_Username acc)), (''website_ids'', ids), (''domains'', ds)])"
  by (simp add: call_ok_def of_account_def releasing_def)

end

text \<open>The invariant may also survive writes of the account itself.\<close>

locale account_run = account_frame +
  assumes put: "J s \<Longrightarrow> of_account aid u held acc \<Longrightarrow> J (s\<lparr>rn_store := PutAccount acc (rn_store s)\<rparr>)"
begin

lemma acknowledged_ours: "ours acc \<Longrightarrow> ours (acknowledgeAccountRevision m acc j)"
  by (simp add: of_account_def acknowledgeAccountRevision_def Let_def split: option.split)

lemma safe_put_acknowledged [safe_rules]: "ours acc \<Longrightarrow> keeps (put_acknowledged acc j)"
  by (simp add: safe_def put_acknowledged_def writing_def put acknowledged_ours)

lemma safe_put_account [safe_rules]: "ours acc \<Longrightarrow> keeps (writing (PutAccount acc))"
  by (simp add: safe_def writing_def put)

lemma safe_finish_retire:
  assumes "keeps (writing (PurgeAccount aid))" "ours (acc\<lparr>acc_Status := ''terminated''\<rparr>)"
  shows "keeps (finish_retire wd acc j)"
proof -
  have purge: "keeps (writing (PurgeAccount (acc_ID acc)))" using assms by (simp add: of_account_def)
  show ?thesis unfolding finish_retire_def by (rule purge assms(2) safe_rules)+
qed

end


text \<open>Whether the rows that a job names belong to the account.\<close>

definition job_within :: "memory \<Rightarrow> job \<Rightarrow> string \<Rightarrow> string \<Rightarrow> bool" where
  "job_within m j aid u \<longleftrightarrow>
     job_Type j \<notin> {''backup.create'', ''backup.restore''} \<and>
     pay j ''account_id'' = aid \<and> (job_ResourceType j = ''account'' \<longrightarrow> job_ResourceID j = aid) \<and> pay j ''username'' \<in> {'''', u} \<and>
     (\<forall>d. GetDomain m (pay j ''domain_id'') = Some d \<longrightarrow> dom_AccountID d = aid) \<and>
     (\<forall>w. GetWebsite m (pay j ''website_id'') = Some w \<longrightarrow> web_AccountID w = aid) \<and>
     (\<forall>a. GetApp m (pay j ''application_id'') = Some a \<longrightarrow> app_AccountID a = aid) \<and>
     (\<forall>d. GetDB m (pay j ''database_id'') = Some d \<longrightarrow> db_AccountID d = aid) \<and>
     (\<forall>c. GetCert m (pay j ''certificate_id'') = Some c \<longrightarrow> cert_AccountID c = aid)"

lemma run_reading: "andthen (reading g) f s = f (g (rn_store s)) s"
  by (simp add: andthen_def reading_def)

locale account_handlers = account_run +
  assumes retired: "of_account aid u held acc \<Longrightarrow> \<not> held \<Longrightarrow> safe J (\<lambda>_. True) (retireAccount wd acc j)"
    and created: "J s \<Longrightarrow> held \<Longrightarrow> \<exists>x. wd_reply wd h (''CreateLinuxUser'', ps) = Inr x"
begin

lemma safe_create_user [safe_rules]: assumes "ours acc" shows "keeps (create_user wd acc)"
proof (cases held)
  case False
  show ?thesis unfolding create_user_def
    by (rule safe_put_account safe_rules | (insert assms False; simp add: call_ok_def of_account_def releasing_def; fail))+
next
  case True
  have "safe J (\<lambda>r. \<exists>x. r = Inr x) (attempt (order wd ''CreateLinuxUser'' ps))" if ok: "call_ok u held (''CreateLinuxUser'', ps)" for ps
    unfolding safe_def
  proof (intro allI impI)
    fix s assume "J s"
    obtain x where "wd_reply wd (rn_calls s) (''CreateLinuxUser'', ps) = Inr x" using created [OF \<open>J s\<close> True] by blast
    then show "J (snd (attempt (order wd ''CreateLinuxUser'' ps) s)) \<and> (\<forall>x. fst (attempt (order wd ''CreateLinuxUser'' ps) s) = Inr x \<longrightarrow> (\<exists>y. x = Inr y))"
      using sent [OF \<open>J s\<close> ok] by (simp add: attempt_def order_def andthen_def dispatch_def ret_def)
  qed
  note 1 = this
  show ?thesis unfolding create_user_def
    by (rule 1 safe_rules | (insert assms; simp add: call_ok_def of_account_def releasing_def; fail) | (elim exE; simp; fail))+
qed

lemma safe_set_up [safe_rules]: "ours acc \<Longrightarrow> keeps (set_up_user wd acc pkg pw)"
  unfolding set_up_user_def by (rule safe_rules | (simp add: call_ok_def of_account_def releasing_def; fail))+

lemma safe_hold [safe_rules]: assumes "ours acc" shows "safe J ours (hold_or_release wd acc)"
proof -
  have act: "ours (if acc_Status acc \<in> {''provisioning'', ''failed'', ''''} then acc\<lparr>acc_Status := ''active''\<rparr> else acc)"
    using assms by (auto simp: of_account_def)
  show ?thesis unfolding hold_or_release_def
    by (rule act safe_rules | (insert assms; simp add: call_ok_def of_account_def releasing_def; fail))+
qed

lemma safe_domains [safe_rules]: "ours acc \<Longrightarrow> keeps (provision_domains wd acc)"
  unfolding provision_domains_def by (rule safe_rules | (simp; fail))+

lemma safe_finish:
  assumes "ours acc" and j: "pay j ''account_id'' = aid" "job_ResourceType j = ''account'' \<longrightarrow> job_ResourceID j = aid" "pay j ''username'' \<in> {'''', u}"
  shows "keeps (finish_account wd acc j)"
  unfolding finish_account_def
  by (rule safe_migrated_data [OF job_account] safe_cron safe_rules assms | assumption)+

lemma safe_settle:
  assumes "ours acc" and j: "pay j ''account_id'' = aid" "job_ResourceType j = ''account'' \<longrightarrow> job_ResourceID j = aid" "pay j ''username'' \<in> {'''', u}"
  shows "keeps (settle_account wd acc j)"
proof -
  have 1: "keeps (if acc_Status latest = ''suspended'' then
             let acc = acc\<lparr>acc_Status := ''suspended'', acc_DesiredRevision := acc_DesiredRevision latest, acc_PackageID := acc_PackageID latest\<rparr>
             in andthen (applySuspendedHost wd acc) (\<lambda>_. finish_account wd acc j)
           else if acc_Status latest = ''terminating'' \<or> acc_Status latest = ''terminated'' then retireAccount wd latest j
           else finish_account wd acc j)" if "ours latest" for latest
    by (rule safe_rules safe_finish retired j | (insert assms(1) that; simp add: of_account_def; fail) | (insert that; auto simp: of_account_def; fail))+
  have "acc_ID acc = aid" using assms(1) by (simp add: of_account_def)
  then show ?thesis unfolding settle_account_def by (rule safe_account) (rule 1 safe_finish assms | assumption)+
qed

lemma keeps_account_job:
  assumes s: "J s" and j: "pay j ''account_id'' = aid" "job_ResourceType j = ''account'' \<longrightarrow> job_ResourceID j = aid" "pay j ''username'' \<in> {'''', u}"
  shows "J (snd (provisionAccount wd j s))"
proof -
  have 1: "safe J ours (reading (\<lambda>m. refreshed m acc))" if "ours acc" for acc
    using that by (auto simp: safe_def reading_def refreshed_def of_account_def dest: got split: option.splits)
  have 2: "keeps (if acc_Status acc = ''terminating'' then retireAccount wd acc j else k)" if "ours acc" "keeps k" for acc k
    using that by (auto intro!: retired simp: of_account_def)
  have 3: "keeps (if acc_Status acc = ''terminating'' \<or> acc_Status acc = ''terminated'' then retireAccount wd acc j else k)" if "ours acc" "keeps k" for acc k
    using that by (auto intro!: retired simp: of_account_def)
  have start: "safe J (\<lambda>oa. \<forall>acc. oa = Some acc \<longrightarrow> ours acc) (reading (\<lambda>m. jobAccount m j))"
    by (auto simp: safe_def reading_def dest: job_account [OF j(1,2)] got)
  have "keeps (provisionAccount wd j)"
    unfolding provisionAccount_def
    by (rule start 1 2 3 safe_settle safe_rules j | (simp; fail))+
  then show ?thesis using s by (rule safeD)
qed

lemma safe_site:
  assumes "web_AccountID site = aid"
  shows "keeps (apply_site wd site)" "keeps (retire_site wd site)"
proof -
  have 1: "safe J (\<lambda>r. \<forall>acc. snd r = Some acc \<longrightarrow> ours acc) (reading (\<lambda>m. (f m, GetAccount m (web_AccountID site))))" for f :: "memory \<Rightarrow> domain option"
    using assms by (auto simp: safe_def reading_def dest: got)
  have 2: "safe J (\<lambda>r. \<forall>acc. fst r = Some acc \<longrightarrow> ours acc) (reading (\<lambda>m. (GetAccount m (web_AccountID site), f m)))" for f :: "memory \<Rightarrow> domain option"
    using assms by (auto simp: safe_def reading_def dest: got)
  show "keeps (apply_site wd site)"
    unfolding apply_site_def by (rule 1 safe_rules | (simp; fail))+
  show "keeps (retire_site wd site)"
    unfolding retire_site_def by (rule 2 safe_rules | (simp add: call_ok_def of_account_def releasing_def; fail))+
qed

lemma safe_drop_db: "db_AccountID d = aid \<Longrightarrow> keeps (drop_db wd d)"
  unfolding drop_db_def by (rule safe_account safe_rules | (simp add: call_ok_def of_account_def releasing_def; fail))+

lemma safe_install: "app_AccountID app = aid \<Longrightarrow> keeps (install_wordpress wd j app)"
  unfolding install_wordpress_def
  by (rule safe_account create_db_ok safe_rules | (simp add: call_ok_def of_account_def releasing_def; fail))+

lemma safe_retire_domain: "dom_AccountID d = aid \<Longrightarrow> keeps (retire_domain wd d)"
  unfolding retire_domain_def
  by (rule safe_account safe_rules | (simp add: call_ok_def of_account_def releasing_def; fail))+

lemma keeps_app:
  assumes s: "J s" and app: "GetApp (rn_store s) (pay j ''application_id'') = Some app" "app_AccountID app = aid" and acc: "GetAccount (rn_store s) aid = Some acc"
  shows "J (snd (retireApplication wd j s))" "J (snd (deployApp wd j s))"
proof -
  have target: "snd (app_target (rn_store s) app) = u"
    using got [OF s acc] app(2) acc by (simp add: app_target_def of_account_def)
  have "keeps (case app_target (rn_store s) app of (wid, account) \<Rightarrow>
     andthen (order wd ''RetireApplication'' [(''website_id'', VString wid), (''account'', VString account)]) (\<lambda>_. writing (DeleteApp (app_ID app))))"
    by (rule safe_rules | (insert target; simp add: call_ok_def releasing_def; fail))+
  then show "J (snd (retireApplication wd j s))"
    using s app by (simp add: retireApplication_def run_reading safeD)
  have "keeps (case app_target (rn_store s) app of (wid, account) \<Rightarrow>
     andthen (order wd ''ApplyAppUnit''
       [(''website_id'', VString wid), (''account'', VString account), (''runtime'', VString (app_Runtime app)),
        (''working_directory'', VString (app_WorkingDirectory app)), (''start_command'', VString (app_StartCommand app))]) (\<lambda>_.
     writing (PutApp (app\<lparr>app_Status := ''running''\<rparr>))))"
    by (rule safe_rules | (insert target; simp add: call_ok_def releasing_def; fail))+
  then show "J (snd (deployApp wd j s))"
    using s app by (simp add: deployApp_def run_reading safeD)
qed

lemma keeps_start:
  assumes "J s" "\<And>x. g (rn_store s) = Some x \<Longrightarrow> safe J P (f x)" "safe J P q"
  shows "J (snd (andthen (reading g) (\<lambda>ox. case ox of None \<Rightarrow> q | Some x \<Rightarrow> f x) s))"
  using assms by (auto simp: run_reading dest: safeD split: option.split)

text \<open>Every handler keeps the invariant, if its job is within the account.\<close>

theorem keeps_handle:
  assumes s: "J s" and acc: "GetAccount (rn_store s) aid = Some acc" and j: "job_within (rn_store s) j aid u"
  shows "J (snd (handle backups wd j s))"
proof -
  note w = j [unfolded job_within_def]
  have account: "J (snd (provisionAccount wd j s))" using w by (intro keeps_account_job s) auto
  have site: "J (snd (provisionWebsite wd j s))" "J (snd (deleteWebsite_job wd j s))"
    unfolding provisionWebsite_def deleteWebsite_job_def by (rule keeps_start s safe_site safe_ret_True safe_fault | (insert w; simp; fail))+
  have domain: "J (snd (deleteDomain_job wd j s))"
    unfolding deleteDomain_job_def by (rule keeps_start s safe_retire_domain safe_ret_True | (insert w; simp; fail))+
  have new: "J (snd (provisionDomain wd j s))"
  proof -
    have 1: "safe J (\<lambda>r. \<forall>acc. snd r = Some acc \<longrightarrow> ours acc) (reading (\<lambda>m. (GetDomain m (pay j ''domain_id''), GetAccount m (pay j ''account_id''))))"
      using w by (auto simp: safe_def reading_def dest: got)
    have "keeps (provisionDomain wd j)" unfolding provisionDomain_def by (rule 1 safe_rules | (simp; fail))+
    then show ?thesis using s by (rule safeD)
  qed
  have app: "J (snd (retireApplication wd j s))" "J (snd (deployApp wd j s))"
    using w keeps_app [OF s _ _ acc] s by (cases "GetApp (rn_store s) (pay j ''application_id'')"; auto simp: retireApplication_def deployApp_def run_reading ret_def fault_def)+
  have wordpress: "J (snd (installWordPress_job wd j s))"
    unfolding installWordPress_job_def by (rule keeps_start s safe_install safe_fault | (insert w; simp; fail))+
  have db: "J (snd (provisionDB wd (pay j ''database_id'') s))" "J (snd (deleteDB_job wd j s))"
    unfolding provisionDB_def deleteDB_job_def
    by (rule keeps_start s safe_drop_db safe_account safe_provision_db safe_ret_True safe_fault | assumption | (insert w; simp; fail))+
  have cert: "J (snd (provisionCert wd j s))"
  proof (cases "GetCert (rn_store s) (pay j ''certificate_id'')")
    case None
    have "keeps (issueStoredCertificate wd None)" unfolding issueStoredCertificate_def option.case by (rule safe_fault)
    from safeD [OF this s] show ?thesis by (simp add: provisionCert_def run_reading None)
  next
    case (Some c)
    then have "keeps (issueStoredCertificate wd (Some c))" using w by (intro safe_issue) simp
    from safeD [OF this s] show ?thesis by (simp add: provisionCert_def run_reading Some)
  qed
  have portal: "keeps (provisionPortalHostnameCert wd j)"
    unfolding provisionPortalHostnameCert_def issueNames_def by (rule safe_rules | (simp add: call_ok_def releasing_def; fail))+
  have dns: "keeps (syncDNS wd j)" "keeps (applyZoneDNSSEC wd j)"
    unfolding syncDNS_def applyZoneDNSSEC_def by (rule safe_rules | (simp; fail))+
  have mail: "keeps (provisionMailbox wd j)"
    unfolding provisionMailbox_def by (rule safe_rules | (simp; fail))+
  have php: "keeps (ensurePHPRuntime wd j)"
    unfolding ensurePHPRuntime_def by (rule safe_rules | (simp add: call_ok_def releasing_def; fail))+
  have migrated: "keeps (applyMigratedData wd j)" using w by (intro safe_migrated_data job_account [of j aid]) auto
  have cron: "keeps (applyCron_job wd j)" using w by (intro safe_cron) simp
  note all = account site domain new app wordpress db cert safeD [OF portal s] safeD [OF dns(1) s] safeD [OF dns(2) s] safeD [OF mail s] safeD [OF php s]
    safeD [OF migrated s] safeD [OF cron s] safeD [OF safe_mail s] safeD [OF safe_ftp s] safeD [OF safe_fault [of J] s]
  show ?thesis using w unfolding handle_def Let_def by (simp add: all)
qed

end


section \<open>The account a job is about\<close>

definition account_known :: "string \<Rightarrow> string \<Rightarrow> bool \<Rightarrow> memory \<Rightarrow> bool" where
  "account_known aid u held m \<longleftrightarrow> (\<forall>acc. GetAccount m aid = Some acc \<longrightarrow> of_account aid u held acc)"

text \<open>
  What a run relies on: nobody else renames the account meanwhile, or ends its suspension when that
  matters, in which case the creation of the Linux user must not fail either.
\<close>

definition rely :: "world \<Rightarrow> string \<Rightarrow> string \<Rightarrow> bool \<Rightarrow> bool" where
  "rely wd aid u held \<longleftrightarrow> aid \<noteq> '''' \<and> (\<forall>h m. account_known aid u held m \<longrightarrow> account_known aid u held (wd_meanwhile wd h m)) \<and>
     (held \<longrightarrow> (\<forall>h ps. \<exists>x. wd_reply wd h (''CreateLinuxUser'', ps) = Inr x))"

definition confined :: "world \<Rightarrow> string \<Rightarrow> string \<Rightarrow> bool \<Rightarrow> run \<Rightarrow> bool" where
  "confined wd aid u held s \<longleftrightarrow> rely wd aid u held \<and> account_known aid u held (rn_store s) \<and> (\<forall>c \<in> set (rn_calls s). call_ok u held c)"

lemma account_known_same: "Accounts m' = Accounts m \<Longrightarrow> account_known aid u held m' = account_known aid u held m"
  by (simp add: account_known_def GetAccount_def)

lemma account_known_put: "account_known aid u held m \<Longrightarrow> of_account aid u held acc \<Longrightarrow> account_known aid u held (PutAccount acc m)"
  by (auto simp: account_known_def GetAccount_def PutAccount_def of_account_def)

lemma purge_accounts: "GetAccount (PurgeAccount i m) k = (if k = i then None else GetAccount m k)"
  by (auto simp: PurgeAccount_def GetAccount_def purge_tables_def mget_mdel split: option.split)

interpretation confined_run: account_run wd aid u held "confined wd aid u held" for wd aid u held
proof unfold_locales
  fix s and m :: memory assume "confined wd aid u held s" "Accounts m = Accounts (rn_store s)"
  then show "confined wd aid u held (s\<lparr>rn_store := m\<rparr>)" by (simp add: confined_def account_known_same [of m "rn_store s"])
next
  fix s acc assume "confined wd aid u held s" "GetAccount (rn_store s) aid = Some acc"
  then show "of_account aid u held acc" by (simp add: confined_def account_known_def)
qed (auto simp: confined_def rely_def intro: account_known_put)

lemma confined_purge: "safe (confined wd aid u held) (\<lambda>_. True) (writing (PurgeAccount aid))"
  by (simp add: safe_def writing_def confined_def account_known_def purge_accounts)

lemma confined_retire:
  assumes "of_account aid u held acc" "\<not> held"
  shows "safe (confined wd aid u held) (\<lambda>_. True) (retireAccount wd acc j)"
proof -
  have fin: "safe (confined wd aid u held) (\<lambda>_. True) (finish_retire wd acc j)"
    by (rule confined_run.safe_finish_retire) (insert assms confined_purge; simp add: of_account_def)+
  show ?thesis unfolding retireAccount_def
    by (rule fin confined_run.safe_teardown confined_run.safe_order confined_run.retire_call_ok assms safe_rules)+
qed

interpretation confined: account_handlers wd aid u held "confined wd aid u held" for wd aid u held
  by unfold_locales (auto simp: confined_def rely_def intro: confined_retire)


text \<open>The removal of an account, and the requests that confirm it.\<close>

definition confirmed :: "world \<Rightarrow> string \<Rightarrow> agent_call list \<Rightarrow> bool" where
  "confirmed wd u calls \<longleftrightarrow> (\<exists>h ps h' x. calls = h @ (''RetireAccount'', ps) # h' \<and> mget ps ''username'' = Some (VString u) \<and>
     wd_reply wd h (''RetireAccount'', ps) = Inr x)"

definition rely_present :: "world \<Rightarrow> string \<Rightarrow> string \<Rightarrow> bool" where
  "rely_present wd aid u \<longleftrightarrow> rely wd aid u False \<and> (\<forall>h m. GetAccount m aid \<noteq> None \<longrightarrow> GetAccount (wd_meanwhile wd h m) aid \<noteq> None)"

definition removing :: "world \<Rightarrow> string \<Rightarrow> string \<Rightarrow> run \<Rightarrow> bool" where
  "removing wd aid u s \<longleftrightarrow> rely_present wd aid u \<and> account_known aid u False (rn_store s) \<and> confirmed wd u (rn_calls s)"

definition present :: "world \<Rightarrow> string \<Rightarrow> string \<Rightarrow> run \<Rightarrow> bool" where
  "present wd aid u s \<longleftrightarrow> rely_present wd aid u \<and> account_known aid u False (rn_store s) \<and> (GetAccount (rn_store s) aid \<noteq> None \<or> confirmed wd u (rn_calls s))"

lemma confirmed_append: "confirmed wd u h \<Longrightarrow> confirmed wd u (h @ h')"
  unfolding confirmed_def by (metis append.assoc append_Cons)

lemma removing_iff: "removing wd aid u s \<longleftrightarrow> present wd aid u s \<and> confirmed wd u (rn_calls s)"
  by (auto simp: removing_def present_def)

interpretation present: account_run wd aid u False "present wd aid u" for wd aid u
proof unfold_locales
  fix s and m :: memory assume "present wd aid u s" "Accounts m = Accounts (rn_store s)"
  then show "present wd aid u (s\<lparr>rn_store := m\<rparr>)" by (simp add: present_def account_known_same [of m "rn_store s"] GetAccount_def)
next
  fix s acc assume "present wd aid u s" "GetAccount (rn_store s) aid = Some acc"
  then show "of_account aid u False acc" by (simp add: present_def account_known_def)
next
  fix s acc assume "present wd aid u s" "of_account aid u False acc"
  then show "present wd aid u (s\<lparr>rn_store := PutAccount acc (rn_store s)\<rparr>)"
    using account_known_put [of aid u False "rn_store s" acc] by (auto simp: present_def PutAccount_def GetAccount_def of_account_def)
qed (auto simp: present_def rely_present_def rely_def intro: confirmed_append)

interpretation removing: account_run wd aid u False "removing wd aid u" for wd aid u
proof unfold_locales
  fix s c assume "removing wd aid u s" "call_ok u False c"
  then show "removing wd aid u (s\<lparr>rn_calls := rn_calls s @ [c], rn_store := wd_meanwhile wd (rn_calls s @ [c]) (rn_store s)\<rparr>)"
    using present.sent [of wd aid u s c] by (simp add: removing_iff confirmed_append)
qed (auto simp: removing_iff intro: present.kept present.put present.got present.fresh present.job_changed dest: present.named)

lemma removing_finish:
  assumes "of_account aid u False acc" shows "safe (removing wd aid u) (\<lambda>_. True) (finish_retire wd acc j)"
proof (rule removing.safe_finish_retire)
  show "safe (removing wd aid u) (\<lambda>_. True) (writing (PurgeAccount aid))"
    by (simp add: safe_def writing_def removing_def account_known_def purge_accounts)
qed (use assms in \<open>simp add: of_account_def\<close>)

lemma present_retire:
  assumes acc: "of_account aid u False acc" shows "safe (present wd aid u) (\<lambda>_. True) (retireAccount wd acc j)"
proof -
  have "safe (present wd aid u) (\<lambda>_. True) (andthen (order wd ''RetireAccount'' ps) (\<lambda>_. finish_retire wd acc j))"
    if ps: "ps = [(''username'', VString (acc_Username acc)), (''website_ids'', ids), (''domains'', ds)]" for ps ids ds
    unfolding safe_def
  proof (intro allI impI conjI TrueI)
    fix s assume s: "present wd aid u s"
    let ?s1 = "s\<lparr>rn_calls := rn_calls s @ [(''RetireAccount'', ps)], rn_store := wd_meanwhile wd (rn_calls s @ [(''RetireAccount'', ps)]) (rn_store s)\<rparr>"
    have s1: "present wd aid u ?s1" using present.sent [OF s, of "(''RetireAccount'', ps)"] present.retire_call_ok [OF acc] ps by simp
    show "present wd aid u (snd (andthen (order wd ''RetireAccount'' ps) (\<lambda>_. finish_retire wd acc j) s))"
    proof (cases "wd_reply wd (rn_calls s) (''RetireAccount'', ps)")
      case (Inl e)
      then show ?thesis using s1 by (simp add: andthen_def order_def dispatch_def)
    next
      case (Inr x)
      have "confirmed wd u (rn_calls ?s1)"
        unfolding confirmed_def using Inr ps acc by (intro exI [of _ "rn_calls s"] exI [of _ ps] exI [of _ "[]"] exI [of _ x]) (simp add: of_account_def)
      then have "removing wd aid u ?s1" using s1 by (simp add: removing_iff)
      from safeD [OF removing_finish [OF acc] this]
      have "removing wd aid u (snd (finish_retire wd acc j ?s1))" .
      then show ?thesis using Inr by (simp add: andthen_def order_def dispatch_def ret_def removing_iff)
    qed
  qed
  note tail = this [OF refl]
  show ?thesis unfolding retireAccount_def by (rule tail present.safe_teardown acc safe_rules)+
qed

interpretation present_handlers: account_handlers wd aid u False "present wd aid u" for wd aid u
  by unfold_locales (auto intro: present_retire)


section \<open>Properties\<close>

definition fresh_run :: "memory \<Rightarrow> job \<Rightarrow> run" where
  "fresh_run m j = \<lparr>rn_store = m, rn_calls = [], rn_ids = 0, rn_job = j\<rparr>"


text \<open>
  C10. No job lifts a suspension: while an account is suspended, no handler unlocks its user, thaws
  it or enables one of its web sites, and the account is still suspended afterwards, provided that
  the creation of the Linux user does not fail.
\<close>

theorem suspension_kept:
  assumes "rely wd aid u True" "GetAccount m aid = Some acc" "acc_ID acc = aid" "acc_Username acc = u" "acc_Status acc = ''suspended''" "job_within m j aid u"
  shows "let s = snd (handle backups wd j (fresh_run m j))
         in (\<forall>c \<in> set (rn_calls s). \<not> releasing c) \<and> (\<forall>acc. GetAccount (rn_store s) aid = Some acc \<longrightarrow> acc_Status acc = ''suspended'')"
proof -
  have "confined wd aid u True (fresh_run m j)"
    using assms by (simp add: confined_def fresh_run_def account_known_def of_account_def)
  then have "confined wd aid u True (snd (handle backups wd j (fresh_run m j)))"
    by (rule confined.keeps_handle) (use assms in \<open>simp_all add: fresh_run_def\<close>)
  then show ?thesis by (simp add: confined_def call_ok_def account_known_def of_account_def Let_def)
qed

text \<open>
  C11. The panel forgets an account only after the host has: if no other process removes the account
  and it is gone after a job, then the agent has confirmed the retirement of its user during that job.
\<close>

theorem removal_confirmed:
  assumes "rely_present wd aid u" "GetAccount m aid = Some acc" "acc_ID acc = aid" "acc_Username acc = u" "job_within m j aid u"
    and "GetAccount (rn_store (snd (handle backups wd j (fresh_run m j)))) aid = None"
  shows "confirmed wd u (rn_calls (snd (handle backups wd j (fresh_run m j))))"
proof -
  have "present wd aid u (fresh_run m j)"
    using assms by (simp add: present_def fresh_run_def account_known_def of_account_def)
  then have "present wd aid u (snd (handle backups wd j (fresh_run m j)))"
    by (rule present_handlers.keeps_handle) (use assms in \<open>simp_all add: fresh_run_def\<close>)
  then show ?thesis using assms(6) by (simp add: present_def)
qed

lemma each_succeeds: "(\<And>x s. \<exists>s'. f x s = (Inr (), s')) \<Longrightarrow> \<exists>s'. each f xs s = (Inr (), s')"
proof (induction xs arbitrary: s)
  case (Cons x xs)
  obtain s1 where "f x s = (Inr (), s1)" using Cons.prems by blast
  moreover obtain s2 where "each f xs s1 = (Inr (), s2)" using Cons by blast
  ultimately show ?case by (simp add: andthen_def)
qed (simp add: ret_def)

lemma finish_retire_removes:
  "fst (finish_retire wd acc j s) = Inr () \<and> GetAccount (rn_store (snd (finish_retire wd acc j s))) (acc_ID acc) = None"
proof -
  have "Accounts (snd (UpdateJob j' m)) = Accounts m" for j' m by (simp add: UpdateJob_def split: option.split)
  then have upd: "GetAccount (rn_store (snd (update_job f t))) i = GetAccount (rn_store t) i" for f t i
    by (simp add: update_job_def GetAccount_def Let_def split: prod.split option.split) (metis snd_conv)

  show ?thesis
    by (simp add: finish_retire_def put_acknowledged_def andthen_def writing_def ignoring_run upd purge_accounts)
qed

definition agent_retires :: "world \<Rightarrow> bool" where
  "agent_retires wd \<longleftrightarrow> (\<forall>h meth ps. meth \<in> {''DropHostedDatabase'', ''RetireAccount''} \<longrightarrow> (\<exists>x. wd_reply wd h (meth, ps) = Inr x))"

lemma retire_succeeds:
  assumes agent: "agent_retires wd"
  shows "fst (retireAccount wd acc j s) = Inr () \<and> GetAccount (rn_store (snd (retireAccount wd acc j s))) (acc_ID acc) = None"
proof -
  have order: "\<exists>t'. order wd meth ps t = (Inr (), t')" if meth: "meth \<in> {''DropHostedDatabase'', ''RetireAccount''}" for meth ps t
  proof -
    obtain x where "wd_reply wd (rn_calls t) (meth, ps) = Inr x"
      using agent [unfolded agent_retires_def, THEN spec, THEN spec, THEN spec, THEN mp, OF meth] ..
    then show ?thesis by (simp add: order_def andthen_def dispatch_def ret_def)
  qed
  have "\<exists>t'. drop_database wd acc d t = (Inr (), t')" for d t
    unfolding drop_database_def andthen_def
    using order [of "''DropHostedDatabase''" "[(''engine'', VString (db_Engine d)), (''name'', VString (db_Name d)), (''username'', VString (acc_Username acc @ ''_u'')), (''drop_user'', VBool True)]" t]
    by (auto simp: writing_def)
  then obtain s1 where s1: "each (drop_database wd acc) (ListDBs (rn_store s) (acc_ID acc)) s = (Inr (), s1)"
    using each_succeeds [of "drop_database wd acc"] by blast
  have ret: "retireAccount wd acc j s =
      andthen (order wd ''RetireAccount'' [(''username'', VString (acc_Username acc)), (''website_ids'', VList (map VString (map web_ID (ListWebsites (rn_store s1) (acc_ID acc))))),
        (''domains'', VList (map VString (map dom_ASCII (ListDomains (rn_store s1) (acc_ID acc)))))]) (\<lambda>_. finish_retire wd acc j) s1"
    using s1 by (simp add: retireAccount_def andthen_def reading_def)
  obtain s2 where "retireAccount wd acc j s = finish_retire wd acc j s2"
    using order [of "''RetireAccount''" "[(''username'', VString (acc_Username acc)), (''website_ids'', VList (map VString (map web_ID (ListWebsites (rn_store s1) (acc_ID acc))))),
        (''domains'', VList (map VString (map dom_ASCII (ListDomains (rn_store s1) (acc_ID acc)))))]" s1] unfolding ret andthen_def by auto
  then show ?thesis by (simp add: finish_retire_removes)
qed

lemma terminating_run:
  assumes "jobAccount m j = Some acc" "acc_Status acc = ''terminating''" "job_Type j \<in> {''account.provision'', ''account.reconcile''}"
  shows "handle backups wd j (fresh_run m j) = retireAccount wd acc j (fresh_run m j)"
  using assms by (auto simp: handle_def provisionAccount_def run_reading fresh_run_def)

text \<open>
  C12. Termination of an account completes: if the agent refuses neither to drop a database nor to
  retire the account, the job of a terminating account succeeds and the account is gone, whatever
  becomes of the mail maps, the FTP users and the requests of other processes.
\<close>

theorem termination_completes:
  assumes "jobAccount m j = Some acc" "acc_Status acc = ''terminating''" "job_Type j \<in> {''account.provision'', ''account.reconcile''}" "agent_retires wd"
  shows "fst (handle backups wd j (fresh_run m j)) = Inr () \<and>
         GetAccount (rn_store (snd (handle backups wd j (fresh_run m j)))) (acc_ID acc) = None"
  unfolding terminating_run [OF assms(1-3)] using assms(4) by (rule retire_succeeds)

section \<open>What concurrent changes an account job loses\<close>

definition no_writer :: "world \<Rightarrow> bool" where
  "no_writer wd \<longleftrightarrow> (\<forall>h m. Accounts (wd_meanwhile wd h m) = Accounts m)"

definition settled :: "(string, account) gomap \<Rightarrow> agent_call set \<Rightarrow> world \<Rightarrow> string \<Rightarrow> string \<Rightarrow> run \<Rightarrow> bool" where
  "settled X C wd aid u s \<longleftrightarrow> aid \<noteq> '''' \<and> no_writer wd \<and> C \<subseteq> set (rn_calls s) \<and> Accounts (rn_store s) = X \<and> (\<exists>a. mget X aid = Some a \<and> of_account aid u False a)"

interpretation settled: account_frame wd aid u False "settled X C wd aid u" for X C wd aid u
  by unfold_locales (auto simp: settled_def no_writer_def GetAccount_def)

lemma finish_account_result:
  assumes wd: "no_writer wd" and acc: "acc_ID acc \<noteq> ''''"
    and j: "pay j ''account_id'' = acc_ID acc" "job_ResourceType j = ''account'' \<longrightarrow> job_ResourceID j = acc_ID acc" "pay j ''username'' \<in> {'''', acc_Username acc}"
  shows "Accounts (rn_store (snd (finish_account wd acc j s))) = mput (acc_ID acc) (acknowledgeAccountRevision (rn_store s) acc j) (Accounts (rn_store s))"
    and "set (rn_calls s) \<subseteq> set (rn_calls (snd (finish_account wd acc j s)))"
proof -
  let ?a = "acknowledgeAccountRevision (rn_store s) acc j"
  let ?X = "mput (acc_ID acc) ?a (Accounts (rn_store s))"
  let ?J = "settled ?X (set (rn_calls s)) wd (acc_ID acc) (acc_Username acc)"
  have a: "acc_ID ?a = acc_ID acc" "acc_Username ?a = acc_Username acc"
    by (simp_all add: acknowledgeAccountRevision_def Let_def split: option.split)
  have ours: "of_account (acc_ID acc) (acc_Username acc) False acc" by (simp add: of_account_def)
  define rest where "rest = andthen (applyMigratedData wd j) (\<lambda>_. andthen (recordUsage wd acc) (\<lambda>_. andthen (ignoring (syncFTPUsers wd)) (\<lambda>_.
     andthen (ignoring (applyCron_job wd j)) (\<lambda>_. andthen (ignoring (applyMailStack wd (acc_ID acc))) (\<lambda>_. andthen (syncWordPressDatabase wd acc) (\<lambda>_.
     update_job (\<lambda>j. j\<lparr>job_Payload := mdel ''linux_password'' (job_Payload j), job_Progress := 90\<rparr>)))))))"
  have "safe ?J (\<lambda>_. True) rest"
    unfolding rest_def
    by (rule settled.safe_migrated_data [OF job_account [OF j(1,2)]] settled.safe_cron settled.safe_usage settled.safe_ftp settled.safe_mail
        settled.safe_wordpress_db settled.safe_update_job safe_rules ours j | assumption)+
  moreover have "?J (s\<lparr>rn_store := PutAccount ?a (rn_store s)\<rparr>)"
    using wd acc a by (simp add: settled_def PutAccount_def of_account_def)
  ultimately have "?J (snd (rest (s\<lparr>rn_store := PutAccount ?a (rn_store s)\<rparr>)))" by (rule safeD)
  moreover have "finish_account wd acc j s = rest (s\<lparr>rn_store := PutAccount ?a (rn_store s)\<rparr>)"
    by (simp add: finish_account_def rest_def put_acknowledged_def andthen_def writing_def)
  ultimately show "Accounts (rn_store (snd (finish_account wd acc j s))) = ?X" "set (rn_calls s) \<subseteq> set (rn_calls (snd (finish_account wd acc j s)))"
    by (simp_all add: settled_def)
qed

lemma each_ignoring: "\<exists>s'. each (\<lambda>x. ignoring (p x)) xs s = (Inr (), s')"
  by (rule each_succeeds) (simp add: ignoring_run)

lemma reapply_succeeds: "\<exists>s'. reapplyAccountWebsites wd acc s = (Inr (), s')"
  unfolding reapplyAccountWebsites_def run_reading
  by (rule each_succeeds) (simp add: run_reading ignoring_run ret_def split: option.split)

lemma release_result:
  assumes wd: "no_writer wd" and acc: "acc_ID acc \<noteq> ''''" "acc_Status acc \<in> {''provisioning'', ''failed'', ''''}" and s: "GetAccount (rn_store s) (acc_ID acc) = Some acc"
  shows "\<exists>s'. hold_or_release wd acc s = (Inr (acc\<lparr>acc_Status := ''active''\<rparr>), s') \<and> Accounts (rn_store s') = Accounts (rn_store s) \<and>
           (''UnlockLinuxUser'', [(''username'', VString (acc_Username acc))]) \<in> set (rn_calls s')"
proof -
  let ?c = "(''UnlockLinuxUser'', [(''username'', VString (acc_Username acc))])"
  let ?J = "settled (Accounts (rn_store s)) {?c} wd (acc_ID acc) (acc_Username acc)"
  let ?s1 = "snd (order wd ''UnlockLinuxUser'' [(''username'', VString (acc_Username acc))] s)"
  let ?act = "acc\<lparr>acc_Status := ''active''\<rparr>"
  define rest where "rest = andthen (ignoring (order wd ''FreezeAccount'' [(''username'', VString (acc_Username acc)), (''freeze'', VBool False)])) (\<lambda>_.
     andthen (reading (\<lambda>m. ListWebsites m (acc_ID acc))) (\<lambda>sites. andthen (each (\<lambda>site. ignoring (applySiteRuntime wd site acc)) sites) (\<lambda>_.
     andthen (reapplyAccountWebsites wd ?act) (\<lambda>_. ret ?act))))"
  have ours: "of_account (acc_ID acc) (acc_Username acc) False acc" "of_account (acc_ID acc) (acc_Username acc) False ?act" by (simp_all add: of_account_def)
  have "?J ?s1"
    using wd acc s ours by (auto simp: settled_def order_def andthen_def dispatch_def ret_def GetAccount_def no_writer_def split: sum.split)
  moreover have "safe ?J (\<lambda>_. True) rest" unfolding rest_def
    by (rule settled.safe_order settled.safe_runtime settled.safe_reapply safe_rules ours | (simp add: call_ok_def releasing_def; fail))+
  ultimately have "?J (snd (rest ?s1))" by (rule safeD [rotated])
  moreover have "hold_or_release wd acc s = rest ?s1"
    using acc(2) by (auto simp: hold_or_release_def rest_def andthen_def ignoring_def Let_def split: prod.split)
  moreover have "fst (rest t) = Inr ?act" for t
  proof -
    obtain t1 where 1: "ignoring (order wd ''FreezeAccount'' [(''username'', VString (acc_Username acc)), (''freeze'', VBool False)]) t = (Inr (), t1)"
      by (simp add: ignoring_run)
    obtain t2 where 2: "each (\<lambda>site. ignoring (applySiteRuntime wd site acc)) (ListWebsites (rn_store t1) (acc_ID acc)) t1 = (Inr (), t2)"
      using each_ignoring [of "\<lambda>site. applySiteRuntime wd site acc"] by blast
    obtain t3 where 3: "reapplyAccountWebsites wd ?act t2 = (Inr (), t3)" using reapply_succeeds by blast
    show ?thesis using 1 2 3 by (simp add: rest_def andthen_def reading_def ret_def)
  qed
  ultimately show ?thesis by (intro exI [of _ "snd (rest ?s1)"]) (simp add: settled_def prod_eq_iff)
qed

lemma settle_account_result:
  assumes "no_writer wd" "acc_ID acc \<noteq> ''''" "GetAccount (rn_store s) (acc_ID acc) = Some latest" "acc_Status latest \<notin> {''suspended'', ''terminating'', ''terminated''}"
    and "pay j ''account_id'' = acc_ID acc" "job_ResourceType j = ''account'' \<longrightarrow> job_ResourceID j = acc_ID acc" "pay j ''username'' \<in> {'''', acc_Username acc}"
  shows "GetAccount (rn_store (snd (settle_account wd acc j s))) (acc_ID acc) = Some (acknowledgeAccountRevision (rn_store s) acc j)"
    and "set (rn_calls s) \<subseteq> set (rn_calls (snd (settle_account wd acc j s)))"
proof -
  have "settle_account wd acc j s = finish_account wd acc j s" using assms(3,4) by (simp add: settle_account_def run_reading)
  with finish_account_result [OF assms(1,2,5-7), of s]
  show "GetAccount (rn_store (snd (settle_account wd acc j s))) (acc_ID acc) = Some (acknowledgeAccountRevision (rn_store s) acc j)"
    "set (rn_calls s) \<subseteq> set (rn_calls (snd (settle_account wd acc j s)))"
    by (simp_all add: GetAccount_def)
qed


text \<open>
  C37. A change of package can be lost: when the package of an account is changed after a job for the
  account has read it for the last time, the job writes its old copy back over the change, while it
  keeps the new revision, so that nothing shows that the change is missing.
\<close>

theorem package_change_lost:
  assumes "no_writer wd" "acc_ID acc \<noteq> ''''" "GetAccount (rn_store s) (acc_ID acc) = Some latest" "acc_Status latest \<notin> {''suspended'', ''terminating'', ''terminated''}"
    and "pay j ''account_id'' = acc_ID acc" "job_ResourceType j = ''account'' \<longrightarrow> job_ResourceID j = acc_ID acc" "pay j ''username'' \<in> {'''', acc_Username acc}"
    and "acc_PackageID latest \<noteq> acc_PackageID acc"
  shows "\<exists>a. GetAccount (rn_store (snd (settle_account wd acc j s))) (acc_ID acc) = Some a \<and>
           acc_PackageID a = acc_PackageID acc \<and> acc_PackageID a \<noteq> acc_PackageID latest \<and> acc_DesiredRevision a = acc_DesiredRevision latest"
  using settle_account_result(1) [OF assms(1-7)] assms(3,8) by (simp add: acknowledgeAccountRevision_def Let_def)

text \<open>
  C36. A failed reconcile lifts a suspension: if the creation of the Linux user of a suspended
  account fails, the job stores the account as failed, and a later run that gets as far as
  the account's status unlocks its user and makes the account active.
\<close>

theorem failed_reconcile_lifts_suspension:
  assumes acc: "acc_ID acc \<noteq> ''''" "acc_Status acc = ''suspended''" "GetAccount m (acc_ID acc) = Some acc"
    and j: "job_Type j = ''account.reconcile''" "pay j ''account_id'' = acc_ID acc" "job_ResourceType j = ''account'' \<longrightarrow> job_ResourceID j = acc_ID acc"
      "pay j ''username'' \<in> {'''', acc_Username acc}"
    and wd: "no_writer wd" "no_writer wd'" and refused: "\<And>h ps. wd_reply wd h (''CreateLinuxUser'', ps) = Inl e"
    and later: "GetAccount (rn_store s) (acc_ID acc) = Some (acc\<lparr>acc_Status := ''failed''\<rparr>)"
  shows "handle backups wd j (fresh_run m j) = (Inl e, snd (create_user wd acc (fresh_run m j))) \<and>
     GetAccount (rn_store (snd (create_user wd acc (fresh_run m j)))) (acc_ID acc) = Some (acc\<lparr>acc_Status := ''failed''\<rparr>) \<and>
     (let s' = snd (andthen (hold_or_release wd' (acc\<lparr>acc_Status := ''failed''\<rparr>)) (\<lambda>a. settle_account wd' a j) s)
      in (\<exists>a. GetAccount (rn_store s') (acc_ID acc) = Some a \<and> acc_Status a = ''active'') \<and>
         (''UnlockLinuxUser'', [(''username'', VString (acc_Username acc))]) \<in> set (rn_calls s'))"
proof (intro conjI)
  have job: "jobAccount m j = Some acc" using acc(3) j(2) by (simp add: jobAccount_def)
  have create: "fst (create_user wd acc t) = Inl e" "GetAccount (rn_store (snd (create_user wd acc t))) (acc_ID acc) = Some (acc\<lparr>acc_Status := ''failed''\<rparr>)" for t
    using refused by (simp_all add: create_user_def andthen_def attempt_def order_def dispatch_def writing_def fault_def PutAccount_def GetAccount_def)
  from create(1) obtain s0 where s0: "create_user wd acc (fresh_run m j) = (Inl e, s0)" by (metis prod.collapse)
  then have "set_up_user wd acc pkg pw (fresh_run m j) = (Inl e, s0)" for pkg pw by (simp add: set_up_user_def andthen_error)
  then show "handle backups wd j (fresh_run m j) = (Inl e, snd (create_user wd acc (fresh_run m j)))"
    using acc(2) j(1) job s0 by (simp add: handle_def provisionAccount_def run_reading andthen_error) (simp add: fresh_run_def run_reading andthen_error)
  show "GetAccount (rn_store (snd (create_user wd acc (fresh_run m j)))) (acc_ID acc) = Some (acc\<lparr>acc_Status := ''failed''\<rparr>)" by (rule create)
  let ?f = "acc\<lparr>acc_Status := ''failed''\<rparr>" and ?a = "acc\<lparr>acc_Status := ''active''\<rparr>"
  obtain s1 where s1: "hold_or_release wd' ?f s = (Inr ?a, s1)" "Accounts (rn_store s1) = Accounts (rn_store s)"
      "(''UnlockLinuxUser'', [(''username'', VString (acc_Username acc))]) \<in> set (rn_calls s1)"
    using release_result [OF wd(2), of ?f s] acc(1) later by auto
  have "GetAccount (rn_store s1) (acc_ID ?a) = Some ?f" using s1(2) later by (simp add: GetAccount_def)
  from settle_account_result [OF wd(2) _ this, of j] acc(1) j(2-4) s1(3)
  have "GetAccount (rn_store (snd (settle_account wd' ?a j s1))) (acc_ID acc) = Some (acknowledgeAccountRevision (rn_store s1) ?a j)"
    "(''UnlockLinuxUser'', [(''username'', VString (acc_Username acc))]) \<in> set (rn_calls (snd (settle_account wd' ?a j s1)))" by auto
  moreover have "acc_Status (acknowledgeAccountRevision (rn_store s1) ?a j) = ''active''"
    by (simp add: acknowledgeAccountRevision_def Let_def split: option.split)
  ultimately show "let s' = snd (andthen (hold_or_release wd' ?f) (\<lambda>a. settle_account wd' a j) s)
         in (\<exists>a. GetAccount (rn_store s') (acc_ID acc) = Some a \<and> acc_Status a = ''active'') \<and>
            (''UnlockLinuxUser'', [(''username'', VString (acc_Username acc))]) \<in> set (rn_calls s')"
    using s1(1) by (simp add: andthen_def Let_def)
qed


section \<open>Renewals\<close>

definition cert_pending :: "certificate \<Rightarrow> bool" where
  "cert_pending c \<longleftrightarrow> cert_Status c \<in> {''requested'', ''failed'', ''renewing''}"

definition in_flight :: "string \<Rightarrow> job \<Rightarrow> bool" where
  "in_flight cid j \<longleftrightarrow> job_Type j = ''certificate.provision'' \<and> (job_ResourceID j = cid \<or> pay j ''certificate_id'' = cid) \<and> job_State j \<in> {''queued'', ''running'', ''retrying''}"

definition good_cert :: "string \<Rightarrow> string \<Rightarrow> string \<Rightarrow> certificate \<Rightarrow> bool" where
  "good_cert cid a h c \<longleftrightarrow> (cert_ID c = cid \<longrightarrow> cert_pending c \<and> cert_AccountID c = a \<and> cert_Hostname c = h) \<and>
     (cert_ID c \<noteq> cid \<longrightarrow> \<not> (cert_AccountID c = a \<and> cert_Hostname c = h))"

text \<open>
  The certificate \<open>cid\<close> is the one of host \<open>h\<close> in account \<open>a\<close> and waits to be issued; the job \<open>kid\<close> has
  the key that a job for it would get, and no job for it is under way. New identifiers are unlike the
  two.
\<close>

definition stuck :: "world \<Rightarrow> string \<Rightarrow> string \<Rightarrow> string \<Rightarrow> string \<Rightarrow> run \<Rightarrow> bool" where
  "stuck wd cid kid a h s \<longleftrightarrow> (\<forall>n. wd_id wd n \<noteq> cid \<and> wd_id wd n \<noteq> kid) \<and> table cert_ID (Certs (rn_store s)) \<and>
     mget (Certs (rn_store s)) cid \<noteq> None \<and> (\<forall>c \<in> set (mvals (Certs (rn_store s))). good_cert cid a h c) \<and>
     (\<exists>j. mget (Jobs (rn_store s)) kid = Some j \<and> job_IdempotencyKey j = cert_key cid) \<and>
     (\<forall>j \<in> set (mvals (Jobs (rn_store s))). \<not> in_flight cid j)"

lemma ListCerts_mvals: "c \<in> set (ListCerts m i) \<Longrightarrow> c \<in> set (mvals (Certs m))"
  by (auto simp: ListCerts_def simp del: set_map)

lemma stuck_row: "stuck wd cid kid a h s \<Longrightarrow> c \<in> set (ListCerts (rn_store s) i) \<Longrightarrow> good_cert cid a h c"
  using ListCerts_mvals by (fastforce simp: stuck_def simp del: set_map)

lemma stuck_found:
  assumes s: "stuck wd cid kid a h s"
  shows "\<exists>c \<in> set (ListCerts (rn_store s) a). cert_Hostname c = h"
proof -
  obtain c where c: "mget (Certs (rn_store s)) cid = Some c" using s by (auto simp: stuck_def)
  with s have "cert_ID c = cid" by (auto simp: stuck_def dest: table_id)
  moreover have m: "c \<in> set (mvals (Certs (rn_store s)))" using c by (rule mget_mvals)
  ultimately have "cert_AccountID c = a" "cert_Hostname c = h" using s by (auto simp: stuck_def good_cert_def simp del: set_map)
  with m show ?thesis by (auto simp: ListCerts_def simp del: set_map)
qed

lemma stuck_idle: "stuck wd cid kid a h s \<Longrightarrow> \<not> inflightCert (rn_store s) cid"
  by (auto simp: stuck_def inflightCert_def ListJobs_def in_flight_def Let_def dest!: in_set_takeD simp del: set_map split: if_splits)

lemma stuck_new_id [safe_rules]: "safe (stuck wd cid kid a h) (\<lambda>i. i \<noteq> cid \<and> i \<noteq> kid) (new_id wd)"
  by (simp add: safe_def new_id_def stuck_def)

lemma mvals_mput: "v \<in> set (mvals (mput k x t)) \<Longrightarrow> v = x \<or> v \<in> set (mvals t)"
  by (induction t) (auto split: if_splits)

lemma mvals_mdel_if: "v \<in> set (mvals (mdel_if p t)) \<Longrightarrow> v \<in> set (mvals t)"
  by (auto simp: mdel_if_def)

lemma stuck_put [safe_rules]:
  assumes c: "good_cert cid a h c" shows "safe (stuck wd cid kid a h) (\<lambda>_. True) (writing (PutCert c))"
proof -
  have "stuck wd cid kid a h (s\<lparr>rn_store := PutCert c (rn_store s)\<rparr>)" if s: "stuck wd cid kid a h s" for s
  proof -
    let ?del = "mdel_if (\<lambda>i e. cert_AccountID e = cert_AccountID c \<and> cert_Hostname e = cert_Hostname c \<and> i \<noteq> cert_ID c) (Certs (rn_store s))"
    have t: "table cert_ID (Certs (rn_store s))" using s by (simp add: stuck_def)
    have 1: "\<forall>e \<in> set (mvals (mput (cert_ID c) c ?del)). good_cert cid a h e"
      using s c mvals_mput [of _ "cert_ID c" c ?del] mvals_mdel_if by (fastforce simp: stuck_def simp del: set_map)
    have 2: "mget (mput (cert_ID c) c ?del) cid \<noteq> None"
    proof (cases "cert_ID c = cid")
      case False
      obtain e where e: "mget (Certs (rn_store s)) cid = Some e" using s by (auto simp: stuck_def)
      then have "cert_ID e = cid" "e \<in> set (mvals (Certs (rn_store s)))" using t by (auto dest: table_id mget_mvals simp del: set_map)
      then have "cert_AccountID e = a \<and> cert_Hostname e = h" using s by (auto simp: stuck_def good_cert_def simp del: set_map)
      then show ?thesis using False c e t by (auto simp: mget_mdel_if good_cert_def table_mwf)
    qed simp
    show ?thesis using s 1 2 t by (simp add: stuck_def PutCert_def del: set_map)
  qed
  then show ?thesis by (simp add: safe_def writing_def)
qed

lemma stuck_enqueue [safe_rules]:
  assumes "job_ID j = ''''" and other: "job_IdempotencyKey j = cert_key cid \<or> \<not> (job_Type j = ''certificate.provision'' \<and> (job_ResourceID j = cid \<or> pay j ''certificate_id'' = cid))"
  shows "safe (stuck wd cid kid a h) (\<lambda>_. True) (enqueue wd j)"
proof -
  have "stuck wd cid kid a h (s\<lparr>rn_store := snd (EnqueueJob i t j (rn_store s))\<rparr>)" if s: "stuck wd cid kid a h s" and i: "i \<noteq> kid" for s i t
  proof (cases "if job_IdempotencyKey j \<noteq> [] then find (\<lambda>e. job_IdempotencyKey e = job_IdempotencyKey j) (mvals (Jobs (rn_store s))) else None")
    case (Some e)
    then have "snd (EnqueueJob i t j (rn_store s)) = rn_store s" by (simp add: EnqueueJob_def)
    then show ?thesis using s by simp
  next
    case None
    then have none: "job_IdempotencyKey j = [] \<or> (\<forall>e \<in> set (mvals (Jobs (rn_store s))). job_IdempotencyKey e \<noteq> job_IdempotencyKey j)"
      by (auto simp: find_None_iff split: if_splits)
    have "job_ID (normalizeJob i t j) = i" using assms(1) by (simp add: normalizeJob_def Let_def split: option.split)
    then have new: "snd (EnqueueJob i t j (rn_store s)) = rn_store s\<lparr>Jobs := mput i (normalizeJob i t j) (Jobs (rn_store s))\<rparr>"
      unfolding EnqueueJob_def None by (simp add: Let_def)
    have "\<exists>e \<in> set (mvals (Jobs (rn_store s))). job_IdempotencyKey e = cert_key cid"
      using s by (auto simp: stuck_def dest: mget_mvals simp del: set_map)
    then have "\<not> (job_Type j = ''certificate.provision'' \<and> (job_ResourceID j = cid \<or> pay j ''certificate_id'' = cid))"
      using other none by (auto simp: cert_key_def)
    then have "\<not> in_flight cid (normalizeJob i t j)"
      by (auto simp: in_flight_def normalizeJob_def Let_def split: option.splits)
    then show ?thesis using s i by (auto simp: stuck_def new dest!: mvals_mput simp del: set_map)
  qed
  then show ?thesis unfolding enqueue_def
    by (intro safe_andthen [OF stuck_new_id]) (simp add: safe_def writing_def)
qed


lemma stuck_cert_for:
  "safe (stuck wd cid kid a h) (\<lambda>oc. (oc = None \<longrightarrow> \<not> (acc_ID acc = a \<and> host = h)) \<and> (\<forall>c. oc = Some c \<longrightarrow> good_cert cid a h c)) (reading (\<lambda>m. cert_for m acc host))"
proof -
  have "good_cert cid a h c" if "stuck wd cid kid a h s" "cert_for (rn_store s) acc host = Some c" for s c
    using that stuck_row [of wd cid kid a h s c "acc_ID acc"] by (auto simp: cert_for_def find_Some_iff in_set_conv_nth)
  moreover have "cert_for (rn_store s) acc host \<noteq> None" if "stuck wd cid kid a h s" "acc_ID acc = a" "host = h" for s
    using stuck_found [OF that(1)] that by (auto simp: cert_for_def find_None_iff)
  ultimately show ?thesis by (simp add: safe_def reading_def del: not_None_eq) blast
qed

lemma stuck_pending:
  assumes "oc = None \<longrightarrow> \<not> (acc_ID acc = a \<and> host = h)" "\<forall>c. oc = Some c \<longrightarrow> good_cert cid a h c"
  shows "safe (stuck wd cid kid a h) (\<lambda>_. True) (pending_cert wd acc host oc)"
  unfolding pending_cert_def request_cert_def
  by (rule safe_rules | (insert assms; simp add: good_cert_def cert_pending_def; fail))+

lemma cert_job_fields [simp]:
  "job_ID (cert_job c key) = ''''" "job_IdempotencyKey (cert_job c key) = key" "job_ResourceID (cert_job c key) = cert_ID c" "pay (cert_job c key) ''certificate_id'' = cert_ID c"
  by (simp_all add: cert_job_def job0_def any_str_def)

lemma stuck_cert_job:
  "safe (stuck wd cid kid a h) (\<lambda>_. True) (enqueue wd (cert_job c (cert_key (cert_ID c))))"
  "cert_ID c \<noteq> cid \<Longrightarrow> safe (stuck wd cid kid a h) (\<lambda>_. True) (enqueue wd (cert_job c key))"
  by (rule stuck_enqueue; auto)+

lemma stuck_queue: "safe (stuck wd cid kid a h) (\<lambda>_. True) (queueCertificateProvision wd oacc host)"
  unfolding queueCertificateProvision_def
  by (rule stuck_cert_job(1) stuck_cert_for stuck_pending safe_rules | (simp; fail) | (elim conjE; assumption))+

lemma stuck_pending_scan: "safe (stuck wd cid kid a h) (\<lambda>_. True) (scanPendingCertificates wd)"
  unfolding scanPendingCertificates_def by (rule stuck_queue safe_rules | (simp; fail))+

lemma stuck_due: "safe (stuck wd cid kid a h) (\<lambda>cs. \<forall>c \<in> set cs. good_cert cid a h c) (reading (\<lambda>m. ListDueCertificates m t n))"
  by (auto simp: safe_def reading_def ListDueCertificates_def Let_def dest!: in_set_takeD intro: stuck_row split: if_splits)

lemma stuck_scan: "safe (stuck wd cid kid a h) (\<lambda>_. True) (scanCertRenewals wd)"
proof -
  have portal: "safe (stuck wd cid kid a h) (\<lambda>_. True) (scanPortalHostnameCert wd)"
    unfolding scanPortalHostnameCert_def by (rule safe_rules | (simp add: job0_def; fail))+
  have other: "cert_ID c \<noteq> cid" "good_cert cid a h (c\<lparr>cert_Status := ''renewing''\<rparr>)" if "good_cert cid a h c" "cert_Status c = ''active''" for c
    using that by (auto simp: good_cert_def cert_pending_def)
  show ?thesis unfolding scanCertRenewals_def
    by (rule stuck_cert_job(2) stuck_due stuck_pending_scan portal other safe_rules | (simp; fail))+
qed

text \<open>
  C38. A failed renewal is never tried again: once a job with the key \<^verbatim>\<open>cert-provision:<id>\<close> exists
  for a certificate and has ended, the scans leave the certificate waiting (requested, failed or
  renewing) and put no job for it into the queue, however often they run.
\<close>

theorem renewal_stuck:
  assumes "\<forall>n. wd_id wd n \<noteq> cid \<and> wd_id wd n \<noteq> kid" and certs: "table cert_ID (Certs m)" "mget (Certs m) cid = Some c" "cert_pending c"
    and only: "\<forall>e \<in> set (mvals (Certs m)). cert_AccountID e = cert_AccountID c \<and> cert_Hostname e = cert_Hostname c \<longrightarrow> cert_ID e = cid"
    and jobs: "mget (Jobs m) kid = Some old" "job_IdempotencyKey old = cert_key cid" "\<forall>j \<in> set (mvals (Jobs m)). \<not> in_flight cid j"
  shows "let s = ((\<lambda>s. snd (scanCertRenewals wd s)) ^^ n) (fresh_run m j)
         in \<not> inflightCert (rn_store s) cid \<and> (\<exists>c. GetCert (rn_store s) cid = Some c \<and> cert_pending c)"
proof -
  let ?J = "stuck wd cid kid (cert_AccountID c) (cert_Hostname c)"
  have id: "cert_ID c = cid" using table_id [OF certs(1,2)] .
  have row: "e = c" if "e \<in> set (mvals (Certs m))" "cert_ID e = cid" for e
    using that certs table_mvals_iff [OF certs(1), of e] by simp
  have "?J (fresh_run m j)"
    unfolding stuck_def
  proof (intro conjI)
    show "\<forall>e \<in> set (mvals (Certs (rn_store (fresh_run m j)))). good_cert cid (cert_AccountID c) (cert_Hostname c) e"
    proof
      fix e assume "e \<in> set (mvals (Certs (rn_store (fresh_run m j))))"
      then have e: "e \<in> set (mvals (Certs m))" by (simp add: fresh_run_def)
      show "good_cert cid (cert_AccountID c) (cert_Hostname c) e"
      proof (cases "cert_ID e = cid")
        case True
        from row [OF e True] certs(3) id show ?thesis by (simp add: good_cert_def)
      next
        case False
        with only e show ?thesis by (auto simp: good_cert_def simp del: set_map)
      qed
    qed
  qed (use assms in \<open>simp_all add: fresh_run_def del: set_map\<close>)
  then have s: "?J (((\<lambda>s. snd (scanCertRenewals wd s)) ^^ n) (fresh_run m j))"
    by (induction n) (use safeD [OF stuck_scan] in auto)
  let ?s = "((\<lambda>s. snd (scanCertRenewals wd s)) ^^ n) (fresh_run m j)"
  obtain c' where c': "mget (Certs (rn_store ?s)) cid = Some c'" using s by (auto simp: stuck_def)
  then have "cert_ID c' = cid" using s by (auto simp: stuck_def dest: table_id)
  then have "cert_pending c'" using s mget_mvals [OF c'] by (auto simp: stuck_def good_cert_def simp del: set_map)
  then show ?thesis using stuck_idle [OF s] c' by (simp add: Let_def GetCert_def)
qed


section \<open>Witnesses\<close>

text \<open>An account, a job for it, and a host that does what it is asked to do.\<close>

definition quiet_world :: world where
  "quiet_world = \<lparr>wd_reply = (\<lambda>_ _. Inr VNil), wd_meanwhile = (\<lambda>_ m. m), wd_id = (\<lambda>n. ''n'' @ itoa (int n)), wd_now = 0, wd_ip = ''203.0.113.7'',
     wd_private = (\<lambda>_. False), wd_directory = '''', wd_root = '''', wd_expiry = (\<lambda>_. 0), wd_txt = (\<lambda>_. ''''), wd_usage = (\<lambda>_. None),
     wd_walk = (\<lambda>_. []), wd_hash = Inr, wd_box = False, wd_encrypt = id, wd_decrypt = Some, wd_day = (\<lambda>t. itoa t), wd_portal = '''', wd_leaf = (\<lambda>_. None)\<rparr>"

definition al :: "string \<Rightarrow> account" where
  "al status = account0\<lparr>acc_ID := ''a1'', acc_Username := ''al'', acc_HomePath := ''/home/al'', acc_PackageID := ''p1'', acc_Status := status, acc_DesiredRevision := 1\<rparr>"

definition al_store :: "account \<Rightarrow> memory" where "al_store acc = NewMemory\<lparr>Accounts := [(''a1'', acc)]\<rparr>"

definition al_job :: job where
  "al_job = job0\<lparr>job_ID := ''j1'', job_Type := ''account.reconcile'', job_ResourceType := ''account'', job_ResourceID := ''a1'',
     job_Payload := [(''account_id'', VString ''a1'')], job_State := ''running'', job_TargetRevision := 1\<rparr>"

abbreviation al_run :: "string \<Rightarrow> run" where
  "al_run status \<equiv> snd (handle (\<lambda>_. ret ()) quiet_world al_job (fresh_run (al_store (al status)) al_job))"

lemma al_facts:
  "rely quiet_world ''a1'' ''al'' held" "rely_present quiet_world ''a1'' ''al''" "no_writer quiet_world" "agent_retires quiet_world"
  "GetAccount (al_store acc) ''a1'' = Some acc" "acc_ID (al status) = ''a1''" "acc_Username (al status) = ''al''" "acc_Status (al status) = status"
  "acc_PackageID (al status) = ''p1''" "acc_DesiredRevision (al status) = 1"
  "job_Type al_job = ''account.reconcile''" "job_ResourceType al_job = ''account''" "job_ResourceID al_job = ''a1''" "pay al_job ''account_id'' = ''a1''" "pay al_job ''username'' = ''''"
  by (simp_all add: rely_def rely_present_def no_writer_def agent_retires_def quiet_world_def al_def al_store_def al_job_def GetAccount_def any_str_def account0_def job0_def)

lemma al_job_within: "job_within (al_store acc) al_job ''a1'' ''al''"
  by (simp add: job_within_def al_facts al_store_def NewMemory_def GetDomain_def GetWebsite_def GetApp_def GetDB_def GetCert_def)

lemma al_job_account: "jobAccount (al_store acc) al_job = Some acc"
  by (simp add: jobAccount_def al_facts)


theorem suspension_kept_witness: "list_all (\<lambda>c. \<not> releasing c) (rn_calls (al_run ''suspended''))"
  unfolding list_all_iff using suspension_kept [OF al_facts(1,5,6,7,8) al_job_within] by (simp add: Let_def)

theorem removal_confirmed_witness: "confirmed quiet_world ''al'' (rn_calls (al_run ''terminating''))"
proof (rule removal_confirmed [OF al_facts(2,5,6,7) al_job_within])
  show "GetAccount (rn_store (al_run ''terminating'')) ''a1'' = None"
    using retire_succeeds [OF al_facts(4), of "al ''terminating''" al_job "fresh_run (al_store (al ''terminating'')) al_job"]
    by (simp add: terminating_run [OF al_job_account] al_facts)
qed

theorem termination_completes_witness: "GetAccount (rn_store (al_run ''terminating'')) ''a1'' = None"
  using termination_completes [OF al_job_account [of "al ''terminating''"] _ _ al_facts(4)] by (simp add: al_facts)

theorem package_change_lost_witness:
  "\<exists>a. GetAccount (rn_store (snd (settle_account quiet_world (al ''active'') al_job (fresh_run (al_store ((al ''active'')\<lparr>acc_PackageID := ''p2'', acc_DesiredRevision := 2\<rparr>)) al_job)))) ''a1'' = Some a \<and>
     acc_PackageID a = ''p1'' \<and> acc_PackageID a \<noteq> ''p2'' \<and> acc_DesiredRevision a = 2"
  using package_change_lost [OF al_facts(3), of "al ''active''" "fresh_run (al_store ((al ''active'')\<lparr>acc_PackageID := ''p2'', acc_DesiredRevision := 2\<rparr>)) al_job"
      "(al ''active'')\<lparr>acc_PackageID := ''p2'', acc_DesiredRevision := 2\<rparr>" al_job]
  by (simp add: al_facts fresh_run_def)

definition refusing_world :: world where "refusing_world = quiet_world\<lparr>wd_reply := (\<lambda>_ _. Inl ''refused'')\<rparr>"

theorem failed_reconcile_lifts_suspension_witness:
  "fst (handle (\<lambda>_. ret ()) refusing_world al_job (fresh_run (al_store (al ''suspended'')) al_job)) = Inl ''refused'' \<and>
   (let s' = snd (andthen (hold_or_release quiet_world (al ''failed'')) (\<lambda>a. settle_account quiet_world a al_job) (fresh_run (al_store (al ''failed'')) al_job))
    in (\<exists>a. GetAccount (rn_store s') ''a1'' = Some a \<and> acc_Status a = ''active'') \<and> (''UnlockLinuxUser'', [(''username'', VString ''al'')]) \<in> set (rn_calls s'))"
proof -
  have failed: "(al ''suspended'')\<lparr>acc_Status := ''failed''\<rparr> = al ''failed''" by (simp add: al_def)
  have refusing: "no_writer refusing_world" "\<And>h ps. wd_reply refusing_world h (''CreateLinuxUser'', ps) = Inl ''refused''"
    by (simp_all add: refusing_world_def no_writer_def quiet_world_def)
  show ?thesis
    using failed_reconcile_lifts_suspension [of "al ''suspended''" "al_store (al ''suspended'')" al_job refusing_world quiet_world "''refused''"
        "fresh_run (al_store (al ''failed'')) al_job" "\<lambda>_. ret ()"] refusing
    by (simp add: al_facts failed fresh_run_def)
qed

definition waiting_store :: memory where
  "waiting_store = NewMemory\<lparr>Certs := [(''c1'', certificate0\<lparr>cert_ID := ''c1'', cert_AccountID := ''a1'', cert_Hostname := ''x.org'', cert_Status := ''failed''\<rparr>)],
     Jobs := [(''k1'', job0\<lparr>job_ID := ''k1'', job_Type := ''certificate.provision'', job_ResourceID := ''c1'', job_State := ''succeeded'', job_IdempotencyKey := ''cert-provision:c1''\<rparr>)]\<rparr>"

theorem renewal_stuck_witness:
  "\<not> inflightCert (rn_store (((\<lambda>s. snd (scanCertRenewals quiet_world s)) ^^ 1000) (fresh_run waiting_store al_job))) ''c1''"
proof -
  let ?c = "certificate0\<lparr>cert_ID := ''c1'', cert_AccountID := ''a1'', cert_Hostname := ''x.org'', cert_Status := ''failed''\<rparr>"
  let ?j = "job0\<lparr>job_ID := ''k1'', job_Type := ''certificate.provision'', job_ResourceID := ''c1'', job_State := ''succeeded'', job_IdempotencyKey := ''cert-provision:c1''\<rparr>"
  have 1: "\<forall>n. wd_id quiet_world n \<noteq> ''c1'' \<and> wd_id quiet_world n \<noteq> ''k1''" by (simp add: quiet_world_def)
  have 2: "table cert_ID (Certs waiting_store)" "mget (Certs waiting_store) ''c1'' = Some ?c" "cert_pending ?c"
    "\<forall>e \<in> set (mvals (Certs waiting_store)). cert_AccountID e = cert_AccountID ?c \<and> cert_Hostname e = cert_Hostname ?c \<longrightarrow> cert_ID e = ''c1''"
    by (simp_all add: waiting_store_def cert_pending_def)
  have 3: "mget (Jobs waiting_store) ''k1'' = Some ?j" "job_IdempotencyKey ?j = cert_key ''c1''" "\<forall>j \<in> set (mvals (Jobs waiting_store)). \<not> in_flight ''c1'' j"
    by (simp_all add: waiting_store_def cert_key_def in_flight_def)
  show ?thesis using renewal_stuck [OF 1 2 3, of 1000 al_job] by (simp only: Let_def simp_thms)
qed

end
