(* ===== verification/Agent_Policy.thy ===== *)
theory Agent_Policy
  imports Validate
begin

text \<open>
  The path policy of the agent (\<^verbatim>\<open>agent/policy/path.go\<close>): which paths privileged operations may
  touch, which of them belong to an account, and how a path is cut at its approved directory.
\<close>

section \<open>The rules\<close>

definition allowedRoots :: "string list" where
  "allowedRoots = [''/home/'', ''/etc/nginx/panel-sites/'', ''/etc/php/'', ''/etc/systemd/system/'',
     ''/var/lib/panel/'', ''/run/panel/'', ''/var/vmail/'', ''/etc/panel/'', ''/etc/ssh/sshd_config.d/'',
     ''/var/tmp/panel-imports/'', ''/var/log/nginx/'', ''/var/www/panel-acme/'']"

text \<open>One iteration of the loop over the roots, and the exceptions after it.\<close>

definition root_allows :: "string \<Rightarrow> string \<Rightarrow> bool" where
  "root_allows clean rt \<longleftrightarrow>
     (if rt = ''/etc/php/''
      then has_prefix clean ''/etc/php/'' \<and> contains clean ''/fpm/pool.d/''
      else has_prefix clean (trim_suffix rt ''/'') \<and>
        (clean = trim_suffix rt ''/'' \<or> has_prefix clean rt \<or> has_prefix (clean @ ''/'') rt))"

definition listed_exception :: "string \<Rightarrow> bool" where
  "listed_exception clean \<longleftrightarrow>
     has_prefix clean ''/etc/cron.d/panel-'' \<or> has_prefix clean ''/etc/nginx/conf.d/panel-'' \<or>
     has_prefix clean ''/etc/rspamd/local.d/'' \<or> has_prefix clean ''/etc/phpmyadmin/conf.d/panel-'' \<or>
     clean = ''/etc/roundcube/config.panel.inc.php'' \<or> clean = ''/etc/roundcube/config.inc.php''"

definition ValidateManagedPath :: "string \<Rightarrow> string + string" where
  "ValidateManagedPath p =
     (if p = '''' \<or> CHR 0x00 \<in> set p then Inl ''empty or NUL path''
      else if \<not> filepath_IsAbs p then Inl ''path must be absolute''
      else let clean = filepath_Clean p
      in if contains clean [CHR 0x00] then Inl ''NUL path''
         else let ok = (\<exists>rt \<in> set allowedRoots. root_allows clean rt) \<or> listed_exception clean
         in if \<not> ok then Inl ''path outside approved prefixes''
            else if contains clean ''..'' then Inl ''path escape''
            else Inr clean)"

definition AccountRoot :: "string \<Rightarrow> string" where
  "AccountRoot username = filepath_Join ''/home'' username"

definition WithinAccount :: "string \<Rightarrow> string \<Rightarrow> string + string" where
  "WithinAccount username requested =
     (case ValidateManagedPath requested of
        Inl e \<Rightarrow> Inl e
      | Inr clean \<Rightarrow>
          let base = AccountRoot username
          in if clean \<noteq> base \<and> \<not> has_prefix clean (base @ ''/'') then Inl ''path outside account boundary''
             else Inr clean)"

definition AccountRelative :: "string \<Rightarrow> string \<times> string \<times> bool" where
  "AccountRelative clean =
     (if \<not> has_prefix clean ''/home/'' then ('''', '''', False)
      else let rest = trim_prefix clean ''/home/''
      in case cut (CHR ''/'') rest of (username, remainder, found) \<Rightarrow>
           if username = '''' then ('''', '''', False)
           else if \<not> found then (username, '''', True)
           else (username, remainder, True))"

definition split_candidates :: "string list" where
  "split_candidates = allowedRoots @ [''/etc/cron.d/'', ''/etc/nginx/conf.d/'', ''/etc/rspamd/local.d/'',
     ''/etc/phpmyadmin/conf.d/'', ''/etc/roundcube/'']"

fun best_base :: "string \<Rightarrow> string \<Rightarrow> string list \<Rightarrow> string" where
  "best_base clean best [] = best"
| "best_base clean best (rt # rts) =
     (let base = trim_suffix rt ''/''
      in best_base clean
           (if (clean = base \<or> has_prefix clean rt \<or> has_prefix (clean @ ''/'') rt) \<and> length base > length best
            then base else best) rts)"

definition SplitManaged :: "string \<Rightarrow> string + string \<times> string" where
  "SplitManaged clean =
     (let best = best_base clean '''' split_candidates
      in if best = '''' then Inl ''path outside approved prefixes''
         else if clean = best then Inl ''managed path requires a relative name''
         else let rel = trim_prefix clean (best @ ''/'')
         in if rel = '''' \<or> rel = clean \<or> contains rel ''..'' then Inl ''invalid managed relative path''
            else Inr (best, rel))"

section \<open>Strings and components\<close>

text \<open>A path that names the directory or something below it.\<close>

definition below :: "string list \<Rightarrow> string \<Rightarrow> bool" where
  "below ds p \<longleftrightarrow> prefix ds (path_parts p)"

lemma join_prefix:
  assumes "ds \<noteq> []"
  shows "join_with sep (ds @ ws) = (if ws = [] then join_with sep ds else join_with sep ds @ sep # join_with sep ws)"
  using assms by (induction ds rule: induct_list012) (auto simp: join_with_Cons)

lemma below_iff:
  assumes c: "filepath_Clean c = c" and ds: "\<forall>d \<in> set ds. plain_part d" "ds \<noteq> []"
    and b: "b = CHR ''/'' # join_with (CHR ''/'') ds"
  shows "below ds c \<longleftrightarrow> c = b \<or> has_prefix c (b @ ''/'')"
proof
  assume "below ds c"
  then obtain ws where "path_parts c = ds @ ws" by (auto simp: below_def prefix_def)
  then have "c = CHR ''/'' # join_with (CHR ''/'') (ds @ ws)" using c by (simp add: filepath_Clean_def)
  then show "c = b \<or> has_prefix c (b @ ''/'')"
    using ds(2) by (auto simp: join_prefix b has_prefix_def)
next
  assume "c = b \<or> has_prefix c (b @ ''/'')"
  then show "below ds c"
  proof
    assume "c = b"
    then show ?thesis using path_parts_of_clean [OF ds(1)] b by (simp add: below_def)
  next
    assume "has_prefix c (b @ ''/'')"
    then obtain r where r: "c = b @ CHR ''/'' # r" by (auto simp: has_prefix_def prefix_def)
    have no: "CHR ''/'' \<notin> set d" if "d \<in> set ds" for d using ds(1) that by (simp add: plain_part_def)
    have "split_on (CHR ''/'') (join_with (CHR ''/'') ds @ CHR ''/'' # r) = ds @ split_on (CHR ''/'') r"
      using ds(2) no
    proof (induction ds rule: induct_list012)
      case (3 x y zs)
      then show ?case by (simp add: split_on_append_sep)
    qed (simp_all add: split_on_append_sep)
    moreover have c2: "join_with (CHR ''/'') (path_parts c) = join_with (CHR ''/'') ds @ CHR ''/'' # r"
      using c r b by (simp add: filepath_Clean_def)
    moreover have "path_parts c \<noteq> []" using c2 by auto
    then have "split_on (CHR ''/'') (join_with (CHR ''/'') (path_parts c)) = path_parts c"
      using path_parts_plain [of c] by (intro split_join) (auto simp: plain_part_def)
    ultimately show ?thesis by (metis below_def prefixI)
  qed
qed

text \<open>The approved directories, by their components, in the order of the candidates.\<close>

definition approved_dirs :: "string list list" where
  "approved_dirs = [[''home''], [''etc'', ''nginx'', ''panel-sites''], [''etc'', ''php''], [''etc'', ''systemd'', ''system''],
     [''var'', ''lib'', ''panel''], [''run'', ''panel''], [''var'', ''vmail''], [''etc'', ''panel''],
     [''etc'', ''ssh'', ''sshd_config.d''], [''var'', ''tmp'', ''panel-imports''], [''var'', ''log'', ''nginx''],
     [''var'', ''www'', ''panel-acme''], [''etc'', ''cron.d''], [''etc'', ''nginx'', ''conf.d''],
     [''etc'', ''rspamd'', ''local.d''], [''etc'', ''phpmyadmin'', ''conf.d''], [''etc'', ''roundcube'']]"

definition dir_name :: "string list \<Rightarrow> string" where
  "dir_name ds = CHR ''/'' # join_with (CHR ''/'') ds"

lemma candidates_dirs: "split_candidates = map (\<lambda>ds. dir_name ds @ ''/'') approved_dirs"
  by code_simp

lemma approved_plain: "ds \<in> set approved_dirs \<Longrightarrow> (\<forall>d \<in> set ds. plain_part d) \<and> ds \<noteq> []"
proof -
  have "\<forall>ds \<in> set approved_dirs. (\<forall>d \<in> set ds. plain_part d) \<and> ds \<noteq> []" by code_simp
  then show "ds \<in> set approved_dirs \<Longrightarrow> (\<forall>d \<in> set ds. plain_part d) \<and> ds \<noteq> []" by simp
qed

lemma slash_prefix_iff: "has_prefix (c @ ''/'') (b @ ''/'') \<longleftrightarrow> c = b \<or> has_prefix c (b @ ''/'')"
  by (auto simp: has_prefix_def)

lemma trim_slash [simp]: "trim_suffix (b @ ''/'') ''/'' = b"
  by (simp add: trim_suffix_def)

lemma below_dir_iff:
  assumes "filepath_Clean c = c" "ds \<in> set approved_dirs"
  shows "below ds c \<longleftrightarrow> c = dir_name ds \<or> has_prefix c (dir_name ds @ ''/'')"
  using approved_plain [OF assms(2)] by (intro below_iff [OF assms(1)]) (simp_all add: dir_name_def)

lemma root_allows_below:
  assumes "filepath_Clean c = c" "rt \<in> set allowedRoots" "root_allows c rt"
  shows "\<exists>ds \<in> set approved_dirs. below ds c"
proof -
  have "rt \<in> set split_candidates" using assms(2) by (simp add: split_candidates_def)
  then obtain ds where ds: "ds \<in> set approved_dirs" "rt = dir_name ds @ ''/''"
    unfolding candidates_dirs by auto
  have "c = dir_name ds \<or> has_prefix c (dir_name ds @ ''/'')"
    using assms(3) unfolding root_allows_def ds(2) trim_slash slash_prefix_iff
    by (auto split: if_splits)
  then show ?thesis using ds(1) below_dir_iff [OF assms(1) ds(1)] by blast
qed

lemma has_prefix_trans: "has_prefix c (a @ b) \<Longrightarrow> has_prefix c a"
  by (auto simp: has_prefix_def prefix_def)

lemma listed_exception_below:
  assumes c: "filepath_Clean c = c" and l: "listed_exception c"
  shows "\<exists>ds \<in> set approved_dirs. below ds c"
proof -
  have dirs: "[''etc'', ''cron.d''] \<in> set approved_dirs" "[''etc'', ''nginx'', ''conf.d''] \<in> set approved_dirs"
    "[''etc'', ''rspamd'', ''local.d''] \<in> set approved_dirs" "[''etc'', ''phpmyadmin'', ''conf.d''] \<in> set approved_dirs"
    "[''etc'', ''roundcube''] \<in> set approved_dirs"
    by code_simp+
  have names: "dir_name [''etc'', ''cron.d''] @ ''/'' = ''/etc/cron.d/''"
    "dir_name [''etc'', ''nginx'', ''conf.d''] @ ''/'' = ''/etc/nginx/conf.d/''"
    "dir_name [''etc'', ''rspamd'', ''local.d''] @ ''/'' = ''/etc/rspamd/local.d/''"
    "dir_name [''etc'', ''phpmyadmin'', ''conf.d''] @ ''/'' = ''/etc/phpmyadmin/conf.d/''"
    "dir_name [''etc'', ''roundcube''] @ ''/'' = ''/etc/roundcube/''"
    by code_simp+
  have "has_prefix c ''/etc/cron.d/'' \<or> has_prefix c ''/etc/nginx/conf.d/'' \<or> has_prefix c ''/etc/rspamd/local.d/'' \<or>
      has_prefix c ''/etc/phpmyadmin/conf.d/'' \<or> has_prefix c ''/etc/roundcube/''"
    using l has_prefix_trans [of c "''/etc/cron.d/''" "''panel-''"]
      has_prefix_trans [of c "''/etc/nginx/conf.d/''" "''panel-''"]
      has_prefix_trans [of c "''/etc/phpmyadmin/conf.d/''" "''panel-''"]
    by (auto simp: listed_exception_def has_prefix_def)
  then show ?thesis
    using below_dir_iff [OF c dirs(1)] below_dir_iff [OF c dirs(2)] below_dir_iff [OF c dirs(3)]
      below_dir_iff [OF c dirs(4)] below_dir_iff [OF c dirs(5)] dirs unfolding names by blast
qed

lemma contains_single [simp]: "contains s [c] \<longleftrightarrow> c \<in> set s"
  by (induction s) auto

lemma contains_append: "contains s sub \<Longrightarrow> contains (t @ s) sub"
  by (induction t) auto

lemma split_on_chars: "w \<in> set (split_on sep s) \<Longrightarrow> c \<in> set w \<Longrightarrow> c \<in> set s"
proof (induction s arbitrary: w)
  case (Cons d s)
  then show ?case by (cases "split_on sep s") (fastforce split: if_splits)+
qed simp

lemma clean_parts_subset: "set (clean_parts st ws) \<subseteq> set st \<union> set ws"
proof (induction ws arbitrary: st)
  case (Cons w ws)
  have "set (tl st) \<subseteq> set st" by (cases st) auto
  then show ?case using Cons.IH [of st] Cons.IH [of "tl st"] Cons.IH [of "w # st"] by auto
qed simp

lemma Clean_chars: "c \<in> set (filepath_Clean p) \<Longrightarrow> c = CHR ''/'' \<or> c \<in> set p"
  using set_join [of "CHR ''/''" "path_parts p"] clean_parts_subset [of "[]" "split_on (CHR ''/'') p"]
    split_on_chars [of _ "CHR ''/''" p c]
  by (fastforce simp: filepath_Clean_def path_parts_def)

lemma Clean_abs [simp]: "filepath_IsAbs (filepath_Clean p)" "filepath_Clean p \<noteq> []"
  by (simp_all add: filepath_IsAbs_def has_prefix_def filepath_Clean_def)

text \<open>What validation accepts, without the order of its tests.\<close>

lemma Validate_iff:
  "ValidateManagedPath p = Inr c \<longleftrightarrow> filepath_IsAbs p \<and> CHR 0x00 \<notin> set p \<and> c = filepath_Clean p \<and>
     ((\<exists>rt \<in> set allowedRoots. root_allows c rt) \<or> listed_exception c) \<and> \<not> contains c ''..''"
proof -
  have "p \<noteq> []" if "filepath_IsAbs p" using that by (auto simp: filepath_IsAbs_def has_prefix_def)
  moreover have "CHR 0x00 \<notin> set (filepath_Clean p)" if "CHR 0x00 \<notin> set p"
    using that Clean_chars [of "CHR 0x00" p] by auto
  ultimately show ?thesis by (auto simp: ValidateManagedPath_def Let_def)
qed

lemma Username_plain: "Username u = None \<Longrightarrow> plain_part u"
  using Username_chars [of u] username_char_not unfolding plain_part_def by (metis hd_in_set length_0_conv list.set_intros(1) not_numeral_le_zero)

lemma AccountRoot_valid:
  assumes "Username u = None"
  shows "AccountRoot u = dir_name [''home'', u]"
proof -
  have u: "plain_part u" "u \<noteq> []" "CHR ''/'' \<notin> set u"
    using Username_plain [OF assms] by (simp_all add: plain_part_def)
  have h: "plain_part ''home''" by (simp add: plain_part_def)
  have "path_parts (CHR ''/'' # join_with (CHR ''/'') [''home'', u]) = [''home'', u]"
    using u(1) h by (intro path_parts_of_clean) simp
  then have "filepath_Clean (CHR ''/'' # join_with (CHR ''/'') [''home'', u]) = dir_name [''home'', u]"
    by (simp add: filepath_Clean_def dir_name_def)
  then show ?thesis using u(2) by (simp add: AccountRoot_def filepath_Join_def dir_name_def)
qed

lemma within_root_iff:
  assumes "Username u = None" "filepath_Clean c = c"
  shows "below [''home'', u] c \<longleftrightarrow> c = AccountRoot u \<or> has_prefix c (AccountRoot u @ ''/'')"
  unfolding AccountRoot_valid [OF assms(1)]
  using Username_plain [OF assms(1)] by (intro below_iff [OF assms(2)]) (auto simp: dir_name_def plain_part_def)

lemma home_allowed:
  assumes "filepath_Clean c = c" "below [''home'', u] c"
  shows "\<exists>rt \<in> set allowedRoots. root_allows c rt"
proof -
  have "below [''home''] c" using assms(2) by (auto simp: below_def prefix_def)
  moreover have "[''home''] \<in> set approved_dirs" by code_simp
  ultimately have "c = dir_name [''home''] \<or> has_prefix c (dir_name [''home''] @ ''/'')"
    using below_dir_iff [OF assms(1)] by blast
  then have "c = ''/home'' \<or> has_prefix c ''/home/''" by (simp add: dir_name_def)
  moreover have "trim_suffix ''/home/'' ''/'' = ''/home''" by code_simp
  ultimately have "root_allows c ''/home/''"
    using has_prefix_trans [of c "''/home''" "''/''"] by (auto simp: root_allows_def has_prefix_def)
  then show ?thesis by (auto simp: allowedRoots_def)
qed

section \<open>Properties\<close>

text \<open>
  Every path the agent accepts is clean, lies in one of the approved directories component by
  component (no lookalike such as \<^verbatim>\<open>/home2\<close>), has no parent reference, no NUL byte, and is
  accepted again unchanged.
\<close>

theorem managed_path_sound:
  assumes "ValidateManagedPath p = Inr c"
  shows "c = filepath_Clean p \<and> (\<exists>ds \<in> set approved_dirs. prefix ds (path_parts c)) \<and>
    (\<forall>w \<in> set (path_parts c). w \<noteq> ''..'' \<and> w \<noteq> ''.'' \<and> w \<noteq> '''') \<and> \<not> contains c ''..'' \<and> CHR 0x00 \<notin> set c \<and>
    ValidateManagedPath c = Inr c"
proof -
  from assms have c: "c = filepath_Clean p" "CHR 0x00 \<notin> set p" "\<not> contains c ''..''"
    and ok: "(\<exists>rt \<in> set allowedRoots. root_allows c rt) \<or> listed_exception c"
    unfolding Validate_iff by blast+
  have cc: "filepath_Clean c = c" using c(1) by simp
  have "\<exists>ds \<in> set approved_dirs. below ds c"
    using ok root_allows_below [OF cc] listed_exception_below [OF cc] by blast
  moreover have z: "CHR 0x00 \<notin> set c" using c(2) Clean_chars [of "CHR 0x00" p] unfolding c(1) by auto
  moreover have "ValidateManagedPath c = Inr c"
    unfolding Validate_iff using ok z cc c(1,3) Clean_abs(1) [of p] by simp
  moreover have "\<forall>w \<in> set (path_parts c). w \<noteq> ''..'' \<and> w \<noteq> ''.'' \<and> w \<noteq> ''''"
    using path_parts_plain [of c] by (simp add: plain_part_def)
  ultimately show ?thesis using c(1,3) by (simp only: below_def simp_thms)
qed

text \<open>
  C26. An account is confined to its home. For a valid account name, a path is accepted for the
  account exactly when it is absolute, free of NUL and of two adjacent dots, and its cleaned form
  is the account's home or lies below it; and no path is accepted for two accounts.
\<close>

theorem within_account_exact:
  assumes u: "Username u = None"
  shows "(WithinAccount u p = Inr c \<longleftrightarrow>
      filepath_IsAbs p \<and> CHR 0x00 \<notin> set p \<and> c = filepath_Clean p \<and> \<not> contains c ''..'' \<and>
      prefix [''home'', u] (path_parts c)) \<and>
    (WithinAccount u p = Inr c \<longrightarrow> Username u' = None \<longrightarrow> u' \<noteq> u \<longrightarrow> (\<exists>e. WithinAccount u' p = Inl e))"
proof -
  have iff: "WithinAccount v p = Inr c \<longleftrightarrow>
      filepath_IsAbs p \<and> CHR 0x00 \<notin> set p \<and> c = filepath_Clean p \<and> \<not> contains c ''..'' \<and> below [''home'', v] c"
    if v: "Username v = None" for v c
  proof -
    have eq: "WithinAccount v p = Inr c \<longleftrightarrow>
        ValidateManagedPath p = Inr c \<and> (c = AccountRoot v \<or> has_prefix c (AccountRoot v @ ''/''))"
      by (auto simp: WithinAccount_def Let_def split: sum.split)
    show ?thesis
    proof (cases "c = filepath_Clean p")
      case True
      then have cc: "filepath_Clean c = c" by simp
      show ?thesis
        unfolding eq Validate_iff using within_root_iff [OF v cc] home_allowed [OF cc, of v] by blast
    qed (simp add: eq Validate_iff)
  qed
  have "\<exists>e. WithinAccount u' p = Inl e"
    if "WithinAccount u p = Inr c" "Username u' = None" "u' \<noteq> u"
  proof (cases "WithinAccount u' p")
    case (Inr c')
    then have "below [''home'', u'] (filepath_Clean p)" "below [''home'', u] (filepath_Clean p)"
      using iff [OF u, of c] iff [OF that(2), of c'] that(1) by auto
    then show ?thesis using that(3) by (auto simp: below_def prefix_def)
  qed simp
  with iff [OF u, of c] show ?thesis unfolding below_def by blast
qed

definition hit :: "string \<Rightarrow> string \<Rightarrow> bool" where
  "hit clean rt \<longleftrightarrow> clean = trim_suffix rt ''/'' \<or> has_prefix clean rt \<or> has_prefix (clean @ ''/'') rt"

lemma best_base_spec:
  "length best \<le> length (best_base c best rts) \<and>
   (best_base c best rts = best \<or> (\<exists>rt \<in> set rts. best_base c best rts = trim_suffix rt ''/'' \<and> hit c rt)) \<and>
   (\<forall>rt \<in> set rts. hit c rt \<longrightarrow> length (trim_suffix rt ''/'') \<le> length (best_base c best rts))"
proof (induction rts arbitrary: best)
  case (Cons rt rts)
  define b where "b = (if hit c rt \<and> length (trim_suffix rt ''/'') > length best then trim_suffix rt ''/'' else best)"
  have step: "best_base c best (rt # rts) = best_base c b rts"
    by (simp add: b_def hit_def Let_def)
  have "length best \<le> length b" "b = best \<or> b = trim_suffix rt ''/'' \<and> hit c rt"
    "hit c rt \<longrightarrow> length (trim_suffix rt ''/'') \<le> length b" by (auto simp: b_def)
  with Cons.IH [of b] show ?case unfolding step by (auto intro: le_trans)
qed simp

lemma below_rest:
  assumes "filepath_Clean c = c" "below ds c" "ds \<noteq> []" "c \<noteq> dir_name ds"
  obtains r where "c = dir_name ds @ ''/'' @ r" "r \<noteq> []"
proof -
  obtain ws where ws: "path_parts c = ds @ ws" using assms(2) by (auto simp: below_def prefix_def)
  have c: "c = dir_name (ds @ ws)" using assms(1) ws by (simp add: filepath_Clean_def dir_name_def)
  then have "ws \<noteq> []" using assms(4) by auto
  moreover have "\<forall>w \<in> set ws. w \<noteq> []" using path_parts_plain [of c] ws by (simp add: plain_part_def)
  ultimately have "join_with (CHR ''/'') ws \<noteq> []" by (cases ws; cases "tl ws") auto
  then show thesis using that c \<open>ws \<noteq> []\<close> assms(3) by (simp add: dir_name_def join_prefix)
qed

text \<open>
  A path that was accepted can be cut for access below a directory handle: it is one of the
  approved directories itself, or it splits into an approved directory, the longest that contains
  it, and a non-empty relative path, whose concatenation is the path.
\<close>

theorem managed_path_splits:
  assumes "ValidateManagedPath p = Inr c"
  shows "case SplitManaged c of
      Inr (base, rel) \<Rightarrow> c = base @ ''/'' @ rel \<and> rel \<noteq> '''' \<and> (\<exists>ds \<in> set approved_dirs. base = dir_name ds) \<and>
        (\<forall>ds \<in> set approved_dirs. prefix ds (path_parts c) \<longrightarrow> length (dir_name ds) \<le> length base)
    | Inl e \<Rightarrow> \<exists>ds \<in> set approved_dirs. c = dir_name ds"
proof -
  from assms have c: "filepath_Clean c = c" "\<not> contains c ''..''"
    and ok: "(\<exists>rt \<in> set allowedRoots. root_allows c rt) \<or> listed_exception c"
    unfolding Validate_iff by auto
  have hits: "hit c (dir_name ds @ ''/'') \<longleftrightarrow> below ds c" if "ds \<in> set approved_dirs" for ds
    unfolding hit_def trim_slash slash_prefix_iff using below_dir_iff [OF c(1) that] by blast
  define best where "best = best_base c '''' split_candidates"
  have spec: "best = '''' \<or> (\<exists>ds \<in> set approved_dirs. best = dir_name ds \<and> below ds c)"
    "\<And>ds. ds \<in> set approved_dirs \<Longrightarrow> below ds c \<Longrightarrow> length (dir_name ds) \<le> length best"
    using best_base_spec [of "''''" c split_candidates] hits
    unfolding best_def candidates_dirs by (auto simp del: append_Cons)
  obtain d0 where d0: "d0 \<in> set approved_dirs" "below d0 c"
    using ok root_allows_below [OF c(1)] listed_exception_below [OF c(1)] by blast
  have ne: "best \<noteq> ''''" using spec(2) [OF d0] by (auto simp: dir_name_def)
  then obtain ds where ds: "ds \<in> set approved_dirs" "best = dir_name ds" "below ds c" using spec(1) by blast
  show ?thesis
  proof (cases "c = best")
    case True
    then have "SplitManaged c = Inl ''managed path requires a relative name''"
      using ne unfolding SplitManaged_def Let_def best_def [symmetric] by simp
    then show ?thesis using True ds by auto
  next
    case False
    then obtain r where r: "c = best @ ''/'' @ r" "r \<noteq> []"
      using below_rest [OF c(1) ds(3)] approved_plain [OF ds(1)] ds(2) by blast
    have "trim_prefix c (best @ ''/'') = r" using r(1) by (simp add: trim_prefix_def has_prefix_def)
    moreover have "r \<noteq> c" using r by (metis append.assoc append_self_conv2 ne Nil_is_append_conv)
    moreover have "\<not> contains r ''..''" using c(2) r(1) contains_append [of r "''..''" "best @ ''/''"] by auto
    ultimately have "SplitManaged c = Inr (best, r)"
      using ne False r(2) unfolding SplitManaged_def Let_def best_def [symmetric] by simp
    then show ?thesis using r ds(1,2) spec(2) by (auto simp: below_def)
  qed
qed

text \<open>
  \<^verbatim>\<open>AccountRelative\<close> inverts the layout of homes: the home of a valid account and every path
  below it are cut into the account's name and the rest.
\<close>

theorem account_relative_inverts:
  assumes "Username u = None"
  shows "AccountRelative (AccountRoot u) = (u, '''', True) \<and>
    AccountRelative (AccountRoot u @ ''/'' @ rel) = (u, rel, True)"
proof -
  have u: "u \<noteq> []" "CHR ''/'' \<notin> set u" using Username_plain [OF assms] by (simp_all add: plain_part_def)
  have cut_no: "cut sep s = (s, [], False)" if "sep \<notin> set s" for sep s
    using that by (induction s) auto
  have cut_at: "cut sep (s @ sep # t) = (s, t, True)" if "sep \<notin> set s" for sep s t
    using that by (induction s) auto
  have root: "AccountRoot u = ''/home/'' @ u" using AccountRoot_valid [OF assms] by (simp add: dir_name_def)
  have pre: "has_prefix (''/home/'' @ x) ''/home/''" "trim_prefix (''/home/'' @ x) ''/home/'' = x" for x
    by (simp_all add: has_prefix_def trim_prefix_def)
  have ar: "AccountRelative (''/home/'' @ x) = (case cut (CHR ''/'') x of (username, remainder, found) \<Rightarrow>
      if username = '''' then ('''', '''', False)
      else if \<not> found then (username, '''', True) else (username, remainder, True))" for x
    unfolding AccountRelative_def Let_def by (simp only: pre simp_thms if_False not_True_eq_False)
  show ?thesis
    unfolding root append_assoc ar using u(1) cut_no [OF u(2)] cut_at [OF u(2), of rel] by simp
qed

section \<open>Witnesses\<close>

theorem managed_path_sound_witness: "ValidateManagedPath ''/home/bob/site'' = Inr ''/home/bob/site''"
proof -
  have "ValidateManagedPath ''/home//bob/./tmp/../site/'' = Inr ''/home/bob/site''" by code_simp
  from managed_path_sound [OF this] show ?thesis by blast
qed

theorem within_account_exact_witness:
  "\<exists>e. WithinAccount ''al'' ''/home/bob/x/../y'' = Inl e"
proof -
  have "Username ''bob'' = None" "WithinAccount ''bob'' ''/home/bob/x/../y'' = Inr ''/home/bob/y''"
    "Username ''al'' = None" "''al'' \<noteq> ''bob''"
    by code_simp+
  then show ?thesis by (rule within_account_exact [THEN conjunct2, rule_format])
qed

theorem managed_path_splits_witness:
  "SplitManaged ''/etc/nginx/conf.d/panel-a'' = Inr (''/etc/nginx/conf.d'', ''panel-a'') \<and>
   ''/etc/nginx/conf.d/panel-a'' = ''/etc/nginx/conf.d'' @ ''/'' @ ''panel-a''"
proof -
  have s: "SplitManaged ''/etc/nginx/conf.d/panel-a'' = Inr (''/etc/nginx/conf.d'', ''panel-a'')" by code_simp
  have "ValidateManagedPath ''/etc/nginx/conf.d/panel-a'' = Inr ''/etc/nginx/conf.d/panel-a''" by code_simp
  from managed_path_splits [OF this] s show ?thesis by simp
qed

theorem account_relative_inverts_witness:
  "AccountRelative (AccountRoot ''bob'' @ ''/'' @ ''public_html'') = (''bob'', ''public_html'', True)"
proof -
  have "Username ''bob'' = None" by code_simp
  from account_relative_inverts [OF this] show ?thesis by blast
qed

end
