(* ===== verification/Rbac.thy ===== *)
theory Rbac
  imports Go_Strings
begin

text \<open>
  Roles and capabilities (\<^verbatim>\<open>internal/rbac/rbac.go\<close>): the capabilities of each role, the actor of a
  request, and what an actor may do.
\<close>

section \<open>Capabilities and roles\<close>

abbreviation ServerRead :: string where "ServerRead \<equiv> ''server.read''"
abbreviation ServerSettingsWrite :: string where "ServerSettingsWrite \<equiv> ''server.settings.write''"
abbreviation ServerServicesRead :: string where "ServerServicesRead \<equiv> ''server.services.read''"
abbreviation ServerServicesRestart :: string where "ServerServicesRestart \<equiv> ''server.services.restart''"
abbreviation ServerFirewallRead :: string where "ServerFirewallRead \<equiv> ''server.firewall.read''"
abbreviation ServerFirewallWrite :: string where "ServerFirewallWrite \<equiv> ''server.firewall.write''"
abbreviation AccountsRead :: string where "AccountsRead \<equiv> ''accounts.read''"
abbreviation AccountsCreate :: string where "AccountsCreate \<equiv> ''accounts.create''"
abbreviation AccountsModify :: string where "AccountsModify \<equiv> ''accounts.modify''"
abbreviation AccountsSuspend :: string where "AccountsSuspend \<equiv> ''accounts.suspend''"
abbreviation AccountsTerminate :: string where "AccountsTerminate \<equiv> ''accounts.terminate''"
abbreviation AccountsImpersonate :: string where "AccountsImpersonate \<equiv> ''accounts.impersonate''"
abbreviation ResellersRead :: string where "ResellersRead \<equiv> ''resellers.read''"
abbreviation ResellersCreate :: string where "ResellersCreate \<equiv> ''resellers.create''"
abbreviation ResellersModify :: string where "ResellersModify \<equiv> ''resellers.modify''"
abbreviation PackagesRead :: string where "PackagesRead \<equiv> ''packages.read''"
abbreviation PackagesWrite :: string where "PackagesWrite \<equiv> ''packages.write''"
abbreviation DomainsRead :: string where "DomainsRead \<equiv> ''domains.read''"
abbreviation DomainsWrite :: string where "DomainsWrite \<equiv> ''domains.write''"
abbreviation DNSRead :: string where "DNSRead \<equiv> ''dns.read''"
abbreviation DNSWrite :: string where "DNSWrite \<equiv> ''dns.write''"
abbreviation WebsitesRead :: string where "WebsitesRead \<equiv> ''websites.read''"
abbreviation WebsitesWrite :: string where "WebsitesWrite \<equiv> ''websites.write''"
abbreviation ApplicationsRead :: string where "ApplicationsRead \<equiv> ''applications.read''"
abbreviation ApplicationsWrite :: string where "ApplicationsWrite \<equiv> ''applications.write''"
abbreviation DatabasesRead :: string where "DatabasesRead \<equiv> ''databases.read''"
abbreviation DatabasesWrite :: string where "DatabasesWrite \<equiv> ''databases.write''"
abbreviation MailRead :: string where "MailRead \<equiv> ''mail.read''"
abbreviation MailWrite :: string where "MailWrite \<equiv> ''mail.write''"
abbreviation BackupsRead :: string where "BackupsRead \<equiv> ''backups.read''"
abbreviation BackupsCreate :: string where "BackupsCreate \<equiv> ''backups.create''"
abbreviation BackupsRestore :: string where "BackupsRestore \<equiv> ''backups.restore''"
abbreviation SecurityAuditRead :: string where "SecurityAuditRead \<equiv> ''security.audit.read''"
abbreviation APITokensRead :: string where "APITokensRead \<equiv> ''api_tokens.read''"
abbreviation APITokensWrite :: string where "APITokensWrite \<equiv> ''api_tokens.write''"
abbreviation FilesRead :: string where "FilesRead \<equiv> ''files.read''"
abbreviation FilesWrite :: string where "FilesWrite \<equiv> ''files.write''"
abbreviation CronRead :: string where "CronRead \<equiv> ''cron.read''"
abbreviation CronWrite :: string where "CronWrite \<equiv> ''cron.write''"
abbreviation BillingUsageRead :: string where "BillingUsageRead \<equiv> ''billing.usage.read''"
abbreviation AccountsExport :: string where "AccountsExport \<equiv> ''accounts.export''"
abbreviation AccountsExportCredentials :: string where "AccountsExportCredentials \<equiv> ''accounts.export_credentials''"

definition AllCaps :: "string list" where
  "AllCaps = [ServerRead, ServerSettingsWrite, ServerServicesRead, ServerServicesRestart,
       ServerFirewallRead, ServerFirewallWrite, AccountsRead, AccountsCreate, AccountsModify,
       AccountsSuspend, AccountsTerminate, AccountsImpersonate, ResellersRead, ResellersCreate,
       ResellersModify, PackagesRead, PackagesWrite, DomainsRead, DomainsWrite, DNSRead, DNSWrite,
       WebsitesRead, WebsitesWrite, ApplicationsRead, ApplicationsWrite, DatabasesRead,
       DatabasesWrite, MailRead, MailWrite, BackupsRead, BackupsCreate, BackupsRestore,
       SecurityAuditRead, APITokensRead, APITokensWrite, FilesRead, FilesWrite, CronRead, CronWrite,
       BillingUsageRead, AccountsExport, AccountsExportCredentials]"

definition RoleCaps :: "(string, string list) gomap" where
  "RoleCaps = [
     (''root_owner'', AllCaps),
     (''server_administrator'', AllCaps),
     (''server_operator'', [ServerRead, ServerServicesRead, ServerServicesRestart, AccountsRead, PackagesRead,
       DomainsRead, DNSRead, WebsitesRead, SecurityAuditRead, BillingUsageRead]),
     (''reseller'', [AccountsRead, AccountsCreate, AccountsModify, AccountsSuspend, PackagesRead, PackagesWrite,
       DomainsRead, DomainsWrite, DNSRead, WebsitesRead, BackupsRead, BackupsCreate, BackupsRestore,
       BillingUsageRead, AccountsExport]),
     (''customer_owner'', [DomainsRead, DomainsWrite, DNSRead, DNSWrite, WebsitesRead, WebsitesWrite, ApplicationsRead,
       ApplicationsWrite, DatabasesRead, DatabasesWrite, MailRead, MailWrite, BackupsRead,
       BackupsCreate, BackupsRestore, FilesRead, FilesWrite, CronRead, CronWrite, APITokensRead,
       APITokensWrite, BillingUsageRead, AccountsExport]),
     (''customer_administrator'', [DomainsRead, DomainsWrite, DNSRead, DNSWrite, WebsitesRead, WebsitesWrite, ApplicationsRead,
       ApplicationsWrite, DatabasesRead, DatabasesWrite, MailRead, MailWrite, FilesRead, FilesWrite,
       CronRead, CronWrite]),
     (''customer_user'', [DomainsRead, WebsitesRead, MailRead, FilesRead, DatabasesRead, DNSRead]),
     (''auditor'', [ServerRead, AccountsRead, SecurityAuditRead, BillingUsageRead])]"

definition role_caps :: "string \<Rightarrow> string list" where
  "role_caps role = (case mget RoleCaps role of None \<Rightarrow> [] | Some cs \<Rightarrow> cs)"

record actor =
  act_UserID :: string
  act_Username :: string
  act_Roles :: "string list"
  act_Capabilities :: "(string, bool) gomap"
  act_AccountIDs :: "string list"
  act_ResellerID :: string
  act_ImpersonatorID :: string
  act_IsServerScope :: bool

definition cap_on :: "(string, bool) gomap \<Rightarrow> string \<Rightarrow> bool" where
  "cap_on caps c = (case mget caps c of None \<Rightarrow> False | Some b \<Rightarrow> b)"

definition Has :: "actor \<Rightarrow> string \<Rightarrow> bool" where
  "Has a c = cap_on (act_Capabilities a) c"

definition CanAccount :: "actor \<Rightarrow> string \<Rightarrow> bool" where
  "CanAccount a accountID = (if act_IsServerScope a then True else (\<exists>i \<in> set (act_AccountIDs a). i = accountID))"

definition Expand :: "string list \<Rightarrow> string list \<Rightarrow> (string, bool) gomap" where
  "Expand roles extra =
     (let out = foldl (\<lambda>out r. foldl (\<lambda>o' c. mput c True o') out (role_caps r)) [] roles
      in foldl (\<lambda>out c0. let c = trim_space c0 in if c \<noteq> '''' then mput c True out else out) out extra)"

definition RoleCapability :: "string \<Rightarrow> string \<Rightarrow> bool" where
  "RoleCapability role capability \<longleftrightarrow> (\<exists>allowed \<in> set (role_caps role). allowed = capability)"

definition AccountSafe :: "string \<Rightarrow> bool" where
  "AccountSafe capability = RoleCapability ''customer_owner'' capability"

section \<open>What an expansion grants\<close>

lemma cap_on_put: "cap_on (mput c b m) c' = (if c' = c then b else cap_on m c')"
  by (simp add: cap_on_def)

lemma cap_on_fold: "cap_on (foldl (\<lambda>o' c. mput c True o') m cs) c \<longleftrightarrow> cap_on m c \<or> c \<in> set cs"
  by (induction cs arbitrary: m) (auto simp: cap_on_put)

lemma cap_on_roles:
  "cap_on (foldl (\<lambda>out r. foldl (\<lambda>o' c. mput c True o') out (role_caps r)) m roles) c \<longleftrightarrow>
     cap_on m c \<or> (\<exists>r \<in> set roles. RoleCapability r c)"
  by (induction roles arbitrary: m) (auto simp: cap_on_fold RoleCapability_def)

lemma cap_on_extra:
  "cap_on (foldl (\<lambda>out c0. if trim_space c0 \<noteq> '''' then mput (trim_space c0) True out else out) m extra) c \<longleftrightarrow>
     cap_on m c \<or> c \<noteq> '''' \<and> (\<exists>e \<in> set extra. trim_space e = c)"
  by (induction extra arbitrary: m) (auto simp: cap_on_put Let_def)

lemma cap_on_Expand:
  "cap_on (Expand roles extra) c \<longleftrightarrow>
     (\<exists>r \<in> set roles. RoleCapability r c) \<or> c \<noteq> '''' \<and> (\<exists>e \<in> set extra. trim_space e = c)"
  by (simp add: Expand_def Let_def cap_on_extra cap_on_roles) (simp add: cap_on_def)

text \<open>Capabilities that administer the server or other accounts.\<close>

definition admin_caps :: "string list" where
  "admin_caps = [ServerSettingsWrite, ServerFirewallRead, ServerFirewallWrite, AccountsTerminate, AccountsImpersonate,
     ResellersRead, ResellersCreate, ResellersModify, AccountsExportCredentials]"

section \<open>Properties\<close>

text \<open>
  The roles are separated: every role has known capabilities only; the capabilities that
  administer the server or other accounts belong to the two administrator roles and to nobody else;
  no role of a customer has any capability of the server or of accounts but exporting its own; the
  customer roles are ordered by inclusion; an unknown role has none.
\<close>

theorem roles_separated:
  "(\<forall>role \<in> set (map fst RoleCaps). \<forall>c \<in> set (role_caps role). c \<in> set AllCaps) \<and>
   (\<forall>role c. RoleCapability role c \<longrightarrow> c \<in> set admin_caps \<longrightarrow> role \<in> {''root_owner'', ''server_administrator''}) \<and>
   (\<forall>c. AccountSafe c \<longrightarrow> \<not> has_prefix c ''server.'' \<and> \<not> has_prefix c ''resellers.'' \<and> \<not> has_prefix c ''packages.'' \<and>
      (has_prefix c ''accounts.'' \<longrightarrow> c = AccountsExport)) \<and>
   (\<forall>c. RoleCapability ''customer_user'' c \<longrightarrow> RoleCapability ''customer_administrator'' c) \<and>
   (\<forall>c. RoleCapability ''customer_administrator'' c \<longrightarrow> AccountSafe c) \<and>
   (\<forall>role c. role \<notin> set (map fst RoleCaps) \<longrightarrow> \<not> RoleCapability role c)"
proof (intro conjI)
  show "\<forall>role \<in> set (map fst RoleCaps). \<forall>c \<in> set (role_caps role). c \<in> set AllCaps" by code_simp
  have unknown: "\<not> RoleCapability role c" if "role \<notin> set (map fst RoleCaps)" for role c
    using that by (simp add: RoleCapability_def role_caps_def map_of_eq_None_iff [THEN iffD2])
  then show "\<forall>role c. role \<notin> set (map fst RoleCaps) \<longrightarrow> \<not> RoleCapability role c" by blast
  have adm: "\<forall>role \<in> set (map fst RoleCaps). role \<noteq> ''root_owner'' \<longrightarrow> role \<noteq> ''server_administrator'' \<longrightarrow>
      (\<forall>c \<in> set (role_caps role). c \<notin> set admin_caps)" by code_simp
  show "\<forall>role c. RoleCapability role c \<longrightarrow> c \<in> set admin_caps \<longrightarrow> role \<in> {''root_owner'', ''server_administrator''}"
  proof (intro allI impI)
    fix role c assume rc: "RoleCapability role c" and c: "c \<in> set admin_caps"
    have known: "role \<in> set (map fst RoleCaps)" using rc unknown by metis
    have "c \<in> set (role_caps role)" using rc by (simp add: RoleCapability_def)
    then show "role \<in> {''root_owner'', ''server_administrator''}"
      using bspec [OF adm known] c by (metis insertI1 insertI2)
  qed
  have "\<forall>c \<in> set (role_caps ''customer_owner''). \<not> has_prefix c ''server.'' \<and> \<not> has_prefix c ''resellers.'' \<and>
      \<not> has_prefix c ''packages.'' \<and> (has_prefix c ''accounts.'' \<longrightarrow> c = AccountsExport)" by code_simp
  then show "\<forall>c. AccountSafe c \<longrightarrow> \<not> has_prefix c ''server.'' \<and> \<not> has_prefix c ''resellers.'' \<and> \<not> has_prefix c ''packages.'' \<and>
      (has_prefix c ''accounts.'' \<longrightarrow> c = AccountsExport)"
    unfolding AccountSafe_def RoleCapability_def by blast
  have "\<forall>c \<in> set (role_caps ''customer_user''). c \<in> set (role_caps ''customer_administrator'')" by code_simp
  then show "\<forall>c. RoleCapability ''customer_user'' c \<longrightarrow> RoleCapability ''customer_administrator'' c"
    unfolding RoleCapability_def by blast
  have "\<forall>c \<in> set (role_caps ''customer_administrator''). c \<in> set (role_caps ''customer_owner'')" by code_simp
  then show "\<forall>c. RoleCapability ''customer_administrator'' c \<longrightarrow> AccountSafe c"
    unfolding AccountSafe_def RoleCapability_def by blast
qed

theorem roles_separated_witness:
  "RoleCapability ''customer_user'' MailRead \<and> RoleCapability ''customer_administrator'' MailRead"
proof -
  have u: "RoleCapability ''customer_user'' MailRead" by code_simp
  with roles_separated [THEN conjunct2, THEN conjunct2, THEN conjunct2, THEN conjunct1, rule_format, OF u] show ?thesis by blast
qed

end
