(* ===== verification/Api_Auth.thy ===== *)
theory Api_Auth imports Store_Jobs Rbac begin

text \<open>
  Authentication and authorisation of the API (\<^verbatim>\<open>internal/httpserver/api.go\<close>): login, forced
  password change, logout, session refresh, impersonation, API tokens, and the actor that a request
  acts as.

  A request is the part of it that this code reads. SHA-256 (\<^verbatim>\<open>auth.HashToken\<close>), the Argon2id
  functions, fresh identifiers and tokens, the clock and the JSON decoder are arguments. An answer
  is the status and code of a refusal, or the data of the reply. Cookies and the log of failed
  logins are not represented.
\<close>

section \<open>Requests, answers, audit\<close>

datatype 'a answer = Refused nat string | Reply 'a

record http_req =
  rq_Authorization :: string
  rq_Cookie :: "string option"
  rq_IP :: string
  rq_UserAgent :: string
  rq_RequestID :: string

definition bearer :: "http_req \<Rightarrow> string" where
  "bearer r =
     (if has_prefix (to_lower (rq_Authorization r)) ''bearer '' then trim_space (drop 7 (rq_Authorization r)) else '''')"

definition request_token :: "http_req \<Rightarrow> string" where
  "request_token r =
     (if bearer r = '''' then (case rq_Cookie r of Some c \<Rightarrow> c | None \<Rightarrow> '''') else bearer r)"

definition AppendAudit :: "string \<Rightarrow> gotime \<Rightarrow> auditevent \<Rightarrow> memory \<Rightarrow> memory" where
  "AppendAudit fresh now e0 m =
     (let e = (if aud_ID e0 = '''' then e0\<lparr>aud_ID := fresh\<rparr> else e0);
          e = (if aud_OccurredAt e = 0 then e\<lparr>aud_OccurredAt := now\<rparr> else e)
      in m\<lparr>Audit := Audit m @ [e]\<rparr>)"

definition firstNonEmpty :: "string \<Rightarrow> string \<Rightarrow> string" where
  "firstNonEmpty a b = (if a \<noteq> '''' then a else b)"

definition auditEvent ::
    "actor \<Rightarrow> http_req \<Rightarrow> string \<Rightarrow> string \<Rightarrow> string \<Rightarrow> string \<Rightarrow> (string, any) gomap \<Rightarrow> (string, any) gomap \<Rightarrow> auditevent" where
  "auditEvent ac r accountID action rtype rid before after = auditevent0\<lparr>
     aud_ActorType := ''user'', aud_ActorID := act_UserID ac,
     aud_EffectiveActor := firstNonEmpty (act_ImpersonatorID ac) (act_UserID ac),
     aud_AccountID := accountID, aud_Action := action, aud_ResourceType := rtype, aud_ResourceID := rid,
     aud_RequestID := rq_RequestID r, aud_Success := True, aud_SourceIP := rq_IP r,
     aud_UserAgent := rq_UserAgent r, aud_Before := before, aud_After := after \<rparr>"

section \<open>The rate limiter\<close>

type_synonym limiter = "(string, gotime list) gomap"

definition allow :: "gotime \<Rightarrow> string \<Rightarrow> nat \<Rightarrow> int \<Rightarrow> limiter \<Rightarrow> bool \<times> limiter" where
  "allow now key n window l =
     (let hits = (case mget l key of None \<Rightarrow> [] | Some h \<Rightarrow> h);
          fresh = filter (\<lambda>t. now - t < window) hits
      in if length fresh \<ge> n then (False, mput key fresh l) else (True, mput key (fresh @ [now]) l))"

definition minute :: int where "minute = 60 * 1000000000"
definition hour :: int where "hour = 60 * minute"

section \<open>Who acts\<close>

definition hasRole :: "string list \<Rightarrow> string \<Rightarrow> bool" where
  "hasRole roles role \<longleftrightarrow> (\<exists>c \<in> set roles. c = role)"

definition userCanAuthenticate :: "memory \<Rightarrow> user \<Rightarrow> bool" where
  "userCanAuthenticate m u =
     (if usr_Status u \<noteq> ''active'' then False
      else if \<not> hasRole (usr_Roles u) ''reseller'' then True
      else (case ResellerByUser m (usr_ID u) of None \<Rightarrow> True | Some rs \<Rightarrow> rsl_Status rs = ''active''))"

definition actor0 :: actor where
  "actor0 = \<lparr> act_UserID = '''', act_Username = '''', act_Roles = [], act_Capabilities = [], act_AccountIDs = [],
     act_ResellerID = '''', act_ImpersonatorID = '''', act_IsServerScope = False \<rparr>"

definition mask_caps :: "(string, bool) gomap \<Rightarrow> string list \<Rightarrow> (string, bool) gomap" where
  "mask_caps caps privs = foldl (\<lambda>masked c. if cap_on caps c then mput c True masked else masked) [] privs"

text \<open>The loop that adds a reseller's accounts, with the set \<^verbatim>\<open>seen\<close> as the list so far.\<close>

fun add_reseller_accounts :: "string \<Rightarrow> string list \<Rightarrow> account list \<Rightarrow> string list" where
  "add_reseller_accounts rid ids [] = ids"
| "add_reseller_accounts rid ids (a # as) =
     add_reseller_accounts rid
       (if acc_ResellerID a = rid \<and> acc_ID a \<notin> set ids then ids @ [acc_ID a] else ids) as"

definition server_roles :: "string list" where
  "server_roles = [''root_owner'', ''server_administrator'', ''server_operator'', ''auditor'']"

definition actorFromUser :: "memory \<Rightarrow> user \<Rightarrow> actor" where
  "actorFromUser m u =
     (let result = actor0\<lparr>act_UserID := usr_ID u, act_Username := usr_Username u, act_Roles := usr_Roles u\<rparr>
      in if usr_Status u \<noteq> ''active'' then result
         else
           let server = (\<exists>r \<in> set (usr_Roles u). r \<in> set server_roles);
               ids = AccountsForUser m (usr_ID u);
               caps = Expand (usr_Roles u) []
           in case (if hasRole (usr_Roles u) ''reseller'' then ResellerByUser m (usr_ID u) else None) of
                None \<Rightarrow> result\<lparr>act_Capabilities := caps, act_AccountIDs := ids, act_IsServerScope := server\<rparr>
              | Some rs \<Rightarrow>
                  if rsl_Status rs \<noteq> ''active'' then result\<lparr>act_ResellerID := rsl_ID rs\<rparr>
                  else result\<lparr>act_Capabilities := mask_caps caps (rsl_PrivilegeMask rs),
                         act_AccountIDs := add_reseller_accounts (rsl_ID rs) ids (ListAccounts m '''' ''''),
                         act_ResellerID := rsl_ID rs, act_IsServerScope := server\<rparr>)"

text \<open>The middleware: the actor that the request acts as.\<close>

definition token_caps :: "string list \<Rightarrow> (string, bool) gomap" where
  "token_caps cs = foldl (\<lambda>caps c. if AccountSafe c then mput c True caps else caps) [] cs"

definition authenticate :: "(string \<Rightarrow> string) \<Rightarrow> gotime \<Rightarrow> http_req \<Rightarrow> memory \<Rightarrow> actor answer" where
  "authenticate hash now r m =
     (let token = request_token r
      in if token = '''' then Refused 401 ''UNAUTHENTICATED''
         else if has_prefix token ''hp_live_'' then
           (case TokenByHash m now (hash token) of
              None \<Rightarrow> Refused 401 ''INVALID_TOKEN''
            | Some t \<Rightarrow>
                (case UserByID m (tok_UserID t) of
                   None \<Rightarrow> Refused 401 ''INVALID_TOKEN''
                 | Some u \<Rightarrow>
                     if \<not> userCanAuthenticate m u then Refused 401 ''INVALID_TOKEN''
                     else if usr_MustChangePassword u then Refused 403 ''PASSWORD_CHANGE_REQUIRED''
                     else Reply ((actorFromUser m u)\<lparr> act_Roles := [], act_Capabilities := token_caps (tok_Capabilities t),
                            act_IsServerScope := False,
                            act_AccountIDs := (if tok_AccountID t \<noteq> '''' then [tok_AccountID t] else []) \<rparr>)))
         else
           (case SessionByHash m now (hash token) of
              None \<Rightarrow> Refused 401 ''UNAUTHENTICATED''
            | Some s \<Rightarrow>
                (case UserByID m (ses_UserID s) of
                   None \<Rightarrow> Refused 401 ''UNAUTHENTICATED''
                 | Some u \<Rightarrow>
                     if \<not> userCanAuthenticate m u then Refused 401 ''UNAUTHENTICATED''
                     else if usr_MustChangePassword u then Refused 403 ''PASSWORD_CHANGE_REQUIRED''
                     else Reply ((actorFromUser m u)\<lparr>act_ImpersonatorID := ses_ImpersonatorID s\<rparr>))))"

definition require :: "actor \<Rightarrow> string \<Rightarrow> bool" where
  "require ac c = Has ac c"

definition requireServer :: "actor \<Rightarrow> string \<Rightarrow> bool" where
  "requireServer ac c = (if \<not> require ac c then False else act_IsServerScope ac)"

definition requireAccount :: "actor \<Rightarrow> string \<Rightarrow> string \<Rightarrow> bool" where
  "requireAccount ac accountID c = (\<not> (\<not> Has ac c \<or> \<not> CanAccount ac accountID))"

section \<open>Sessions\<close>

text \<open>What a handler draws from the outside: the clock, identifiers and a new opaque token.\<close>

record outside =
  sup_now :: gotime
  sup_id :: string
  sup_audit :: string
  sup_job :: string
  sup_token :: "string option"

definition login ::
    "(string \<Rightarrow> string) \<Rightarrow> (string \<Rightarrow> string \<Rightarrow> bool) \<Rightarrow> outside \<Rightarrow> http_req \<Rightarrow> (string \<times> string) option \<Rightarrow>
     limiter \<times> memory \<Rightarrow> (string \<times> session) answer \<times> limiter \<times> memory" where
  "login hash verify sp r body lm =
     (let (l, m) = lm
      in case allow (sup_now sp) (''login:'' @ rq_IP r) 8 minute l of
           (False, l1) \<Rightarrow> (Refused 429 ''RATE_LIMITED'', l1, m)
         | (True, l1) \<Rightarrow>
             (case body of
                None \<Rightarrow> (Refused 400 ''INVALID_JSON'', l1, m)
              | Some (username, password) \<Rightarrow>
                  let ou = UserByUsername m username;
                      ok = (case ou of None \<Rightarrow> False
                            | Some u \<Rightarrow> verify (usr_PasswordHash u) password \<and> userCanAuthenticate m u);
                      m1 = AppendAudit (sup_audit sp) (sup_now sp) (auditevent0\<lparr> aud_ActorType := ''user'',
                             aud_Action := ''auth.login'', aud_RequestID := rq_RequestID r,
                             aud_Success := (ok \<and> (case ou of None \<Rightarrow> False | Some u \<Rightarrow> \<not> usr_MustChangePassword u)),
                             aud_SourceIP := rq_IP r, aud_UserAgent := rq_UserAgent r,
                             aud_Metadata := [(''username'', VString username)] \<rparr>) m
                  in (case (ok, ou) of
                        (True, Some u) \<Rightarrow>
                          if usr_MustChangePassword u then (Refused 403 ''PASSWORD_CHANGE_REQUIRED'', l1, m1)
                          else (case sup_token sp of
                                  None \<Rightarrow> (Refused 500 ''SESSION_ERROR'', l1, m1)
                                | Some plain \<Rightarrow>
                                    let s = \<lparr> ses_ID = sup_id sp, ses_UserID = usr_ID u, ses_TokenHash = hash plain,
                                              ses_ExpiresAt = sup_now sp + 12 * hour, ses_RevokedAt = None,
                                              ses_SourceIP = rq_IP r, ses_UserAgent = rq_UserAgent r,
                                              ses_ImpersonatorID = '''', ses_ImpersonationReason = '''' \<rparr>
                                    in (Reply (plain, s), l1, PutSession s m1))
                      | _ \<Rightarrow> (Refused 401 ''INVALID_CREDENTIALS'', l1, m1))))"

definition logout :: "(string \<Rightarrow> string) \<Rightarrow> gotime \<Rightarrow> http_req \<Rightarrow> memory \<Rightarrow> memory" where
  "logout hash now r m =
     (case rq_Cookie r of
        None \<Rightarrow> m
      | Some c \<Rightarrow> (case SessionByHash m now (hash c) of None \<Rightarrow> m | Some s \<Rightarrow> RevokeSession now (ses_ID s) m))"

text \<open>\<open>body\<close> is the user name and password of the body, \<open>None\<close> when it is not JSON; an empty body has neither.\<close>

definition refresh ::
    "(string \<Rightarrow> string) \<Rightarrow> outside \<Rightarrow> http_req \<Rightarrow> (string \<times> string) option \<Rightarrow> memory \<Rightarrow> (string \<times> session) answer \<times> memory" where
  "refresh hash sp r body m =
     (case body of
        None \<Rightarrow> (Refused 400 ''INVALID_JSON'', m)
      | Some (username, password) \<Rightarrow>
          if trim_space username \<noteq> '''' \<or> password \<noteq> '''' then (Refused 400 ''REFRESH_REQUIRES_SESSION'', m)
          else let token = request_token r
          in if token = '''' \<or> has_prefix token ''hp_live_'' then (Refused 401 ''UNAUTHENTICATED'', m)
             else (case SessionByHash m (sup_now sp) (hash token) of
                     None \<Rightarrow> (Refused 401 ''UNAUTHENTICATED'', m)
                   | Some current \<Rightarrow>
                       (case UserByID m (ses_UserID current) of
                          None \<Rightarrow> (Refused 401 ''UNAUTHENTICATED'', m)
                        | Some u \<Rightarrow>
                            if \<not> userCanAuthenticate m u then (Refused 401 ''UNAUTHENTICATED'', m)
                            else if usr_MustChangePassword u then (Refused 403 ''PASSWORD_CHANGE_REQUIRED'', m)
                            else (case sup_token sp of
                                    None \<Rightarrow> (Refused 500 ''SESSION_ERROR'', m)
                                  | Some plain \<Rightarrow>
                                      let nxt = \<lparr> ses_ID = sup_id sp, ses_UserID = usr_ID u, ses_TokenHash = hash plain,
                                              ses_ExpiresAt = sup_now sp + 12 * hour, ses_RevokedAt = None,
                                              ses_SourceIP = rq_IP r, ses_UserAgent = rq_UserAgent r,
                                              ses_ImpersonatorID = ses_ImpersonatorID current,
                                              ses_ImpersonationReason = ses_ImpersonationReason current \<rparr>
                                      in (Reply (plain, nxt),
                                          RevokeSession (sup_now sp) (ses_ID current) (PutSession nxt m))))))"

definition impersonate ::
    "(string \<Rightarrow> string) \<Rightarrow> outside \<Rightarrow> actor \<Rightarrow> http_req \<Rightarrow> string \<Rightarrow> string \<Rightarrow> memory \<Rightarrow> (string \<times> session) answer \<times> memory" where
  "impersonate hash sp ac r accID reason m =
     (if \<not> requireAccount ac accID AccountsImpersonate then (Refused 403 ''FORBIDDEN'', m)
      else (case GetAccount m accID of
              None \<Rightarrow> (Refused 404 ''NOT_FOUND'', m)
            | Some acc \<Rightarrow>
                if reason = '''' then (Refused 400 ''VALIDATION'', m)
                else
                  let plain = (case sup_token sp of None \<Rightarrow> '''' | Some p \<Rightarrow> p);
                      s = \<lparr> ses_ID = sup_id sp, ses_UserID = acc_OwnerUserID acc,
                            ses_TokenHash = (case sup_token sp of None \<Rightarrow> '''' | Some p \<Rightarrow> hash p),
                            ses_ExpiresAt = sup_now sp + 30 * minute, ses_RevokedAt = None,
                            ses_SourceIP = rq_IP r, ses_UserAgent = rq_UserAgent r,
                            ses_ImpersonatorID = act_UserID ac, ses_ImpersonationReason = reason \<rparr>
                  in (Reply (plain, s),
                      AppendAudit (sup_audit sp) (sup_now sp)
                        (auditEvent ac r '''' ''account.impersonate'' ''account'' (acc_ID acc) []
                           [(''reason'', VString reason), (''effective_actor'', VString (acc_OwnerUserID acc))])
                        (PutSession s m))))"

section \<open>Passwords and tokens\<close>

text \<open>\<open>body\<close> holds the user name, the current and the new password; \<open>newhash\<close> the result of \<^verbatim>\<open>HashPassword\<close>.\<close>

definition owned_account :: "memory \<Rightarrow> user \<Rightarrow> account option" where
  "owned_account m u = find (\<lambda>a. acc_OwnerUserID a = usr_ID u) (ListAccounts m '''' '''')"

definition isServerAdmin :: "user \<Rightarrow> bool" where
  "isServerAdmin u \<longleftrightarrow> (\<exists>role \<in> set (usr_Roles u). role = ''root_owner'' \<or> role = ''server_administrator'')"

text \<open>The write: the user's record with the new hash, and the job that sets the system password of an owned account.\<close>

definition store_password ::
    "outside \<Rightarrow> http_req \<Rightarrow> user \<Rightarrow> account option \<Rightarrow> string \<Rightarrow> string \<Rightarrow> memory \<Rightarrow> string option \<times> memory" where
  "store_password sp r u account ph new m =
     (case account of
        Some a \<Rightarrow>
          (case RotatePasswordAndEnqueue (sup_job sp) (sup_now sp) (usr_ID u) ph False
             (job0\<lparr> job_Type := ''account.reconcile'', job_ResourceType := ''account'',
                job_ResourceID := acc_ID a,
                job_Payload := [(''account_id'', VString (acc_ID a)), (''linux_password'', VString new)],
                job_ActorID := usr_ID u, job_RequestID := rq_RequestID r \<rparr>) m of
             (Inl e, m1) \<Rightarrow> (None, m1)
           | (Inr j, m1) \<Rightarrow> (Some (job_ID j), m1))
      | None \<Rightarrow> (Some '''', PutUser (u\<lparr>usr_PasswordHash := ph, usr_MustChangePassword := False\<rparr>) m))"

definition password_event :: "http_req \<Rightarrow> user \<Rightarrow> account option \<Rightarrow> string \<Rightarrow> auditevent" where
  "password_event r u account jobID = auditevent0\<lparr>
     aud_ActorType := ''user'', aud_ActorID := usr_ID u, aud_EffectiveActor := usr_ID u,
     aud_AccountID := (case account of None \<Rightarrow> '''' | Some a \<Rightarrow> acc_ID a),
     aud_Action := ''auth.password.complete'', aud_ResourceType := ''user'',
     aud_ResourceID := usr_ID u, aud_RequestID := rq_RequestID r, aud_Success := True,
     aud_SourceIP := rq_IP r, aud_UserAgent := rq_UserAgent r,
     aud_Before := [(''must_change_password'', VBool True)],
     aud_After := [(''must_change_password'', VBool False), (''operation_id'', VString jobID)] \<rparr>"

definition completePasswordChange ::
    "(string \<Rightarrow> string \<Rightarrow> bool) \<Rightarrow> string option \<Rightarrow> outside \<Rightarrow> http_req \<Rightarrow> (string \<times> string \<times> string) option \<Rightarrow>
     limiter \<times> memory \<Rightarrow> string answer \<times> limiter \<times> memory" where
  "completePasswordChange verify newhash sp r body lm =
     (let (l, m) = lm
      in case allow (sup_now sp) (''complete-password-change:'' @ rq_IP r) 8 minute l of
           (False, l1) \<Rightarrow> (Refused 429 ''RATE_LIMITED'', l1, m)
         | (True, l1) \<Rightarrow>
             (case body of
                None \<Rightarrow> (Refused 400 ''INVALID_JSON'', l1, m)
              | Some (username, current, new) \<Rightarrow>
                  (case UserByUsername m username of
                     None \<Rightarrow> (Refused 401 ''INVALID_CREDENTIALS'', l1, m)
                   | Some u \<Rightarrow>
                       if usr_Status u \<noteq> ''active'' \<or> \<not> verify (usr_PasswordHash u) current
                       then (Refused 401 ''INVALID_CREDENTIALS'', l1, m)
                       else if \<not> usr_MustChangePassword u then (Refused 409 ''PASSWORD_CHANGE_NOT_REQUIRED'', l1, m)
                       else if length new < 12 then (Refused 400 ''VALIDATION'', l1, m)
                       else if verify (usr_PasswordHash u) new then (Refused 400 ''VALIDATION'', l1, m)
                       else if owned_account m u = None \<and> \<not> isServerAdmin u then (Refused 409 ''ACCOUNT_REQUIRED'', l1, m)
                       else (case newhash of
                               None \<Rightarrow> (Refused 500 ''PASSWORD_ERROR'', l1, m)
                             | Some ph \<Rightarrow>
                                 (case store_password sp r u (owned_account m u) ph new m of
                                    (None, m1) \<Rightarrow> (Refused 500 ''PASSWORD_ERROR'', l1, m1)
                                  | (Some jobID, m1) \<Rightarrow>
                                      (Reply jobID, l1,
                                       AppendAudit (sup_audit sp) (sup_now sp) (password_event r u (owned_account m u) jobID)
                                         (RevokeSessionsForUser (sup_now sp) (usr_ID u) m1)))))))"

text \<open>The loop over the requested capabilities; \<open>None\<close> when one is not available.\<close>

fun grantable :: "actor \<Rightarrow> string list \<Rightarrow> string list \<Rightarrow> string list option" where
  "grantable ac acc [] = Some acc"
| "grantable ac acc (c0 # cs) =
     (let c = trim_space c0
      in if \<not> AccountSafe c \<or> \<not> Has ac c then None
         else grantable ac (if c \<notin> set acc then acc @ [c] else acc) cs)"

definition TokenPrefix :: "string \<Rightarrow> string" where
  "TokenPrefix plain = (if length plain < 12 then plain else take 12 plain)"

text \<open>\<open>body\<close> is the name and the capabilities; \<open>secret\<close> the hexadecimal random part of the token.\<close>

definition createToken ::
    "(string \<Rightarrow> string) \<Rightarrow> string option \<Rightarrow> outside \<Rightarrow> actor \<Rightarrow> http_req \<Rightarrow> string \<Rightarrow> (string \<times> string list) option \<Rightarrow>
     memory \<Rightarrow> (string \<times> apitoken) answer \<times> memory" where
  "createToken hash secret sp ac r accountID body m =
     (if \<not> requireAccount ac accountID APITokensWrite then (Refused 403 ''FORBIDDEN'', m)
      else (case body of
              None \<Rightarrow> (Refused 400 ''INVALID_JSON'', m)
            | Some (name, requested) \<Rightarrow>
                (case grantable ac [] requested of
                   None \<Rightarrow> (Refused 400 ''VALIDATION'', m)
                 | Some caps \<Rightarrow>
                     (case secret of
                        None \<Rightarrow> (Refused 500 ''TOKEN_ERROR'', m)
                      | Some raw \<Rightarrow>
                          let plain = ''hp_live_'' @ raw;
                              t = \<lparr> tok_ID = sup_id sp, tok_UserID = act_UserID ac, tok_Name = name,
                                    tok_Prefix = TokenPrefix plain, tok_TokenHash = hash plain, tok_Scope = ''account'',
                                    tok_AccountID = accountID, tok_Capabilities = caps, tok_ExpiresAt = None,
                                    tok_RevokedAt = None \<rparr>
                          in (Reply (plain, t),
                              AppendAudit (sup_audit sp) (sup_now sp)
                                (auditEvent ac r '''' ''api_token.create'' ''api_token'' (tok_ID t) []
                                   [(''prefix'', VString (tok_Prefix t)), (''scope'', VString (tok_Scope t))])
                                (PutToken t m))))))"

definition deleteToken ::
    "outside \<Rightarrow> actor \<Rightarrow> http_req \<Rightarrow> string \<Rightarrow> string \<Rightarrow> memory \<Rightarrow> string answer \<times> memory" where
  "deleteToken sp ac r aid tokenID m =
     (if \<not> requireAccount ac aid APITokensWrite then (Refused 403 ''FORBIDDEN'', m)
      else (case GetToken m tokenID of
              None \<Rightarrow> (Refused 404 ''NOT_FOUND'', m)
            | Some t \<Rightarrow>
                if tok_UserID t \<noteq> act_UserID ac \<or> tok_AccountID t \<noteq> aid then (Refused 404 ''NOT_FOUND'', m)
                else (Reply (tok_ID t),
                      AppendAudit (sup_audit sp) (sup_now sp)
                        (auditEvent ac r '''' ''api_token.delete'' ''api_token'' (tok_ID t)
                           [(''prefix'', VString (tok_Prefix t))] [])
                        (DeleteToken (tok_ID t) m))))"

text \<open>The privileges of a reseller: \<open>None\<close> stands for a list that was not given.\<close>

fun reseller_privs :: "string list \<Rightarrow> string list \<Rightarrow> string list option" where
  "reseller_privs out [] = Some out"
| "reseller_privs out (c0 # cs) =
     (let c = trim_space c0
      in if \<not> RoleCapability ''reseller'' c then None
         else reseller_privs (if c \<notin> set out then out @ [c] else out) cs)"

definition explicitResellerPrivileges :: "string list option \<Rightarrow> string list option" where
  "explicitResellerPrivileges requested =
     (case requested of None \<Rightarrow> Some (role_caps ''reseller'') | Some cs \<Rightarrow> reseller_privs [] cs)"

section \<open>What an actor may do\<close>

lemma cap_on_mask: "cap_on (mask_caps caps privs) c \<longleftrightarrow> cap_on caps c \<and> c \<in> set privs"
proof -
  have "cap_on (foldl (\<lambda>masked c. if cap_on caps c then mput c True masked else masked) m privs) c \<longleftrightarrow>
      cap_on m c \<or> cap_on caps c \<and> c \<in> set privs" for m
    by (induction privs arbitrary: m) (auto simp: cap_on_put)
  from this [of "[]"] show ?thesis by (simp add: mask_caps_def cap_on_def [of "[]"])
qed

lemma cap_on_token: "cap_on (token_caps cs) c \<longleftrightarrow> AccountSafe c \<and> c \<in> set cs"
proof -
  have "cap_on (foldl (\<lambda>caps c. if AccountSafe c then mput c True caps else caps) m cs) c \<longleftrightarrow>
      cap_on m c \<or> AccountSafe c \<and> c \<in> set cs" for m
    by (induction cs arbitrary: m) (auto simp: cap_on_put)
  from this [of "[]"] show ?thesis by (simp add: token_caps_def cap_on_def [of "[]"])
qed

lemma set_add_reseller: "set (add_reseller_accounts rid ids as) = set ids \<union> acc_ID ` {a \<in> set as. acc_ResellerID a = rid}"
  by (induction as arbitrary: ids) auto

lemma set_unique_from: "set (unique_from seen xs) = set xs - set seen"
  by (induction seen xs rule: unique_from.induct) auto

lemma ListAccounts_all: "set (ListAccounts m '''' '''') = set (mvals (Accounts m))"
  by (simp add: ListAccounts_def account_listed_def to_lower_def)

lemma AccountsForUser_iff:
  "a \<in> set (AccountsForUser m uid) \<longleftrightarrow>
     (\<exists>us. (a, us) \<in> set (Members m) \<and> uid \<in> set us) \<or>
     (\<exists>x \<in> set (mvals (Accounts m)). acc_OwnerUserID x = uid \<and> acc_ID x = a)"
  by (auto simp: AccountsForUser_def unique_def set_unique_from filter_empty_conv image_iff)

text \<open>What a user has a right to, by roles, membership, ownership and reselling.\<close>

definition role_right :: "user \<Rightarrow> string \<Rightarrow> bool" where
  "role_right u c \<longleftrightarrow> (\<exists>role \<in> set (usr_Roles u). RoleCapability role c)"

definition account_right :: "memory \<Rightarrow> user \<Rightarrow> string \<Rightarrow> bool" where
  "account_right m u a \<longleftrightarrow>
     (\<exists>role \<in> set (usr_Roles u). role \<in> set server_roles) \<or>
     (\<exists>us. (a, us) \<in> set (Members m) \<and> usr_ID u \<in> set us) \<or>
     (\<exists>x \<in> set (mvals (Accounts m)). acc_ID x = a \<and> (acc_OwnerUserID x = usr_ID u \<or>
        (\<exists>rs \<in> set (mvals (Resellers m)). hasRole (usr_Roles u) ''reseller'' \<and> rsl_UserID rs = usr_ID u \<and>
           rsl_Status rs = ''active'' \<and> acc_ResellerID x = rsl_ID rs)))"

lemma find_set: "find P xs = Some x \<Longrightarrow> x \<in> set xs \<and> P x"
  by (metis find_Some_iff nth_mem)

lemma actorFromUser_caps:
  assumes "userCanAuthenticate m u"
  shows "Has (actorFromUser m u) c \<longleftrightarrow> role_right u c \<and>
    (case (if hasRole (usr_Roles u) ''reseller'' then ResellerByUser m (usr_ID u) else None) of
       None \<Rightarrow> True | Some rs \<Rightarrow> c \<in> set (rsl_PrivilegeMask rs))"
  using assms
  by (auto simp: actorFromUser_def Has_def userCanAuthenticate_def role_right_def cap_on_mask cap_on_Expand Let_def
      split: option.splits if_splits)

lemma actorFromUser_accounts:
  assumes "CanAccount (actorFromUser m u) a"
  shows "account_right m u a"
proof (cases "if hasRole (usr_Roles u) ''reseller'' then ResellerByUser m (usr_ID u) else None")
  case None
  with assms show ?thesis
    by (auto simp: actorFromUser_def CanAccount_def account_right_def AccountsForUser_iff actor0_def Let_def
        split: if_splits)
next
  case (Some rs)
  then have rs: "hasRole (usr_Roles u) ''reseller''" "rs \<in> set (mvals (Resellers m))" "rsl_UserID rs = usr_ID u"
    using find_set [of "\<lambda>r. rsl_UserID r = usr_ID u" "mvals (Resellers m)" rs]
    by (auto simp: ResellerByUser_def split: if_splits)
  show ?thesis
  proof (cases "rsl_Status rs = ''active'' \<and> usr_Status u = ''active'' \<and> \<not> (\<exists>role \<in> set (usr_Roles u). role \<in> set server_roles)")
    case True
    with Some assms have "a \<in> set (AccountsForUser m (usr_ID u)) \<or>
        (\<exists>x \<in> set (mvals (Accounts m)). acc_ResellerID x = rsl_ID rs \<and> acc_ID x = a)"
      by (auto simp: actorFromUser_def CanAccount_def set_add_reseller ListAccounts_all Let_def)
    then show ?thesis using rs True unfolding AccountsForUser_iff account_right_def by blast
  next
    case False
    with Some assms show ?thesis
      by (auto simp: actorFromUser_def CanAccount_def account_right_def actor0_def Let_def split: if_splits)
  qed
qed

lemma actorFromUser_scope: "act_IsServerScope (actorFromUser m u) \<Longrightarrow> \<exists>role \<in> set (usr_Roles u). role \<in> set server_roles"
  by (auto simp: actorFromUser_def actor0_def Let_def split: if_splits option.splits)

lemma actorFromUser_id [simp]: "act_UserID (actorFromUser m u) = usr_ID u"
  by (simp add: actorFromUser_def Let_def split: option.split)

lemma Has_upd [simp]:
  "Has (ac\<lparr>act_ImpersonatorID := i\<rparr>) c = Has ac c" "CanAccount (ac\<lparr>act_ImpersonatorID := i\<rparr>) a = CanAccount ac a"
  by (simp_all add: Has_def CanAccount_def)

section \<open>Sessions and tokens that count\<close>

definition live_session :: "memory \<Rightarrow> gotime \<Rightarrow> string \<Rightarrow> session \<Rightarrow> bool" where
  "live_session m now h s \<longleftrightarrow> s \<in> set (mvals (Sessions m)) \<and> ses_TokenHash s = h \<and> ses_RevokedAt s = None \<and> now < ses_ExpiresAt s"

definition live_token :: "memory \<Rightarrow> gotime \<Rightarrow> string \<Rightarrow> apitoken \<Rightarrow> bool" where
  "live_token m now h t \<longleftrightarrow> t \<in> set (mvals (Tokens m)) \<and> tok_TokenHash t = h \<and> tok_RevokedAt t = None \<and>
     (\<forall>e. tok_ExpiresAt t = Some e \<longrightarrow> now \<le> e)"

lemma SessionByHash_live: "SessionByHash m now h = Some s \<Longrightarrow> live_session m now h s"
  unfolding SessionByHash_def live_session_def by (drule find_set) simp

lemma TokenByHash_live: "TokenByHash m now h = Some t \<Longrightarrow> live_token m now h t"
  unfolding TokenByHash_def live_token_def by (drule find_set) (auto split: option.splits)

lemma authenticate_cases:
  assumes "authenticate hash now r m = Reply ac"
  obtains (token) t u where "has_prefix (request_token r) ''hp_live_''" "TokenByHash m now (hash (request_token r)) = Some t"
      "mget (Users m) (tok_UserID t) = Some u" "userCanAuthenticate m u" "\<not> usr_MustChangePassword u"
      "ac = (actorFromUser m u)\<lparr> act_Roles := [], act_Capabilities := token_caps (tok_Capabilities t),
         act_IsServerScope := False, act_AccountIDs := (if tok_AccountID t \<noteq> '''' then [tok_AccountID t] else []) \<rparr>"
  | (session) s u where "\<not> has_prefix (request_token r) ''hp_live_''" "SessionByHash m now (hash (request_token r)) = Some s"
      "mget (Users m) (ses_UserID s) = Some u" "userCanAuthenticate m u" "\<not> usr_MustChangePassword u"
      "ac = (actorFromUser m u)\<lparr>act_ImpersonatorID := ses_ImpersonatorID s\<rparr>"
  using assms
  by (auto simp: authenticate_def UserByID_def Let_def split: if_splits option.splits)

lemma can_authenticate_active: "userCanAuthenticate m u \<Longrightarrow> usr_Status u = ''active''"
  by (simp add: userCanAuthenticate_def split: if_splits)

section \<open>Properties\<close>

text \<open>
  C13. No request acts beyond its credentials. A request that is let through belongs to an active
  user who need not change the password. With a live API token it has exactly the account-safe
  capabilities of the token, for the token's account only and never for the server. With a live
  session it has only capabilities of the user's roles, for a reseller only those of the
  reseller's privileges as well, and only accounts the user has a right to.
\<close>

theorem authenticate_bounded:
  assumes "authenticate hash now r m = Reply ac"
  shows "\<exists>k u. mget (Users m) k = Some u \<and> act_UserID ac = usr_ID u \<and> usr_Status u = ''active'' \<and> \<not> usr_MustChangePassword u \<and>
    (if has_prefix (request_token r) ''hp_live_''
     then \<exists>t. live_token m now (hash (request_token r)) t \<and> tok_UserID t = k \<and> \<not> act_IsServerScope ac \<and>
        (\<forall>c. Has ac c \<longleftrightarrow> AccountSafe c \<and> c \<in> set (tok_Capabilities t)) \<and>
        (\<forall>a. CanAccount ac a \<longleftrightarrow> a = tok_AccountID t \<and> a \<noteq> '''')
     else \<exists>s. live_session m now (hash (request_token r)) s \<and> ses_UserID s = k \<and>
        act_ImpersonatorID ac = ses_ImpersonatorID s \<and>
        (\<forall>c. Has ac c \<longrightarrow> role_right u c \<and>
           (\<forall>rs. hasRole (usr_Roles u) ''reseller'' \<longrightarrow> ResellerByUser m (usr_ID u) = Some rs \<longrightarrow>
              rsl_Status rs = ''active'' \<and> c \<in> set (rsl_PrivilegeMask rs))) \<and>
        (\<forall>a. CanAccount ac a \<longrightarrow> account_right m u a))"
  using assms
proof (cases rule: authenticate_cases)
  case (token t u)
  have "Has ac c \<longleftrightarrow> AccountSafe c \<and> c \<in> set (tok_Capabilities t)" for c
    by (simp add: token(6) Has_def cap_on_token)
  moreover have "CanAccount ac a \<longleftrightarrow> a = tok_AccountID t \<and> a \<noteq> ''''" for a
    by (auto simp: token(6) CanAccount_def)
  moreover have "live_token m now (hash (request_token r)) t" using token(2) by (rule TokenByHash_live)
  moreover have "act_UserID ac = usr_ID u" "\<not> act_IsServerScope ac" by (simp_all add: token(6))
  ultimately show ?thesis
    using token(1,3,5) can_authenticate_active [OF token(4)] by auto
next
  case (session s u)
  have "role_right u c \<and> (\<forall>rs. hasRole (usr_Roles u) ''reseller'' \<longrightarrow> ResellerByUser m (usr_ID u) = Some rs \<longrightarrow>
      rsl_Status rs = ''active'' \<and> c \<in> set (rsl_PrivilegeMask rs))" if "Has ac c" for c
    using that session(4) actorFromUser_caps [OF session(4), of c]
    by (auto simp: session(6) userCanAuthenticate_def split: if_splits)
  moreover have "account_right m u a" if "CanAccount ac a" for a
    using that actorFromUser_accounts [of m u a] by (simp add: session(6))
  moreover have "live_session m now (hash (request_token r)) s" using session(2) by (rule SessionByHash_live)
  moreover have "act_UserID ac = usr_ID u" "act_ImpersonatorID ac = ses_ImpersonatorID s" by (simp_all add: session(6))
  ultimately show ?thesis
    using session(1,3,5) can_authenticate_active [OF session(4)] by auto
qed

lemma grantable_spec:
  "grantable ac acc cs = Some caps \<Longrightarrow> \<forall>c \<in> set acc. AccountSafe c \<and> Has ac c \<Longrightarrow> \<forall>c \<in> set caps. AccountSafe c \<and> Has ac c"
proof (induction cs arbitrary: acc)
  case (Cons c0 cs)
  let ?c = "trim_space c0"
  have c: "AccountSafe ?c" "Has ac ?c" and rec: "grantable ac (if ?c \<notin> set acc then acc @ [?c] else acc) cs = Some caps"
    using Cons.prems(1) by (simp_all add: Let_def split: if_splits)
  show ?case by (rule Cons.IH [OF rec]) (use c Cons.prems(2) in \<open>simp split: if_splits\<close>)
qed simp


lemma find_unique:
  assumes x: "x \<in> set xs" "P x" and uniq: "\<And>y. y \<in> set xs \<Longrightarrow> P y \<Longrightarrow> y = x"
  shows "find P xs = Some x"
proof (cases "find P xs")
  case None
  then show ?thesis using x by (simp add: find_None_iff)
next
  case (Some y)
  then have "y \<in> set xs" "P y" by (auto simp: find_Some_iff)
  then show ?thesis using Some uniq by blast
qed

lemma mvals_put: "set (mvals (mput k v m)) \<subseteq> insert v (set (mvals m))"
  by (induction m) auto

lemma new_token_found:
  assumes "\<forall>x \<in> set (mvals (Tokens m)). tok_TokenHash x \<noteq> tok_TokenHash t" "tok_RevokedAt t = None" "tok_ExpiresAt t = None"
    and "Tokens m' = mput (tok_ID t) t (Tokens m)"
  shows "TokenByHash m' now (tok_TokenHash t) = Some t"
  unfolding TokenByHash_def
proof (rule find_unique)
  show "t \<in> set (mvals (Tokens m'))" by (rule mget_mvals [of _ "tok_ID t"]) (simp add: assms(4))
  show "y = t" if "y \<in> set (mvals (Tokens m'))"
    "tok_TokenHash y = tok_TokenHash t \<and> tok_RevokedAt y = None \<and> \<not> (case tok_ExpiresAt y of None \<Rightarrow> False | Some e \<Rightarrow> e < now)" for y
  proof -
    have "y \<in> insert t (set (mvals (Tokens m)))"
      using that(1) mvals_put [of "tok_ID t" t "Tokens m"] unfolding assms(4) by (rule rev_subsetD)
    then show "y = t" using assms(1) that(2) by blast
  qed
qed (simp add: assms)

lemma AppendAudit_sel [simp]:
  "Users (AppendAudit i t e m) = Users m" "Sessions (AppendAudit i t e m) = Sessions m"
  "Tokens (AppendAudit i t e m) = Tokens m" "Accounts (AppendAudit i t e m) = Accounts m"
  "Members (AppendAudit i t e m) = Members m" "Resellers (AppendAudit i t e m) = Resellers m"
  by (simp_all add: AppendAudit_def Let_def)

text \<open>
  C16. A token carries no more than its creator had: it is created only by an actor who may manage
  tokens of the account and has every capability of the token, all of them account-safe; it is
  valid from then on, and whoever presents it to the resulting store can do nothing that its creator could not
  do when creating it.
\<close>

theorem token_grant_bounded:
  assumes c: "createToken hash secret sp ac r accountID body m = (Reply (plain, t), m')"
    and fresh: "\<forall>x \<in> set (mvals (Tokens m)). tok_TokenHash x \<noteq> hash plain"
  shows "Has ac APITokensWrite \<and> CanAccount ac accountID \<and> has_prefix plain ''hp_live_'' \<and>
    tok_AccountID t = accountID \<and> tok_UserID t = act_UserID ac \<and>
    (\<forall>c \<in> set (tok_Capabilities t). AccountSafe c \<and> Has ac c) \<and>
    TokenByHash m' now (hash plain) = Some t \<and>
    (\<forall>r' ac'. request_token r' = plain \<longrightarrow> authenticate hash now r' m' = Reply ac' \<longrightarrow>
       (\<forall>c. Has ac' c \<longrightarrow> Has ac c) \<and> (\<forall>a. CanAccount ac' a \<longrightarrow> CanAccount ac a) \<and> \<not> act_IsServerScope ac')"
proof -
  from c obtain name requested caps raw where
    req: "requireAccount ac accountID APITokensWrite" and g: "grantable ac [] requested = Some caps"
    and plain: "plain = ''hp_live_'' @ raw"
    and t: "t = \<lparr> tok_ID = sup_id sp, tok_UserID = act_UserID ac, tok_Name = name, tok_Prefix = TokenPrefix plain,
        tok_TokenHash = hash plain, tok_Scope = ''account'', tok_AccountID = accountID, tok_Capabilities = caps,
        tok_ExpiresAt = None, tok_RevokedAt = None \<rparr>"
    and m': "Tokens m' = mput (tok_ID t) t (Tokens m)"
    by (auto simp: createToken_def Let_def PutToken_def split: if_splits option.splits)
  have caps: "\<forall>c \<in> set caps. AccountSafe c \<and> Has ac c" using grantable_spec [OF g] by simp
  have can: "Has ac APITokensWrite" "CanAccount ac accountID" using req by (simp_all add: requireAccount_def)
  have pre: "has_prefix plain ''hp_live_''" by (simp add: plain has_prefix_def)
  have tok: "tok_TokenHash t = hash plain" "tok_AccountID t = accountID" "tok_UserID t = act_UserID ac"
    "tok_Capabilities t = caps" by (simp_all add: t)
  have found: "TokenByHash m' now (hash plain) = Some t"
    using new_token_found [of m t m' now] fresh m' by (simp add: t)
  have "(\<forall>c. Has ac' c \<longrightarrow> Has ac c) \<and> (\<forall>a. CanAccount ac' a \<longrightarrow> CanAccount ac a) \<and> \<not> act_IsServerScope ac'"
    if r': "request_token r' = plain" and a: "authenticate hash now r' m' = Reply ac'" for r' ac'
    using a
  proof (cases rule: authenticate_cases)
    case (token t' u)
    then have "t' = t" using found r' by simp
    then show ?thesis using token(6) caps can(2) tok by (auto simp: Has_def cap_on_token CanAccount_def)
  next
    case (session s u)
    then show ?thesis using pre r' by simp
  qed
  then show ?thesis using caps can pre tok found by simp
qed

text \<open>A store in which every role, membership and ownership has been withdrawn.\<close>

definition withdraw_rights :: "memory \<Rightarrow> memory" where
  "withdraw_rights m = m\<lparr> Users := map (\<lambda>(k, u). (k, u\<lparr>usr_Roles := []\<rparr>)) (Users m), Members := [],
     Accounts := map (\<lambda>(k, a). (k, a\<lparr>acc_OwnerUserID := '''', acc_ResellerID := ''''\<rparr>)) (Accounts m) \<rparr>"

text \<open>
  C40. A token outlives its creator's rights: a request with an API token that is let through is let
  through as before, with the same capabilities and the same account, after all roles, memberships and
  ownerships have been withdrawn from every user.
\<close>

theorem token_outlives_rights:
  assumes a: "authenticate hash now r m = Reply ac" and tok: "has_prefix (request_token r) ''hp_live_''"
  shows "\<exists>ac'. authenticate hash now r (withdraw_rights m) = Reply ac' \<and> act_UserID ac' = act_UserID ac \<and>
    (\<forall>c. Has ac' c \<longleftrightarrow> Has ac c) \<and> (\<forall>a. CanAccount ac' a \<longleftrightarrow> CanAccount ac a) \<and>
    (\<forall>u \<in> set (mvals (Users (withdraw_rights m))). \<forall>c. \<not> role_right u c)"
  using a
proof (cases rule: authenticate_cases)
  case (token t u)
  let ?m = "withdraw_rights m" and ?u = "u\<lparr>usr_Roles := []\<rparr>"
  have u: "mget (Users ?m) (tok_UserID t) = Some ?u"
    using token(3) by (simp add: withdraw_rights_def map_of_map)
  have can: "userCanAuthenticate ?m ?u"
    using can_authenticate_active [OF token(4)] by (simp add: userCanAuthenticate_def hasRole_def)
  have tb: "TokenByHash ?m = TokenByHash m" by (intro ext) (simp add: TokenByHash_def withdraw_rights_def)
  have ne: "request_token r \<noteq> ''''" using tok by (auto simp: has_prefix_def)
  have "authenticate hash now r ?m = Reply ((actorFromUser ?m ?u)\<lparr> act_Roles := [],
      act_Capabilities := token_caps (tok_Capabilities t), act_IsServerScope := False,
      act_AccountIDs := (if tok_AccountID t \<noteq> '''' then [tok_AccountID t] else []) \<rparr>)"
    using tok ne u can token(2,5) by (simp add: authenticate_def UserByID_def tb Let_def)
  moreover have "\<forall>u \<in> set (mvals (Users ?m)). \<forall>c. \<not> role_right u c"
    by (auto simp: withdraw_rights_def role_right_def)
  ultimately show ?thesis by (auto simp: token(6) Has_def CanAccount_def)
next
  case (session s u)
  then show ?thesis using tok by simp
qed

section \<open>The rate limiter over a sequence of calls\<close>

text \<open>The calls of one limiter in their order: time, key, and whether the call was let through.\<close>

fun allow_run ::
    "nat \<Rightarrow> int \<Rightarrow> (gotime \<times> string \<times> bool) list \<Rightarrow> limiter \<Rightarrow> (gotime \<times> string) list \<Rightarrow> (gotime \<times> string \<times> bool) list" where
  "allow_run n w h l [] = h"
| "allow_run n w h l ((now, key) # calls) =
     (case allow now key n w l of (ok, l') \<Rightarrow> allow_run n w (h @ [(now, key, ok)]) l' calls)"

definition passed :: "int \<Rightarrow> gotime \<Rightarrow> string \<Rightarrow> (gotime \<times> string \<times> bool) list \<Rightarrow> gotime list" where
  "passed w now key h = map fst (filter (\<lambda>(t, k, ok). ok \<and> k = key \<and> now - t < w) h)"

definition exact_log :: "nat \<Rightarrow> int \<Rightarrow> (gotime \<times> string \<times> bool) list \<Rightarrow> bool" where
  "exact_log n w h \<longleftrightarrow> sorted (map fst h) \<and>
     (\<forall>i < length h. snd (snd (h ! i)) \<longleftrightarrow> length (passed w (fst (h ! i)) (fst (snd (h ! i))) (take i h)) < n)"

definition hits_of :: "limiter \<Rightarrow> string \<Rightarrow> gotime list" where
  "hits_of l key = (case mget l key of None \<Rightarrow> [] | Some h \<Rightarrow> h)"

definition limiter_agrees :: "int \<Rightarrow> limiter \<Rightarrow> (gotime \<times> string \<times> bool) list \<Rightarrow> bool" where
  "limiter_agrees w l h \<longleftrightarrow>
     (\<forall>key now. (\<forall>t \<in> fst ` set h. t \<le> now) \<longrightarrow> filter (\<lambda>t. now - t < w) (hits_of l key) = passed w now key h)"

lemma allow_eq:
  "allow now key n w l =
     (let fresh = filter (\<lambda>t. now - t < w) (hits_of l key)
      in (length fresh < n, mput key (if length fresh < n then fresh @ [now] else fresh) l))"
  by (auto simp: allow_def hits_of_def Let_def)

lemma hits_of_put: "hits_of (mput key v l) k = (if k = key then v else hits_of l k)"
  by (simp add: hits_of_def)

lemma filter_window: "(now0 :: int) \<le> now \<Longrightarrow> filter (\<lambda>t. now - t < w) (filter (\<lambda>t. now0 - t < w) xs) = filter (\<lambda>t. now - t < w) xs"
  unfolding filter_filter by (rule filter_cong) auto

lemma passed_snoc: "passed w now key (h @ [(t, k, ok)]) = passed w now key h @ (if ok \<and> k = key \<and> now - t < w then [t] else [])"
  by (simp add: passed_def)

lemma allow_step:
  assumes agree: "limiter_agrees w l h" and le: "\<forall>t \<in> fst ` set h. t \<le> now" and a: "allow now key n w l = (ok, l')"
  shows "(ok \<longleftrightarrow> length (passed w now key h) < n) \<and> limiter_agrees w l' (h @ [(now, key, ok)])"
proof -
  have fresh: "filter (\<lambda>t. now - t < w) (hits_of l key) = passed w now key h"
    using agree le unfolding limiter_agrees_def by blast
  then have ok: "ok \<longleftrightarrow> length (passed w now key h) < n"
    and l': "l' = mput key (passed w now key h @ (if ok then [now] else [])) l"
    using a by (auto simp: allow_eq Let_def)
  have "filter (\<lambda>t. now' - t < w) (hits_of l' k) = passed w now' k (h @ [(now, key, ok)])"
    if t: "\<forall>t \<in> fst ` set (h @ [(now, key, ok)]). t \<le> now'" for k now'
  proof -
    have "filter (\<lambda>t. now' - t < w) (hits_of l k) = passed w now' k h"
      using agree t unfolding limiter_agrees_def by simp
    moreover have "filter (\<lambda>t. now' - t < w) (passed w now key h) = filter (\<lambda>t. now' - t < w) (hits_of l key)"
      using filter_window [of now now' w "hits_of l key"] t fresh by simp
    ultimately show ?thesis by (cases "k = key") (simp_all add: l' hits_of_put passed_snoc)
  qed
  then show ?thesis using ok by (simp add: limiter_agrees_def)
qed

lemma exact_log_snoc:
  "exact_log n w h \<Longrightarrow> \<forall>t \<in> fst ` set h. t \<le> now \<Longrightarrow> ok \<longleftrightarrow> length (passed w now key h) < n \<Longrightarrow>
     exact_log n w (h @ [(now, key, ok)])"
  by (auto simp: exact_log_def sorted_append nth_append less_Suc_eq)

lemma allow_run_exact:
  "limiter_agrees w l h \<Longrightarrow> exact_log n w h \<Longrightarrow> sorted (map fst h @ map fst calls) \<Longrightarrow>
     exact_log n w (allow_run n w h l calls) \<and> map (\<lambda>(t, k, ok). (t, k)) (allow_run n w h l calls) = map (\<lambda>(t, k, ok). (t, k)) h @ calls"
proof (induction calls arbitrary: h l)
  case (Cons c calls)
  obtain now key where c: "c = (now, key)" by (cases c)
  obtain ok l' where a: "allow now key n w l = (ok, l')" by (cases "allow now key n w l")
  have le: "\<forall>t \<in> fst ` set h. t \<le> now" using Cons.prems(3) by (auto simp: c sorted_append)
  note step = allow_step [OF Cons.prems(1) le a]
  have "exact_log n w (h @ [(now, key, ok)])"
    using exact_log_snoc [OF Cons.prems(2) le] step by blast
  from Cons.IH [OF conjunct2 [OF step] this] Cons.prems(3) show ?case by (simp add: c a)
qed simp

lemma passed_bounded:
  assumes "exact_log n w h"
  shows "length (filter (\<lambda>(t, k, ok). ok \<and> k = key \<and> t0 \<le> t \<and> t < t0 + w) h) \<le> n"
  using assms
proof (induction h rule: rev_induct)
  case (snoc x h)
  let ?in = "\<lambda>(t, k, ok). ok \<and> k = key \<and> t0 \<le> t \<and> t < t0 + w"
  obtain now k ok where x: "x = (now, k, ok)" by (cases x)
  have last: "ok \<longleftrightarrow> length (passed w now k h) < n"
    using snoc.prems unfolding exact_log_def by (auto simp: x dest: spec [of _ "length h"])
  have "exact_log n w h"
    using snoc.prems by (auto simp: exact_log_def sorted_append nth_append less_Suc_eq split: if_splits)
  then have IH: "length (filter ?in h) \<le> n" by (rule snoc.IH)
  show ?case
  proof (cases "?in x")
    case True
    then have now: "t0 \<le> now" "now < t0 + w" "k = key" "ok" by (auto simp: x)
    have "length (filter ?in h) \<le> length (passed w now k h)"
      unfolding passed_def length_map
    proof (induction h)
      case (Cons y h)
      then show ?case using now by auto
    qed simp
    then show ?thesis using last now True by simp
  next
    case False
    then show ?thesis using IH by simp
  qed
qed simp

text \<open>
  C30. The rate limiter is exact. For calls whose times do not decrease, a call is let through if and
  only if fewer than \<open>n\<close> calls with its key were let through within the window before it. So in any
  span of the window's length at most \<open>n\<close> calls with one key pass (eight logins a minute from an
  address), and calls with other keys never count.
\<close>

theorem limiter_exact:
  assumes "sorted (map fst calls)"
  shows "let h = allow_run n w [] [] calls in
    map (\<lambda>(t, k, ok). (t, k)) h = calls \<and>
    (\<forall>i < length h. snd (snd (h ! i)) \<longleftrightarrow>
       length (filter (\<lambda>(t, k, ok). ok \<and> k = snd (calls ! i) \<and> fst (calls ! i) - t < w) (take i h)) < n) \<and>
    (\<forall>key t0. length (filter (\<lambda>(t, k, ok). ok \<and> k = key \<and> t0 \<le> t \<and> t < t0 + w) h) \<le> n)"
proof -
  let ?h = "allow_run n w [] [] calls"
  have h: "exact_log n w ?h" "map (\<lambda>(t, k, ok). (t, k)) ?h = calls"
    using allow_run_exact [of w "[]" "[]" n calls] assms
    by (simp_all add: limiter_agrees_def hits_of_def passed_def exact_log_def)
  have "fst (calls ! i) = fst (?h ! i) \<and> snd (calls ! i) = fst (snd (?h ! i))" if "i < length ?h" for i
    using nth_map [OF that, of "\<lambda>(t, k, ok). (t, k)"] unfolding h(2) by (simp add: case_prod_unfold)
  then show ?thesis
    using h passed_bounded [OF h(1)] by (simp add: Let_def exact_log_def passed_def)
qed

theorem limiter_exact_witness:
  "let h = allow_run 2 10 [] [] [(0, ''a''), (1, ''a''), (2, ''a''), (2, ''b''), (11, ''a'')] in
     (\<forall>key t0. length (filter (\<lambda>(t, k, ok). ok \<and> k = key \<and> t0 \<le> t \<and> t < t0 + 10) h) \<le> 2) \<and>
     map (\<lambda>(t, k, ok). ok) h = [True, True, False, True, True]"
proof -
  have s: "sorted (map fst [(0 :: int, ''a''), (1, ''a''), (2, ''a''), (2, ''b''), (11, ''a'')])" by simp
  have "map (\<lambda>(t, k, ok). ok) (allow_run 2 10 [] [] [(0, ''a''), (1, ''a''), (2, ''a''), (2, ''b''), (11, ''a'')])
      = [True, True, False, True, True]"
    by (simp add: allow_def Let_def)
  then show ?thesis using limiter_exact [OF s, of 2 10] unfolding Let_def by blast
qed


section \<open>Password changes and impersonation\<close>

lemma RevokeSessionsForUser_dead: "s \<in> set (mvals (Sessions (RevokeSessionsForUser now uid m))) \<Longrightarrow> ses_UserID s = uid \<Longrightarrow> ses_RevokedAt s \<noteq> None"
proof -
  assume s: "s \<in> set (mvals (Sessions (RevokeSessionsForUser now uid m)))" and uid: "ses_UserID s = uid"
  from s obtain s0 where "s = (if ses_UserID s0 = uid then s0\<lparr>ses_RevokedAt := Some now\<rparr> else s0)"
    by (auto simp: RevokeSessionsForUser_def)
  then show "ses_RevokedAt s \<noteq> None" using uid by (cases "ses_UserID s0 = uid") auto
qed

lemma RevokeSessionsForUser_Users [simp]: "Users (RevokeSessionsForUser now uid m) = Users m"
  by (simp add: RevokeSessionsForUser_def)

lemma RotatePassword_Users:
  assumes "RotatePasswordAndEnqueue f now uid ph mc j m = (Inr j', m1)" "mget (Users m) uid = Some u"
  shows "Users m1 = mput uid (u\<lparr>usr_PasswordHash := ph, usr_MustChangePassword := mc\<rparr>) (Users m)"
  using assms unfolding RotatePasswordAndEnqueue_def Let_def by (auto split: if_splits)

lemma store_password_Users:
  "store_password sp r u account ph new m = (Some jobID, m1) \<Longrightarrow> mget (Users m) (usr_ID u) = Some u \<Longrightarrow>
     Users m1 = mput (usr_ID u) (u\<lparr>usr_PasswordHash := ph, usr_MustChangePassword := False\<rparr>) (Users m)"
  unfolding store_password_def
  by (simp add: PutUser_def RotatePassword_Users split: option.splits prod.splits sum.splits) auto

lemma completePasswordChange_cases:
  assumes c: "completePasswordChange verify newhash sp r (Some (username, current, new)) (l, m) = (Reply jobID, l', m')"
  obtains u ph m1 where "UserByUsername m username = Some u" "usr_Status u = ''active''" "verify (usr_PasswordHash u) current"
    "usr_MustChangePassword u" "12 \<le> length new" "\<not> verify (usr_PasswordHash u) new" "newhash = Some ph"
    "store_password sp r u (owned_account m u) ph new m = (Some jobID, m1)"
    "m' = AppendAudit (sup_audit sp) (sup_now sp) (password_event r u (owned_account m u) jobID)
       (RevokeSessionsForUser (sup_now sp) (usr_ID u) m1)"
proof -
  obtain ok l1 where al: "allow (sup_now sp) (''complete-password-change:'' @ rq_IP r) 8 minute l = (ok, l1)"
    by (cases "allow (sup_now sp) (''complete-password-change:'' @ rq_IP r) 8 minute l")
  note d = c [unfolded completePasswordChange_def al Let_def prod.case option.case]
  have ok: "ok = True" using d by (cases ok) simp_all
  note d = d [unfolded ok bool.case]
  obtain u where u: "UserByUsername m username = Some u" using d by (cases "UserByUsername m username") simp_all
  note d = d [unfolded u option.case]
  have g: "usr_Status u = ''active''" "verify (usr_PasswordHash u) current" "usr_MustChangePassword u"
      "\<not> length new < 12" "\<not> verify (usr_PasswordHash u) new" "\<not> (owned_account m u = None \<and> \<not> isServerAdmin u)"
    using d by (simp_all split: if_splits)
  note d = d [unfolded if_not_P [OF g(4)] if_not_P [OF g(5)] if_not_P [OF g(6)]]
  obtain ph where ph: "newhash = Some ph" using d g by (cases newhash) simp_all
  obtain x m1 where sp: "store_password sp r u (owned_account m u) ph new m = (x, m1)"
    by (cases "store_password sp r u (owned_account m u) ph new m")
  obtain j where x: "x = Some j" using d g by (cases x) (simp_all add: ph sp)
  have "j = jobID" "m' = AppendAudit (sup_audit sp) (sup_now sp) (password_event r u (owned_account m u) j)
       (RevokeSessionsForUser (sup_now sp) (usr_ID u) m1)"
    using d g by (auto simp: ph sp x)
  then show thesis using that [of u ph m1] g u ph sp by (simp add: x)
qed

text \<open>
  C17. A completed password change replaces the password and ends every session. It answers with
  success only if the user is active, had to change the password and gave the current one, and the
  new password is long enough and not the current one. Afterwards the user's record has the hash of
  the new password and no pending change, no other user has changed, and no session, whenever
  presented, is let through as this user any more.
\<close>

theorem password_change_locks_out:
  assumes c: "completePasswordChange verify newhash sp r (Some (username, current, new)) (l, m) = (Reply jobID, l', m')"
    and tab: "mem_tables m"
  shows "\<exists>u ph. UserByUsername m username = Some u \<and> usr_Status u = ''active'' \<and> usr_MustChangePassword u \<and>
    verify (usr_PasswordHash u) current \<and> \<not> verify (usr_PasswordHash u) new \<and> 12 \<le> length new \<and> newhash = Some ph \<and>
    (\<forall>k. mget (Users m') k = (if k = usr_ID u then Some (u\<lparr>usr_PasswordHash := ph, usr_MustChangePassword := False\<rparr>)
                              else mget (Users m) k)) \<and>
    (\<forall>hash now r' ac. authenticate hash now r' m' = Reply ac \<longrightarrow> act_UserID ac = usr_ID u \<longrightarrow>
       has_prefix (request_token r') ''hp_live_'')"
proof -
  have tu: "table usr_ID (Users m)" using tab by (simp add: mem_tables_def)
  from c show ?thesis
  proof (cases rule: completePasswordChange_cases)
    case (1 u ph m1)
    let ?u = "u\<lparr>usr_PasswordHash := ph, usr_MustChangePassword := False\<rparr>"
    have "u \<in> set (mvals (Users m))" using 1(1) unfolding UserByUsername_def by (blast dest: find_set)
    then have "mget (Users m) (usr_ID u) = Some u" using table_mvals_iff [OF tu] by blast
    then have users: "Users m' = mput (usr_ID u) ?u (Users m)"
      using store_password_Users [OF 1(8)] by (simp add: 1(9))
    have key: "k = usr_ID v" if "mget (Users m') k = Some v" for k v
      using that tu by (auto simp: users table_def split: if_splits)
    have "has_prefix (request_token r') ''hp_live_''"
      if a: "authenticate hash now r' m' = Reply ac" and id: "act_UserID ac = usr_ID u" for hash now r' ac
      using a
    proof (cases rule: authenticate_cases)
      case (session s v)
      have "ses_UserID s = usr_ID u" using key [OF session(3)] id by (simp add: session(6))
      moreover have "s \<in> set (mvals (Sessions m'))" "ses_RevokedAt s = None"
        using SessionByHash_live [OF session(2)] by (simp_all add: live_session_def)
      ultimately show ?thesis using RevokeSessionsForUser_dead [of s "sup_now sp" "usr_ID u" m1] by (simp add: 1(9))
    qed simp
    then show ?thesis using 1(1-7) by (simp add: users)
  qed
qed

text \<open>
  An impersonation can be stretched. The session that impersonation opens ends after 30 minutes;
  but refreshing it while it lives revokes it and opens a session of 12 hours with the same
  impersonator, and every refresh does so again: there is no bound on how long it lasts.
\<close>

theorem impersonation_extended:
  assumes i: "impersonate hash sp ac r accID reason m = (Reply (plain, s), m')"
    and f: "refresh hash sp2 r2 body m' = (Reply (plain2, s2), m'')"
    and tok: "request_token r2 = plain"
    and fresh: "\<forall>x \<in> set (mvals (Sessions m)). ses_TokenHash x \<noteq> hash plain" and fid: "sup_id sp2 \<noteq> ses_ID s"
    and tab: "table usr_ID (Users m)"
  shows "ses_ExpiresAt s = sup_now sp + 30 * minute \<and> ses_ExpiresAt s2 = sup_now sp2 + 12 * hour \<and>
    ses_UserID s2 = ses_UserID s \<and> ses_ImpersonatorID s2 = act_UserID ac \<and>
    mget (Sessions m'') (ses_ID s2) = Some s2 \<and> ses_RevokedAt s2 = None \<and>
    (\<exists>x. mget (Sessions m'') (ses_ID s) = Some x \<and> ses_RevokedAt x \<noteq> None)"
proof -
  obtain p where p: "sup_token sp = Some p" "plain = p" "ses_TokenHash s = hash p"
    using i f tok by (auto simp: impersonate_def refresh_def Let_def split: if_splits option.splits)
  have s: "ses_ExpiresAt s = sup_now sp + 30 * minute" "ses_ImpersonatorID s = act_UserID ac" "ses_RevokedAt s = None"
    and m': "Sessions m' = mput (ses_ID s) s (Sessions m)"
    using i by (auto simp: impersonate_def PutSession_def Let_def split: if_splits option.splits)
  obtain c u where c: "SessionByHash m' (sup_now sp2) (hash plain) = Some c" and u: "mget (Users m') (ses_UserID c) = Some u"
    and s2: "ses_ExpiresAt s2 = sup_now sp2 + 12 * hour" "ses_UserID s2 = usr_ID u" "ses_ID s2 = sup_id sp2"
      "ses_ImpersonatorID s2 = ses_ImpersonatorID c" "ses_RevokedAt s2 = None"
    and m'': "m'' = RevokeSession (sup_now sp2) (ses_ID c) (PutSession s2 m')"
    using f tok by (auto simp: refresh_def UserByID_def Let_def split: if_splits option.splits)
  have cs: "c = s"
    using SessionByHash_live [OF c] mvals_put [of "ses_ID s" s "Sessions m"] fresh
    unfolding live_session_def m' by blast
  have "Users m' = Users m" using i by (auto simp: impersonate_def PutSession_def Let_def split: if_splits option.splits)
  then have "usr_ID u = ses_UserID s" using u tab by (simp add: cs table_def)
  then show ?thesis
    using s s2 fid by (simp add: m'' RevokeSession_def PutSession_def m' cs)
qed

section \<open>Examples\<close>

definition demo_hash :: "string \<Rightarrow> string" where "demo_hash p = ''#'' @ p"
definition demo_verify :: "string \<Rightarrow> string \<Rightarrow> bool" where "demo_verify h p = (h = demo_hash p)"

definition demo_owner :: user where
  "demo_owner = user0\<lparr>usr_ID := ''u1'', usr_Username := ''ann'', usr_Status := ''active'', usr_PasswordHash := ''#first'',
     usr_Roles := [''customer_owner'']\<rparr>"

definition demo_token :: apitoken where
  "demo_token = apitoken0\<lparr>tok_ID := ''t1'', tok_UserID := ''u1'', tok_TokenHash := ''#hp_live_1'', tok_AccountID := ''a1'',
     tok_Capabilities := [DNSWrite]\<rparr>"

definition demo_store :: "bool \<Rightarrow> memory" where
  "demo_store must = NewMemory\<lparr> Users := [(''u1'', demo_owner\<lparr>usr_MustChangePassword := must\<rparr>)],
     Accounts := [(''a1'', account0\<lparr>acc_ID := ''a1'', acc_OwnerUserID := ''u1''\<rparr>)],
     Tokens := [(''t1'', demo_token)] \<rparr>"

definition demo_req :: "string \<Rightarrow> http_req" where
  "demo_req tok = \<lparr> rq_Authorization = '''', rq_Cookie = Some tok, rq_IP = '''', rq_UserAgent = '''', rq_RequestID = '''' \<rparr>"

definition demo_sp :: "gotime \<Rightarrow> string \<Rightarrow> string \<Rightarrow> outside" where
  "demo_sp now i tok = \<lparr> sup_now = now, sup_id = i, sup_audit = ''e'', sup_job = ''j'', sup_token = Some tok \<rparr>"

definition demo_root :: actor where
  "demo_root = actor0\<lparr>act_UserID := ''u0'', act_IsServerScope := True,
     act_Capabilities := [(AccountsImpersonate, True), (APITokensWrite, True), (DNSWrite, True)]\<rparr>"

lemmas demo_defs = demo_hash_def demo_verify_def demo_owner_def demo_token_def demo_store_def demo_req_def demo_sp_def demo_root_def
  user0_def apitoken0_def account0_def NewMemory_def actor0_def bearer_def request_token_def has_prefix_def to_lower_def

lemma demo_authenticate:
  "\<exists>ac. authenticate demo_hash 5 (demo_req ''hp_live_1'') (demo_store False) = Reply ac"
  by (simp add: authenticate_def demo_defs TokenByHash_def UserByID_def userCanAuthenticate_def hasRole_def Let_def)

theorem authenticate_bounded_witness:
  "\<exists>ac. authenticate demo_hash 5 (demo_req ''hp_live_1'') (demo_store False) = Reply ac \<and> act_UserID ac = ''u1'' \<and>
     (\<forall>c. Has ac c \<longrightarrow> c = DNSWrite) \<and> \<not> act_IsServerScope ac"
proof -
  obtain ac where ac: "authenticate demo_hash 5 (demo_req ''hp_live_1'') (demo_store False) = Reply ac"
    using demo_authenticate by blast
  with authenticate_bounded [OF ac] show ?thesis
    by (auto simp: demo_defs live_token_def split: if_splits)
qed

theorem token_outlives_rights_witness:
  "\<exists>ac. authenticate demo_hash 5 (demo_req ''hp_live_1'') (withdraw_rights (demo_store False)) = Reply ac"
proof -
  obtain ac where ac: "authenticate demo_hash 5 (demo_req ''hp_live_1'') (demo_store False) = Reply ac"
    using demo_authenticate by blast
  have "has_prefix (request_token (demo_req ''hp_live_1'')) ''hp_live_''" by (simp add: demo_defs)
  from token_outlives_rights [OF ac this] show ?thesis by blast
qed

lemma demo_create:
  "\<exists>t m'. createToken demo_hash (Some ''2'') (demo_sp 7 ''t2'' '''') demo_root (demo_req ''x'') ''a1'' (Some (''ci'', [DNSWrite]))
     (demo_store False) = (Reply (''hp_live_2'', t), m')"
  by (simp add: createToken_def requireAccount_def Has_def cap_on_def CanAccount_def demo_defs trim_space_def is_space_def AccountSafe_def
      RoleCapability_def role_caps_def RoleCaps_def Let_def)

theorem token_grant_bounded_witness:
  "\<exists>t m'. createToken demo_hash (Some ''2'') (demo_sp 7 ''t2'' '''') demo_root (demo_req ''x'') ''a1'' (Some (''ci'', [DNSWrite]))
     (demo_store False) = (Reply (''hp_live_2'', t), m') \<and> TokenByHash m' 8 ''#hp_live_2'' = Some t"
proof -
  obtain t m' where c: "createToken demo_hash (Some ''2'') (demo_sp 7 ''t2'' '''') demo_root (demo_req ''x'') ''a1''
      (Some (''ci'', [DNSWrite])) (demo_store False) = (Reply (''hp_live_2'', t), m')"
    using demo_create by blast
  have "\<forall>x \<in> set (mvals (Tokens (demo_store False))). tok_TokenHash x \<noteq> demo_hash ''hp_live_2''" by (simp add: demo_defs)
  from token_grant_bounded [OF c this, of 8] c show ?thesis by (auto simp: demo_hash_def)
qed

lemma demo_password:
  "\<exists>j l' m'. completePasswordChange demo_verify (Some ''#correct horse'') (demo_sp 7 '''' '''') (demo_req '''')
     (Some (''ann'', ''first'', ''correct horse'')) ([], demo_store True) = (Reply j, l', m')"
  by (simp add: completePasswordChange_def allow_def UserByUsername_def owned_account_def ListAccounts_def account_listed_def
      store_password_def RotatePasswordAndEnqueue_def demo_defs Let_def split: sum.splits prod.splits)

theorem password_change_locks_out_witness:
  "\<exists>j l' m'. completePasswordChange demo_verify (Some ''#correct horse'') (demo_sp 7 '''' '''') (demo_req '''')
     (Some (''ann'', ''first'', ''correct horse'')) ([], demo_store True) = (Reply j, l', m') \<and>
     (\<exists>u. mget (Users m') ''u1'' = Some u \<and> usr_PasswordHash u = ''#correct horse'' \<and> \<not> usr_MustChangePassword u)"
proof -
  obtain j l' m' where c: "completePasswordChange demo_verify (Some ''#correct horse'') (demo_sp 7 '''' '''') (demo_req '''')
     (Some (''ann'', ''first'', ''correct horse'')) ([], demo_store True) = (Reply j, l', m')"
    using demo_password by blast
  have t: "mem_tables (demo_store True)" by (simp add: mem_tables_def table_def mwf_def demo_defs)
  have "usr_ID u = ''u1''" if "UserByUsername (demo_store True) ''ann'' = Some u" for u
    using that by (auto simp: UserByUsername_def demo_defs)
  then show ?thesis using password_change_locks_out [OF c t] c by fastforce
qed

lemma demo_impersonate:
  "\<exists>s m'. impersonate demo_hash (demo_sp 7 ''s1'' ''one'') demo_root (demo_req '''') ''a1'' ''support'' (demo_store False) = (Reply (''one'', s), m') \<and>
     ses_ID s = ''s1'' \<and>
     (\<exists>s2 m''. refresh demo_hash (demo_sp 8 ''s2'' ''two'') (demo_req ''one'') (Some ('''', '''')) m' = (Reply (''two'', s2), m''))"
  by (simp add: impersonate_def refresh_def requireAccount_def Has_def cap_on_def CanAccount_def GetAccount_def PutSession_def
      AppendAudit_def auditEvent_def SessionByHash_def UserByID_def userCanAuthenticate_def hasRole_def trim_space_def minute_def
      demo_defs Let_def)

theorem impersonation_extended_witness:
  "\<exists>s m' s2 m''. impersonate demo_hash (demo_sp 7 ''s1'' ''one'') demo_root (demo_req '''') ''a1'' ''support'' (demo_store False) = (Reply (''one'', s), m') \<and>
     refresh demo_hash (demo_sp 8 ''s2'' ''two'') (demo_req ''one'') (Some ('''', '''')) m' = (Reply (''two'', s2), m'') \<and>
     ses_ImpersonatorID s2 = ''u0'' \<and> ses_ExpiresAt s2 > ses_ExpiresAt s + 11 * hour"
proof -
  obtain s m' s2 m'' where i: "impersonate demo_hash (demo_sp 7 ''s1'' ''one'') demo_root (demo_req '''') ''a1'' ''support'' (demo_store False)
      = (Reply (''one'', s), m')" and s: "ses_ID s = ''s1''"
    and f: "refresh demo_hash (demo_sp 8 ''s2'' ''two'') (demo_req ''one'') (Some ('''', '''')) m' = (Reply (''two'', s2), m'')"
    using demo_impersonate by blast
  have h: "request_token (demo_req ''one'') = ''one''" "\<forall>x \<in> set (mvals (Sessions (demo_store False))). ses_TokenHash x \<noteq> demo_hash ''one''"
      "sup_id (demo_sp 8 ''s2'' ''two'') \<noteq> ses_ID s" "table usr_ID (Users (demo_store False))"
    by (simp_all add: demo_defs s table_def mwf_def)
  from impersonation_extended [OF i f h] i f show ?thesis
    by (auto simp: demo_root_def demo_sp_def hour_def minute_def)
qed


end
