(* ===== verification/Api_Resources.thy ===== *)
theory Api_Resources
  imports Api_Auth Agent_Policy Store_Restore Validate Site_Config
begin

text \<open>
  The handlers of \<^verbatim>\<open>internal/httpserver/api.go\<close> for the resources of an account: domains,
  websites, applications, databases, DNS, mail, certificates, backups, cron entries, SSH keys and
  FTP users, with the package limits of \<^verbatim>\<open>internal/limits\<close>.

  A handler checks the request against the store and ends in an answer or in one change of the
  store; this is its \<open>plan\<close>, and \<open>perform\<close> carries it out. The store is read at one point in
  time, and again when the change is committed; between the two other requests may be served. The
  decoded body of a request is the handler's argument, with zero values for what is missing.
  Hashing of passwords, the fingerprint of a key and the parsing of IP addresses are arguments.
\<close>

section \<open>Requests and plans\<close>

record api_call =
  call_actor :: actor
  call_req :: http_req
  call_key :: string
  call_now :: gotime
  call_id :: string
  call_id2 :: string

datatype plan =
    Stop nat string
  | Answer nat string
  | Panic
  | Commit nat string async_request job auditevent
  | Restore nat string restorejournal job auditevent
  | RetireApp nat string application job auditevent
  | PutKey nat sshkey
  | DropKey nat string auditevent

definition api_job :: "api_call \<Rightarrow> string \<Rightarrow> string \<Rightarrow> string \<Rightarrow> (string, any) gomap \<Rightarrow> job" where
  "api_job c typ rtype rid payload = job0\<lparr>
     job_Type := typ, job_ResourceType := rtype, job_ResourceID := rid, job_Payload := payload, job_State := ''queued'',
     job_ActorID := act_UserID (call_actor c), job_RequestID := rq_RequestID (call_req c), job_IdempotencyKey := call_key c\<rparr>"

abbreviation api_event :: "api_call \<Rightarrow> string \<Rightarrow> string \<Rightarrow> string \<Rightarrow> string \<Rightarrow> (string, any) gomap \<Rightarrow> (string, any) gomap \<Rightarrow> auditevent" where
  "api_event c aid action rtype rid before after \<equiv> auditEvent (call_actor c) (call_req c) aid action rtype rid before after"

abbreviation allowed :: "api_call \<Rightarrow> string \<Rightarrow> string \<Rightarrow> bool" where
  "allowed c aid cap \<equiv> requireAccount (call_actor c) aid cap"

abbreviation forbidden :: plan where "forbidden \<equiv> Stop 403 ''FORBIDDEN''"
abbreviation invalid :: plan where "invalid \<equiv> Stop 400 ''VALIDATION''"
abbreviation missing :: plan where "missing \<equiv> Stop 404 ''NOT_FOUND''"
abbreviation over_limit :: plan where "over_limit \<equiv> Stop 403 ''PACKAGE_LIMIT''"

section \<open>Package limits\<close>

definition Enforce :: "int \<Rightarrow> int \<Rightarrow> bool" where
  "Enforce used limit = (if limit \<le> 0 then True else \<not> used \<ge> limit)"

definition DomainKind :: "string \<Rightarrow> string" where
  "DomainKind typ = (if typ = ''subdomain'' then ''subdomains'' else if typ = ''alias'' then ''alias_domains'' else ''domains'')"

definition DomainLimit :: "package option \<Rightarrow> string \<Rightarrow> int" where
  "DomainLimit pkg typ =
     (case pkg of
        None \<Rightarrow> 0
      | Some p \<Rightarrow> if typ = ''subdomain'' then pkg_Subdomains p else if typ = ''alias'' then pkg_AliasDomains p else pkg_Domains p)"

definition domainMatchesKind :: "string \<Rightarrow> string \<Rightarrow> bool" where
  "domainMatchesKind have wantKind =
     (if wantKind = ''subdomains'' then have = ''subdomain''
      else if wantKind = ''alias_domains'' then have = ''alias''
      else have = ''primary'' \<or> have = ''addon'' \<or> have = '''')"

definition CountDomains :: "memory \<Rightarrow> string \<Rightarrow> string \<Rightarrow> int" where
  "CountDomains m accountID typ = int (length (filter (\<lambda>d. domainMatchesKind (dom_Type d) typ) (ListDomains m accountID)))"

definition accountPackage :: "memory \<Rightarrow> string \<Rightarrow> package option" where
  "accountPackage m accountID =
     (case GetAccount m accountID of
        None \<Rightarrow> None
      | Some acc \<Rightarrow> if acc_PackageID acc = '''' then None else GetPackage m (acc_PackageID acc))"

definition enforceDomainLimit :: "memory \<Rightarrow> string \<Rightarrow> string \<Rightarrow> bool" where
  "enforceDomainLimit m accountID typ =
     (let pkg = accountPackage m accountID; kind = DomainKind typ
      in Enforce (CountDomains m accountID kind) (DomainLimit pkg typ))"

definition enforceCountLimit :: "memory \<Rightarrow> string \<Rightarrow> nat \<Rightarrow> (package \<Rightarrow> int) \<Rightarrow> bool" where
  "enforceCountLimit m accountID used limitFn =
     (let limit = (case accountPackage m accountID of None \<Rightarrow> 0 | Some p \<Rightarrow> limitFn p)
      in Enforce (int used) limit)"

section \<open>Domains and websites\<close>

definition accountHoldingDomain :: "memory \<Rightarrow> string \<Rightarrow> account option" where
  "accountHoldingDomain m ascii =
     find (\<lambda>a. acc_PrimaryDomain a = ascii \<or> (\<exists>d \<in> set (ListDomains m (acc_ID a)). dom_ASCII d = ascii)) (ListAccounts m '''' '''')"

definition createDomain :: "api_call \<Rightarrow> string \<Rightarrow> string \<Rightarrow> string \<Rightarrow> string \<Rightarrow> memory \<Rightarrow> plan" where
  "createDomain c aid fqdn typ0 runtime m =
     (if \<not> allowed c aid DomainsWrite then forbidden
      else (case NormalizeDomain fqdn of
              Inl _ \<Rightarrow> invalid
            | Inr ascii \<Rightarrow>
                if DomainTaken m ascii then
                  (case accountHoldingDomain m ascii of
                     Some holder \<Rightarrow>
                       if acc_Status holder = ''terminated'' \<or> acc_Status holder = ''terminating''
                       then Stop 409 ''TERMINATED_ACCOUNT_EXISTS'' else Stop 409 ''DOMAIN_ALREADY_EXISTS''
                   | None \<Rightarrow> Stop 409 ''DOMAIN_ALREADY_EXISTS'')
                else
                  let typ = (if typ0 = '''' then ''addon'' else typ0)
                  in if typ \<notin> {''primary'', ''addon'', ''subdomain'', ''alias''} then invalid
                     else if \<not> enforceDomainLimit m aid typ then over_limit
                     else (case GetAccount m aid of
                             None \<Rightarrow> Panic
                           | Some acc \<Rightarrow>
                               let doc = (if typ = ''alias'' then acc_HomePath acc @ ''/public_html'' else acc_HomePath acc @ ''/'' @ ascii);
                                   d = domain0\<lparr>dom_ID := call_id c, dom_AccountID := aid, dom_FQDN := ascii, dom_ASCII := ascii, dom_Type := typ,
                                         dom_DocumentRoot := doc, dom_DNSManaged := True, dom_Status := ''provisioning'', dom_DesiredRevision := 1\<rparr>
                               in Commit 202 ''DOMAIN_CREATE_ERROR'' (CreateDomainReq (Some d))
                                    (api_job c ''domain.provision'' ''domain'' (dom_ID d)
                                       [(''domain_id'', VString (dom_ID d)), (''account_id'', VString aid), (''runtime'', VString runtime), (''target_revision'', VInt 1)])
                                    (api_event c aid ''domain.create'' ''domain'' (dom_ID d) [] [(''fqdn'', VString ascii), (''runtime'', VString runtime)]))))"

definition deleteDomain :: "api_call \<Rightarrow> string \<Rightarrow> string \<Rightarrow> memory \<Rightarrow> plan" where
  "deleteDomain c aid domainID m =
     (if \<not> allowed c aid DomainsWrite then forbidden
      else (case GetDomain m domainID of
              None \<Rightarrow> missing
            | Some d0 \<Rightarrow>
                if dom_AccountID d0 \<noteq> aid then missing
                else if dom_Type d0 = ''primary'' then Stop 409 ''IN_USE''
                else let d = d0\<lparr>dom_Status := ''terminating'', dom_DesiredRevision := dom_DesiredRevision d0 + 1\<rparr>
                     in Commit 202 ''DOMAIN_DELETE_ERROR'' (UpdateDomainReq (Some d))
                          (api_job c ''domain.delete'' ''domain'' (dom_ID d)
                             [(''domain_id'', VString (dom_ID d)), (''account_id'', VString aid), (''target_revision'', VInt (dom_DesiredRevision d))])
                          (api_event c aid ''domain.delete'' ''domain'' (dom_ID d)
                             [(''fqdn'', VString (dom_ASCII d0)), (''type'', VString (dom_Type d0)), (''status'', VString (dom_Status d0))]
                             [(''status'', VString ''terminating'')])))"

definition supportedPHPVersion :: "string \<Rightarrow> bool" where
  "supportedPHPVersion v \<longleftrightarrow> v \<in> {''8.3'', ''8.4'', ''8.5''}"

definition website_job :: "api_call \<Rightarrow> string \<Rightarrow> string \<Rightarrow> website \<Rightarrow> job" where
  "website_job c aid typ w =
     api_job c typ ''website'' (web_ID w) [(''website_id'', VString (web_ID w)), (''account_id'', VString aid), (''target_revision'', VInt (web_DesiredRevision w))]"

text \<open>The fields that the handler fills in; \<open>None\<close> when the runtime version is refused.\<close>

definition website_defaults :: "api_call \<Rightarrow> string \<Rightarrow> website \<Rightarrow> memory \<Rightarrow> website option" where
  "website_defaults c aid in0 m =
     (let w = in0\<lparr>web_ID := call_id c, web_AccountID := aid, web_DesiredRevision := 1\<rparr>;
          w = (if web_Runtime w = '''' then w\<lparr>web_Runtime := ''php''\<rparr> else w);
          w = (if web_Runtime w = ''php'' \<and> web_RuntimeVersion w = '''' then w\<lparr>web_RuntimeVersion := ''8.3''\<rparr> else w)
      in if web_Runtime w = ''php'' \<and> \<not> supportedPHPVersion (web_RuntimeVersion w) then None
         else (case GetAccount m aid of
                 None \<Rightarrow> Some w
               | Some acc \<Rightarrow>
                   Some (if web_DocumentRoot w = '''' then
                           (case GetDomain m (web_DomainID w) of
                              Some d \<Rightarrow> if dom_DocumentRoot d \<noteq> '''' then w\<lparr>web_DocumentRoot := dom_DocumentRoot d\<rparr>
                                       else w\<lparr>web_DocumentRoot := acc_HomePath acc @ ''/public_html''\<rparr>
                            | None \<Rightarrow> w\<lparr>web_DocumentRoot := acc_HomePath acc @ ''/public_html''\<rparr>)
                         else w)))"

definition createWebsite :: "api_call \<Rightarrow> string \<Rightarrow> website \<Rightarrow> memory \<Rightarrow> plan" where
  "createWebsite c aid in0 m =
     (if \<not> allowed c aid WebsitesWrite then forbidden
      else (case website_defaults c aid in0 m of
              None \<Rightarrow> invalid
            | Some w \<Rightarrow>
                if (case GetAccount m aid of None \<Rightarrow> False | Some acc \<Rightarrow> ValidateDocumentRoot (acc_Username acc) (web_DocumentRoot w) \<noteq> None) then invalid
                else (case (if (case GetDomain m (web_DomainID w) of None \<Rightarrow> False | Some d \<Rightarrow> dom_AccountID d = aid)
                            then find (\<lambda>e. web_DomainID e = web_DomainID w) (ListWebsites m aid) else None) of
                        Some e0 \<Rightarrow>
                          let e = (if web_Runtime w \<noteq> '''' then e0\<lparr>web_Runtime := web_Runtime w\<rparr> else e0);
                              e = (if web_RuntimeVersion w \<noteq> '''' then e\<lparr>web_RuntimeVersion := web_RuntimeVersion w\<rparr> else e);
                              e = (if web_DocumentRoot w \<noteq> '''' then e\<lparr>web_DocumentRoot := web_DocumentRoot w\<rparr> else e);
                              e = e\<lparr>web_DesiredRevision := web_DesiredRevision e + 1\<rparr>
                          in Commit 202 ''WEBSITE_UPDATE_ERROR'' (UpsertWebsiteReq (Some e)) (website_job c aid ''website.provision'' e)
                               (api_event c aid ''website.update'' ''website'' (web_ID e) [] [(''desired_revision'', VInt (web_DesiredRevision e))])
                      | None \<Rightarrow>
                          if \<not> enforceCountLimit m aid (length (ListWebsites m aid)) (\<lambda>p. pkg_Domains p + pkg_Subdomains p + pkg_AliasDomains p)
                          then over_limit
                          else Commit 202 ''WEBSITE_CREATE_ERROR'' (UpsertWebsiteReq (Some w)) (website_job c aid ''website.provision'' w)
                                 (api_event c aid ''website.create'' ''website'' (web_ID w) [] [(''desired_revision'', VInt (web_DesiredRevision w))]))))"

definition deleteWebsite :: "api_call \<Rightarrow> string \<Rightarrow> string \<Rightarrow> memory \<Rightarrow> plan" where
  "deleteWebsite c aid websiteID m =
     (if \<not> allowed c aid WebsitesWrite then forbidden
      else (case GetWebsite m websiteID of
              None \<Rightarrow> missing
            | Some s0 \<Rightarrow>
                if web_AccountID s0 \<noteq> aid then missing
                else if (case GetDomain m (web_DomainID s0) of None \<Rightarrow> False | Some d \<Rightarrow> dom_Type d = ''primary'') then Stop 409 ''IN_USE''
                else let s = s0\<lparr>web_Enabled := False, web_DesiredRevision := web_DesiredRevision s0 + 1\<rparr>
                     in Commit 202 ''WEBSITE_DELETE_ERROR'' (UpsertWebsiteReq (Some s)) (website_job c aid ''website.delete'' s)
                          (api_event c aid ''website.delete'' ''website'' (web_ID s)
                             [(''domain_id'', VString (web_DomainID s0)), (''enabled'', VBool (web_Enabled s0))]
                             [(''enabled'', VBool False), (''desired_revision'', VInt (web_DesiredRevision s))])))"

section \<open>Applications and databases\<close>

definition containsControlCharacters :: "string \<Rightarrow> bool" where
  "containsControlCharacters v \<longleftrightarrow> (\<exists>ch \<in> set v. of_char ch < (32 :: nat) \<or> of_char ch = (127 :: nat))"

definition createApp :: "api_call \<Rightarrow> string \<Rightarrow> application option \<Rightarrow> memory \<Rightarrow> plan" where
  "createApp c aid body m =
     (if \<not> allowed c aid ApplicationsWrite then forbidden
      else (case body of
              None \<Rightarrow> Stop 400 ''INVALID_JSON''
            | Some in0 \<Rightarrow>
                let a = in0\<lparr>app_ID := call_id c, app_AccountID := aid\<rparr>
                in (case GetAccount m aid of
                      None \<Rightarrow> missing
                    | Some account \<Rightarrow>
                        (case GetWebsite m (app_WebsiteID a) of
                           None \<Rightarrow> invalid
                         | Some website \<Rightarrow>
                             if web_AccountID website \<noteq> aid then invalid
                             else if app_Runtime a \<noteq> ''node'' \<and> app_Runtime a \<noteq> ''python'' then invalid
                             else if containsControlCharacters (app_Runtime a) \<or> containsControlCharacters (app_RuntimeVersion a) \<or>
                               containsControlCharacters (app_WorkingDirectory a) \<or> containsControlCharacters (app_StartCommand a) then invalid
                             else
                               let a = (if app_WorkingDirectory a = '''' then
                                          a\<lparr>app_WorkingDirectory := (if web_DocumentRoot website = '''' then ''/home/'' @ acc_Username account @ ''/apps/'' @ app_ID a
                                                                  else web_DocumentRoot website)\<rparr>
                                        else a)
                               in if WithinAccount (acc_Username account) (app_WorkingDirectory a) \<noteq> Inr (app_WorkingDirectory a) then invalid
                                  else if \<not> enforceCountLimit m aid (length (ListApps m aid)) pkg_ApplicationInstances then over_limit
                                  else
                                    let a = (if app_Status a = '''' then a\<lparr>app_Status := ''provisioning''\<rparr> else a)
                                    in Commit 202 ''APPLICATION_CREATE_ERROR'' (UpsertApplicationReq (Some a))
                                         (api_job c ''application.deploy'' ''application'' (app_ID a) [(''application_id'', VString (app_ID a)), (''account_id'', VString aid)])
                                         (api_event c aid ''application.create'' ''application'' (app_ID a) [] [(''runtime'', VString (app_Runtime a))])))))"

definition deleteApp :: "api_call \<Rightarrow> string \<Rightarrow> string \<Rightarrow> memory \<Rightarrow> plan" where
  "deleteApp c aid applicationID m =
     (if \<not> allowed c aid ApplicationsWrite then forbidden
      else (case GetApp m applicationID of
              None \<Rightarrow> missing
            | Some a0 \<Rightarrow>
                if app_AccountID a0 \<noteq> aid then missing
                else let a = a0\<lparr>app_Status := ''retiring''\<rparr>
                     in RetireApp 202 ''APPLICATION_DELETE_ERROR'' a
                          (api_job c ''application.retire'' ''application'' (app_ID a) [(''application_id'', VString (app_ID a)), (''account_id'', VString aid)])
                          (api_event c '''' ''application.delete'' ''application'' (app_ID a) [(''runtime'', VString (app_Runtime a))] [])))"

definition queueWordPressInstall ::
    "api_call \<Rightarrow> string \<Rightarrow> string \<Rightarrow> string \<Rightarrow> string \<Rightarrow> string \<Rightarrow> string \<Rightarrow> memory \<Rightarrow> plan" where
  "queueWordPressInstall c aid websiteID title0 adminUser adminPassword adminEmail m =
     (if \<not> enforceCountLimit m aid (length (ListApps m aid)) pkg_ApplicationInstances then over_limit
      else if Username adminUser \<noteq> None then invalid
      else if length adminPassword < 8 then invalid
      else if adminEmail = '''' \<or> \<not> contains adminEmail ''@'' then invalid
      else let title = (if title0 = '''' then ''WordPress'' else title0)
           in (case GetWebsite m websiteID of
                 None \<Rightarrow> invalid
               | Some site \<Rightarrow>
                   if web_AccountID site \<noteq> aid then invalid
                   else
                     let hostname = (case GetDomain m (web_DomainID site) of None \<Rightarrow> '''' | Some d \<Rightarrow> dom_ASCII d);
                         a = application0\<lparr>app_ID := call_id c, app_WebsiteID := web_ID site, app_AccountID := aid, app_Runtime := ''wordpress'',
                               app_WorkingDirectory := web_DocumentRoot site, app_Status := ''provisioning''\<rparr>
                     in Commit 202 ''WORDPRESS_INSTALL_ERROR'' (UpsertApplicationReq (Some a))
                          (api_job c ''wordpress.install'' ''application'' (app_ID a)
                             [(''application_id'', VString (app_ID a)), (''title'', VString title), (''hostname'', VString hostname),
                              (''admin_user'', VString adminUser), (''admin_password'', VString adminPassword), (''admin_email'', VString adminEmail)])
                          (api_event c aid ''wordpress.install'' ''application'' (app_ID a) [] [(''website_id'', VString (web_ID site)), (''title'', VString title)])))"

definition installWordPress :: "api_call \<Rightarrow> string \<Rightarrow> string \<Rightarrow> string \<Rightarrow> string \<Rightarrow> string \<Rightarrow> string \<Rightarrow> memory \<Rightarrow> plan" where
  "installWordPress c aid websiteID title adminUser adminPassword adminEmail m =
     (if \<not> allowed c aid ApplicationsWrite then forbidden
      else queueWordPressInstall c aid websiteID title adminUser adminPassword adminEmail m)"

definition createDB :: "api_call \<Rightarrow> string \<Rightarrow> string \<Rightarrow> string \<Rightarrow> memory \<Rightarrow> plan" where
  "createDB c aid name0 engine0 m =
     (if \<not> allowed c aid DatabasesWrite then forbidden
      else if \<not> enforceCountLimit m aid (length (ListDBs m aid)) pkg_Databases then over_limit
      else let engine = (if engine0 = '''' then ''mariadb'' else engine0)
           in if engine \<notin> {''mariadb'', ''mysql'', ''postgres''} then invalid
              else (case GetAccount m aid of
                      None \<Rightarrow> missing
                    | Some acc \<Rightarrow>
                        if LocalPart name0 \<noteq> None \<or> contains name0 ''.'' then invalid
                        else
                          let d = hosteddb0\<lparr>db_ID := call_id c, db_AccountID := aid, db_Engine := engine, db_Name := acc_Username acc @ ''_'' @ name0, db_Status := ''provisioning''\<rparr>;
                              none = (ListDBUsers m aid = [])
                          in if none \<and> \<not> enforceCountLimit m aid 0 pkg_DatabaseUsers then over_limit
                             else
                               let u = (if none then Some (dbuser0\<lparr>dbu_ID := call_id2 c, dbu_AccountID := aid, dbu_Username := acc_Username acc @ ''_u'', dbu_Engine := engine\<rparr>)
                                        else None)
                               in Commit 202 ''DATABASE_CREATE_ERROR'' (UpsertDatabaseReq (Some d) u)
                                    (api_job c ''database.provision'' ''database'' (db_ID d) [(''database_id'', VString (db_ID d)), (''account_id'', VString aid)])
                                    (api_event c aid ''database.create'' ''database'' (db_ID d) [] [(''name'', VString (db_Name d)), (''engine'', VString engine)])))"

definition deleteDB :: "api_call \<Rightarrow> string \<Rightarrow> string \<Rightarrow> memory \<Rightarrow> plan" where
  "deleteDB c aid databaseID m =
     (if \<not> allowed c aid DatabasesWrite then forbidden
      else (case GetDB m databaseID of
              None \<Rightarrow> missing
            | Some d \<Rightarrow>
                if db_AccountID d \<noteq> aid then missing
                else Commit 202 ''DATABASE_DELETE_ERROR'' (DeleteDatabaseReq (db_ID d) aid)
                       (api_job c ''database.delete'' ''database'' (db_ID d) [(''database_id'', VString (db_ID d)), (''account_id'', VString aid)])
                       (api_event c aid ''database.delete'' ''database'' (db_ID d) [(''name'', VString (db_Name d)), (''engine'', VString (db_Engine d))] [])))"


section \<open>DNS\<close>

text \<open>\<open>ip4\<close> and \<open>ip6\<close>: \<^verbatim>\<open>validate.IPv4\<close> and \<^verbatim>\<open>validate.IPv6\<close>, which call \<^verbatim>\<open>net.ParseIP\<close>.\<close>

definition validateDNS :: "(string \<Rightarrow> bool) \<Rightarrow> (string \<Rightarrow> bool) \<Rightarrow> dnsrecord \<Rightarrow> bool" where
  "validateDNS ip4 ip6 r =
     (if rec_Type r = ''A'' then ip4 (rec_Content r)
      else if rec_Type r = ''AAAA'' then ip6 (rec_Content r)
      else if rec_Type r \<in> {''CNAME'', ''NS'', ''MX''} then rec_Content r \<noteq> ''''
      else if rec_Type r \<in> {''TXT'', ''CAA'', ''SRV'', ''PTR''} then rec_Content r \<noteq> ''''
      else False)"

definition zone_job :: "api_call \<Rightarrow> string \<Rightarrow> string \<Rightarrow> job" where
  "zone_job c aid zoneID = api_job c ''dns.sync'' ''dns_zone'' zoneID [(''zone_id'', VString zoneID), (''account_id'', VString aid)]"

definition createRecord :: "(string \<Rightarrow> bool) \<Rightarrow> (string \<Rightarrow> bool) \<Rightarrow> api_call \<Rightarrow> string \<Rightarrow> string \<Rightarrow> dnsrecord \<Rightarrow> memory \<Rightarrow> plan" where
  "createRecord ip4 ip6 c aid zoneID rec0 m =
     (if \<not> allowed c aid DNSWrite then forbidden
      else (case GetZone m zoneID of
              None \<Rightarrow> missing
            | Some z \<Rightarrow>
                if zone_AccountID z \<noteq> aid then missing
                else if \<not> validateDNS ip4 ip6 rec0 then invalid
                else let r = rec0\<lparr>rec_ID := call_id c, rec_ZoneID := zoneID\<rparr>
                     in Commit 202 ''DNS_RECORD_CREATE_ERROR'' (CreateRecordReq (Some r) aid) (zone_job c aid zoneID)
                          (api_event c aid ''dns.record.create'' ''dns_record'' (rec_ID r) [] [(''zone_id'', VString zoneID)])))"

definition deleteRecord :: "api_call \<Rightarrow> string \<Rightarrow> string \<Rightarrow> string \<Rightarrow> memory \<Rightarrow> plan" where
  "deleteRecord c aid zid rid m =
     (if \<not> allowed c aid DNSWrite then forbidden
      else (case GetZone m zid of
              None \<Rightarrow> missing
            | Some z \<Rightarrow>
                if zone_AccountID z \<noteq> aid then missing
                else if \<not> (\<exists>r \<in> set (ListRecords m zid). rec_ID r = rid) then missing
                else Commit 202 ''DNS_RECORD_DELETE_ERROR'' (DeleteRecordReq rid zid aid) (zone_job c aid zid)
                       (api_event c aid ''dns.record.delete'' ''dns_record'' rid [] [(''zone_id'', VString zid)])))"

definition setDNSSEC :: "api_call \<Rightarrow> string \<Rightarrow> string \<Rightarrow> bool option \<Rightarrow> memory \<Rightarrow> plan" where
  "setDNSSEC c aid zoneID enabled m =
     (if \<not> allowed c aid DNSWrite then forbidden
      else (case GetZone m zoneID of
              None \<Rightarrow> missing
            | Some z0 \<Rightarrow>
                if zone_AccountID z0 \<noteq> aid then missing
                else (case enabled of
                        None \<Rightarrow> invalid
                      | Some b \<Rightarrow>
                          let z = z0\<lparr>zone_DNSSECEnabled := b, zone_DesiredRevision := zone_DesiredRevision z0 + 1\<rparr>
                          in Commit 202 ''DNSSEC_UPDATE_ERROR'' (UpsertZoneReq (Some z))
                               (api_job c ''dns.dnssec'' ''dns_zone'' (zone_ID z)
                                  [(''zone_id'', VString (zone_ID z)), (''account_id'', VString aid), (''target_revision'', VInt (zone_DesiredRevision z))])
                               (api_event c aid ''dns.dnssec'' ''dns_zone'' (zone_ID z) [] [(''enabled'', VBool b), (''desired_revision'', VInt (zone_DesiredRevision z))]))))"

section \<open>Mail\<close>

definition resolveMailDomain :: "memory \<Rightarrow> string \<Rightarrow> string \<Rightarrow> maildomain option" where
  "resolveMailDomain m accountID inID =
     (let l = ListMailDomains m accountID
      in case find (\<lambda>d. md_ID d = inID \<or> md_DomainID d = inID) l of
           Some d \<Rightarrow> Some d
         | None \<Rightarrow> if inID = '''' \<and> length l = 1 then Some (hd l) else None)"

definition isMailingList :: "mailalias \<Rightarrow> bool" where
  "isMailingList a \<longleftrightarrow> contains (al_Destination a) '',''"

definition mailLocalPartConflict :: "memory \<Rightarrow> string \<Rightarrow> string \<Rightarrow> string \<Rightarrow> string" where
  "mailLocalPartConflict m accountID domainID localPart =
     (if \<exists>b \<in> set (ListMailboxes m accountID). mb_DomainID b = domainID \<and> mb_LocalPart b = localPart then ''mailbox already exists''
      else (case find (\<lambda>a. al_DomainID a = domainID \<and> al_Address a = localPart) (ListMailAliases m accountID) of
              Some a \<Rightarrow> if isMailingList a then ''list or alias already exists'' else ''alias already exists''
            | None \<Rightarrow> ''''))"

definition patchMailDomain :: "api_call \<Rightarrow> string \<Rightarrow> string \<Rightarrow> string \<Rightarrow> memory \<Rightarrow> plan" where
  "patchMailDomain c aid mdID catchall m =
     (if \<not> allowed c aid MailWrite then forbidden
      else (case find (\<lambda>d. md_ID d = mdID) (ListMailDomains m aid) of
              None \<Rightarrow> missing
            | Some d0 \<Rightarrow>
                let policy = trim_space (to_lower catchall)
                in if policy \<noteq> ''reject'' \<and> policy \<noteq> ''discard'' \<and> LocalPart policy \<noteq> None then invalid
                   else let d = d0\<lparr>md_CatchallPolicy := policy\<rparr>
                        in Commit 202 ''MAIL_DOMAIN_UPDATE_ERROR'' (UpsertMailDomainReq (Some d))
                             (api_job c ''mail.maps'' ''mail_domain'' (md_ID d) [(''account_id'', VString aid)])
                             (api_event c aid ''mail.catchall'' ''mail_domain'' (md_ID d)
                                [(''catchall_policy'', VString (md_CatchallPolicy d0))] [(''catchall_policy'', VString policy)])))"

text \<open>\<open>hash\<close> is \<^verbatim>\<open>auth.HashPassword\<close>, \<open>None\<close> when it fails.\<close>

definition createMailbox :: "(string \<Rightarrow> string option) \<Rightarrow> api_call \<Rightarrow> string \<Rightarrow> string \<Rightarrow> string \<Rightarrow> string \<Rightarrow> memory \<Rightarrow> plan" where
  "createMailbox hash c aid domainID localPart password m =
     (if \<not> allowed c aid MailWrite then forbidden
      else if LocalPart localPart \<noteq> None then invalid
      else (case resolveMailDomain m aid domainID of
              None \<Rightarrow> invalid
            | Some d \<Rightarrow>
                if password = '''' then invalid
                else (case hash password of
                        None \<Rightarrow> invalid
                      | Some h \<Rightarrow>
                          let quota = (case accountPackage m aid of Some p \<Rightarrow> if pkg_MailboxStorageBytes p > 0 then pkg_MailboxStorageBytes p else 1073741824 | None \<Rightarrow> 1073741824);
                              fresh_box = mailbox0\<lparr>mb_ID := call_id c, mb_AccountID := aid, mb_DomainID := md_ID d, mb_LocalPart := localPart, mb_QuotaBytes := quota,
                                mb_PasswordHash := h, mb_Status := ''provisioning''\<rparr>;
                              old = find (\<lambda>b. mb_DomainID b = md_ID d \<and> mb_LocalPart b = localPart) (ListMailboxes m aid);
                              mb = (case old of Some e \<Rightarrow> e\<lparr>mb_PasswordHash := h, mb_Status := ''provisioning''\<rparr> | None \<Rightarrow> fresh_box);
                              msg = mailLocalPartConflict m aid (md_ID d) localPart
                          in if old = None \<and> msg \<noteq> '''' \<and> msg \<noteq> ''mailbox already exists'' then Stop 409 ''CONFLICT''
                             else if old = None \<and> \<not> enforceCountLimit m aid (length (ListMailboxes m aid)) pkg_Mailboxes then over_limit
                             else Commit 202 ''MAILBOX_UPDATE_ERROR'' (UpsertMailboxReq (Some mb))
                                    (api_job c ''mailbox.provision'' ''mailbox'' (mb_ID mb) [(''mailbox_id'', VString (mb_ID mb)), (''account_id'', VString aid)])
                                    (api_event c aid ''mailbox.upsert'' ''mailbox'' (mb_ID mb) [] [(''local_part'', VString (mb_LocalPart mb)), (''status'', VString (mb_Status mb))]))))"

definition deleteMailbox :: "api_call \<Rightarrow> string \<Rightarrow> string \<Rightarrow> memory \<Rightarrow> plan" where
  "deleteMailbox c aid mailboxID m =
     (if \<not> allowed c aid MailWrite then forbidden
      else (case GetMailbox m mailboxID of
              None \<Rightarrow> missing
            | Some mb \<Rightarrow>
                if mb_AccountID mb \<noteq> aid then missing
                else if \<exists>al \<in> set (ListMailAliases m aid). al_Destination al = mb_LocalPart mb \<or> has_prefix (al_Destination al) (mb_LocalPart mb @ ''@'')
                then Stop 409 ''IN_USE''
                else Commit 202 ''MAILBOX_DELETE_ERROR'' (DeleteMailboxReq (mb_ID mb) aid)
                       (api_job c ''mailbox.delete'' ''mailbox'' (mb_ID mb) [(''account_id'', VString aid), (''mailbox_id'', VString (mb_ID mb))])
                       (api_event c aid ''mailbox.delete'' ''mailbox'' (mb_ID mb) [(''local_part'', VString (mb_LocalPart mb))] [])))"

definition normalizeAliasDestination :: "string \<Rightarrow> string + string" where
  "normalizeAliasDestination raw =
     (let s = trim_space (to_lower raw)
      in if s = '''' \<or> contains_any s (''; |&$'' @ [CHR 96, CHR 10, CHR 13]) then Inl ''invalid destination''
         else if \<not> contains s ''@'' then (case LocalPart s of Some e \<Rightarrow> Inl e | None \<Rightarrow> Inr s)
         else (case cut (CHR ''@'') s of
                 (local, host, ok) \<Rightarrow>
                   if \<not> ok \<or> length (filter (\<lambda>ch. ch = CHR ''@'') s) \<noteq> 1 then Inl ''invalid destination''
                   else (case LocalPart local of
                           Some e \<Rightarrow> Inl e
                         | None \<Rightarrow> (case NormalizeDomain host of Inl e \<Rightarrow> Inl e | Inr _ \<Rightarrow> Inr (local @ ''@'' @ host)))))"

fun destinations_loop :: "string list \<Rightarrow> string list \<Rightarrow> string + string list" where
  "destinations_loop out [] = Inr out"
| "destinations_loop out (p # ps) =
     (case normalizeAliasDestination (trim_space p) of
        Inl e \<Rightarrow> Inl e
      | Inr dest \<Rightarrow> if dest \<in> set out then destinations_loop out ps else destinations_loop (out @ [dest]) ps)"

definition normalizeAliasDestinations :: "string \<Rightarrow> string + string" where
  "normalizeAliasDestinations raw =
     (case destinations_loop [] (split_on (CHR '','') raw) of
        Inl e \<Rightarrow> Inl e
      | Inr out \<Rightarrow> if out = [] then Inl ''at least one member is required'' else Inr (join_with (CHR '','') out))"

definition alias_job :: "api_call \<Rightarrow> string \<Rightarrow> string \<Rightarrow> job" where
  "alias_job c aid aliasID = api_job c ''mail.alias'' ''mail_alias'' aliasID [(''account_id'', VString aid), (''alias_id'', VString aliasID)]"

definition createMailAlias :: "api_call \<Rightarrow> string \<Rightarrow> string \<Rightarrow> string \<Rightarrow> string \<Rightarrow> memory \<Rightarrow> plan" where
  "createMailAlias c aid domainID address destination m =
     (if \<not> allowed c aid MailWrite then forbidden
      else if LocalPart address \<noteq> None then invalid
      else (case normalizeAliasDestinations destination of
              Inl _ \<Rightarrow> invalid
            | Inr dest \<Rightarrow>
                (case resolveMailDomain m aid domainID of
                   None \<Rightarrow> invalid
                 | Some d \<Rightarrow>
                     if dest = address then invalid
                     else if mailLocalPartConflict m aid (md_ID d) address \<noteq> '''' then Stop 409 ''CONFLICT''
                     else let al = mailalias0\<lparr>al_ID := call_id c, al_AccountID := aid, al_DomainID := md_ID d, al_Address := address, al_Destination := dest\<rparr>
                          in Commit 202 ''MAIL_ALIAS_CREATE_ERROR'' (UpsertMailAliasReq (Some al)) (alias_job c aid (al_ID al))
                               (api_event c aid ''mail.alias.create'' ''mail_alias'' (al_ID al) [] [(''address'', VString address), (''destination'', VString dest)]))))"

definition deleteMailAlias :: "api_call \<Rightarrow> string \<Rightarrow> string \<Rightarrow> memory \<Rightarrow> plan" where
  "deleteMailAlias c aid aliasID m =
     (if \<not> allowed c aid MailWrite then forbidden
      else (case GetMailAlias m aliasID of
              None \<Rightarrow> missing
            | Some al \<Rightarrow>
                if al_AccountID al \<noteq> aid then missing
                else Commit 202 ''MAIL_ALIAS_DELETE_ERROR'' (DeleteMailAliasReq (al_ID al) aid) (alias_job c aid (al_ID al))
                       (api_event c aid ''mail.alias.delete'' ''mail_alias'' (al_ID al) [(''address'', VString (al_Address al))] [])))"

section \<open>Certificates and backups\<close>

definition strPayload :: "(string, any) gomap \<Rightarrow> string \<Rightarrow> string" where
  "strPayload payload key = (case mget payload key of Some (VString s) \<Rightarrow> s | _ \<Rightarrow> '''')"

definition inflightCertJob :: "memory \<Rightarrow> certificate option \<Rightarrow> job option" where
  "inflightCertJob m cert =
     (case cert of
        None \<Rightarrow> None
      | Some c \<Rightarrow>
          find (\<lambda>j. job_Type j = ''certificate.provision'' \<and> (job_ResourceID j = cert_ID c \<or> strPayload (job_Payload j) ''certificate_id'' = cert_ID c))
            (ListJobs m ''queued'' 200 @ ListJobs m ''running'' 200))"

definition certStillFresh :: "gotime \<Rightarrow> certificate option \<Rightarrow> bool" where
  "certStillFresh now cert =
     (case cert of
        None \<Rightarrow> False
      | Some c \<Rightarrow>
          if cert_Status c \<noteq> ''issued'' \<and> cert_Status c \<noteq> ''active'' then False
          else (case cert_NotAfter c of None \<Rightarrow> True | Some t \<Rightarrow> t > now + 30 * 24 * hour))"

definition requestCert :: "api_call \<Rightarrow> string \<Rightarrow> string \<Rightarrow> memory \<Rightarrow> plan" where
  "requestCert c aid hostname m =
     (if \<not> allowed c aid WebsitesWrite then forbidden
      else (case NormalizeDomain hostname of
              Inl _ \<Rightarrow> invalid
            | Inr host \<Rightarrow>
                if \<not> (\<exists>d \<in> set (ListDomains m aid). dom_ASCII d = host) then invalid
                else
                  let old = find (\<lambda>e. cert_Hostname e = host) (ListCerts m aid)
                  in (case inflightCertJob m old of
                        Some j \<Rightarrow> Answer 202 (job_ID j)
                      | None \<Rightarrow>
                          if certStillFresh (call_now c) old then Answer 200 ''''
                          else
                            let cert = (case old of
                                  None \<Rightarrow> certificate0\<lparr>cert_ID := call_id c, cert_AccountID := aid, cert_Hostname := host, cert_Kind := ''domain'', cert_Status := ''requested''\<rparr>
                                | Some e \<Rightarrow> e\<lparr>cert_Status := ''requested''\<rparr>)
                            in Commit 202 ''CERTIFICATE_REQUEST_ERROR'' (UpsertCertificateReq (Some cert))
                                 (api_job c ''certificate.provision'' ''certificate'' (cert_ID cert)
                                    [(''certificate_id'', VString (cert_ID cert)), (''account_id'', VString aid), (''hostname'', VString host)])
                                 (api_event c aid ''certificate.request'' ''certificate'' (cert_ID cert) [] [(''hostname'', VString host), (''status'', VString (cert_Status cert))]))))"

definition createBackup :: "api_call \<Rightarrow> string \<Rightarrow> string \<Rightarrow> string \<Rightarrow> memory \<Rightarrow> plan" where
  "createBackup c aid kind0 destination0 m =
     (if \<not> allowed c aid BackupsCreate then forbidden
      else let kind = (if kind0 = '''' then ''full'' else kind0); destination = (if destination0 = '''' then ''local'' else destination0)
           in if destination \<notin> {''local'', ''sftp'', ''s3''} then invalid
              else let b = backuprun0\<lparr>bak_ID := call_id c, bak_AccountID := aid, bak_Kind := kind, bak_State := ''queued'', bak_Destination := destination,
                             bak_CreatedAt := call_now c\<rparr>
                   in Commit 202 ''BACKUP_CREATE_ERROR'' (CreateBackupReq (Some b))
                        (api_job c ''backup.create'' ''backup'' (bak_ID b) [(''backup_id'', VString (bak_ID b)), (''account_id'', VString aid)])
                        (api_event c aid ''backup.create'' ''backup'' (bak_ID b) [] [(''kind'', VString kind), (''destination'', VString destination)]))"

definition restoreBackup :: "api_call \<Rightarrow> string \<Rightarrow> string \<Rightarrow> string \<Rightarrow> memory \<Rightarrow> plan" where
  "restoreBackup c aid backupID mode m =
     (if \<not> allowed c aid BackupsRestore then forbidden
      else (case GetBackup m backupID of
              None \<Rightarrow> Stop 404 ''BACKUP_NOT_FOUND''
            | Some b \<Rightarrow>
                if bak_AccountID b \<noteq> aid then Stop 404 ''BACKUP_NOT_FOUND''
                else
                  let r = restorejournal0\<lparr>rst_AccountID := aid, rst_BackupID := backupID, rst_ActorID := act_UserID (call_actor c),
                            rst_ObjectKey := strPayload (bak_Manifest b) ''key'', rst_State := StateRestoreRequested\<rparr>
                  in Restore 202 ''BACKUP_RESTORE_ERROR'' r
                       (api_job c ''backup.restore'' ''backup'' backupID [(''backup_id'', VString backupID), (''account_id'', VString aid), (''mode'', VString mode)])
                       (api_event c aid ''backup.restore'' ''backup'' backupID [] [(''mode'', VString mode)])))"


section \<open>Cron entries, SSH keys, FTP users\<close>

definition account_job :: "api_call \<Rightarrow> string \<Rightarrow> string \<Rightarrow> job" where
  "account_job c typ aid = api_job c typ ''account'' aid [(''account_id'', VString aid)]"

definition createCron :: "api_call \<Rightarrow> string \<Rightarrow> cronjob \<Rightarrow> memory \<Rightarrow> plan" where
  "createCron c aid in0 m =
     (if \<not> allowed c aid CronWrite then forbidden
      else if CronSchedule (cron_Schedule in0) \<noteq> None then invalid
      else if CronCommand (cron_Command in0) \<noteq> None then invalid
      else if \<not> enforceCountLimit m aid (length (ListCrons m aid)) pkg_CronJobs then over_limit
      else let e = (case GetAccount m aid of
                      Some acc \<Rightarrow> if cron_WorkingDirectory in0 = '''' then in0\<lparr>cron_WorkingDirectory := acc_HomePath acc\<rparr> else in0
                    | None \<Rightarrow> in0);
               e = e\<lparr>cron_ID := call_id c, cron_AccountID := aid, cron_Enabled := True\<rparr>
           in Commit 201 ''CRON_CREATE_ERROR'' (UpsertCronReq (Some e)) (account_job c ''cron.apply'' aid)
                (api_event c aid ''cron.create'' ''cron_job'' (cron_ID e) [] [(''schedule'', VString (cron_Schedule e)), (''command'', VString (cron_Command e))]))"

definition deleteCron :: "api_call \<Rightarrow> string \<Rightarrow> string \<Rightarrow> memory \<Rightarrow> plan" where
  "deleteCron c aid cronID m =
     (if \<not> allowed c aid CronWrite then forbidden
      else (case GetCron m cronID of
              None \<Rightarrow> missing
            | Some e \<Rightarrow>
                if cron_AccountID e \<noteq> aid then missing
                else Commit 202 ''CRON_DELETE_ERROR'' (DeleteCronReq (cron_ID e) aid) (account_job c ''cron.apply'' aid)
                       (api_event c aid ''cron.delete'' ''cron_job'' (cron_ID e)
                          [(''schedule'', VString (cron_Schedule e)), (''command'', VString (cron_Command e))] [])))"

text \<open>\<open>fp\<close>: the SHA-256 sum in hexadecimal.\<close>

definition createSSH :: "(string \<Rightarrow> string) \<Rightarrow> api_call \<Rightarrow> string \<Rightarrow> string \<Rightarrow> string \<Rightarrow> string \<Rightarrow> memory \<Rightarrow> plan" where
  "createSSH fp c aid label0 comment publicKey m =
     (if \<not> allowed c aid FilesWrite then forbidden
      else let key = trim_space publicKey
           in if key = '''' \<or> contains_any key [CHR 10, CHR 13] then invalid
              else if \<not> has_prefix key ''ssh-rsa '' \<and> \<not> has_prefix key ''ssh-ed25519 '' \<and> \<not> has_prefix key ''ecdsa-sha2-nistp256 '' then invalid
              else let label = (if trim_space label0 = '''' then trim_space comment else trim_space label0)
                   in PutKey 201 (sshkey0\<lparr>ssh_ID := call_id c, ssh_AccountID := aid, ssh_Label := label, ssh_PublicKey := key,
                        ssh_CreatedAt := call_now c, ssh_Fingerprint := fp key\<rparr>))"

definition deleteSSH :: "api_call \<Rightarrow> string \<Rightarrow> string \<Rightarrow> memory \<Rightarrow> plan" where
  "deleteSSH c aid keyID m =
     (if \<not> allowed c aid FilesWrite then forbidden
      else (case GetSSH m keyID of
              None \<Rightarrow> missing
            | Some k \<Rightarrow>
                if ssh_AccountID k \<noteq> aid then missing
                else DropKey 200 (ssh_ID k) (api_event c '''' ''ssh_key.delete'' ''ssh_key'' (ssh_ID k) [(''fingerprint'', VString (ssh_Fingerprint k))] [])))"

text \<open>The user and the key file that the agent is asked to write.\<close>

definition applyAuthorizedKeys :: "memory \<Rightarrow> string \<Rightarrow> (string \<times> string) option" where
  "applyAuthorizedKeys m accountID =
     (case GetAccount m accountID of
        None \<Rightarrow> None
      | Some acc \<Rightarrow> Some (acc_Username acc, concat (map (\<lambda>k. trim_space (ssh_PublicKey k) @ [CHR 10]) (ListSSH m accountID))))"

text \<open>\<open>crypt\<close> is \<^verbatim>\<open>auth.SHA512Crypt\<close>.\<close>

definition ftp_home :: "account \<Rightarrow> string \<Rightarrow> string" where
  "ftp_home acc homePath =
     (let home = trim_space homePath
      in if home = '''' then filepath_Join (acc_HomePath acc) ''public_html''
         else if \<not> filepath_IsAbs home then filepath_Join (acc_HomePath acc) (trim_prefix home ''/'')
         else home)"

definition createFTP :: "(string \<Rightarrow> string option) \<Rightarrow> api_call \<Rightarrow> string \<Rightarrow> string \<Rightarrow> string \<Rightarrow> string \<Rightarrow> memory \<Rightarrow> plan" where
  "createFTP crypt c aid username password homePath m =
     (if \<not> allowed c aid FilesWrite then forbidden
      else (case GetAccount m aid of
              None \<Rightarrow> missing
            | Some acc \<Rightarrow>
                if Username username \<noteq> None then invalid
                else if length password < 8 then invalid
                else (case WithinAccount (acc_Username acc) (filepath_Clean (ftp_home acc homePath)) of
                        Inl _ \<Rightarrow> Stop 400 ''PATH_DENIED''
                      | Inr clean \<Rightarrow>
                          if (case AccountByUsername m username of None \<Rightarrow> False | Some other \<Rightarrow> acc_ID other \<noteq> aid) then Stop 409 ''USERNAME_TAKEN''
                          else if (case UserByUsername m username of None \<Rightarrow> False | Some u \<Rightarrow> usr_ID u \<noteq> acc_OwnerUserID acc) then Stop 409 ''USERNAME_TAKEN''
                          else (case crypt password of
                                  None \<Rightarrow> invalid
                                | Some h \<Rightarrow>
                                    let old = find (\<lambda>e. ftp_Username e = username) (ListFTP m aid);
                                        f = (case old of
                                               Some e \<Rightarrow> e\<lparr>ftp_HomePath := clean, ftp_PasswordHash := h, ftp_Status := ''active''\<rparr>
                                             | None \<Rightarrow> ftpaccount0\<lparr>ftp_ID := call_id c, ftp_AccountID := aid, ftp_Username := username, ftp_HomePath := clean,
                                                 ftp_PasswordHash := h, ftp_Status := ''active''\<rparr>)
                                    in if FTPUsernameTaken m username (ftp_ID f) then Stop 409 ''USERNAME_TAKEN''
                                       else if old = None \<and> \<not> enforceCountLimit m aid (length (ListFTP m aid)) pkg_FTPUsers then over_limit
                                       else Commit 202 ''FTP_CREATE_ERROR'' (UpsertFTPReq (Some f)) (account_job c ''ftp.apply'' aid)
                                              (api_event c aid ''ftp.create'' ''ftp_account'' (ftp_ID f) [] [(''username'', VString (ftp_Username f))])))))"

definition deleteFTP :: "api_call \<Rightarrow> string \<Rightarrow> string \<Rightarrow> memory \<Rightarrow> plan" where
  "deleteFTP c aid fid m =
     (if \<not> allowed c aid FilesWrite then forbidden
      else if \<not> (\<exists>f \<in> set (ListFTP m aid). ftp_ID f = fid) then missing
      else Commit 202 ''FTP_DELETE_ERROR'' (DeleteFTPReq fid aid) (account_job c ''ftp.apply'' aid)
             (api_event c aid ''ftp.delete'' ''ftp_account'' fid [] []))"

section \<open>Carrying out a plan\<close>

text \<open>
  \<open>fr\<close> has the identifiers and the time that the store draws, \<open>rid\<close> the identifier of a new restore.
  The third component of the result is the message to the agent.
\<close>

type_synonym api_result = "(nat \<times> string) answer \<times> memory \<times> (string \<times> string) option"

definition committed :: "nat \<Rightarrow> string \<Rightarrow> commit_result \<Rightarrow> api_result" where
  "committed status code out =
     (case out of
        (Inl ErrRestoreInProgress, m) \<Rightarrow> if code = ''BACKUP_RESTORE_ERROR'' then (Refused 409 ''RESTORE_IN_PROGRESS'', m, None) else (Refused 500 code, m, None)
      | (Inl _, m) \<Rightarrow> (Refused 500 code, m, None)
      | (Inr j, m) \<Rightarrow> (Reply (status, job_ID j), m, None))"

fun perform :: "fresh \<Rightarrow> string \<Rightarrow> string \<Rightarrow> plan \<Rightarrow> memory \<Rightarrow> api_result" where
  "perform fr rid aid (Stop n code) m = (Refused n code, m, None)"
| "perform fr rid aid Panic m = (Refused 500 ''PANIC'', m, None)"
| "perform fr rid aid (Answer n op) m = (Reply (n, op), m, None)"
| "perform fr rid aid (Commit n code q j ev) m = committed n code (serve_async fr q (Some j) ev m)"
| "perform fr rid aid (Restore n code r j ev) m = committed n code (CreateRestoreWithJob fr rid (Some r) (Some j) ev m)"
| "perform fr rid aid (RetireApp n code a j ev) m =
     (case EnqueueJob (fr_job fr) (fr_now fr) j (PutApp a m) of
        (Inl _, m1) \<Rightarrow> (Refused 500 code, m1, None)
      | (Inr j', m1) \<Rightarrow> (Reply (n, job_ID j'), AppendAudit (fr_audit fr) (fr_now fr) ev m1, None))"
| "perform fr rid aid (PutKey n k) m =
     (let m1 = PutSSH k m in (Reply (n, ssh_ID k), m1, applyAuthorizedKeys m1 aid))"
| "perform fr rid aid (DropKey n i ev) m =
     (let m1 = DeleteSSH i m; call = applyAuthorizedKeys m1 aid
      in (Reply (n, ''''), AppendAudit (fr_audit fr) (fr_now fr) ev m1, call))"

section \<open>All requests\<close>

record api_env =
  env_hash :: "string \<Rightarrow> string option"
  env_crypt :: "string \<Rightarrow> string option"
  env_fp :: "string \<Rightarrow> string"
  env_ip4 :: "string \<Rightarrow> bool"
  env_ip6 :: "string \<Rightarrow> bool"

datatype api_request =
    CreateDomain string string string | RemoveDomain string
  | CreateWebsite website | RemoveWebsite string
  | CreateApp "application option" | RemoveApp string | InstallWordPress string string string string string
  | CreateDB string string | RemoveDB string
  | CreateRecord string dnsrecord | RemoveRecord string string | SetDNSSEC string "bool option"
  | PatchMailDomain string string | CreateMailbox string string string | RemoveMailbox string
  | CreateMailAlias string string string | RemoveMailAlias string
  | RequestCert string | CreateBackup string string | RestoreBackup string string
  | CreateCron cronjob | RemoveCron string
  | CreateSSH string string string | RemoveSSH string
  | CreateFTP string string string | RemoveFTP string

fun plan_of :: "api_env \<Rightarrow> api_call \<Rightarrow> string \<Rightarrow> api_request \<Rightarrow> memory \<Rightarrow> plan" where
  "plan_of env c aid (CreateDomain fqdn typ runtime) = createDomain c aid fqdn typ runtime"
| "plan_of env c aid (RemoveDomain i) = deleteDomain c aid i"
| "plan_of env c aid (CreateWebsite w) = createWebsite c aid w"
| "plan_of env c aid (RemoveWebsite i) = deleteWebsite c aid i"
| "plan_of env c aid (CreateApp a) = createApp c aid a"
| "plan_of env c aid (RemoveApp i) = deleteApp c aid i"
| "plan_of env c aid (InstallWordPress w t u p e) = installWordPress c aid w t u p e"
| "plan_of env c aid (CreateDB n e) = createDB c aid n e"
| "plan_of env c aid (RemoveDB i) = deleteDB c aid i"
| "plan_of env c aid (CreateRecord z r) = createRecord (env_ip4 env) (env_ip6 env) c aid z r"
| "plan_of env c aid (RemoveRecord z i) = deleteRecord c aid z i"
| "plan_of env c aid (SetDNSSEC z b) = setDNSSEC c aid z b"
| "plan_of env c aid (PatchMailDomain d p) = patchMailDomain c aid d p"
| "plan_of env c aid (CreateMailbox d l p) = createMailbox (env_hash env) c aid d l p"
| "plan_of env c aid (RemoveMailbox i) = deleteMailbox c aid i"
| "plan_of env c aid (CreateMailAlias d a t) = createMailAlias c aid d a t"
| "plan_of env c aid (RemoveMailAlias i) = deleteMailAlias c aid i"
| "plan_of env c aid (RequestCert h) = requestCert c aid h"
| "plan_of env c aid (CreateBackup k d) = createBackup c aid k d"
| "plan_of env c aid (RestoreBackup b mode) = restoreBackup c aid b mode"
| "plan_of env c aid (CreateCron e) = createCron c aid e"
| "plan_of env c aid (RemoveCron i) = deleteCron c aid i"
| "plan_of env c aid (CreateSSH l t k) = createSSH (env_fp env) c aid l t k"
| "plan_of env c aid (RemoveSSH i) = deleteSSH c aid i"
| "plan_of env c aid (CreateFTP u p h) = createFTP (env_crypt env) c aid u p h"
| "plan_of env c aid (RemoveFTP i) = deleteFTP c aid i"

definition serve_api :: "api_env \<Rightarrow> fresh \<Rightarrow> string \<Rightarrow> api_call \<Rightarrow> string \<Rightarrow> api_request \<Rightarrow> memory \<Rightarrow> api_result" where
  "serve_api env fr rid c aid q m = perform fr rid aid (plan_of env c aid q m) m"


section \<open>Isolation of accounts\<close>

text \<open>A key whose entry differs holds no row but such with \<open>P\<close>, before and after.\<close>

definition rows_confined :: "('v \<Rightarrow> bool) \<Rightarrow> ('k, 'v) gomap \<Rightarrow> ('k, 'v) gomap \<Rightarrow> bool" where
  "rows_confined P t t' \<longleftrightarrow> (\<forall>k. mget t' k \<noteq> mget t k \<longrightarrow> pred_option P (mget t k) \<and> pred_option P (mget t' k))"

definition zone_owned :: "string \<Rightarrow> memory \<Rightarrow> string \<Rightarrow> bool" where
  "zone_owned aid m zid \<longleftrightarrow> (\<exists>z. mget (Zones m) zid = Some z \<and> zone_AccountID z = aid)"

text \<open>The tables of the store other than queue and audit log: only rows of the account differ.\<close>

definition tables_confined :: "string \<Rightarrow> memory \<Rightarrow> memory \<Rightarrow> bool" where
  "tables_confined aid m m' \<longleftrightarrow>
     Users m' = Users m \<and> Sessions m' = Sessions m \<and> Packages m' = Packages m \<and> Features m' = Features m \<and>
     Resellers m' = Resellers m \<and> Accounts m' = Accounts m \<and> Members m' = Members m \<and> Tokens m' = Tokens m \<and>
     Usages m' = Usages m \<and> NextUID m' = NextUID m \<and>
     rows_confined (\<lambda>v. dom_AccountID v = aid) (Domains m) (Domains m') \<and>
     rows_confined (\<lambda>v. web_AccountID v = aid) (Websites m) (Websites m') \<and>
     rows_confined (\<lambda>v. app_AccountID v = aid) (Apps m) (Apps m') \<and>
     rows_confined (\<lambda>v. db_AccountID v = aid) (DBs m) (DBs m') \<and>
     rows_confined (\<lambda>v. dbu_AccountID v = aid) (DBUsers m) (DBUsers m') \<and>
     rows_confined (\<lambda>v. zone_AccountID v = aid) (Zones m) (Zones m') \<and>
     rows_confined (\<lambda>v. zone_owned aid m (rec_ZoneID v)) (Records m) (Records m') \<and>
     rows_confined (\<lambda>v. md_AccountID v = aid) (MailDom m) (MailDom m') \<and>
     rows_confined (\<lambda>v. mb_AccountID v = aid) (Mailboxes m) (Mailboxes m') \<and>
     rows_confined (\<lambda>v. al_AccountID v = aid) (Aliases m) (Aliases m') \<and>
     rows_confined (\<lambda>v. cert_AccountID v = aid) (Certs m) (Certs m') \<and>
     rows_confined (\<lambda>v. bak_AccountID v = aid) (Backups m) (Backups m') \<and>
     rows_confined (\<lambda>v. rst_AccountID v = aid) (Restores m) (Restores m') \<and>
     rows_confined (\<lambda>v. cron_AccountID v = aid) (Crons m) (Crons m') \<and>
     rows_confined (\<lambda>v. ssh_AccountID v = aid) (SSHKeys m) (SSHKeys m') \<and>
     rows_confined (\<lambda>v. ftp_AccountID v = aid) (FTPs m) (FTPs m')"

text \<open>At most one job and one audit event are added, in the name of the user \<open>u\<close>.\<close>

definition log_confined :: "string \<Rightarrow> memory \<Rightarrow> memory \<Rightarrow> bool" where
  "log_confined u m m' \<longleftrightarrow>
     (Jobs m' = Jobs m \<or> (\<exists>j. mget (Jobs m) (job_ID j) = None \<and> job_ActorID j = u \<and> Jobs m' = mput (job_ID j) j (Jobs m))) \<and>
     (Audit m' = Audit m \<or> (\<exists>e. aud_ActorID e = u \<and> Audit m' = Audit m @ [e]))"

definition confined :: "string \<Rightarrow> string \<Rightarrow> memory \<Rightarrow> memory \<Rightarrow> bool" where
  "confined u aid m m' \<longleftrightarrow> tables_confined aid m m' \<and> log_confined u m m'"

abbreviation held :: "('v \<Rightarrow> bool) \<Rightarrow> ('k, 'v) gomap \<Rightarrow> 'k \<Rightarrow> bool" where
  "held P t k \<equiv> pred_option P (mget t k)"

text \<open>A change of the store that concerns rows of the account only.\<close>

fun request_owned :: "string \<Rightarrow> memory \<Rightarrow> async_request \<Rightarrow> bool" where
  "request_owned aid m (UpsertApplicationReq (Some a)) \<longleftrightarrow> app_AccountID a = aid \<and> held (\<lambda>v. app_AccountID v = aid) (Apps m) (app_ID a)"
| "request_owned aid m (UpsertDatabaseReq (Some d) u) \<longleftrightarrow> db_AccountID d = aid \<and> held (\<lambda>v. db_AccountID v = aid) (DBs m) (db_ID d) \<and>
     pred_option (\<lambda>u. dbu_AccountID u = aid \<and> held (\<lambda>v. dbu_AccountID v = aid) (DBUsers m) (dbu_ID u)) u"
| "request_owned aid m (DeleteDatabaseReq i a) \<longleftrightarrow> a = aid"
| "request_owned aid m (UpsertZoneReq (Some z)) \<longleftrightarrow> zone_AccountID z = aid \<and> held (\<lambda>v. zone_AccountID v = aid) (Zones m) (zone_ID z)"
| "request_owned aid m (CreateRecordReq (Some r) a) \<longleftrightarrow> a = aid \<and> held (\<lambda>v. zone_owned aid m (rec_ZoneID v)) (Records m) (rec_ID r)"
| "request_owned aid m (DeleteRecordReq i z a) \<longleftrightarrow> a = aid"
| "request_owned aid m (UpsertMailDomainReq (Some d)) \<longleftrightarrow> md_AccountID d = aid \<and> held (\<lambda>v. md_AccountID v = aid) (MailDom m) (md_ID d)"
| "request_owned aid m (UpsertMailboxReq (Some b)) \<longleftrightarrow> mb_AccountID b = aid \<and> held (\<lambda>v. mb_AccountID v = aid) (Mailboxes m) (mb_ID b)"
| "request_owned aid m (DeleteMailboxReq i a) \<longleftrightarrow> a = aid"
| "request_owned aid m (UpsertMailAliasReq (Some l)) \<longleftrightarrow> al_AccountID l = aid \<and> held (\<lambda>v. al_AccountID v = aid) (Aliases m) (al_ID l)"
| "request_owned aid m (DeleteMailAliasReq i a) \<longleftrightarrow> a = aid"
| "request_owned aid m (UpsertCronReq (Some e)) \<longleftrightarrow> cron_AccountID e = aid \<and> held (\<lambda>v. cron_AccountID v = aid) (Crons m) (cron_ID e)"
| "request_owned aid m (DeleteCronReq i a) \<longleftrightarrow> a = aid"
| "request_owned aid m (UpsertFTPReq (Some f)) \<longleftrightarrow> ftp_AccountID f = aid \<and> held (\<lambda>v. ftp_AccountID v = aid) (FTPs m) (ftp_ID f)"
| "request_owned aid m (DeleteFTPReq i a) \<longleftrightarrow> a = aid"
| "request_owned aid m (CreateDomainReq (Some d)) \<longleftrightarrow> dom_AccountID d = aid"
| "request_owned aid m (UpdateDomainReq (Some d)) \<longleftrightarrow> dom_AccountID d = aid"
| "request_owned aid m (UpsertWebsiteReq (Some w)) \<longleftrightarrow> web_AccountID w = aid \<and> held (\<lambda>v. web_AccountID v = aid) (Websites m) (web_ID w)"
| "request_owned aid m (UpsertCertificateReq (Some e)) \<longleftrightarrow> cert_AccountID e = aid \<and> held (\<lambda>v. cert_AccountID v = aid) (Certs m) (cert_ID e)"
| "request_owned aid m (CreateBackupReq (Some b)) \<longleftrightarrow> bak_AccountID b = aid"
| "request_owned aid m EnqueueReq \<longleftrightarrow> True"
| "request_owned aid m _ \<longleftrightarrow> False"

lemma rows_confined_refl [simp]: "rows_confined P t t"
  by (simp add: rows_confined_def)

lemma rows_confined_put: "P v \<Longrightarrow> held P t k \<Longrightarrow> rows_confined P t (mput k v t)"
  by (simp add: rows_confined_def)

lemma rows_confined_del: "held P t k \<Longrightarrow> rows_confined P t (mdel k t)"
  by (simp add: rows_confined_def)

lemma tables_confined_refl [simp]: "tables_confined aid m m"
  by (simp add: tables_confined_def)

lemma tables_confined_log [simp]:
  "tables_confined aid m (m'\<lparr>Jobs := js\<rparr>) = tables_confined aid m m'" "tables_confined aid m (m'\<lparr>Audit := evs\<rparr>) = tables_confined aid m m'"
  by (simp_all add: tables_confined_def)

text \<open>The resource part of a committed change; \<open>commit_of\<close> adds job and event.\<close>

fun table_change :: "async_request \<Rightarrow> memory \<Rightarrow> memory" where
  "table_change (UpsertApplicationReq a) m = UpsertApplication_write a m"
| "table_change (UpsertDatabaseReq d u) m = UpsertDatabase_write d u m"
| "table_change (DeleteDatabaseReq i a) m = DeleteDatabase_write i m"
| "table_change (UpsertZoneReq z) m = UpsertZone_write z m"
| "table_change (CreateRecordReq r a) m = CreateRecord_write r m"
| "table_change (DeleteRecordReq i z a) m = DeleteRecord i m"
| "table_change (UpsertMailDomainReq d) m = UpsertMailDomain_write d m"
| "table_change (UpsertMailboxReq b) m = UpsertMailbox_write b m"
| "table_change (DeleteMailboxReq i a) m = DeleteMailbox i m"
| "table_change (UpsertMailAliasReq l) m = UpsertMailAlias_write l m"
| "table_change (DeleteMailAliasReq i a) m = DeleteMailAlias i m"
| "table_change (UpsertCronReq e) m = UpsertCron_write e m"
| "table_change (DeleteCronReq i a) m = DeleteCron i m"
| "table_change (UpsertFTPReq f) m = UpsertFTP_write f m"
| "table_change (DeleteFTPReq i a) m = DeleteFTP i m"
| "table_change (CreateDomainReq d) m = (case d of None \<Rightarrow> m | Some d \<Rightarrow> m\<lparr>Domains := mput (dom_ID d) d (Domains m)\<rparr>)"
| "table_change (UpdateDomainReq d) m = (case d of None \<Rightarrow> m | Some d \<Rightarrow> m\<lparr>Domains := mput (dom_ID d) d (Domains m)\<rparr>)"
| "table_change (UpsertWebsiteReq w) m = (case w of None \<Rightarrow> m | Some w \<Rightarrow> m\<lparr>Websites := mput (web_ID w) w (Websites m)\<rparr>)"
| "table_change (UpsertCertificateReq e) m = (case e of None \<Rightarrow> m | Some e \<Rightarrow> m\<lparr>Certs := mput (cert_ID e) e (Certs m)\<rparr>)"
| "table_change (CreateBackupReq b) m = (case b of None \<Rightarrow> m | Some b \<Rightarrow> m\<lparr>Backups := mput (bak_ID b) b (Backups m)\<rparr>)"
| "table_change EnqueueReq m = m"

text \<open>The conditions under which a change is committed.\<close>

fun table_check :: "async_request \<Rightarrow> memory \<Rightarrow> bool" where
  "table_check (DeleteDatabaseReq i a) m = (DeleteDatabase_check i a m = None)"
| "table_check (CreateRecordReq r a) m = (CreateRecord_check r a m = None)"
| "table_check (DeleteRecordReq i z a) m = (DeleteRecord_check i z a m = None)"
| "table_check (DeleteMailboxReq i a) m = (DeleteMailbox_check i a m = None)"
| "table_check (DeleteMailAliasReq i a) m = (DeleteMailAlias_check i a m = None)"
| "table_check (DeleteCronReq i a) m = (DeleteCron_check i a m = None)"
| "table_check (DeleteFTPReq i a) m = (DeleteFTP_check i a m = None)"
| "table_check (CreateDomainReq (Some d)) m = (mget (Domains m) (dom_ID d) = None)"
| "table_check (UpdateDomainReq (Some d)) m = (\<exists>e. mget (Domains m) (dom_ID d) = Some e \<and> dom_AccountID e = dom_AccountID d)"
| "table_check (CreateBackupReq (Some b)) m = (mget (Backups m) (bak_ID b) = None)"
| "table_check _ m = True"

lemma commit_result_cases:
  assumes "commitAsyncMutationLocked fr (Some j) ev v w m = (r, m')"
  shows "m' = m \<or> (\<exists>j'. v m = None \<and> j' = normalizeJob (fr_job fr) (fr_now fr) j \<and> validateNewJobLocked m j' = None \<and> r = Inr j' \<and> m' = commit_of fr j' ev (w m))"
  using assms by (auto simp: commitAsyncMutationLocked_def commit_of_def Let_def split: option.splits)

lemmas with_job_defs = UpsertApplicationWithJob_def UpsertDatabaseWithJob_def DeleteDatabaseWithJob_def UpsertZoneWithJob_def CreateRecordWithJob_def
  DeleteRecordWithJob_def UpsertMailDomainWithJob_def UpsertMailboxWithJob_def DeleteMailboxWithJob_def UpsertMailAliasWithJob_def DeleteMailAliasWithJob_def
  UpsertCronWithJob_def DeleteCronWithJob_def UpsertFTPWithJob_def DeleteFTPWithJob_def

lemmas own_order_defs = CreateDomainWithJob_def UpdateDomainWithJob_def commitDomainMutationLocked_def UpsertWebsiteWithJob_def UpsertCertificateWithJob_def
  CreateBackupWithJob_def EnqueueJobWithAudit_def

lemma serve_async_cases:
  assumes "serve_async fr q (Some j) ev m = (r, m')"
  shows "m' = m \<or> (\<exists>j'. table_check q m \<and> j' = normalizeJob (fr_job fr) (fr_now fr) j \<and> validateNewJobLocked m j' = None \<and>
    r = Inr j' \<and> m' = commit_of fr j' ev (table_change q m))"
proof (cases q)
  case (CreateDomainReq d)
  show ?thesis using assms unfolding CreateDomainReq
    by (cases d) (auto simp: own_order_defs commit_of_def Let_def split: option.splits if_splits)
next
  case (UpdateDomainReq d)
  show ?thesis using assms unfolding UpdateDomainReq
    by (cases d) (auto simp: own_order_defs commit_of_def Let_def split: option.splits if_splits)
next
  case (UpsertWebsiteReq w)
  show ?thesis using assms unfolding UpsertWebsiteReq
    by (cases w) (auto simp: own_order_defs commit_of_def Let_def split: option.splits if_splits)
next
  case (UpsertCertificateReq e)
  show ?thesis using assms unfolding UpsertCertificateReq
    by (cases e) (auto simp: own_order_defs commit_of_def Let_def split: option.splits if_splits)
next
  case (CreateBackupReq b)
  show ?thesis using assms unfolding CreateBackupReq
    by (cases b) (auto simp: own_order_defs commit_of_def Let_def split: option.splits if_splits)
next
  case EnqueueReq
  show ?thesis using assms unfolding EnqueueReq
    by (auto simp: own_order_defs commit_of_def Let_def split: option.splits if_splits)
qed (use assms in \<open>auto simp: with_job_defs dest!: commit_result_cases\<close>)


lemmas write_defs = UpsertApplication_write_def UpsertDatabase_write_def DeleteDatabase_write_def UpsertZone_write_def CreateRecord_write_def DeleteRecord_def
  UpsertMailDomain_write_def UpsertMailbox_write_def DeleteMailbox_def UpsertMailAlias_write_def DeleteMailAlias_def UpsertCron_write_def DeleteCron_def
  UpsertFTP_write_def DeleteFTP_def

lemmas delete_checks = DeleteDatabase_check_def CreateRecord_check_def DeleteRecord_check_def DeleteMailbox_check_def DeleteMailAlias_check_def
  DeleteCron_check_def DeleteFTP_check_def

lemma table_change_confined:
  assumes "request_owned aid m q" "table_check q m"
  shows "tables_confined aid m (table_change q m)"
  using assms
  by (induction aid m q rule: request_owned.induct)
    (auto simp: tables_confined_def write_defs delete_checks zone_owned_def Let_def intro!: rows_confined_put rows_confined_del split: option.splits if_splits)

lemma normalizeJob_actor [simp]: "job_ActorID (normalizeJob i t j) = job_ActorID j"
  by (simp add: normalizeJob_def Let_def split: option.split)

lemma normalizeAudit_actor [simp]: "aud_ActorID (normalizeAudit fr j ev) = aud_ActorID ev"
  by (simp add: normalizeAudit_def Let_def)

lemma table_change_log [simp]: "Jobs (table_change q m) = Jobs m" "Audit (table_change q m) = Audit m"
  by (induction q m rule: table_change.induct) (auto simp: write_defs Let_def split: option.splits)

lemma log_confined_refl [simp]: "log_confined u m m"
  by (simp add: log_confined_def)

lemma serve_async_confined:
  assumes "serve_async fr q (Some j) ev m = (r, m')" "request_owned aid m q" "job_ActorID j = u" "aud_ActorID ev = u"
  shows "confined u aid m m'"
  using serve_async_cases [OF assms(1)]
proof (elim disjE exE conjE)
  fix j' assume "table_check q m" "j' = normalizeJob (fr_job fr) (fr_now fr) j" "validateNewJobLocked m j' = None" "m' = commit_of fr j' ev (table_change q m)"
  with assms table_change_confined [OF assms(2)] show ?thesis
    by (auto simp: confined_def log_confined_def commit_of_def dest: validated_new(1))
qed (simp add: confined_def)


section \<open>What a handler plans\<close>

fun needed_cap :: "api_request \<Rightarrow> string" where
  "needed_cap (CreateDomain _ _ _) = DomainsWrite"
| "needed_cap (RemoveDomain _) = DomainsWrite"
| "needed_cap (CreateWebsite _) = WebsitesWrite"
| "needed_cap (RemoveWebsite _) = WebsitesWrite"
| "needed_cap (CreateApp _) = ApplicationsWrite"
| "needed_cap (RemoveApp _) = ApplicationsWrite"
| "needed_cap (InstallWordPress _ _ _ _ _) = ApplicationsWrite"
| "needed_cap (CreateDB _ _) = DatabasesWrite"
| "needed_cap (RemoveDB _) = DatabasesWrite"
| "needed_cap (CreateRecord _ _) = DNSWrite"
| "needed_cap (RemoveRecord _ _) = DNSWrite"
| "needed_cap (SetDNSSEC _ _) = DNSWrite"
| "needed_cap (PatchMailDomain _ _) = MailWrite"
| "needed_cap (CreateMailbox _ _ _) = MailWrite"
| "needed_cap (RemoveMailbox _) = MailWrite"
| "needed_cap (CreateMailAlias _ _ _) = MailWrite"
| "needed_cap (RemoveMailAlias _) = MailWrite"
| "needed_cap (RequestCert _) = WebsitesWrite"
| "needed_cap (CreateBackup _ _) = BackupsCreate"
| "needed_cap (RestoreBackup _ _) = BackupsRestore"
| "needed_cap (CreateCron _) = CronWrite"
| "needed_cap (RemoveCron _) = CronWrite"
| "needed_cap (CreateSSH _ _ _) = FilesWrite"
| "needed_cap (RemoveSSH _) = FilesWrite"
| "needed_cap (CreateFTP _ _ _) = FilesWrite"
| "needed_cap (RemoveFTP _) = FilesWrite"

lemmas handler_defs = createDomain_def deleteDomain_def createWebsite_def deleteWebsite_def createApp_def deleteApp_def installWordPress_def createDB_def
  deleteDB_def createRecord_def deleteRecord_def setDNSSEC_def patchMailDomain_def createMailbox_def deleteMailbox_def createMailAlias_def deleteMailAlias_def
  requestCert_def createBackup_def restoreBackup_def createCron_def deleteCron_def createSSH_def deleteSSH_def createFTP_def deleteFTP_def

lemma plan_forbidden: "\<not> requireAccount (call_actor c) aid (needed_cap q) \<Longrightarrow> plan_of env c aid q m = forbidden"
  by (cases q) (simp_all add: handler_defs)

text \<open>The identifiers that a handler draws are not in use.\<close>

definition ids_free :: "api_call \<Rightarrow> memory \<Rightarrow> bool" where
  "ids_free c m \<longleftrightarrow> mget (Websites m) (call_id c) = None \<and> mget (Apps m) (call_id c) = None \<and> mget (DBs m) (call_id c) = None \<and>
     mget (DBUsers m) (call_id2 c) = None \<and> mget (Records m) (call_id c) = None \<and> mget (Mailboxes m) (call_id c) = None \<and>
     mget (Aliases m) (call_id c) = None \<and> mget (Certs m) (call_id c) = None \<and> mget (Crons m) (call_id c) = None \<and>
     mget (SSHKeys m) (call_id c) = None \<and> mget (FTPs m) (call_id c) = None"

fun plan_owned :: "api_call \<Rightarrow> string \<Rightarrow> memory \<Rightarrow> plan \<Rightarrow> bool" where
  "plan_owned c aid m (Commit _ _ q j ev) \<longleftrightarrow> request_owned aid m q \<and> job_IdempotencyKey j = call_key c \<and> job_ActorID j = act_UserID (call_actor c) \<and> aud_ActorID ev = act_UserID (call_actor c)"
| "plan_owned c aid m (Restore _ _ r j ev) \<longleftrightarrow> rst_AccountID r = aid \<and> rst_ID r = '''' \<and> job_ActorID j = act_UserID (call_actor c) \<and> aud_ActorID ev = act_UserID (call_actor c)"
| "plan_owned c aid m (RetireApp _ _ a j ev) \<longleftrightarrow> app_AccountID a = aid \<and> held (\<lambda>v. app_AccountID v = aid) (Apps m) (app_ID a) \<and>
     job_ID j = '''' \<and> job_ActorID j = act_UserID (call_actor c) \<and> aud_ActorID ev = act_UserID (call_actor c)"
| "plan_owned c aid m (PutKey _ k) \<longleftrightarrow> ssh_AccountID k = aid \<and> held (\<lambda>v. ssh_AccountID v = aid) (SSHKeys m) (ssh_ID k)"
| "plan_owned c aid m (DropKey _ i ev) \<longleftrightarrow> held (\<lambda>v. ssh_AccountID v = aid) (SSHKeys m) i \<and> aud_ActorID ev = act_UserID (call_actor c)"
| "plan_owned c aid m _ \<longleftrightarrow> True"

lemma api_actor [simp]: "job_ActorID (api_job c t rt i p) = act_UserID (call_actor c)" "job_ID (api_job c t rt i p) = ''''"
  "job_IdempotencyKey (api_job c t rt i p) = call_key c" "aud_ActorID (api_event c a act rt i b f) = act_UserID (call_actor c)"
  by (simp_all add: api_job_def auditEvent_def job0_def)

lemma job_actors [simp]:
  "job_ActorID (website_job c aid t w) = act_UserID (call_actor c)" "job_ActorID (zone_job c aid z) = act_UserID (call_actor c)"
  "job_ActorID (alias_job c aid a) = act_UserID (call_actor c)" "job_ActorID (account_job c t aid) = act_UserID (call_actor c)"
  "job_IdempotencyKey (website_job c aid t w) = call_key c" "job_IdempotencyKey (zone_job c aid z) = call_key c"
  "job_IdempotencyKey (alias_job c aid a) = call_key c" "job_IdempotencyKey (account_job c t aid) = call_key c"
  by (simp_all add: website_job_def zone_job_def alias_job_def account_job_def)

lemma table_filtered: "table idof t \<Longrightarrow> v \<in> set (filter P (mvals t)) \<Longrightarrow> mget t (idof v) = Some v \<and> P v"
  using table_mvals_iff [of idof t v] by simp

lemmas tables_of = mem_tables_def [THEN iffD1]

lemma listed:
  assumes "mem_tables m" "aid \<noteq> ''''"
  shows "w \<in> set (ListWebsites m aid) \<Longrightarrow> mget (Websites m) (web_ID w) = Some w \<and> web_AccountID w = aid"
    "d \<in> set (ListMailDomains m aid) \<Longrightarrow> mget (MailDom m) (md_ID d) = Some d \<and> md_AccountID d = aid"
    "b \<in> set (ListMailboxes m aid) \<Longrightarrow> mget (Mailboxes m) (mb_ID b) = Some b \<and> mb_AccountID b = aid"
    "e \<in> set (ListCerts m aid) \<Longrightarrow> mget (Certs m) (cert_ID e) = Some e \<and> cert_AccountID e = aid"
    "f \<in> set (ListFTP m aid) \<Longrightarrow> mget (FTPs m) (ftp_ID f) = Some f \<and> ftp_AccountID f = aid"
  using assms(2) table_filtered [of web_ID "Websites m"] table_filtered [of md_ID "MailDom m"] table_filtered [of mb_ID "Mailboxes m"]
    table_filtered [of cert_ID "Certs m"] table_filtered [of ftp_ID "FTPs m"] tables_of [OF assms(1)]
  unfolding ListWebsites_def ListMailDomains_def ListMailboxes_def ListCerts_def ListFTP_def by blast+

lemma stored_id:
  assumes "mem_tables m"
  shows "GetDomain m i = Some d \<Longrightarrow> dom_ID d = i" "GetWebsite m i = Some w \<Longrightarrow> web_ID w = i" "GetApp m i = Some a \<Longrightarrow> app_ID a = i"
    "GetZone m i = Some z \<Longrightarrow> zone_ID z = i" "GetSSH m i = Some k \<Longrightarrow> ssh_ID k = i"
  using tables_of [OF assms] by (simp_all add: GetDomain_def GetWebsite_def GetApp_def GetZone_def GetSSH_def table_def)

lemma find_listed:
  shows "find P (ListWebsites m aid) = Some w \<Longrightarrow> mem_tables m \<Longrightarrow> aid \<noteq> '''' \<Longrightarrow> mget (Websites m) (web_ID w) = Some w \<and> web_AccountID w = aid"
    "find Q (ListMailDomains m aid) = Some d \<Longrightarrow> mem_tables m \<Longrightarrow> aid \<noteq> '''' \<Longrightarrow> mget (MailDom m) (md_ID d) = Some d \<and> md_AccountID d = aid"
    "find R (ListMailboxes m aid) = Some b \<Longrightarrow> mem_tables m \<Longrightarrow> aid \<noteq> '''' \<Longrightarrow> mget (Mailboxes m) (mb_ID b) = Some b \<and> mb_AccountID b = aid"
    "find S (ListCerts m aid) = Some e \<Longrightarrow> mem_tables m \<Longrightarrow> aid \<noteq> '''' \<Longrightarrow> mget (Certs m) (cert_ID e) = Some e \<and> cert_AccountID e = aid"
    "find T (ListFTP m aid) = Some f \<Longrightarrow> mem_tables m \<Longrightarrow> aid \<noteq> '''' \<Longrightarrow> mget (FTPs m) (ftp_ID f) = Some f \<and> ftp_AccountID f = aid"
  by (metis find_set listed(1), metis find_set listed(2), metis find_set listed(3), metis find_set listed(4), metis find_set listed(5))

text \<open>A plan that is reached through guards and lookups.\<close>

lemma owned_stop: "plan_owned c aid m p \<Longrightarrow> plan_owned c aid m (if b then Stop n s else p)"
  by simp

lemma owned_if: "(b \<Longrightarrow> plan_owned c aid m p) \<Longrightarrow> (\<not> b \<Longrightarrow> plan_owned c aid m q) \<Longrightarrow> plan_owned c aid m (if b then p else q)"
  by simp

lemma owned_option:
  "(x = None \<Longrightarrow> plan_owned c aid m p) \<Longrightarrow> (\<And>y. x = Some y \<Longrightarrow> plan_owned c aid m (f y)) \<Longrightarrow> plan_owned c aid m (case x of None \<Rightarrow> p | Some y \<Rightarrow> f y)"
  by (cases x) simp_all

lemma owned_sum:
  "(\<And>e. x = Inl e \<Longrightarrow> plan_owned c aid m (g e)) \<Longrightarrow> (\<And>y. x = Inr y \<Longrightarrow> plan_owned c aid m (f y)) \<Longrightarrow> plan_owned c aid m (case x of Inl e \<Rightarrow> g e | Inr y \<Rightarrow> f y)"
  by (cases x) simp_all

lemmas owned_steps = owned_stop owned_option owned_sum owned_if

lemma website_defaults_owner: "website_defaults c aid w0 m = Some w \<Longrightarrow> web_ID w = call_id c \<and> web_AccountID w = aid"
  by (auto simp: website_defaults_def Let_def split: if_splits option.splits)

lemma createWebsite_owned:
  assumes "mem_tables m" "ids_free c m" "aid \<noteq> ''''"
  shows "plan_owned c aid m (createWebsite c aid w m)"
  unfolding createWebsite_def Let_def
  by (intro owned_steps) (use assms in \<open>auto simp: ids_free_def dest: website_defaults_owner find_listed(1) split: if_splits\<close>)

lemma upsert_owned:
  assumes "mem_tables m" "ids_free c m" "aid \<noteq> ''''"
  shows "plan_owned c aid m (createMailbox hash c aid d l p m)" "plan_owned c aid m (createFTP crypt c aid u p h m)"
    "plan_owned c aid m (requestCert c aid n m)" "plan_owned c aid m (patchMailDomain c aid d p m)"
  unfolding createMailbox_def createFTP_def requestCert_def patchMailDomain_def Let_def
  by (intro owned_steps; use assms in \<open>auto simp: ids_free_def dest: find_listed split: option.split\<close>)+

lemma delete_owned:
  assumes "mem_tables m"
  shows "plan_owned c aid m (deleteDomain c aid i m)" "plan_owned c aid m (deleteWebsite c aid i m)" "plan_owned c aid m (deleteApp c aid i m)"
    "plan_owned c aid m (deleteSSH c aid i m)" "plan_owned c aid m (setDNSSEC c aid i b m)"
  unfolding deleteDomain_def deleteWebsite_def deleteApp_def deleteSSH_def setDNSSEC_def Let_def
  by (intro owned_steps; use assms in \<open>auto simp: stored_id GetWebsite_def [symmetric] GetApp_def [symmetric] GetSSH_def [symmetric] GetZone_def [symmetric]\<close>)+

lemma create_owned:
  assumes "ids_free c m"
  shows "plan_owned c aid m (createApp c aid body m)" "plan_owned c aid m (installWordPress c aid w t u p e m)" "plan_owned c aid m (createDB c aid n g m)"
    "plan_owned c aid m (createMailAlias c aid d a r m)" "plan_owned c aid m (createDomain c aid f y rt m)"
    "plan_owned c aid m (createRecord ip4 ip6 c aid z x m)" "plan_owned c aid m (createCron c aid cr m)" "plan_owned c aid m (createSSH fp c aid l co k m)"
    "plan_owned c aid m (createBackup c aid bk ds m)"
  unfolding createApp_def installWordPress_def queueWordPressInstall_def createDB_def createMailAlias_def createDomain_def createRecord_def createCron_def
    createSSH_def createBackup_def Let_def
  by (intro owned_steps; use assms in \<open>auto simp: ids_free_def split: option.split\<close>)+

lemma remove_owned:
  "plan_owned c aid m (deleteDB c aid i m)" "plan_owned c aid m (deleteRecord c aid z i m)" "plan_owned c aid m (deleteMailbox c aid i m)"
  "plan_owned c aid m (deleteMailAlias c aid i m)" "plan_owned c aid m (deleteCron c aid i m)" "plan_owned c aid m (deleteFTP c aid i m)"
  "plan_owned c aid m (restoreBackup c aid i mode m)"
  unfolding deleteDB_def deleteRecord_def deleteMailbox_def deleteMailAlias_def deleteCron_def deleteFTP_def restoreBackup_def Let_def
  by (intro owned_steps; simp add: restorejournal0_def)+

lemma plan_of_owned:
  assumes "mem_tables m" "ids_free c m" "aid \<noteq> ''''"
  shows "plan_owned c aid m (plan_of env c aid q m)"
  by (cases q) (simp_all add: createWebsite_owned upsert_owned delete_owned create_owned remove_owned assms)

section \<open>What a request changes\<close>

lemma restore_norm [simp]:
  "rst_AccountID (normalizeRestore i now r) = rst_AccountID r" "rst_ID r = '''' \<Longrightarrow> rst_ID (normalizeRestore i now r) = i"
  by (simp_all add: normalizeRestore_def Let_def)

lemma assign_restore_fence_tables:
  assumes "assign_restore_fence r m = (r', m1)"
  shows "rst_AccountID r' = rst_AccountID r" "rst_ID r' = rst_ID r" "Restores m1 = Restores m" "Jobs m1 = Jobs m" "Audit m1 = Audit m" "tables_confined aid m m1"
  using assms by (auto simp: assign_restore_fence_def BumpResourceFence_def Let_def tables_confined_def split: if_splits prod.splits)

lemma restore_confined:
  assumes out: "CreateRestoreWithJob fr rid (Some r) (Some j) ev m = (out, m')"
    and r: "rst_AccountID r = aid" "rst_ID r = ''''" "mget (Restores m) rid = None" and u: "job_ActorID j = u" "aud_ActorID ev = u"
  shows "confined u aid m m'"
proof -
  obtain r' m1 where f: "assign_restore_fence (normalizeRestore rid (fr_now fr) r) m = (r', m1)" by (cases "assign_restore_fence (normalizeRestore rid (fr_now fr) r) m")
  note t = assign_restore_fence_tables [OF f]
  have "tables_confined aid m (m1\<lparr>Restores := mput (rst_ID r') r' (Restores m1)\<rparr>)"
    using t(1-3) t(6) [of aid] r by (auto simp: tables_confined_def intro!: rows_confined_put)
  then show ?thesis
    using out u t f
    by (auto simp: CreateRestoreWithJob_def confined_def log_confined_def Let_def dest: validated_new(1) split: option.splits if_splits)
qed

lemma tables_confined_rows:
  "rows_confined (\<lambda>v. app_AccountID v = aid) (Apps m) t \<Longrightarrow> tables_confined aid m (m\<lparr>Apps := t\<rparr>)"
  "rows_confined (\<lambda>v. ssh_AccountID v = aid) (SSHKeys m) s \<Longrightarrow> tables_confined aid m (m\<lparr>SSHKeys := s\<rparr>)"
  by (simp_all add: tables_confined_def)

lemma normalizeJob_id: "job_ID (normalizeJob i t j) = (if job_ID j = '''' then i else job_ID j)"
  by (simp add: normalizeJob_def Let_def split: option.split)

lemma log_confined_job:
  "mget (Jobs m) (job_ID j) = None \<Longrightarrow> job_ActorID j = u \<Longrightarrow> Jobs m' = mput (job_ID j) j (Jobs m) \<Longrightarrow> Audit m' = Audit m \<Longrightarrow> log_confined u m m'"
  by (auto simp: log_confined_def)

lemma EnqueueJob_snd:
  "snd (EnqueueJob i t j m) = m \<or> snd (EnqueueJob i t j m) = m\<lparr>Jobs := mput (job_ID (normalizeJob i t j)) (normalizeJob i t j) (Jobs m)\<rparr>"
  by (simp add: EnqueueJob_def Let_def split: option.split)

lemma AppendAudit_confined: "Audit m' = Audit m \<Longrightarrow> confined u aid m m' \<Longrightarrow> aud_ActorID ev = u \<Longrightarrow> confined u aid m (AppendAudit i now ev m')"
  by (auto simp: AppendAudit_def confined_def log_confined_def Let_def)

lemma perform_confined:
  assumes owned: "plan_owned c aid m p" and fresh: "mget (Jobs m) (fr_job fr) = None" "mget (Restores m) rid = None"
    and out: "perform fr rid aid p m = (r, m', call)"
  shows "confined (act_UserID (call_actor c)) aid m m'"
proof (cases p)
  case (Commit n code q j ev)
  obtain o1 m1 where s: "serve_async fr q (Some j) ev m = (o1, m1)" by fastforce
  have "m' = m1" using out unfolding Commit by (auto simp: s committed_def split: sum.splits store_error.splits if_splits)
  with serve_async_confined [OF s] owned show ?thesis unfolding Commit by simp
next
  case (Restore n code rj j ev)
  obtain o1 m1 where s: "CreateRestoreWithJob fr rid (Some rj) (Some j) ev m = (o1, m1)" by fastforce
  have "m' = m1" using out unfolding Restore by (auto simp: s committed_def split: sum.splits store_error.splits if_splits)
  with restore_confined [OF s] owned fresh show ?thesis unfolding Restore by simp
next
  case (RetireApp n code a j ev)
  have a: "tables_confined aid m (PutApp a m)" "Jobs (PutApp a m) = Jobs m" "Audit (PutApp a m) = Audit m"
    using owned unfolding RetireApp by (auto simp: PutApp_def intro!: tables_confined_rows rows_confined_put)
  have j: "mget (Jobs m) (job_ID (normalizeJob (fr_job fr) (fr_now fr) j)) = None" "job_ActorID j = act_UserID (call_actor c)"
    using owned fresh unfolding RetireApp by (simp_all add: normalizeJob_id)
  have "confined (act_UserID (call_actor c)) aid m (snd (EnqueueJob (fr_job fr) (fr_now fr) j (PutApp a m)))"
    "Audit (snd (EnqueueJob (fr_job fr) (fr_now fr) j (PutApp a m))) = Audit m"
    using EnqueueJob_snd [of "fr_job fr" "fr_now fr" j "PutApp a m"]
    by (elim disjE; simp add: a j confined_def log_confined_job [OF j(1)]; simp add: a log_confined_def)+
  then show ?thesis using out owned unfolding RetireApp by (auto split: prod.splits sum.splits intro: AppendAudit_confined)
next
  case (PutKey n k)
  then show ?thesis using out owned by (auto simp: PutSSH_def confined_def log_confined_def Let_def intro!: tables_confined_rows rows_confined_put)
next
  case (DropKey n i ev)
  have "confined (act_UserID (call_actor c)) aid m (DeleteSSH i m)" "Audit (DeleteSSH i m) = Audit m"
    using owned unfolding DropKey by (auto simp: DeleteSSH_def confined_def log_confined_def intro!: tables_confined_rows rows_confined_del)
  then show ?thesis using out owned unfolding DropKey by (auto simp: Let_def intro: AppendAudit_confined)
qed (use out in \<open>auto simp: confined_def\<close>)

lemma perform_call: "perform fr rid aid p m = (r, m', Some (u, ks)) \<Longrightarrow> \<exists>acc. GetAccount m aid = Some acc \<and> u = acc_Username acc"
  by (cases p) (auto simp: committed_def applyAuthorizedKeys_def PutSSH_def DeleteSSH_def GetAccount_def Let_def split: prod.splits sum.splits store_error.splits option.splits if_splits)

section \<open>Limits\<close>

definition count_rows :: "('v \<Rightarrow> bool) \<Rightarrow> ('k, 'v) gomap \<Rightarrow> int" where
  "count_rows P t = int (length (filter P (mvals t)))"

definition fits :: "int \<Rightarrow> int \<Rightarrow> bool" where
  "fits n limit \<longleftrightarrow> limit \<le> 0 \<or> n \<le> limit"

lemma count_rows_nonneg [simp]: "0 \<le> count_rows P t"
  by (simp add: count_rows_def)

lemma count_rows_put: "count_rows P (mput k v t) \<le> count_rows P t + 1"
  unfolding count_rows_def by (induction t) auto

lemma count_rows_put_held: "mget t k = Some e \<Longrightarrow> P e \<Longrightarrow> count_rows P (mput k v t) \<le> count_rows P t"
  unfolding count_rows_def by (induction t) (auto split: if_splits)

lemma count_rows_del: "count_rows P (mdel k t) \<le> count_rows P t"
  unfolding count_rows_def by (induction t) (auto simp: AList.delete_eq)

text \<open>A row that takes the place of a counted one, or a new one below the limit.\<close>

lemma fits_put:
  assumes "fits (count_rows P t) l" "Enforce (count_rows P t) l \<or> (\<exists>e. mget t k = Some e \<and> P e)"
  shows "fits (count_rows P (mput k v t)) l"
  using assms count_rows_put [of P k v t] count_rows_put_held [of t k _ P v]
  by (fastforce simp: fits_def Enforce_def split: if_splits)

lemma fits_other: "fits (count_rows P t) l \<Longrightarrow> \<not> P v \<Longrightarrow> mget t k = None \<Longrightarrow> fits (count_rows P (mput k v t)) l"
  by (simp add: mput_new count_rows_def)

lemma fits_del: "fits (count_rows P t) l \<Longrightarrow> fits (count_rows P (mdel k t)) l"
  using count_rows_del [of P k t] by (auto simp: fits_def)

text \<open>The rows that the package of an account limits; a limit of zero or less is none.\<close>

definition kind_count :: "string \<Rightarrow> string \<Rightarrow> memory \<Rightarrow> int" where
  "kind_count aid kind m = count_rows (\<lambda>d. dom_AccountID d = aid \<and> domainMatchesKind (dom_Type d) kind) (Domains m)"

definition within_limits :: "string \<Rightarrow> package \<Rightarrow> memory \<Rightarrow> bool" where
  "within_limits aid p m \<longleftrightarrow>
     fits (kind_count aid ''domains'' m) (pkg_Domains p) \<and>
     fits (kind_count aid ''subdomains'' m) (pkg_Subdomains p) \<and>
     fits (kind_count aid ''alias_domains'' m) (pkg_AliasDomains p) \<and>
     fits (count_rows (\<lambda>w. web_AccountID w = aid) (Websites m)) (pkg_Domains p + pkg_Subdomains p + pkg_AliasDomains p) \<and>
     fits (count_rows (\<lambda>a. app_AccountID a = aid) (Apps m)) (pkg_ApplicationInstances p) \<and>
     fits (count_rows (\<lambda>d. db_AccountID d = aid) (DBs m)) (pkg_Databases p) \<and>
     fits (count_rows (\<lambda>u. dbu_AccountID u = aid) (DBUsers m)) (pkg_DatabaseUsers p) \<and>
     fits (count_rows (\<lambda>b. mb_AccountID b = aid) (Mailboxes m)) (pkg_Mailboxes p) \<and>
     fits (count_rows (\<lambda>e. cron_AccountID e = aid) (Crons m)) (pkg_CronJobs p) \<and>
     fits (count_rows (\<lambda>f. ftp_AccountID f = aid) (FTPs m)) (pkg_FTPUsers p)"

text \<open>What a planned change may add.\<close>

abbreviation room :: "string \<Rightarrow> memory \<Rightarrow> ('v \<Rightarrow> string) \<Rightarrow> (string, 'v) gomap \<Rightarrow> string \<Rightarrow> int \<Rightarrow> bool" where
  "room aid m owner t k limit \<equiv> Enforce (count_rows (\<lambda>v. owner v = aid) t) limit \<or> (\<exists>e. mget t k = Some e \<and> owner e = aid)"

fun request_fits :: "string \<Rightarrow> package \<Rightarrow> memory \<Rightarrow> async_request \<Rightarrow> bool" where
  "request_fits aid p m (CreateDomainReq (Some d)) \<longleftrightarrow>
     dom_Type d \<in> {''primary'', ''addon'', ''subdomain'', ''alias''} \<and> Enforce (kind_count aid (DomainKind (dom_Type d)) m) (DomainLimit (Some p) (dom_Type d))"
| "request_fits aid p m (UpdateDomainReq (Some d)) \<longleftrightarrow> (\<exists>e. mget (Domains m) (dom_ID d) = Some e \<and> dom_AccountID e = dom_AccountID d \<and> dom_Type e = dom_Type d)"
| "request_fits aid p m (UpsertWebsiteReq (Some w)) \<longleftrightarrow> room aid m web_AccountID (Websites m) (web_ID w) (pkg_Domains p + pkg_Subdomains p + pkg_AliasDomains p)"
| "request_fits aid p m (UpsertApplicationReq (Some a)) \<longleftrightarrow> room aid m app_AccountID (Apps m) (app_ID a) (pkg_ApplicationInstances p)"
| "request_fits aid p m (UpsertDatabaseReq (Some d) u) \<longleftrightarrow> room aid m db_AccountID (DBs m) (db_ID d) (pkg_Databases p) \<and>
     pred_option (\<lambda>u. room aid m dbu_AccountID (DBUsers m) (dbu_ID u) (pkg_DatabaseUsers p)) u"
| "request_fits aid p m (UpsertMailboxReq (Some b)) \<longleftrightarrow> room aid m mb_AccountID (Mailboxes m) (mb_ID b) (pkg_Mailboxes p)"
| "request_fits aid p m (UpsertCronReq (Some e)) \<longleftrightarrow> room aid m cron_AccountID (Crons m) (cron_ID e) (pkg_CronJobs p)"
| "request_fits aid p m (UpsertFTPReq (Some f)) \<longleftrightarrow> room aid m ftp_AccountID (FTPs m) (ftp_ID f) (pkg_FTPUsers p)"
| "request_fits aid p m _ \<longleftrightarrow> True"

lemma kind_match: "t \<in> {''primary'', ''addon'', ''subdomain'', ''alias''} \<Longrightarrow> k \<in> {''domains'', ''subdomains'', ''alias_domains''} \<Longrightarrow> domainMatchesKind t k \<longleftrightarrow> k = DomainKind t"
  unfolding domainMatchesKind_def DomainKind_def by (elim insertE emptyE; simp)

lemma count_rows_put_other: "\<not> P v \<Longrightarrow> count_rows P (mput k v t) \<le> count_rows P t"
  unfolding count_rows_def by (induction t) (auto split: if_splits)

lemma fits_ge: "fits n l \<Longrightarrow> n' \<le> n \<Longrightarrow> fits n' l"
  by (auto simp: fits_def)

lemma kind_count_put: "kind_count aid k (m\<lparr>Domains := t\<rparr>) = count_rows (\<lambda>d. dom_AccountID d = aid \<and> domainMatchesKind (dom_Type d) k) t"
  by (simp add: kind_count_def)

lemma new_domain_fits:
  assumes "fits (kind_count aid k m) (kl k)" "k \<in> {''domains'', ''subdomains'', ''alias_domains''}"
    and t: "dom_Type d \<in> {''primary'', ''addon'', ''subdomain'', ''alias''}"
    and e: "Enforce (kind_count aid (DomainKind (dom_Type d)) m) (kl (DomainKind (dom_Type d)))"
  shows "fits (kind_count aid k (m\<lparr>Domains := mput (dom_ID d) d (Domains m)\<rparr>)) (kl k)"
proof (cases "k = DomainKind (dom_Type d)")
  case True
  show ?thesis unfolding kind_count_put
    by (rule fits_put) (use assms(1) e in \<open>simp_all add: kind_count_def True\<close>)
next
  case False
  then have "\<not> (dom_AccountID d = aid \<and> domainMatchesKind (dom_Type d) k)" using kind_match [OF t assms(2)] by simp
  then show ?thesis unfolding kind_count_put by (rule fits_ge [OF assms(1) [unfolded kind_count_def] count_rows_put_other])
qed

lemma update_domain_fits:
  assumes "fits (kind_count aid k m) l" "mget (Domains m) (dom_ID d) = Some e" "dom_AccountID e = dom_AccountID d" "dom_Type e = dom_Type d"
  shows "fits (kind_count aid k (m\<lparr>Domains := mput (dom_ID d) d (Domains m)\<rparr>)) l"
proof (cases "dom_AccountID d = aid \<and> domainMatchesKind (dom_Type d) k")
  case True
  show ?thesis unfolding kind_count_put
    by (rule fits_put) (use assms True in \<open>simp_all add: kind_count_def\<close>)
next
  case False
  then show ?thesis unfolding kind_count_put by (rule fits_ge [OF assms(1) [unfolded kind_count_def] count_rows_put_other])
qed

definition kind_limit :: "package \<Rightarrow> string \<Rightarrow> int" where
  "kind_limit p k = (if k = ''subdomains'' then pkg_Subdomains p else if k = ''alias_domains'' then pkg_AliasDomains p else pkg_Domains p)"

lemma kind_limit_simps [simp]: "kind_limit p ''domains'' = pkg_Domains p" "kind_limit p ''subdomains'' = pkg_Subdomains p"
  "kind_limit p ''alias_domains'' = pkg_AliasDomains p" "DomainLimit (Some p) t = kind_limit p (DomainKind t)"
  by (simp_all add: kind_limit_def DomainLimit_def DomainKind_def)

lemma domain_change_within:
  assumes "within_limits aid p m" "\<And>k. fits (kind_count aid k m) (kind_limit p k) \<Longrightarrow> k \<in> {''domains'', ''subdomains'', ''alias_domains''} \<Longrightarrow>
     fits (kind_count aid k (m\<lparr>Domains := t\<rparr>)) (kind_limit p k)"
  shows "within_limits aid p (m\<lparr>Domains := t\<rparr>)"
  using assms(1) assms(2) [of "''domains''"] assms(2) [of "''subdomains''"] assms(2) [of "''alias_domains''"] unfolding within_limits_def by simp

lemma fits_put_kept: "fits (count_rows P t) l \<Longrightarrow> mget t k = Some e \<Longrightarrow> (P v \<Longrightarrow> P e) \<Longrightarrow> fits (count_rows P (mput k v t)) l"
  by (cases "P v") (auto intro: fits_ge count_rows_put_held count_rows_put_other)

lemma table_change_within:
  assumes "within_limits aid p m" "request_fits aid p m q"
  shows "within_limits aid p (table_change q m)"
proof (cases q)
  case (CreateDomainReq o1)
  show ?thesis
  proof (cases o1)
    case (Some d)
    then show ?thesis using assms unfolding CreateDomainReq
      by (auto intro!: domain_change_within new_domain_fits [of aid _ m "kind_limit p"] simp del: insert_iff)
  qed (use assms(1) CreateDomainReq in simp)
next
  case (UpdateDomainReq o1)
  show ?thesis
  proof (cases o1)
    case (Some d)
    then show ?thesis using assms unfolding UpdateDomainReq
      by (auto intro!: domain_change_within update_domain_fits simp del: insert_iff)
  qed (use assms(1) UpdateDomainReq in simp)
next
  case (DeleteDatabaseReq i a)
  show ?thesis
  proof (cases "mget (DBs m) i")
    case (Some d)
    show ?thesis using assms(1)
      unfolding DeleteDatabaseReq by (auto simp: within_limits_def kind_count_def DeleteDatabase_write_def Some intro!: fits_put_kept [OF _ Some])
  qed (use assms(1) DeleteDatabaseReq in \<open>simp add: DeleteDatabase_write_def\<close>)
qed (use assms in \<open>auto simp: within_limits_def kind_count_def write_defs Let_def intro!: fits_put fits_del split: option.splits\<close>)

fun plan_fits :: "string \<Rightarrow> package \<Rightarrow> memory \<Rightarrow> plan \<Rightarrow> bool" where
  "plan_fits aid p m (Commit _ _ q _ _) \<longleftrightarrow> request_fits aid p m q"
| "plan_fits aid p m (RetireApp _ _ a _ _) \<longleftrightarrow> (\<exists>e. mget (Apps m) (app_ID a) = Some e \<and> app_AccountID e = aid)"
| "plan_fits aid p m _ \<longleftrightarrow> True"

lemma fits_if: "(b \<Longrightarrow> plan_fits aid p m x) \<Longrightarrow> (\<not> b \<Longrightarrow> plan_fits aid p m y) \<Longrightarrow> plan_fits aid p m (if b then x else y)"
  by simp

lemma fits_option:
  "(o1 = None \<Longrightarrow> plan_fits aid p m x) \<Longrightarrow> (\<And>y. o1 = Some y \<Longrightarrow> plan_fits aid p m (f y)) \<Longrightarrow> plan_fits aid p m (case o1 of None \<Rightarrow> x | Some y \<Rightarrow> f y)"
  by (cases o1) simp_all

lemma fits_sum:
  "(\<And>e. s = Inl e \<Longrightarrow> plan_fits aid p m (g e)) \<Longrightarrow> (\<And>y. s = Inr y \<Longrightarrow> plan_fits aid p m (f y)) \<Longrightarrow> plan_fits aid p m (case s of Inl e \<Rightarrow> g e | Inr y \<Rightarrow> f y)"
  by (cases s) simp_all

lemmas fits_steps = fits_option fits_sum fits_if

lemma listed_counts:
  assumes "aid \<noteq> ''''"
  shows "int (length (ListWebsites m aid)) = count_rows (\<lambda>w. web_AccountID w = aid) (Websites m)"
    "int (length (ListApps m aid)) = count_rows (\<lambda>a. app_AccountID a = aid) (Apps m)"
    "int (length (ListDBs m aid)) = count_rows (\<lambda>d. db_AccountID d = aid) (DBs m)"
    "int (length (ListDBUsers m aid)) = count_rows (\<lambda>u. dbu_AccountID u = aid) (DBUsers m)"
    "int (length (ListMailboxes m aid)) = count_rows (\<lambda>b. mb_AccountID b = aid) (Mailboxes m)"
    "int (length (ListCrons m aid)) = count_rows (\<lambda>e. cron_AccountID e = aid) (Crons m)"
    "int (length (ListFTP m aid)) = count_rows (\<lambda>f. ftp_AccountID f = aid) (FTPs m)"
    "CountDomains m aid k = kind_count aid k m"
  using assms by (simp_all add: count_rows_def ListWebsites_def ListApps_def ListDBs_def ListDBUsers_def ListMailboxes_def ListCrons_def ListFTP_def
      CountDomains_def ListDomains_def kind_count_def conj_commute)

lemma enforced:
  assumes "accountPackage m aid = Some p"
  shows "enforceCountLimit m aid n f \<longleftrightarrow> Enforce (int n) (f p)" "enforceDomainLimit m aid t \<longleftrightarrow> Enforce (CountDomains m aid (DomainKind t)) (DomainLimit (Some p) t)"
  using assms by (simp_all add: enforceCountLimit_def enforceDomainLimit_def Let_def)

lemma no_db_users:
  assumes "aid \<noteq> ''''" "ListDBUsers m aid = []"
  shows "count_rows (\<lambda>u. dbu_AccountID u = aid) (DBUsers m) = 0"
  using listed_counts(4) [OF assms(1), of m] assms(2) by simp

lemma create_fits:
  assumes "mem_tables m" "aid \<noteq> ''''" and p: "accountPackage m aid = Some p"
  shows "plan_fits aid p m (createApp c aid body m)" "plan_fits aid p m (installWordPress c aid w t u pw e m)" "plan_fits aid p m (createDB c aid n g m)"
    "plan_fits aid p m (createDomain c aid f y rt m)" "plan_fits aid p m (createCron c aid cr m)"
    "plan_fits aid p m (createMailbox hash c aid d l pw m)" "plan_fits aid p m (createFTP crypt c aid u pw h m)"
  unfolding createApp_def installWordPress_def queueWordPressInstall_def createDB_def createDomain_def createCron_def createMailbox_def createFTP_def Let_def
  by (intro fits_steps; use assms(1,2) in \<open>simp add: enforced [OF p] listed_counts no_db_users split: option.split; auto dest: find_listed split: option.split\<close>)+

lemma createWebsite_fits:
  assumes "mem_tables m" "aid \<noteq> ''''" and p: "accountPackage m aid = Some p"
  shows "plan_fits aid p m (createWebsite c aid w m)"
  unfolding createWebsite_def Let_def
  by (intro fits_steps) (use assms(1,2) in \<open>auto simp: enforced [OF p] listed_counts dest: find_listed(1) split: if_splits\<close>)

lemma delete_fits:
  assumes "mem_tables m"
  shows "plan_fits aid p m (deleteDomain c aid i m)" "plan_fits aid p m (deleteWebsite c aid i m)" "plan_fits aid p m (deleteApp c aid i m)"
  unfolding deleteDomain_def deleteWebsite_def deleteApp_def Let_def
  by (intro fits_steps; use assms in \<open>auto simp: stored_id GetDomain_def [symmetric] GetWebsite_def [symmetric] GetApp_def [symmetric]\<close>)+

lemma other_fits:
  "plan_fits aid p m (deleteDB c aid i m)" "plan_fits aid p m (createRecord ip4 ip6 c aid z x m)" "plan_fits aid p m (deleteRecord c aid z i m)"
  "plan_fits aid p m (setDNSSEC c aid z b m)" "plan_fits aid p m (patchMailDomain c aid d pl m)" "plan_fits aid p m (deleteMailbox c aid i m)"
  "plan_fits aid p m (createMailAlias c aid d a r m)" "plan_fits aid p m (deleteMailAlias c aid i m)" "plan_fits aid p m (requestCert c aid h m)"
  "plan_fits aid p m (createBackup c aid bk ds m)" "plan_fits aid p m (restoreBackup c aid i mode m)" "plan_fits aid p m (deleteCron c aid i m)"
  "plan_fits aid p m (createSSH fp c aid l co k m)" "plan_fits aid p m (deleteSSH c aid i m)" "plan_fits aid p m (deleteFTP c aid i m)"
  unfolding deleteDB_def createRecord_def deleteRecord_def setDNSSEC_def patchMailDomain_def deleteMailbox_def createMailAlias_def deleteMailAlias_def
    requestCert_def createBackup_def restoreBackup_def deleteCron_def createSSH_def deleteSSH_def deleteFTP_def Let_def
  by (intro fits_steps; simp)+

lemma plan_of_fits:
  assumes "mem_tables m" "aid \<noteq> ''''" "accountPackage m aid = Some p"
  shows "plan_fits aid p m (plan_of env c aid q m)"
  by (cases q) (simp_all add: create_fits createWebsite_fits delete_fits other_fits assms)

lemma within_limits_log [simp]:
  "within_limits aid p (m\<lparr>Jobs := js\<rparr>) = within_limits aid p m" "within_limits aid p (m\<lparr>Audit := evs\<rparr>) = within_limits aid p m"
  "within_limits aid p (m\<lparr>Restores := rs\<rparr>) = within_limits aid p m" "within_limits aid p (m\<lparr>SSHKeys := ks\<rparr>) = within_limits aid p m"
  "within_limits aid p (m\<lparr>resourceFences := fs\<rparr>) = within_limits aid p m"
  by (simp_all add: within_limits_def kind_count_def)

lemma perform_within:
  assumes p: "plan_fits aid p m pl" "within_limits aid p m" and out: "perform fr rid aid pl m = (r, m', call)"
  shows "within_limits aid p m'"
proof (cases pl)
  case (Commit n code q j ev)
  obtain o1 m1 where s: "serve_async fr q (Some j) ev m = (o1, m1)" by fastforce
  have "m' = m1" using out unfolding Commit by (auto simp: s committed_def split: sum.splits store_error.splits if_splits)
  with serve_async_cases [OF s] table_change_within [of aid p m q] p show ?thesis unfolding Commit by (auto simp: commit_of_def)
next
  case (Restore n code rj j ev)
  obtain o1 m1 where s: "CreateRestoreWithJob fr rid (Some rj) (Some j) ev m = (o1, m1)" by fastforce
  have "m' = m1" using out unfolding Restore by (auto simp: s committed_def split: sum.splits store_error.splits if_splits)
  with s p(2) show ?thesis
    by (auto simp: CreateRestoreWithJob_def assign_restore_fence_def BumpResourceFence_def Let_def split: option.splits if_splits prod.splits)
next
  case (RetireApp n code a j ev)
  have "within_limits aid p (PutApp a m)"
    using p unfolding RetireApp by (auto simp: within_limits_def kind_count_def PutApp_def intro!: fits_put)
  then have "within_limits aid p (snd (EnqueueJob (fr_job fr) (fr_now fr) j (PutApp a m)))"
    using EnqueueJob_snd [of "fr_job fr" "fr_now fr" j "PutApp a m"] by auto
  then show ?thesis using out unfolding RetireApp by (auto simp: AppendAudit_def Let_def split: prod.splits sum.splits)
qed (use out p(2) in \<open>auto simp: PutSSH_def DeleteSSH_def AppendAudit_def Let_def\<close>)

section \<open>Keys that are used twice\<close>

text \<open>The store methods that check something before they look for the key.\<close>

fun checks_first :: "async_request \<Rightarrow> bool" where
  "checks_first (CreateDomainReq _) = True"
| "checks_first (UpdateDomainReq _) = True"
| "checks_first (UpsertWebsiteReq _) = True"
| "checks_first (UpsertCertificateReq _) = True"
| "checks_first (CreateBackupReq _) = True"
| "checks_first _ = False"

lemma serve_async_replay:
  assumes "request_owned aid m q" "jobReplayLocked m j = Some e"
  shows "serve_async fr q (Some j) ev m = (Inr e, m) \<or> checks_first q \<and> (\<exists>err. serve_async fr q (Some j) ev m = (Inl err, m))"
  using assms
  by (induction aid m q rule: request_owned.induct) (auto simp: with_job_defs own_order_defs commitAsyncMutationLocked_def split: option.splits)

lemma replay_found:
  assumes "job_IdempotencyKey j \<noteq> ''''" "e \<in> set (mvals (Jobs m))" "job_IdempotencyKey e = job_IdempotencyKey j"
  obtains e' where "jobReplayLocked m j = Some e'" "e' \<in> set (mvals (Jobs m))" "job_IdempotencyKey e' = job_IdempotencyKey j"
proof -
  have "find (\<lambda>e. job_IdempotencyKey e = job_IdempotencyKey j) (mvals (Jobs m)) \<noteq> None"
    using assms(2,3) by (auto simp: find_None_iff simp del: not_None_eq)
  then obtain e' where e': "find (\<lambda>e. job_IdempotencyKey e = job_IdempotencyKey j) (mvals (Jobs m)) = Some e'" by blast
  with find_set [OF e'] assms(1) that show ?thesis by (simp add: jobReplayLocked_def)
qed

section \<open>Two requests at the same time\<close>

lemma createCron_plan:
  assumes "createCron c aid e m = Commit n code q j ev"
  shows "n = 201 \<and> j = account_job c ''cron.apply'' aid \<and> (\<exists>e'. q = UpsertCronReq (Some e') \<and> cron_ID e' = call_id c \<and> cron_AccountID e' = aid)"
  using assms by (auto simp: createCron_def Let_def split: if_splits option.splits)

lemma add_cron:
  assumes "job_IdempotencyKey j = ''''" "job_ID j = ''''" "mget (Jobs m) (fr_job fr) = None" "mget (Accounts m) aid \<noteq> None"
    and "cron_AccountID e = aid" "mget (Crons m) (cron_ID e) = None"
  obtains m' where "committed n code (serve_async fr (UpsertCronReq (Some e)) (Some j) ev m) = (Reply (n, fr_job fr), m', None)"
    "Crons m' = Crons m @ [(cron_ID e, e)]" "Accounts m' = Accounts m" "\<And>i. i \<noteq> fr_job fr \<Longrightarrow> mget (Jobs m') i = mget (Jobs m) i"
proof -
  define j' where "j' = normalizeJob (fr_job fr) (fr_now fr) j"
  have j': "job_ID j' = fr_job fr" "job_IdempotencyKey j' = ''''"
    using assms(1,2) unfolding j'_def by (simp_all add: normalizeJob_def Let_def split: option.split)
  have "serve_async fr (UpsertCronReq (Some e)) (Some j) ev m = (Inr j', commit_of fr j' ev (UpsertCron_write (Some e) m))"
    using assms j' by (simp add: with_job_defs commitAsyncMutationLocked_def jobReplayLocked_def UpsertCron_check_def validateNewJobLocked_def
        commit_of_def Let_def flip: j'_def)
  with that j' assms(6) show ?thesis by (simp add: committed_def commit_of_def UpsertCron_write_def mput_new)
qed

section \<open>Examples\<close>

definition shop_package :: package where
  "shop_package = package0\<lparr>pkg_ID := ''p1'', pkg_CronJobs := 1, pkg_Databases := 2\<rparr>"

definition shop :: memory where
  "shop = NewMemory\<lparr> Packages := [(''p1'', shop_package)],
     Accounts := [(''a1'', account0\<lparr>acc_ID := ''a1'', acc_Username := ''ann'', acc_PackageID := ''p1'', acc_HomePath := ''/home/ann'', acc_Status := ''active''\<rparr>)] \<rparr>"

definition shop_call :: "string \<Rightarrow> string \<Rightarrow> api_call" where
  "shop_call i key = \<lparr> call_actor = actor0\<lparr>act_UserID := ''u1'', act_AccountIDs := [''a1''], act_Capabilities := [(CronWrite, True)]\<rparr>,
     call_req = \<lparr> rq_Authorization = '''', rq_Cookie = None, rq_IP = '''', rq_UserAgent = '''', rq_RequestID = '''' \<rparr>,
     call_key = key, call_now = 7, call_id = i, call_id2 = i @ ''x'' \<rparr>"

definition shop_env :: api_env where
  "shop_env = \<lparr> env_hash = \<lambda>_. None, env_crypt = \<lambda>_. None, env_fp = \<lambda>k. k, env_ip4 = \<lambda>_. False, env_ip6 = \<lambda>_. False \<rparr>"

definition shop_fr :: "string \<Rightarrow> fresh" where
  "shop_fr j = \<lparr> fr_job = j, fr_audit = ''e'' @ j, fr_now = 7 \<rparr>"

definition hourly :: cronjob where
  "hourly = cronjob0\<lparr>cron_Schedule := ''0 * * * *'', cron_Command := ''php x''\<rparr>"

definition other_job :: job where
  "other_job = job0\<lparr>job_ID := ''j0'', job_Type := ''mail.maps'', job_ActorID := ''u2'', job_IdempotencyKey := ''k''\<rparr>"

lemmas shop_defs = shop_package_def shop_def shop_call_def shop_env_def shop_fr_def other_job_def NewMemory_def

lemma hourly_ok [simp]: "CronSchedule (cron_Schedule hourly) = None" "CronCommand (cron_Command hourly) = None"
  by code_simp+

lemma shop_allowed [simp]: "requireAccount (call_actor (shop_call i k)) ''a1'' CronWrite"
  by (simp add: shop_defs requireAccount_def Has_def cap_on_def CanAccount_def actor0_def)

lemma shop_tables [simp]: "mem_tables shop" "mem_tables (shop\<lparr>Jobs := [(''j0'', other_job)]\<rparr>)"
  by (simp_all add: mem_tables_def shop_defs account0_def package0_def job0_def)

lemma shop_free [simp]: "ids_free c shop" "ids_free c (shop\<lparr>Jobs := [(''j0'', other_job)]\<rparr>)"
  by (simp_all add: ids_free_def shop_defs)

lemma shop_limits: "accountPackage shop ''a1'' = Some shop_package" "within_limits ''a1'' shop_package shop"
  by (simp_all add: shop_defs accountPackage_def GetAccount_def GetPackage_def account0_def within_limits_def fits_def kind_count_def count_rows_def package0_def)

lemma shop_plan:
  assumes "m = shop \<or> m = shop\<lparr>Jobs := [(''j0'', other_job)]\<rparr>"
  shows "\<exists>code e j ev. createCron (shop_call i k) ''a1'' hourly m = Commit 201 code (UpsertCronReq (Some e)) j ev"
proof -
  have "accountPackage m ''a1'' = Some shop_package" "ListCrons m ''a1'' = []"
    using assms shop_limits(1) by (auto simp: accountPackage_def GetAccount_def GetPackage_def ListCrons_def shop_def NewMemory_def)
  then show ?thesis by (simp add: createCron_def Let_def enforced Enforce_def shop_package_def split: option.split)
qed

section \<open>Theorems\<close>

text \<open>
  C14. Every request is confined to the account it names. Without the capability that the request
  needs, or without access to the account, it is answered with 403 and changes nothing. In every
  case the tables of the store change at most in rows of the account (records of its zones
  included), at most one job and one audit event are added, both in the name of the actor, and
  the agent is called for the system user of the account only.
\<close>

theorem tenant_isolation:
  assumes "mem_tables m" "ids_free c m" "aid \<noteq> ''''" "mget (Jobs m) (fr_job fr) = None" "mget (Restores m) rid = None"
    and out: "serve_api env fr rid c aid q m = (r, m', call)"
  shows "confined (act_UserID (call_actor c)) aid m m' \<and>
    (\<forall>u keys. call = Some (u, keys) \<longrightarrow> (\<exists>acc. GetAccount m aid = Some acc \<and> u = acc_Username acc)) \<and>
    (requireAccount (call_actor c) aid (needed_cap q) \<or> r = Refused 403 ''FORBIDDEN'' \<and> m' = m \<and> call = None)"
proof (intro conjI allI impI)
  have p: "perform fr rid aid (plan_of env c aid q m) m = (r, m', call)" using out unfolding serve_api_def .
  show "confined (act_UserID (call_actor c)) aid m m'"
    using plan_of_owned [OF assms(1,2,3)] assms(4,5) p by (rule perform_confined)
  show "\<exists>acc. GetAccount m aid = Some acc \<and> u = acc_Username acc" if "call = Some (u, keys)" for u keys
    using p unfolding that by (rule perform_call)
  show "requireAccount (call_actor c) aid (needed_cap q) \<or> r = Refused 403 ''FORBIDDEN'' \<and> m' = m \<and> call = None"
    using p plan_forbidden [of c aid q env m] by auto
qed

theorem tenant_isolation_witness:
  "\<exists>r m' call. serve_api shop_env (shop_fr ''j1'') ''r1'' (shop_call ''c1'' '''') ''a1'' (CreateCron hourly) shop = (r, m', call) \<and> confined ''u1'' ''a1'' shop m'"
proof -
  obtain r m' call where o1: "serve_api shop_env (shop_fr ''j1'') ''r1'' (shop_call ''c1'' '''') ''a1'' (CreateCron hourly) shop = (r, m', call)" by (metis prod_cases3)
  have "confined (act_UserID (call_actor (shop_call ''c1'' ''''))) ''a1'' shop m'"
    using tenant_isolation [OF shop_tables(1) shop_free(1) _ _ _ o1] by (simp add: shop_defs)
  with o1 show ?thesis by (simp add: shop_call_def)
qed

text \<open>
  C15. A request that is served before the next one is planned keeps the limits of the account's
  package: domains, subdomains, alias domains, websites, applications, databases, database users,
  mailboxes, cron entries and FTP users, each with its own limit, zero or less meaning none.
\<close>

theorem limits_kept:
  assumes "mem_tables m" "aid \<noteq> ''''" "accountPackage m aid = Some p" "within_limits aid p m"
    and "serve_api env fr rid c aid q m = (r, m', call)"
  shows "within_limits aid p m'"
  using plan_of_fits [OF assms(1-3)] assms(4,5) unfolding serve_api_def by (rule perform_within)

theorem limits_kept_witness:
  "\<exists>r m' call. serve_api shop_env (shop_fr ''j1'') ''r1'' (shop_call ''c1'' '''') ''a1'' (CreateCron hourly) shop = (r, m', call) \<and> within_limits ''a1'' shop_package m'"
proof -
  obtain r m' call where o1: "serve_api shop_env (shop_fr ''j1'') ''r1'' (shop_call ''c1'' '''') ''a1'' (CreateCron hourly) shop = (r, m', call)" by (metis prod_cases3)
  show ?thesis using limits_kept [OF shop_tables(1) _ shop_limits o1] o1 by simp
qed

text \<open>
  C34. The limit is tested before the change is committed and not again with it: two requests for a
  cron entry that are both planned when one entry is left are both carried out, and the account
  has one entry more than its package allows.
\<close>

theorem limit_race:
  assumes plans: "plan_of env c1 aid (CreateCron e1) m = Commit n1 k1 q1 j1 v1" "plan_of env c2 aid (CreateCron e2) m = Commit n2 k2 q2 j2 v2"
    and keys: "call_key c1 = ''''" "call_key c2 = ''''" and acc: "mget (Accounts m) aid \<noteq> None"
    and ids: "mget (Crons m) (call_id c1) = None" "mget (Crons m) (call_id c2) = None" "call_id c1 \<noteq> call_id c2"
    and jobs: "mget (Jobs m) (fr_job fr1) = None" "mget (Jobs m) (fr_job fr2) = None" "fr_job fr1 \<noteq> fr_job fr2"
    and p: "accountPackage m aid = Some p" "int (length (ListCrons m aid)) + 1 = pkg_CronJobs p"
  shows "\<exists>m1 m2. perform fr1 rid1 aid (plan_of env c1 aid (CreateCron e1) m) m = (Reply (201, fr_job fr1), m1, None) \<and>
    perform fr2 rid2 aid (plan_of env c2 aid (CreateCron e2) m) m1 = (Reply (201, fr_job fr2), m2, None) \<and>
    int (length (ListCrons m2 aid)) > pkg_CronJobs p"
proof -
  obtain f1 f2 where c: "n1 = 201" "q1 = UpsertCronReq (Some f1)" "cron_ID f1 = call_id c1" "cron_AccountID f1 = aid" "j1 = account_job c1 ''cron.apply'' aid"
      "n2 = 201" "q2 = UpsertCronReq (Some f2)" "cron_ID f2 = call_id c2" "cron_AccountID f2 = aid" "j2 = account_job c2 ''cron.apply'' aid"
    using createCron_plan [OF plans(1) [unfolded plan_of.simps]] createCron_plan [OF plans(2) [unfolded plan_of.simps]] by blast
  have j: "job_ID j1 = ''''" "job_ID j2 = ''''" "job_IdempotencyKey j1 = ''''" "job_IdempotencyKey j2 = ''''"
    unfolding c by (simp_all add: keys) (simp_all add: account_job_def)
  obtain m1 where m1: "committed n1 k1 (serve_async fr1 q1 (Some j1) v1 m) = (Reply (n1, fr_job fr1), m1, None)"
      "Crons m1 = Crons m @ [(cron_ID f1, f1)]" "Accounts m1 = Accounts m" "\<And>i. i \<noteq> fr_job fr1 \<Longrightarrow> mget (Jobs m1) i = mget (Jobs m) i"
    using add_cron [OF j(3) j(1) jobs(1) acc c(4), of n1 k1 v1] ids c by metis
  have "mget (Jobs m1) (fr_job fr2) = None" "mget (Accounts m1) aid \<noteq> None" "mget (Crons m1) (cron_ID f2) = None"
    using jobs acc ids m1 c by (simp_all add: map_add_def)
  then obtain m2 where m2: "committed n2 k2 (serve_async fr2 q2 (Some j2) v2 m1) = (Reply (n2, fr_job fr2), m2, None)" "Crons m2 = Crons m1 @ [(cron_ID f2, f2)]"
    using add_cron [OF j(4) j(2) _ _ c(9), of m1 fr2 n2 k2 v2] c by metis
  show ?thesis using m1 m2 p(2) c unfolding plans by (simp add: ListCrons_def)
qed


theorem limit_race_witness:
  "\<exists>m1 m2. perform (shop_fr ''j1'') '''' ''a1'' (plan_of shop_env (shop_call ''c1'' '''') ''a1'' (CreateCron hourly) shop) shop = (Reply (201, ''j1''), m1, None) \<and>
    perform (shop_fr ''j2'') '''' ''a1'' (plan_of shop_env (shop_call ''c2'' '''') ''a1'' (CreateCron hourly) shop) m1 = (Reply (201, ''j2''), m2, None) \<and>
    int (length (ListCrons m2 ''a1'')) > 1"
proof -
  obtain k1 f1 j1 v1 k2 f2 j2 v2 where "plan_of shop_env (shop_call ''c1'' '''') ''a1'' (CreateCron hourly) shop = Commit 201 k1 (UpsertCronReq (Some f1)) j1 v1"
      "plan_of shop_env (shop_call ''c2'' '''') ''a1'' (CreateCron hourly) shop = Commit 201 k2 (UpsertCronReq (Some f2)) j2 v2"
    using shop_plan [of shop] by (metis plan_of.simps(21))
  note race = limit_race [OF this, of "shop_fr ''j1''" "shop_fr ''j2''" shop_package "''''" "''''"]
  have "ListCrons shop ''a1'' = []" "pkg_CronJobs shop_package = 1" "mget (Accounts shop) ''a1'' \<noteq> None" "Crons shop = []" "Jobs shop = []"
    by (simp_all add: shop_defs ListCrons_def)
  with race shop_limits(1) show ?thesis by (simp add: shop_fr_def shop_call_def)
qed


text \<open>
  Retiring an application is not one step: with a key that a job has already, the application is
  marked as retiring, and no job is filed that would retire it.
\<close>

lemma retired_without_job:
  assumes "requireAccount (call_actor c) aid ApplicationsWrite" "GetApp m i = Some a" "app_AccountID a = aid"
    and "call_key c \<noteq> ''''" "e \<in> set (mvals (Jobs m))" "job_IdempotencyKey e = call_key c"
  shows "\<exists>e' m'. serve_api env fr rid c aid (RemoveApp i) m = (Reply (202, job_ID e'), m', None) \<and> e' \<in> set (mvals (Jobs m)) \<and>
    Jobs m' = Jobs m \<and> mget (Apps m') (app_ID a) = Some (a\<lparr>app_Status := ''retiring''\<rparr>)"
proof -
  let ?a = "a\<lparr>app_Status := ''retiring''\<rparr>"
  let ?j = "api_job c ''application.retire'' ''application'' (app_ID ?a) [(''application_id'', VString (app_ID ?a)), (''account_id'', VString aid)]"
  have "job_IdempotencyKey ?j \<noteq> ''''" "job_IdempotencyKey e = job_IdempotencyKey ?j" using assms(4,6) by simp_all
  then obtain e' where e': "jobReplayLocked (PutApp ?a m) ?j = Some e'" "e' \<in> set (mvals (Jobs m))"
    using replay_found [of ?j e "PutApp ?a m"] assms(5) by (auto simp: PutApp_def)
  then have "EnqueueJob (fr_job fr) (fr_now fr) ?j (PutApp ?a m) = (Inr e', PutApp ?a m)"
    by (simp add: EnqueueJob_def jobReplayLocked_def split: if_splits)
  with e'(2) show ?thesis using assms(1-3) by (simp add: serve_api_def deleteApp_def Let_def AppendAudit_def PutApp_def) blast
qed

text \<open>
  C35. The handler that creates DNS records accepts contents with line breaks, and the zone file has
  them as they are: for every line there is a record that is accepted and puts this line into the
  zone file, \<^verbatim>\<open>$INCLUDE\<close> lines among them.
\<close>

theorem zone_file_injection:
  assumes "nl \<notin> set l"
  shows "\<exists>r. validateDNS ip4 ip6 r \<and> (\<forall>zone records serial. r \<in> set records \<longrightarrow> l \<in> set (split_on nl (ZoneFile zone records serial)))"
proof -
  let ?r = "dnsrecord0\<lparr>rec_Type := ''TXT'', rec_Content := [CHR 34] @ [CHR 34] @ [nl] @ l @ [nl] @ ''''\<rparr>"
  have "validateDNS ip4 ip6 ?r" by (simp add: validateDNS_def)
  moreover have "l \<in> set (split_on nl (ZoneFile zone records serial))" if "?r \<in> set records" for zone records serial
    by (rule zone_file_inject [OF _ _ that assms, of "[CHR 34]" "''''"]) simp_all
  ultimately show ?thesis by blast
qed

theorem zone_file_injection_witness:
  "\<exists>r. validateDNS (\<lambda>_. False) (\<lambda>_. False) r \<and>
     (\<forall>zone records serial. r \<in> set records \<longrightarrow> ''$INCLUDE /etc/shadow'' \<in> set (split_on nl (ZoneFile zone records serial)))"
  by (rule zone_file_injection) (simp add: nl_def)

end
