(* ===== verification/Backup_Stream.thy ===== *)
theory Backup_Stream imports Models Go_Strings "HOL-Library.Word" begin

unbundle bit_operations_syntax

text \<open>
  The backup archive (\<^verbatim>\<open>internal/backup/stream.go\<close>, \<^verbatim>\<open>crypto.go\<close>, \<^verbatim>\<open>repository.go\<close>,
  \<^verbatim>\<open>local.go\<close>): writing an archive in the format HPM3, storing it in a repository, opening it
  and reading its components.

  A byte is a \<^typ>\<open>char\<close>. The package \<^verbatim>\<open>age\<close>, SHA-256, the JSON encoder
  and HMAC are arguments. A reader is the bytes it will still deliver and whether it
  then fails instead of reporting the end of the stream; a pipe whose writer ends with an error is
  one too. Faults of the file system are not represented, and the texts of errors are abbreviated.
\<close>

section \<open>Bytes on the wire\<close>

text \<open>\<^verbatim>\<open>binary.BigEndian\<close>: the \<open>k\<close> low bytes of a number, the most significant first.\<close>

fun be_bytes :: "nat \<Rightarrow> nat \<Rightarrow> string" where
  "be_bytes 0 n = []"
| "be_bytes (Suc k) n = char_of (n div 256 ^ k mod 256) # be_bytes k n"

definition be_value :: "string \<Rightarrow> nat" where
  "be_value bs = foldl (\<lambda>v c. v * 256 + of_char c) 0 bs"

definition put_uint32 :: "32 word \<Rightarrow> string" where "put_uint32 w = be_bytes 4 (unat w)"
definition put_uint64 :: "64 word \<Rightarrow> string" where "put_uint64 w = be_bytes 8 (unat w)"

text \<open>\<^verbatim>\<open>hex.EncodeToString\<close>\<close>

definition hex_digit :: "nat \<Rightarrow> char" where
  "hex_digit n = (''0123456789abcdef'' ! (n mod 16))"

definition hex_encode :: "string \<Rightarrow> string" where
  "hex_encode s = concat (map (\<lambda>c. [hex_digit (of_char c div 16), hex_digit (of_char c)]) s)"

datatype stream_error = EOF | UnexpectedEOF | Broken | Bad string

record reader =
  rd_bytes :: string
  rd_broken :: bool

text \<open>\<^verbatim>\<open>io.ReadFull\<close>; \<^verbatim>\<open>binary.Read\<close> of an unsigned integer is \<^verbatim>\<open>ReadFull\<close> of its bytes.\<close>

definition ReadFull :: "nat \<Rightarrow> reader \<Rightarrow> (stream_error + string) \<times> reader" where
  "ReadFull n r =
     (if n \<le> length (rd_bytes r) then (Inr (take n (rd_bytes r)), r\<lparr>rd_bytes := drop n (rd_bytes r)\<rparr>)
      else (Inl (if rd_broken r then Broken else if rd_bytes r = [] then EOF else UnexpectedEOF), r\<lparr>rd_bytes := []\<rparr>))"

section \<open>Components and manifest\<close>

record anchor =
  anc_Fence :: int
  anc_Level :: string
  anc_Quiesced :: "string list"
  anc_SnapshotAt :: string

text \<open>\<^verbatim>\<open>Open\<close> gives the contents of the reader it opens and their announced size.\<close>

record component =
  cmp_Name :: string
  cmp_Data :: "string option"
  cmp_Size :: int
  cmp_Hash :: string
  cmp_Open :: "(stream_error + reader \<times> int) option"

record manifest =
  man_FormatVersion :: int
  man_AccountID :: string
  man_Username :: string
  man_CreatedAt :: string
  man_PanelVersion :: string
  man_Kind :: string
  man_Files :: "(string, any) gomap"
  man_Databases :: "string list"
  man_Mailboxes :: "string list"
  man_Checksums :: "(string, string) gomap"
  man_KeyIdentity :: string
  man_KeyVersion :: "32 word"
  man_Consistency :: anchor
  man_Expected :: "string list"

definition FormatHPM3 :: int where "FormatHPM3 = 3"
definition ComponentHome :: string where "ComponentHome = ''home''"
definition hpm3Magic :: string where "hpm3Magic = ''HPM3'' @ [CHR 0x0A]"
definition ageMagic :: string where "ageMagic = ''age-encryption.org/v1''"
definition maxHeaderBytes :: "32 word" where "maxHeaderBytes = 1048576"

definition openComponent :: "component \<Rightarrow> stream_error + reader \<times> int" where
  "openComponent part =
     (case cmp_Open part of
        Some (Inl e) \<Rightarrow> Inl e
      | Some (Inr (r, sz)) \<Rightarrow> Inr (r, if cmp_Size part > 0 then cmp_Size part else sz)
      | None \<Rightarrow>
          (let body = (case cmp_Data part of None \<Rightarrow> [] | Some d \<Rightarrow> d)
           in Inr (\<lparr>rd_bytes = body, rd_broken = False\<rparr>, int (length body))))"

definition writeComponent :: "(string \<Rightarrow> string) \<Rightarrow> component \<Rightarrow> stream_error + string" where
  "writeComponent sha part =
     (case openComponent part of
        Inl e \<Rightarrow> Inl e
      | Inr (r, sz) \<Rightarrow>
          if cmp_Name part = ComponentHome \<and> sz = 0 then Inl (Bad ''empty home component'')
          else
            let copied = take (nat sz) (rd_bytes r)
            in if rd_broken r \<and> length (rd_bytes r) < nat sz then Inl Broken
               else if int (length copied) \<noteq> sz then Inl (Bad ''component truncated'')
               else if cmp_Hash part \<noteq> '''' \<and> cmp_Hash part \<noteq> hex_encode (sha copied)
               then Inl (Bad ''component hash mismatch'')
               else Inr (put_uint32 (of_nat (length (cmp_Name part))) @ cmp_Name part @
                         put_uint64 (of_int sz) @ copied @ sha copied))"

fun write_components :: "(string \<Rightarrow> string) \<Rightarrow> component list \<Rightarrow> stream_error + string" where
  "write_components sha [] = Inr []"
| "write_components sha (p # ps) =
     (case writeComponent sha p of
        Inl e \<Rightarrow> Inl e
      | Inr b \<Rightarrow> (case write_components sha ps of Inl e \<Rightarrow> Inl e | Inr bs \<Rightarrow> Inr (b @ bs)))"

text \<open>The plaintext that \<^verbatim>\<open>writeHPM3\<close> gives to the encrypting writer.\<close>

definition writeHPM3 :: "(string \<Rightarrow> string) \<Rightarrow> (manifest \<Rightarrow> string) \<Rightarrow> manifest \<Rightarrow> component list \<Rightarrow> stream_error + string" where
  "writeHPM3 sha marshal man parts =
     (let header = marshal man
      in case write_components sha parts of
           Inl e \<Rightarrow> Inl e
         | Inr bs \<Rightarrow> Inr (hpm3Magic @ put_uint32 (of_nat (length header)) @ header @ bs))"

definition validateAnchor :: "anchor \<Rightarrow> stream_error option" where
  "validateAnchor a =
     (if anc_Fence a = 0 \<or> trim_space (anc_Level a) = '''' then Some (Bad ''consistency anchor is required'') else None)"

text \<open>The loop of \<^verbatim>\<open>validateInventory\<close>, with the names seen so far.\<close>

fun inventory_loop :: "string list \<Rightarrow> component list \<Rightarrow> string list \<Rightarrow> stream_error option" where
  "inventory_loop seen (p # ps) (e # es) =
     (if cmp_Name p = '''' then Some (Bad ''component name required'')
      else if cmp_Name p \<in> set seen then Some (Bad ''duplicate backup component'')
      else if cmp_Name p \<noteq> e then Some (Bad ''component order mismatch'')
      else inventory_loop (cmp_Name p # seen) ps es)"
| "inventory_loop seen _ _ = None"

definition validateInventory :: "component list \<Rightarrow> string list \<Rightarrow> stream_error option" where
  "validateInventory parts expected =
     (if length parts \<noteq> length expected
      then Some (Bad (if length parts < length expected then ''missing backup component'' else ''duplicate backup component''))
      else inventory_loop [] parts expected)"

section \<open>Reading\<close>

record archivereader =
  ar_Manifest :: manifest
  ar_plain :: reader
  ar_seen :: "string list"
  ar_index :: nat
  ar_legacy :: "string option"

definition readHPM3Header :: "(string \<Rightarrow> manifest option) \<Rightarrow> reader \<Rightarrow> stream_error + manifest \<times> reader" where
  "readHPM3Header unmarshal r =
     (case ReadFull (length hpm3Magic) r of
        (Inl e, _) \<Rightarrow> Inl e
      | (Inr magic, r1) \<Rightarrow>
          if magic \<noteq> hpm3Magic then Inl (Bad ''unknown hpm3 magic'')
          else (case ReadFull 4 r1 of
                  (Inl e, _) \<Rightarrow> Inl e
                | (Inr b, r2) \<Rightarrow>
                    let headerLen = (of_nat (be_value b) :: 32 word)
                    in if headerLen = 0 \<or> headerLen > maxHeaderBytes then Inl (Bad ''invalid hpm3 header'')
                       else (case ReadFull (unat headerLen) r2 of
                               (Inl e, _) \<Rightarrow> Inl e
                             | (Inr raw, r3) \<Rightarrow>
                                 (case unmarshal raw of
                                    None \<Rightarrow> Inl (Bad ''json'')
                                  | Some man \<Rightarrow>
                                      if man_FormatVersion man \<noteq> FormatHPM3 then Inl (Bad ''unsupported backup format'')
                                      else Inr (man, r3)))))"

text \<open>
  What the goroutine of \<^verbatim>\<open>nextFrame\<close> writes into its pipe, how the pipe ends (\<open>None\<close>: with
  \<^verbatim>\<open>io.EOF\<close>), and what is left of the archive's plaintext. A pipe closed with the error
  \<^verbatim>\<open>io.EOF\<close> ends like a pipe closed without an error.
\<close>

definition frame_body :: "(string \<Rightarrow> string) \<Rightarrow> int \<Rightarrow> reader \<Rightarrow> string \<times> stream_error option \<times> reader" where
  "frame_body sha sz r =
     (let content = take (nat sz) (rd_bytes r);
          copyBroken = (rd_broken r \<and> length (rd_bytes r) < nat sz);
          r1 = r\<lparr>rd_bytes := drop (nat sz) (rd_bytes r)\<rparr>
      in case ReadFull 32 r1 of
           (rsum, r2) \<Rightarrow>
             (content,
              (if copyBroken then Some Broken
               else (case rsum of
                       Inl EOF \<Rightarrow> None
                     | Inl e \<Rightarrow> Some e
                     | Inr s \<Rightarrow> if s \<noteq> sha content then Some (Bad ''component checksum mismatch'') else None)),
              r2))"

definition nextFrame ::
    "(string \<Rightarrow> string) \<Rightarrow> archivereader \<Rightarrow> (stream_error + string \<times> string \<times> stream_error option) \<times> archivereader" where
  "nextFrame sha a =
     (case ReadFull 4 (ar_plain a) of
        (Inl e, r) \<Rightarrow> (Inl e, a\<lparr>ar_plain := r\<rparr>)
      | (Inr b, r) \<Rightarrow>
          let nameLen = (of_nat (be_value b) :: 32 word)
          in if nameLen = 0 \<or> nameLen > 4096 then (Inl (Bad ''invalid component name''), a\<lparr>ar_plain := r\<rparr>)
             else (case ReadFull (unat nameLen) r of
                     (Inl e, r) \<Rightarrow> (Inl e, a\<lparr>ar_plain := r\<rparr>)
                   | (Inr name, r) \<Rightarrow>
                       if name \<in> set (ar_seen a) then (Inl (Bad ''duplicate backup component''), a\<lparr>ar_plain := r\<rparr>)
                       else
                         let a1 = a\<lparr>ar_seen := name # ar_seen a\<rparr>
                         in if ar_index a \<ge> length (man_Expected (ar_Manifest a)) \<or> man_Expected (ar_Manifest a) ! ar_index a \<noteq> name
                            then (Inl (Bad ''component order mismatch''), a1\<lparr>ar_plain := r\<rparr>)
                            else
                              let a2 = a1\<lparr>ar_index := ar_index a + 1\<rparr>
                              in (case ReadFull 8 r of
                                    (Inl e, r) \<Rightarrow> (Inl e, a2\<lparr>ar_plain := r\<rparr>)
                                  | (Inr sb, r) \<Rightarrow>
                                      (case frame_body sha (sint (of_nat (be_value sb) :: 64 word)) r of
                                         (content, fin, r) \<Rightarrow> (Inr (name, content, fin), a2\<lparr>ar_plain := r\<rparr>)))))"

lemma ReadFull_ok: "n \<le> length (rd_bytes r) \<Longrightarrow> ReadFull n r = (Inr (take n (rd_bytes r)), r\<lparr>rd_bytes := drop n (rd_bytes r)\<rparr>)"
  by (simp add: ReadFull_def)

lemma ReadFull_progress: "ReadFull n r = (Inr b, r') \<Longrightarrow> length (rd_bytes r') + n = length (rd_bytes r)"
  by (auto simp: ReadFull_def split: if_splits)

lemma ReadFull_le: "ReadFull n r = (x, r') \<Longrightarrow> length (rd_bytes r') \<le> length (rd_bytes r)"
  by (auto simp: ReadFull_def split: if_splits)

lemma frame_body_le: "frame_body sha sz r = (c, e, r') \<Longrightarrow> length (rd_bytes r') \<le> length (rd_bytes r)"
  by (auto simp: frame_body_def Let_def split: prod.splits dest!: ReadFull_le)

lemma nextFrame_progress:
  assumes "nextFrame sha a = (Inr f, a')"
  shows "length (rd_bytes (ar_plain a')) < length (rd_bytes (ar_plain a))"
  using assms
  by (auto simp: nextFrame_def Let_def split: prod.splits sum.splits if_splits dest!: ReadFull_progress frame_body_le)

text \<open>
  The loop of \<^verbatim>\<open>Each\<close>. The callback gets the name, the contents and the end of a component's
  pipe and threads a state of its own; after it, the rest of the pipe is drained, which reports an
  error at its end whether or not the callback has seen it.
\<close>

function each_frames ::
    "(string \<Rightarrow> string) \<Rightarrow> (string \<Rightarrow> string \<Rightarrow> stream_error option \<Rightarrow> 's \<Rightarrow> stream_error option \<times> 's) \<Rightarrow>
     archivereader \<Rightarrow> 's \<Rightarrow> stream_error option \<times> 's" where
  "each_frames sha fn a s =
     (case nextFrame sha a of
        (Inl e, a1) \<Rightarrow>
          if e = EOF then (if ar_index a1 < length (man_Expected (ar_Manifest a1)) then (Some (Bad ''missing backup component''), s) else (None, s))
          else (Some e, s)
      | (Inr (name, content, fin), a1) \<Rightarrow>
          (case fn name content fin s of
             (Some e, s1) \<Rightarrow> (Some e, s1)
           | (None, s1) \<Rightarrow>
               (case fin of Some e \<Rightarrow> (Some e, s1) | None \<Rightarrow> each_frames sha fn a1 s1)))"
  by pat_completeness auto
termination
  by (relation "measure (\<lambda>(sha, fn, a, s). length (rd_bytes (ar_plain a)))") (auto dest: nextFrame_progress [OF sym])

declare each_frames.simps [simp del]

definition Each ::
    "(string \<Rightarrow> string) \<Rightarrow> (string \<Rightarrow> string \<Rightarrow> stream_error option \<Rightarrow> 's \<Rightarrow> stream_error option \<times> 's) \<Rightarrow>
     archivereader \<Rightarrow> 's \<Rightarrow> stream_error option \<times> 's" where
  "Each sha fn a s =
     (if man_FormatVersion (ar_Manifest a) \<noteq> FormatHPM3
      then (case ar_legacy a of
              None \<Rightarrow> (Some (Bad ''legacy archive payload missing''), s)
            | Some b \<Rightarrow> fn ComponentHome b None s)
      else each_frames sha fn a s)"


section \<open>Keys\<close>

text \<open>The master key (\<^verbatim>\<open>secret.Box\<close>), and what the derivation of a key pair takes from elsewhere: HMAC-SHA-256, SHA-256
  and \<^verbatim>\<open>age.ParseX25519Identity\<close>, which gives the identity and the text of its recipient.\<close>

record box =
  box_key :: string
  box_version :: "32 word"

record keylib =
  kl_hmac :: "string \<Rightarrow> string \<Rightarrow> string"
  kl_sha :: "string \<Rightarrow> string"
  kl_parse :: "string \<Rightarrow> (string \<times> string) option"

definition Derive :: "keylib \<Rightarrow> box \<Rightarrow> string \<Rightarrow> string" where
  "Derive kl b purpose = kl_hmac kl (box_key b) purpose"

definition bech32Charset :: string where
  "bech32Charset = ''qpzry9x8gf2tvdw0s3jn54khce6mua7l''"

definition bech32Gen :: "32 word list" where
  "bech32Gen = [0x3b6a57b2, 0x26508e6d, 0x1ea119fa, 0x3d4233dd, 0x2a1462b3]"

definition byte_of :: "char \<Rightarrow> 8 word" where
  "byte_of c = of_char c"

text \<open>The inner loop of \<^verbatim>\<open>bech32ConvertBits\<close> cuts groups of \<open>tobits\<close> bits from the accumulator.\<close>

fun cut_bits :: "nat \<Rightarrow> 32 word \<Rightarrow> nat \<Rightarrow> 8 word list \<Rightarrow> nat \<times> 8 word list" where
  "cut_bits tobits acc bits ret =
     (if 0 < tobits \<and> tobits \<le> bits
      then cut_bits tobits acc (bits - tobits) (ret @ [ucast (drop_bit (bits - tobits) acc) AND of_nat (2 ^ tobits - 1)])
      else (bits, ret))"

declare cut_bits.simps [simp del]

fun convert_bits :: "nat \<Rightarrow> nat \<Rightarrow> 8 word list \<Rightarrow> 32 word \<Rightarrow> nat \<Rightarrow> 8 word list \<Rightarrow> 32 word \<times> nat \<times> 8 word list" where
  "convert_bits frombits tobits [] acc bits ret = (acc, bits, ret)"
| "convert_bits frombits tobits (v # vs) acc bits ret =
     (let acc' = push_bit frombits acc OR ucast v
      in case cut_bits tobits acc' (bits + frombits) ret of
           (bits', ret') \<Rightarrow> convert_bits frombits tobits vs acc' bits' ret')"

definition bech32ConvertBits :: "8 word list \<Rightarrow> nat \<Rightarrow> nat \<Rightarrow> bool \<Rightarrow> 8 word list" where
  "bech32ConvertBits data frombits tobits pad =
     (case convert_bits frombits tobits data 0 0 [] of
        (acc, bits, ret) \<Rightarrow>
          if pad \<and> bits > 0 then ret @ [ucast (push_bit (tobits - bits) acc) AND of_nat (2 ^ tobits - 1)] else ret)"

definition bech32HRPExpand :: "string \<Rightarrow> 8 word list" where
  "bech32HRPExpand hrp = map (\<lambda>c. drop_bit 5 (byte_of c)) hrp @ [0] @ map (\<lambda>c. byte_of c AND 31) hrp"

definition polymod_step :: "32 word \<Rightarrow> 8 word \<Rightarrow> 32 word" where
  "polymod_step chk v =
     (let top = drop_bit 25 chk;
          chk1 = push_bit 5 (chk AND 0x1ffffff) XOR ucast v
      in foldl (\<lambda>c i. if drop_bit i top AND 1 = 1 then c XOR bech32Gen ! i else c) chk1 [0, 1, 2, 3, 4])"

definition bech32Polymod :: "8 word list \<Rightarrow> 32 word" where
  "bech32Polymod vs = foldl polymod_step 1 vs"

definition bech32Checksum :: "string \<Rightarrow> 8 word list \<Rightarrow> 8 word list" where
  "bech32Checksum hrp data =
     (let m = bech32Polymod (bech32HRPExpand hrp @ data @ [0, 0, 0, 0, 0, 0]) XOR 1
      in map (\<lambda>i. ucast (drop_bit (5 * (5 - i)) m) AND 31) [0, 1, 2, 3, 4, 5])"

text \<open>An index outside the character set is a panic, here \<open>None\<close>.\<close>

fun charset_string :: "8 word list \<Rightarrow> string option" where
  "charset_string [] = Some []"
| "charset_string (v # vs) =
     (if unat v < length bech32Charset
      then (case charset_string vs of None \<Rightarrow> None | Some s \<Rightarrow> Some (bech32Charset ! unat v # s)) else None)"

definition bech32Encode :: "string \<Rightarrow> 8 word list \<Rightarrow> string option" where
  "bech32Encode hrp0 data =
     (let values = bech32ConvertBits data 8 5 True; hrp = to_lower hrp0
      in case charset_string (values @ bech32Checksum hrp values) of
           None \<Rightarrow> None
         | Some s \<Rightarrow> Some (hrp @ ''1'' @ s))"

definition upper_char :: "char \<Rightarrow> char" where
  "upper_char c = (if is_lower c then char_of (of_char c - 32 :: nat) else c)"

definition encodeAgeSecretKey :: "string \<Rightarrow> string option" where
  "encodeAgeSecretKey scalar =
     (case bech32Encode ''age-secret-key-'' (map byte_of scalar) of None \<Rightarrow> None | Some e \<Rightarrow> Some (map upper_char e))"

record keyslot =
  slot_id :: string
  slot_identity :: string
  slot_recipient :: string
  slot_version :: "32 word"

definition slotFromBox :: "keylib \<Rightarrow> box \<Rightarrow> keyslot option" where
  "slotFromBox kl b =
     (case encodeAgeSecretKey (Derive kl b ''kelmor-hpm3-x25519'') of
        None \<Rightarrow> None
      | Some encoded \<Rightarrow>
          (case kl_parse kl encoded of
             None \<Rightarrow> None
           | Some (ident, rec) \<Rightarrow>
               Some \<lparr> slot_id = hex_encode (kl_sha kl rec), slot_identity = ident, slot_recipient = rec,
                      slot_version = box_version b \<rparr>))"

record keyring =
  ring_current :: "keyslot option"
  ring_slots :: "keyslot list"

definition KeyRingFromBox :: "keylib \<Rightarrow> box option \<Rightarrow> keyring option" where
  "KeyRingFromBox kl box =
     (case box of
        None \<Rightarrow> None
      | Some b \<Rightarrow> (case slotFromBox kl b of None \<Rightarrow> None | Some s \<Rightarrow> Some \<lparr>ring_current = Some s, ring_slots = [s]\<rparr>))"

fun add_slots :: "keylib \<Rightarrow> keyring \<Rightarrow> box list \<Rightarrow> keyring option" where
  "add_slots kl ring [] = Some ring"
| "add_slots kl ring (b # bs) =
     (case slotFromBox kl b of
        None \<Rightarrow> None
      | Some s \<Rightarrow> add_slots kl (ring\<lparr>ring_slots := ring_slots ring @ [s]\<rparr>) bs)"

definition KeyRingFromBoxes :: "keylib \<Rightarrow> box option \<Rightarrow> box list \<Rightarrow> keyring option" where
  "KeyRingFromBoxes kl current previous =
     (case KeyRingFromBox kl current of
        None \<Rightarrow> None
      | Some ring \<Rightarrow> add_slots kl ring previous)"

definition CurrentIdentity :: "keyring \<Rightarrow> string" where
  "CurrentIdentity k = (case ring_current k of None \<Rightarrow> '''' | Some s \<Rightarrow> slot_id s)"

definition CurrentVersion :: "keyring \<Rightarrow> 32 word" where
  "CurrentVersion k = (case ring_current k of None \<Rightarrow> 0 | Some s \<Rightarrow> slot_version s)"

definition recipients :: "keyring \<Rightarrow> string list" where
  "recipients k = (case ring_current k of None \<Rightarrow> [] | Some s \<Rightarrow> [slot_recipient s])"

definition identities :: "keyring \<Rightarrow> string list" where
  "identities k = map slot_identity (ring_slots k)"

section \<open>Repositories\<close>

text \<open>The interface, over the state of the repository. The streaming methods are optional.\<close>

record 'r repository =
  rp_Put :: "string \<Rightarrow> string \<Rightarrow> 'r \<Rightarrow> stream_error option \<times> 'r"
  rp_Get :: "string \<Rightarrow> 'r \<Rightarrow> stream_error + string"
  rp_Verify :: "string \<Rightarrow> string \<Rightarrow> 'r \<Rightarrow> stream_error option"
  rp_PutStream :: "(string \<Rightarrow> reader \<Rightarrow> 'r \<Rightarrow> stream_error option \<times> 'r) option"
  rp_GetStream :: "(string \<Rightarrow> 'r \<Rightarrow> stream_error + reader) option"

definition putStream :: "'r repository \<Rightarrow> string \<Rightarrow> reader \<Rightarrow> 'r \<Rightarrow> stream_error option \<times> 'r" where
  "putStream repo key rd st =
     (case rp_PutStream repo of
        Some put \<Rightarrow> put key rd st
      | None \<Rightarrow> if rd_broken rd then (Some Broken, st) else rp_Put repo key (rd_bytes rd) st)"

definition getStream :: "'r repository \<Rightarrow> string \<Rightarrow> 'r \<Rightarrow> stream_error + reader" where
  "getStream repo key st =
     (case rp_GetStream repo of
        Some get \<Rightarrow> get key st
      | None \<Rightarrow> (case rp_Get repo key st of Inl e \<Rightarrow> Inl e | Inr data \<Rightarrow> Inr \<lparr>rd_bytes = data, rd_broken = False\<rparr>))"

definition objectChecksum :: "(string \<Rightarrow> string) \<Rightarrow> string \<Rightarrow> string" where
  "objectChecksum sha data = hex_encode (sha data)"

definition verifyObject :: "(string \<Rightarrow> string) \<Rightarrow> string \<Rightarrow> string \<Rightarrow> stream_error option" where
  "verifyObject sha data checksum =
     (if checksum = '''' then None
      else if data = [] then Some (Bad ''empty backup object'')
      else if objectChecksum sha data \<noteq> checksum then Some (Bad ''checksum mismatch'')
      else None)"

text \<open>The local repository: a directory, here the map from the paths of its files to their contents.\<close>

type_synonym localfs = "(string, string) gomap"

definition safe :: "string \<Rightarrow> string \<Rightarrow> string option" where
  "safe dir key =
     (let clean = filepath_Clean (''/'' @ key);
          full = filepath_Join dir (trim_prefix clean ''/'')
      in if \<not> has_prefix full (filepath_Clean dir @ ''/'') \<and> full \<noteq> filepath_Clean dir then None else Some full)"

definition writeAtomicStream :: "string \<Rightarrow> string \<Rightarrow> reader \<Rightarrow> localfs \<Rightarrow> stream_error option \<times> localfs" where
  "writeAtomicStream dir key rd fs =
     (case safe dir key of
        None \<Rightarrow> (Some (Bad ''permission''), fs)
      | Some p \<Rightarrow>
          let tmp = p @ ''.staging'';
              fs1 = mput tmp (rd_bytes rd) fs
          in if rd_broken rd then (Some Broken, mdel tmp fs1)
             else (None, mput p (rd_bytes rd) (mdel tmp fs1)))"

definition writeAtomic :: "string \<Rightarrow> string \<Rightarrow> string \<Rightarrow> localfs \<Rightarrow> stream_error option \<times> localfs" where
  "writeAtomic dir key data fs = writeAtomicStream dir key \<lparr>rd_bytes = data, rd_broken = False\<rparr> fs"

definition readPath :: "string \<Rightarrow> string \<Rightarrow> localfs \<Rightarrow> stream_error + string" where
  "readPath dir key fs =
     (case safe dir key of
        None \<Rightarrow> Inl (Bad ''permission'')
      | Some p \<Rightarrow> (case mget fs p of None \<Rightarrow> Inl (Bad ''not exist'') | Some d \<Rightarrow> Inr d))"

definition openPath :: "string \<Rightarrow> string \<Rightarrow> localfs \<Rightarrow> stream_error + reader" where
  "openPath dir key fs =
     (case safe dir key of
        None \<Rightarrow> Inl (Bad ''permission'')
      | Some p \<Rightarrow> (case mget fs p of None \<Rightarrow> Inl (Bad ''not exist'') | Some d \<Rightarrow> Inr \<lparr>rd_bytes = d, rd_broken = False\<rparr>))"

definition removePath :: "string \<Rightarrow> string \<Rightarrow> localfs \<Rightarrow> stream_error option \<times> localfs" where
  "removePath dir key fs =
     (case safe dir key of
        None \<Rightarrow> (Some (Bad ''permission''), fs)
      | Some p \<Rightarrow> (case mget fs p of None \<Rightarrow> (Some (Bad ''not exist''), fs) | Some _ \<Rightarrow> (None, mdel p fs)))"

definition Local :: "(string \<Rightarrow> string) \<Rightarrow> string \<Rightarrow> localfs repository" where
  "Local sha dir = \<lparr>
     rp_Put = writeAtomic dir, rp_Get = readPath dir,
     rp_Verify = (\<lambda>key checksum fs. case readPath dir key fs of Inl e \<Rightarrow> Some e | Inr b \<Rightarrow> verifyObject sha b checksum),
     rp_PutStream = Some (writeAtomicStream dir), rp_GetStream = Some (openPath dir) \<rparr>"

section \<open>Sealing and opening\<close>

text \<open>The databases and mailboxes that the names of the components tell of.\<close>

definition expected_databases :: "string list \<Rightarrow> string list" where
  "expected_databases expected = concat (map (\<lambda>name.
     if has_prefix name ''databases/'' then
       (case cut (CHR ''/'') (trim_prefix name ''databases/'') of
          (_, file, ok) \<Rightarrow> if ok then [trim_suffix file ''.sql''] else [])
     else []) expected)"

definition expected_mailboxes :: "string list \<Rightarrow> string list" where
  "expected_mailboxes expected = concat (map (\<lambda>name.
     if has_prefix name ''databases/'' then []
     else if has_prefix name ''mail/'' then
       (case cut (CHR ''/'') (trim_prefix name ''mail/'') of (_, loc, ok) \<Rightarrow> if ok then [loc] else [])
     else []) expected)"

definition hpm3_manifest :: "string \<Rightarrow> string \<Rightarrow> keyring \<Rightarrow> account \<Rightarrow> string list \<Rightarrow> anchor \<Rightarrow> manifest" where
  "hpm3_manifest now version ring acc expected anc =
     \<lparr> man_FormatVersion = FormatHPM3, man_AccountID = acc_ID acc, man_Username = acc_Username acc, man_CreatedAt = now,
       man_PanelVersion = version, man_Kind = ''full'', man_Files = [(''home'', VString (acc_HomePath acc))],
       man_Databases = expected_databases expected, man_Mailboxes = expected_mailboxes expected, man_Checksums = [],
       man_KeyIdentity = CurrentIdentity ring, man_KeyVersion = CurrentVersion ring, man_Consistency = anc,
       man_Expected = expected \<rparr>"

text \<open>
  What the program takes from elsewhere: SHA-256, the JSON encoder and decoder, and \<^verbatim>\<open>age\<close>, which
  encrypts to recipients (not without any) and decrypts with identities.
\<close>

record codec =
  cd_sha :: "string \<Rightarrow> string"
  cd_marshal :: "manifest \<Rightarrow> string"
  cd_unmarshal :: "string \<Rightarrow> manifest option"
  cd_encrypt :: "string list \<Rightarrow> string \<Rightarrow> string option"
  cd_decrypt :: "string list \<Rightarrow> string \<Rightarrow> reader option"

text \<open>
  The stream that is stored. When the writer fails the stream breaks; what came before the break
  is not represented.
\<close>

definition sealed_stream :: "codec \<Rightarrow> keyring \<Rightarrow> manifest \<Rightarrow> component list \<Rightarrow> reader" where
  "sealed_stream cd ring man parts =
     (case writeHPM3 (cd_sha cd) (cd_marshal cd) man parts of
        Inl e \<Rightarrow> \<lparr>rd_bytes = [], rd_broken = True\<rparr>
      | Inr plain \<Rightarrow>
          (case cd_encrypt cd (recipients ring) plain of
             None \<Rightarrow> \<lparr>rd_bytes = [], rd_broken = True\<rparr>
           | Some c \<Rightarrow> \<lparr>rd_bytes = c, rd_broken = False\<rparr>))"

definition SealHPM3WithRingToKey ::
    "codec \<Rightarrow> string \<Rightarrow> string \<Rightarrow> keyring \<Rightarrow> 'r repository \<Rightarrow> account \<Rightarrow> string \<Rightarrow> component list \<Rightarrow> string list \<Rightarrow> anchor \<Rightarrow>
     'r \<Rightarrow> (stream_error + manifest \<times> string) \<times> 'r" where
  "SealHPM3WithRingToKey cd now version ring repo acc key parts expected anc st =
     (case validateAnchor anc of
        Some e \<Rightarrow> (Inl e, st)
      | None \<Rightarrow>
          (case validateInventory parts expected of
             Some e \<Rightarrow> (Inl e, st)
           | None \<Rightarrow>
               let man = hpm3_manifest now version ring acc expected anc;
                   rd = sealed_stream cd ring man parts
               in (case putStream repo key rd st of
                     (Some e, st1) \<Rightarrow> (Inl e, st1)
                   | (None, st1) \<Rightarrow>
                       if rd_broken rd then (Inl Broken, st1)
                       else
                         let sm = hex_encode (cd_sha cd (rd_bytes rd))
                         in (case rp_Verify repo key sm st1 of
                               Some e \<Rightarrow> (Inl e, st1)
                             | None \<Rightarrow> (Inr (man\<lparr>man_Checksums := mput ''object'' sm (man_Checksums man)\<rparr>, key), st1)))))"

text \<open>Archives of the older formats, encrypted with the box.\<close>

definition OpenArchive ::
    "codec \<Rightarrow> (string \<Rightarrow> string option) \<Rightarrow> 'r repository \<Rightarrow> string \<Rightarrow> 'r \<Rightarrow> stream_error + manifest \<times> string" where
  "OpenArchive cd boxDecrypt repo key st =
     (case rp_Get repo key st of
        Inl e \<Rightarrow> Inl e
      | Inr enc \<Rightarrow>
          (case boxDecrypt enc of
             None \<Rightarrow> Inl (Bad ''decrypt'')
           | Some plain \<Rightarrow>
               if \<not> has_prefix plain ''HPM1'' then Inl (Bad ''unknown backup magic'')
               else (case cut (CHR 0x00) (drop 4 plain) of
                       (head, raw, found) \<Rightarrow>
                         if \<not> found then Inl (Bad ''corrupt backup'')
                         else (case cd_unmarshal cd head of
                                 None \<Rightarrow> Inl (Bad ''json'')
                               | Some man \<Rightarrow>
                                   if man_FormatVersion man \<noteq> 1 \<and> man_FormatVersion man \<noteq> 2
                                   then Inl (Bad ''unsupported backup format'')
                                   else if (case mget (man_Checksums man) ''files.tar.gz'' of None \<Rightarrow> '''' | Some s \<Rightarrow> s)
                                           \<noteq> hex_encode (cd_sha cd raw)
                                   then Inl (Bad ''checksum mismatch'')
                                   else Inr (man, raw)))))"

definition openAny ::
    "codec \<Rightarrow> keyring \<Rightarrow> (string \<Rightarrow> string option) option \<Rightarrow> 'r repository \<Rightarrow> string \<Rightarrow> 'r \<Rightarrow> stream_error + archivereader" where
  "openAny cd ring box repo key st =
     (case getStream repo key st of
        Inl e \<Rightarrow> Inl e
      | Inr rd \<Rightarrow>
          if rd_broken rd \<and> length (rd_bytes rd) < length ageMagic then Inl Broken
          else if has_prefix (rd_bytes rd) ageMagic then
            (case cd_decrypt cd (identities ring) (rd_bytes rd) of
               None \<Rightarrow> Inl (Bad ''hpm3 decrypt'')
             | Some plain \<Rightarrow>
                 (case readHPM3Header (cd_unmarshal cd) plain of
                    Inl e \<Rightarrow> Inl e
                  | Inr (man, rest) \<Rightarrow>
                      Inr \<lparr> ar_Manifest = man, ar_plain = rest, ar_seen = [], ar_index = 0, ar_legacy = None \<rparr>))
          else
            (case box of
               None \<Rightarrow> Inl (Bad ''hpm1 backup requires the original box key'')
             | Some d \<Rightarrow>
                 (case OpenArchive cd d repo key st of
                    Inl e \<Rightarrow> Inl e
                  | Inr (man, raw) \<Rightarrow>
                      Inr \<lparr> ar_Manifest = man, ar_plain = \<lparr>rd_bytes = raw, rd_broken = False\<rparr>, ar_seen = [], ar_index = 0,
                            ar_legacy = Some raw \<rparr>)))"

definition ObjectKey :: "account option \<Rightarrow> string \<Rightarrow> string" where
  "ObjectKey acc createdAt =
     (case acc of None \<Rightarrow> createdAt @ ''.hpm'' | Some a \<Rightarrow> acc_Username a @ ''/'' @ createdAt @ ''.hpm'')"

definition SealHPM3ToKey ::
    "codec \<Rightarrow> keylib \<Rightarrow> string \<Rightarrow> string \<Rightarrow> box option \<Rightarrow> 'r repository \<Rightarrow> account \<Rightarrow> string \<Rightarrow> component list \<Rightarrow> string list \<Rightarrow> anchor \<Rightarrow>
     'r \<Rightarrow> (stream_error + manifest \<times> string) \<times> 'r" where
  "SealHPM3ToKey cd kl now version box repo acc key parts expected anc st =
     (case KeyRingFromBox kl box of
        None \<Rightarrow> (Inl (Bad ''backup key''), st)
      | Some ring \<Rightarrow> SealHPM3WithRingToKey cd now version ring repo acc key parts expected anc st)"

text \<open>\<open>created\<close> and \<open>now\<close> are the two readings of the clock: for the key and for the manifest.\<close>

definition SealHPM3WithRing ::
    "codec \<Rightarrow> string \<Rightarrow> string \<Rightarrow> string \<Rightarrow> keyring \<Rightarrow> 'r repository \<Rightarrow> account \<Rightarrow> component list \<Rightarrow> string list \<Rightarrow> anchor \<Rightarrow>
     'r \<Rightarrow> (stream_error + manifest \<times> string) \<times> 'r" where
  "SealHPM3WithRing cd created now version ring repo acc parts expected anc st =
     SealHPM3WithRingToKey cd now version ring repo acc (ObjectKey (Some acc) created) parts expected anc st"

definition SealHPM3 ::
    "codec \<Rightarrow> keylib \<Rightarrow> string \<Rightarrow> string \<Rightarrow> string \<Rightarrow> box option \<Rightarrow> 'r repository \<Rightarrow> account \<Rightarrow> component list \<Rightarrow> string list \<Rightarrow> anchor \<Rightarrow>
     'r \<Rightarrow> (stream_error + manifest \<times> string) \<times> 'r" where
  "SealHPM3 cd kl created now version box repo acc parts expected anc st =
     SealHPM3ToKey cd kl now version box repo acc (ObjectKey (Some acc) created) parts expected anc st"

definition OpenAnyWithRing :: "codec \<Rightarrow> keyring \<Rightarrow> 'r repository \<Rightarrow> string \<Rightarrow> 'r \<Rightarrow> stream_error + archivereader" where
  "OpenAnyWithRing cd ring repo key st = openAny cd ring None repo key st"

text \<open>\<open>boxDecrypt\<close> is the decryption with a box (AES-GCM).\<close>

definition OpenAny ::
    "codec \<Rightarrow> keylib \<Rightarrow> (box \<Rightarrow> string \<Rightarrow> string option) \<Rightarrow> box option \<Rightarrow> 'r repository \<Rightarrow> string \<Rightarrow> 'r \<Rightarrow> stream_error + archivereader" where
  "OpenAny cd kl boxDecrypt box repo key st =
     (case KeyRingFromBox kl box of
        None \<Rightarrow> Inl (Bad ''backup key'')
      | Some ring \<Rightarrow> openAny cd ring (case box of None \<Rightarrow> None | Some b \<Rightarrow> Some (boxDecrypt b)) repo key st)"

definition LegacyPayload :: "archivereader option \<Rightarrow> string option" where
  "LegacyPayload a = (case a of None \<Rightarrow> None | Some r \<Rightarrow> ar_legacy r)"

section \<open>What is collected\<close>

record dbdump =
  dd_Engine :: string
  dd_Name :: string
  dd_SQL :: string

record maildump =
  mld_Domain :: string
  mld_Local :: string
  mld_TarGz :: string

definition data_component :: "string \<Rightarrow> string \<Rightarrow> component" where
  "data_component name d = \<lparr> cmp_Name = name, cmp_Data = Some d, cmp_Size = 0, cmp_Hash = '''', cmp_Open = None \<rparr>"

fun dump_parts :: "dbdump list \<Rightarrow> stream_error + component list" where
  "dump_parts [] = Inr []"
| "dump_parts (d # ds) =
     (if dd_Engine d = '''' \<or> dd_Name d = '''' then Inl (Bad ''missing database identity'')
      else (case dump_parts ds of
              Inl e \<Rightarrow> Inl e
            | Inr ps \<Rightarrow> Inr (data_component (''databases/'' @ dd_Engine d @ ''/'' @ dd_Name d) (dd_SQL d) # ps)))"

fun mail_parts :: "maildump list \<Rightarrow> stream_error + component list" where
  "mail_parts [] = Inr []"
| "mail_parts (m # ms) =
     (if mld_Domain m = '''' \<or> mld_Local m = '''' then Inl (Bad ''missing mailbox identity'')
      else (case mail_parts ms of
              Inl e \<Rightarrow> Inl e
            | Inr ps \<Rightarrow> Inr (data_component (''mail/'' @ mld_Domain m @ ''/'' @ mld_Local m) (mld_TarGz m) # ps)))"

definition componentsFromParts ::
    "string \<Rightarrow> dbdump list \<Rightarrow> maildump list \<Rightarrow> stream_error + component list \<times> string list" where
  "componentsFromParts homeTar dumps mailTrees =
     (if homeTar = [] then Inl (Bad ''empty home component'')
      else (case dump_parts dumps of
              Inl e \<Rightarrow> Inl e
            | Inr ds \<Rightarrow>
                (case mail_parts mailTrees of
                   Inl e \<Rightarrow> Inl e
                 | Inr ms \<Rightarrow>
                     let parts = data_component ComponentHome homeTar # ds @ ms
                     in Inr (parts, map cmp_Name parts))))"


definition BuildFull ::
    "codec \<Rightarrow> keylib \<Rightarrow> string \<Rightarrow> string \<Rightarrow> string \<Rightarrow> string \<Rightarrow> box option \<Rightarrow> 'r repository \<Rightarrow> account \<Rightarrow> string \<Rightarrow> dbdump list \<Rightarrow>
     maildump list \<Rightarrow> 'r \<Rightarrow> (stream_error + manifest \<times> string) \<times> 'r" where
  "BuildFull cd kl snapshot created now version box repo acc homeTar dumps mailTrees st =
     (case componentsFromParts homeTar dumps mailTrees of
        Inl e \<Rightarrow> (Inl e, st)
      | Inr (parts, expected) \<Rightarrow>
          SealHPM3 cd kl created now version box repo acc parts expected
            \<lparr>anc_Fence = 1, anc_Level = ''account'', anc_Quiesced = [''files''], anc_SnapshotAt = snapshot\<rparr> st)"

definition componentsNamed :: "string list \<Rightarrow> component list" where
  "componentsNamed names = map (\<lambda>n. \<lparr> cmp_Name = n, cmp_Data = None, cmp_Size = 0, cmp_Hash = '''', cmp_Open = None \<rparr>) names"

definition MatchExpected :: "string list \<Rightarrow> string list \<Rightarrow> stream_error option" where
  "MatchExpected got expected = validateInventory (componentsNamed got) expected"

definition Preflight :: "manifest \<Rightarrow> account option \<Rightarrow> stream_error option" where
  "Preflight man dest =
     (case dest of
        None \<Rightarrow> None
      | Some d \<Rightarrow>
          if acc_Username d \<noteq> '''' \<and> acc_Username d \<noteq> man_Username man then Some (Bad ''username mismatch'') else None)"

section \<open>The old format\<close>

definition legacy_manifest :: "string \<Rightarrow> string \<Rightarrow> account \<Rightarrow> hosteddb list \<Rightarrow> mailbox list \<Rightarrow> int \<Rightarrow> string \<Rightarrow> manifest" where
  "legacy_manifest now release acc dbs mail version sm =
     \<lparr> man_FormatVersion = version, man_AccountID = acc_ID acc, man_Username = acc_Username acc, man_CreatedAt = now,
       man_PanelVersion = release, man_Kind = ''full'', man_Files = [(''home'', VString (acc_HomePath acc))],
       man_Databases = map db_Name dbs, man_Mailboxes = map mb_LocalPart mail, man_Checksums = [(''files.tar.gz'', sm)],
       man_KeyIdentity = '''', man_KeyVersion = 0,
       man_Consistency = \<lparr>anc_Fence = 0, anc_Level = '''', anc_Quiesced = [], anc_SnapshotAt = ''''\<rparr>, man_Expected = [] \<rparr>"

definition sealArchive ::
    "codec \<Rightarrow> (string \<Rightarrow> string option) \<Rightarrow> string \<Rightarrow> string \<Rightarrow> 'r repository \<Rightarrow> account \<Rightarrow> hosteddb list \<Rightarrow> mailbox list \<Rightarrow>
     string \<Rightarrow> int \<Rightarrow> 'r \<Rightarrow> (stream_error + manifest \<times> string) \<times> 'r" where
  "sealArchive cd boxEncrypt now release repo acc dbs mail raw version st =
     (let sm = hex_encode (cd_sha cd raw);
          man = legacy_manifest now release acc dbs mail version sm;
          mb = cd_marshal cd man;
          man1 = man\<lparr>man_Checksums := mput ''manifest'' sm (man_Checksums man)\<rparr>
      in case boxEncrypt (''HPM1'' @ mb @ [CHR 0x00] @ raw) of
           None \<Rightarrow> (Inl (Bad ''encrypt''), st)
         | Some enc \<Rightarrow>
             let key = acc_Username acc @ ''/'' @ man_CreatedAt man1 @ ''.hpm''
             in (case rp_Put repo key enc st of
                   (Some e, st1) \<Rightarrow> (Inl e, st1)
                 | (None, st1) \<Rightarrow>
                     (case rp_Verify repo key sm st1 of
                        Some e \<Rightarrow> (Inl e, st1)
                      | None \<Rightarrow> (Inr (man1, key), st1))))"

definition BuildArchive ::
    "codec \<Rightarrow> (string \<Rightarrow> string option) \<Rightarrow> string \<Rightarrow> string \<Rightarrow> 'r repository \<Rightarrow> account \<Rightarrow> hosteddb list \<Rightarrow> mailbox list \<Rightarrow>
     string \<Rightarrow> 'r \<Rightarrow> (stream_error + manifest \<times> string) \<times> 'r" where
  "BuildArchive cd boxEncrypt now release repo acc dbs mail raw st =
     sealArchive cd boxEncrypt now release repo acc dbs mail raw 1 st"

section \<open>The text of a key\<close>

lemma and_mask_less: "unat ((w :: 8 word) AND 31) < 32"
proof -
  have "w AND 31 \<le> 31" by (rule word_and_le1)
  then show ?thesis by (simp add: word_le_nat_alt)
qed

lemma cut_bits_small:
  "cut_bits 5 acc bits ret = (b, r) \<Longrightarrow> \<forall>v \<in> set ret. unat v < 32 \<Longrightarrow> (\<forall>v \<in> set r. unat v < 32) \<and> b < 5"
proof (induction "5 :: nat" acc bits ret arbitrary: b r rule: cut_bits.induct)
  case (1 acc bits ret)
  show ?case
  proof (cases "5 \<le> bits")
    case True
    then show ?thesis using 1 cut_bits.simps [of 5 acc bits ret] by (auto simp: and_mask_less)
  next
    case False
    then show ?thesis using "1.prems" cut_bits.simps [of 5 acc bits ret] by auto
  qed
qed

lemma convert_bits_small:
  "convert_bits 8 5 vs acc bits ret = (a, b, r) \<Longrightarrow> \<forall>v \<in> set ret. unat v < 32 \<Longrightarrow> \<forall>v \<in> set r. unat v < 32"
  by (induction "8 :: nat" "5 :: nat" vs acc bits ret rule: convert_bits.induct)
     (auto simp: Let_def split: prod.splits dest: cut_bits_small)

lemma charset_string_total: "\<forall>v \<in> set vs. unat v < 32 \<Longrightarrow> \<exists>s. charset_string vs = Some s \<and> length s = length vs"
proof (induction vs)
  case (Cons v vs)
  then show ?case by (auto simp: bech32Charset_def)
qed simp

text \<open>The encoding of a key never indexes outside the character set.\<close>

lemma bech32Encode_total: "\<exists>s. bech32Encode hrp data = Some s"
proof -
  let ?v = "bech32ConvertBits data 8 5 True"
  obtain acc bits ret where c: "convert_bits 8 5 data 0 0 [] = (acc, bits, ret)" by (cases "convert_bits 8 5 data 0 0 []")
  have "\<forall>v \<in> set ?v. unat v < 32"
    using convert_bits_small [OF c] and_mask_less by (auto simp: bech32ConvertBits_def c)
  then have "\<forall>v \<in> set (?v @ bech32Checksum (to_lower hrp) ?v). unat v < 32"
    using and_mask_less by (auto simp: bech32Checksum_def Let_def)
  from charset_string_total [OF this] show ?thesis by (auto simp: bech32Encode_def Let_def)
qed

section \<open>Encoding\<close>

lemma length_be_bytes [simp]: "length (be_bytes k n) = k"
  by (induction k) simp_all

lemma be_value_Cons: "be_value (c # bs) = of_char c * 256 ^ length bs + be_value bs"
proof -
  have "foldl (\<lambda>v c. v * 256 + of_char c) v bs = v * 256 ^ length bs + foldl (\<lambda>v c. v * 256 + of_char c) 0 bs" for v :: nat and bs
  proof (induction bs arbitrary: v)
    case (Cons b bs)
    show ?case using Cons [of "v * 256 + of_char b"] Cons [of "of_char b"] by (simp add: algebra_simps)
  qed simp
  from this [of "of_char c" bs] show ?thesis by (simp add: be_value_def)
qed

lemma be_value_bytes: "be_value (be_bytes k n) = n mod 256 ^ k"
proof (induction k)
  case 0
  then show ?case by (simp add: be_value_def)
next
  case (Suc k)
  have "n mod (256 ^ k * 256) = 256 ^ k * (n div 256 ^ k mod 256) + n mod 256 ^ k" by (rule mod_mult2_eq)
  then show ?case using Suc by (simp add: be_value_Cons mult.commute)
qed

lemma uint32_roundtrip: "of_nat (be_value (put_uint32 w)) = w"
  using unsigned_less [of w, where 'a = nat] by (simp add: put_uint32_def be_value_bytes)

lemma uint64_roundtrip: "of_nat (be_value (put_uint64 w)) = w"
  using unsigned_less [of w, where 'a = nat] by (simp add: put_uint64_def be_value_bytes)

lemma length_put_uint [simp]: "length (put_uint32 w) = 4" "length (put_uint64 v) = 8"
  by (simp_all add: put_uint32_def put_uint64_def)

lemma ReadFull_append:
  "length b = n \<Longrightarrow> ReadFull n (r\<lparr>rd_bytes := b @ rest\<rparr>) = (Inr b, r\<lparr>rd_bytes := rest\<rparr>)"
  "length b = n \<Longrightarrow> ReadFull n \<lparr>rd_bytes = b @ rest, rd_broken = x\<rparr> = (Inr b, \<lparr>rd_bytes = rest, rd_broken = x\<rparr>)"
  by (simp_all add: ReadFull_def)

lemma unat_of_nat_32: "n < 2 ^ 32 \<Longrightarrow> unat (of_nat n :: 32 word) = n"
  by (simp add: unat_of_nat)

lemma sint_of_nat_64: "n < 2 ^ 63 \<Longrightarrow> sint (of_nat n :: 64 word) = int n"
  by (simp add: signed_of_nat signed_take_bit_int_eq_self)

section \<open>Frames\<close>

definition frame :: "(string \<Rightarrow> string) \<Rightarrow> string \<times> string \<Rightarrow> string" where
  "frame sha = (\<lambda>(name, content). put_uint32 (of_nat (length name)) @ name @ put_uint64 (of_nat (length content)) @ content @ sha content)"

text \<open>The contents of a component that was written.\<close>

definition part_content :: "component \<Rightarrow> string" where
  "part_content p = (case openComponent p of Inl _ \<Rightarrow> [] | Inr (r, sz) \<Rightarrow> take (nat sz) (rd_bytes r))"

lemma writeComponent_frame: "writeComponent sha p = Inr b \<Longrightarrow> b = frame sha (cmp_Name p, part_content p)"
  by (auto simp: writeComponent_def frame_def part_content_def Let_def split: sum.splits if_splits)

lemma write_components_frames:
  "write_components sha ps = Inr bs \<Longrightarrow> bs = concat (map (\<lambda>p. frame sha (cmp_Name p, part_content p)) ps)"
  by (induction ps arbitrary: bs) (auto split: sum.splits dest!: writeComponent_frame)


lemma nextFrame_frame:
  assumes a: "rd_bytes (ar_plain a) = frame sha (name, content) @ rest"
    and sha: "length (sha content) = 32" and len: "0 < length name" "length name \<le> 4096" "length content < 2 ^ 63"
    and new: "name \<notin> set (ar_seen a)"
    and exp: "ar_index a < length (man_Expected (ar_Manifest a))" "man_Expected (ar_Manifest a) ! ar_index a = name"
  shows "nextFrame sha a = (Inr (name, content, None),
    a\<lparr>ar_seen := name # ar_seen a, ar_index := ar_index a + 1, ar_plain := (ar_plain a)\<lparr>rd_bytes := rest\<rparr>\<rparr>)"
proof -
  define r where "r = ar_plain a"
  let ?n = "of_nat (length name) :: 32 word"
  have n: "unat ?n = length name" using len(2) by (intro unat_of_nat_32) simp
  then have nz: "?n \<noteq> 0" and le: "\<not> 4096 < ?n" using len(1,2) by (auto simp: word_less_nat_alt)
  have r: "r = r\<lparr>rd_bytes := put_uint32 ?n @ name @ put_uint64 (of_nat (length content)) @ content @ sha content @ rest\<rparr>"
    using a by (simp add: r_def frame_def)
  have r1: "ReadFull 4 r = (Inr (put_uint32 ?n), r\<lparr>rd_bytes := name @ put_uint64 (of_nat (length content)) @ content @ sha content @ rest\<rparr>)"
    by (subst r) (rule ReadFull_append, simp)
  have r2: "ReadFull (length name) (r\<lparr>rd_bytes := name @ put_uint64 (of_nat (length content)) @ content @ sha content @ rest\<rparr>) =
      (Inr name, r\<lparr>rd_bytes := put_uint64 (of_nat (length content)) @ content @ sha content @ rest\<rparr>)"
    by (rule ReadFull_append) simp
  have r3: "ReadFull 8 (r\<lparr>rd_bytes := put_uint64 (of_nat (length content)) @ content @ sha content @ rest\<rparr>) =
      (Inr (put_uint64 (of_nat (length content))), r\<lparr>rd_bytes := content @ sha content @ rest\<rparr>)"
    by (rule ReadFull_append) simp
  have r4: "frame_body sha (int (length content)) (r\<lparr>rd_bytes := content @ sha content @ rest\<rparr>) = (content, None, r\<lparr>rd_bytes := rest\<rparr>)"
    using ReadFull_append(1) [where b = "sha content" and n = 32 and r = r and rest = rest] sha by (simp add: frame_body_def Let_def)
  show ?thesis
    using exp new
    by (simp add: nextFrame_def Let_def r1 r2 r3 r4 uint32_roundtrip uint64_roundtrip n nz le sint_of_nat_64 [OF len(3)]
        flip: r_def)
qed

text \<open>What a callback sees of a complete archive.\<close>

fun visit ::
    "(string \<Rightarrow> string \<Rightarrow> stream_error option \<Rightarrow> 's \<Rightarrow> stream_error option \<times> 's) \<Rightarrow> (string \<times> string) list \<Rightarrow> 's \<Rightarrow> stream_error option \<times> 's" where
  "visit fn [] s = (None, s)"
| "visit fn ((name, content) # cs) s =
     (case fn name content None s of (Some e, s1) \<Rightarrow> (Some e, s1) | (None, s1) \<Rightarrow> visit fn cs s1)"

lemma visit_append:
  "visit fn (xs @ ys) s = (case visit fn xs s of (Some e, s1) \<Rightarrow> (Some e, s1) | (None, s1) \<Rightarrow> visit fn ys s1)"
proof (induction xs arbitrary: s)
  case (Cons c xs)
  obtain n d where "c = (n, d)" by (cases c)
  then show ?case using Cons by (cases "fn n d None s") (simp split: option.split)
qed simp

definition readable :: "(string \<Rightarrow> string) \<Rightarrow> (string \<times> string) list \<Rightarrow> bool" where
  "readable sha cs \<longleftrightarrow> (\<forall>(name, content) \<in> set cs. 0 < length name \<and> length name \<le> 4096 \<and> length content < 2 ^ 63 \<and> length (sha content) = 32)"

lemma nextFrame_end:
  "ar_plain a = \<lparr>rd_bytes = [], rd_broken = False\<rparr> \<Longrightarrow> nextFrame sha a = (Inl EOF, a)"
  by (simp add: nextFrame_def ReadFull_def)

text \<open>After the frames of \<open>cs\<close> the reader goes on with what follows them.\<close>

definition advance :: "(string \<times> string) list \<Rightarrow> string \<Rightarrow> archivereader \<Rightarrow> archivereader" where
  "advance cs rest a = a\<lparr> ar_seen := rev (map fst cs) @ ar_seen a, ar_index := ar_index a + length cs,
     ar_plain := (ar_plain a)\<lparr>rd_bytes := rest\<rparr> \<rparr>"

lemma each_frames_prefix:
  "readable sha cs \<Longrightarrow> rd_bytes (ar_plain a) = concat (map (frame sha) cs) @ rest \<Longrightarrow>
     man_Expected (ar_Manifest a) = prev @ map fst cs @ post \<Longrightarrow> ar_index a = length prev \<Longrightarrow> set (ar_seen a) = set prev \<Longrightarrow>
     distinct (prev @ map fst cs @ post) \<Longrightarrow>
     each_frames sha fn a s =
       (case visit fn cs s of (Some e, s1) \<Rightarrow> (Some e, s1) | (None, s1) \<Rightarrow> each_frames sha fn (advance cs rest a) s1)"
proof (induction cs arbitrary: a s prev)
  case Nil
  then have "advance [] rest a = a" by (simp add: advance_def)
  then show ?case by simp
next
  case (Cons c cs)
  obtain name content where c: "c = (name, content)" by (cases c)
  let ?a = "a\<lparr>ar_seen := name # ar_seen a, ar_index := ar_index a + 1,
      ar_plain := (ar_plain a)\<lparr>rd_bytes := concat (map (frame sha) cs) @ rest\<rparr>\<rparr>"
  have nf: "nextFrame sha a = (Inr (name, content, None), ?a)"
    by (rule nextFrame_frame) (use Cons.prems in \<open>auto simp: c readable_def nth_append\<close>)
  have adv: "advance cs rest ?a = advance (c # cs) rest a" by (simp add: advance_def c)
  have "each_frames sha fn ?a s1 = (case visit fn cs s1 of (Some e, s1) \<Rightarrow> (Some e, s1)
      | (None, s1) \<Rightarrow> each_frames sha fn (advance cs rest ?a) s1)" for s1
    by (rule Cons.IH [where prev = "prev @ [name]"]) (use Cons.prems in \<open>auto simp: c readable_def\<close>)
  then show ?case unfolding adv by (subst each_frames.simps) (simp add: nf c split: prod.split option.split)
qed

lemma each_frames_end:
  "ar_plain a = \<lparr>rd_bytes = [], rd_broken = False\<rparr> \<Longrightarrow> ar_index a = length (man_Expected (ar_Manifest a)) \<Longrightarrow>
     each_frames sha fn a s = (None, s)"
  by (subst each_frames.simps) (simp add: nextFrame_end)

lemma each_frames_visit:
  assumes "readable sha cs" "ar_plain a = \<lparr>rd_bytes = concat (map (frame sha) cs), rd_broken = False\<rparr>"
    "man_Expected (ar_Manifest a) = map fst cs" "ar_index a = 0" "ar_seen a = []" "distinct (map fst cs)"
  shows "each_frames sha fn a s = visit fn cs s"
proof -
  have "each_frames sha fn (advance cs [] a) s1 = (None, s1)" for s1
    by (rule each_frames_end) (simp_all add: advance_def assms)
  then show ?thesis
    using each_frames_prefix [of sha cs a "[]" "[]" "[]" fn s] assms by (simp split: prod.split option.split)
qed

lemma inventory_loop_ok:
  "inventory_loop seen ps es = None \<Longrightarrow> length ps = length es \<Longrightarrow>
     map cmp_Name ps = es \<and> distinct es \<and> set es \<inter> set seen = {} \<and> '''' \<notin> set es"
  by (induction seen ps es rule: inventory_loop.induct) (auto split: if_splits)

lemma validateInventory_ok:
  "validateInventory parts expected = None \<Longrightarrow> map cmp_Name parts = expected \<and> distinct expected \<and> '''' \<notin> set expected"
  using inventory_loop_ok [of "[]" parts expected] by (auto simp: validateInventory_def split: if_splits)

lemma readHPM3Header_written:
  assumes w: "writeHPM3 sha marshal man parts = Inr plain" and len: "0 < length (marshal man)" "length (marshal man) \<le> 1048576"
    and j: "unmarshal (marshal man) = Some man" and v: "man_FormatVersion man = FormatHPM3"
  shows "readHPM3Header unmarshal \<lparr>rd_bytes = plain, rd_broken = False\<rparr> =
    Inr (man, \<lparr>rd_bytes = concat (map (\<lambda>p. frame sha (cmp_Name p, part_content p)) parts), rd_broken = False\<rparr>)"
proof -
  let ?h = "marshal man" and ?n = "of_nat (length (marshal man)) :: 32 word"
  let ?fs = "concat (map (\<lambda>p. frame sha (cmp_Name p, part_content p)) parts)"
  have p: "plain = hpm3Magic @ put_uint32 ?n @ ?h @ ?fs"
    using w by (auto simp: writeHPM3_def Let_def split: sum.splits dest!: write_components_frames)
  have n: "unat ?n = length ?h" using len(2) by (intro unat_of_nat_32) simp
  then have "?n \<noteq> 0" "\<not> maxHeaderBytes < ?n" using len by (auto simp: word_less_nat_alt maxHeaderBytes_def)
  then show ?thesis
    using n j v by (simp add: readHPM3Header_def p ReadFull_append uint32_roundtrip Let_def)
qed


section \<open>The interface of a repository\<close>

text \<open>
  What the archive code relies on: a stored object is read back as it was, and a broken stream is
  reported.
\<close>

locale archive_repository =
  fixes repo :: "'r repository"
  assumes get_put: "putStream repo key \<lparr>rd_bytes = d, rd_broken = False\<rparr> st = (None, st1) \<Longrightarrow>
      getStream repo key st1 = Inr \<lparr>rd_bytes = d, rd_broken = False\<rparr>"
    and put_broken: "rd_broken rd \<Longrightarrow> fst (putStream repo key rd st) \<noteq> None"
begin

lemma seal_stored:
  assumes s: "SealHPM3WithRingToKey cd now version ring repo acc key parts expected anc st = (Inr (man, k), st')"
  obtains plain c where "writeHPM3 (cd_sha cd) (cd_marshal cd) (hpm3_manifest now version ring acc expected anc) parts = Inr plain"
    "cd_encrypt cd (recipients ring) plain = Some c" "getStream repo key st' = Inr \<lparr>rd_bytes = c, rd_broken = False\<rparr>"
    "k = key" "validateInventory parts expected = None"
proof -
  let ?man = "hpm3_manifest now version ring acc expected anc"
  let ?rd = "sealed_stream cd ring ?man parts"
  obtain st1 where v: "validateInventory parts expected = None" and p: "putStream repo key ?rd st = (None, st1)"
    and st1: "st' = st1" and k: "k = key"
    using s by (auto simp: SealHPM3WithRingToKey_def Let_def split: option.splits prod.splits if_splits)
  have nb: "\<not> rd_broken ?rd" using put_broken [of ?rd key st] p by auto
  then obtain plain c where pl: "writeHPM3 (cd_sha cd) (cd_marshal cd) ?man parts = Inr plain"
    and c: "cd_encrypt cd (recipients ring) plain = Some c"
    by (auto simp: sealed_stream_def split: sum.splits option.splits)
  then have "getStream repo key st1 = Inr \<lparr>rd_bytes = c, rd_broken = False\<rparr>"
    using get_put [of key c st st1] p by (simp add: sealed_stream_def)
  then show thesis using that [OF pl c] k v st1 by simp
qed

lemma opened:
  assumes "getStream repo key st = Inr \<lparr>rd_bytes = c, rd_broken = False\<rparr>" "has_prefix c ageMagic"
    "cd_decrypt cd (identities ring) c = Some plain"
  shows "openAny cd ring box repo key st =
    (case readHPM3Header (cd_unmarshal cd) plain of
       Inl e \<Rightarrow> Inl e
     | Inr (man, rest) \<Rightarrow> Inr \<lparr> ar_Manifest = man, ar_plain = rest, ar_seen = [], ar_index = 0, ar_legacy = None \<rparr>)"
  using assms by (simp add: openAny_def)

lemma sealed_readable:
  assumes s: "SealHPM3WithRingToKey cd now version ring repo acc key parts expected anc st = (Inr (man, k), st')"
    and m0: "m0 = hpm3_manifest now version ring acc expected anc"
    and json: "cd_unmarshal cd (cd_marshal cd m0) = Some m0" "0 < length (cd_marshal cd m0)" "length (cd_marshal cd m0) \<le> 1048576"
    and age: "\<And>p c. cd_encrypt cd (recipients ring) p = Some c \<Longrightarrow>
      has_prefix c ageMagic \<and> cd_decrypt cd (identities ring') c = Some \<lparr>rd_bytes = p, rd_broken = False\<rparr>"
    and sizes: "\<forall>p \<in> set parts. length (cmp_Name p) \<le> 4096 \<and> length (part_content p) < 2 ^ 63"
    and sha: "\<And>x. length (cd_sha cd x) = 32"
  shows "\<exists>a. openAny cd ring' box repo k st' = Inr a \<and> ar_Manifest a = m0 \<and>
    (\<forall>fn s. Each (cd_sha cd) fn a s = visit fn (map (\<lambda>p. (cmp_Name p, part_content p)) parts) s)"
proof -
  let ?cs = "map (\<lambda>p. (cmp_Name p, part_content p)) parts"
  from s obtain plain c where pl: "writeHPM3 (cd_sha cd) (cd_marshal cd) m0 parts = Inr plain"
    and c: "cd_encrypt cd (recipients ring) plain = Some c" and g: "getStream repo key st' = Inr \<lparr>rd_bytes = c, rd_broken = False\<rparr>"
    and k: "k = key" and v: "validateInventory parts expected = None"
    unfolding m0 by (rule seal_stored)
  have v3: "man_FormatVersion m0 = FormatHPM3" and ex: "man_Expected m0 = expected" by (simp_all add: m0 hpm3_manifest_def)
  note inv = validateInventory_ok [OF v]
  define a where "a = \<lparr> ar_Manifest = m0, ar_plain = \<lparr>rd_bytes = concat (map (frame (cd_sha cd)) ?cs), rd_broken = False\<rparr>,
      ar_seen = [], ar_index = 0, ar_legacy = None \<rparr>"
  have "openAny cd ring' box repo key st' = Inr a"
    using opened [OF g, of cd ring'] age [OF c] readHPM3Header_written [where unmarshal = "cd_unmarshal cd", OF pl json(2,3,1) v3]
    by (simp add: a_def comp_def)
  moreover have "cmp_Name p \<noteq> ''''" if "p \<in> set parts" for p
    using inv that image_eqI [of "cmp_Name p" cmp_Name p "set parts"] by (metis set_map)
  then have "readable (cd_sha cd) ?cs" using sizes sha by (auto simp: readable_def)
  then have "each_frames (cd_sha cd) fn a s = visit fn ?cs s" for fn s
    by (rule each_frames_visit) (use inv ex in \<open>simp_all add: a_def comp_def\<close>)
  then have "Each (cd_sha cd) fn a s = visit fn ?cs s" for fn s using v3 by (simp add: Each_def a_def)
  moreover have "ar_Manifest a = m0" by (simp add: a_def)
  ultimately show ?thesis using k by blast
qed

end

lemma Local_get_put:
  "putStream (Local sha dir) key rd st = (None, st1) \<Longrightarrow> \<not> rd_broken rd \<Longrightarrow>
     getStream (Local sha dir) key st1 = Inr \<lparr>rd_bytes = rd_bytes rd, rd_broken = False\<rparr>"
  by (auto simp: putStream_def getStream_def Local_def writeAtomicStream_def openPath_def Let_def split: option.splits if_splits)

interpretation localrepo: archive_repository "Local sha dir" for sha dir
proof
  show "getStream (Local sha dir) key st1 = Inr \<lparr>rd_bytes = d, rd_broken = False\<rparr>"
    if "putStream (Local sha dir) key \<lparr>rd_bytes = d, rd_broken = False\<rparr> st = (None, st1)" for key d st st1
    using Local_get_put [OF that] by simp
  show "fst (putStream (Local sha dir) key rd st) \<noteq> None" if "rd_broken rd" for rd key st
    using that by (simp add: putStream_def Local_def writeAtomicStream_def Let_def split: option.splits)
qed


section \<open>Properties\<close>

lemma add_slots_keep: "add_slots kl ring bs = Some ring' \<Longrightarrow> ring_current ring' = ring_current ring \<and> set (ring_slots ring) \<subseteq> set (ring_slots ring')"
proof (induction bs arbitrary: ring)
  case (Cons b bs)
  then obtain s where "slotFromBox kl b = Some s" "add_slots kl (ring\<lparr>ring_slots := ring_slots ring @ [s]\<rparr>) bs = Some ring'"
    by (auto split: option.splits)
  with Cons.IH [OF this(2)] show ?case by simp
qed simp

lemma add_slots_has: "add_slots kl ring bs = Some ring' \<Longrightarrow> b \<in> set bs \<Longrightarrow> slotFromBox kl b = Some s \<Longrightarrow> s \<in> set (ring_slots ring')"
proof (induction bs arbitrary: ring)
  case (Cons x bs)
  then obtain s' where x: "slotFromBox kl x = Some s'" and r: "add_slots kl (ring\<lparr>ring_slots := ring_slots ring @ [s']\<rparr>) bs = Some ring'"
    by (auto split: option.splits)
  show ?case
  proof (cases "b = x")
    case True
    then show ?thesis using x Cons.prems(3) add_slots_keep [OF r] by auto
  next
    case False
    then show ?thesis using Cons.IH [OF r] Cons.prems by auto
  qed
qed simp

lemma ring_recipients:
  assumes "KeyRingFromBoxes kl (Some b) ps = Some ring"
  obtains s where "slotFromBox kl b = Some s" "recipients ring = [slot_recipient s]"
  using assms by (auto simp: KeyRingFromBoxes_def KeyRingFromBox_def recipients_def split: option.splits dest!: add_slots_keep)

lemma ring_identities:
  assumes "KeyRingFromBoxes kl b' ps = Some ring" "b' = Some b \<or> b \<in> set ps" "slotFromBox kl b = Some s"
  shows "slot_identity s \<in> set (identities ring)"
proof -
  obtain r0 where r0: "KeyRingFromBox kl b' = Some r0" and r: "add_slots kl r0 ps = Some ring"
    using assms(1) by (auto simp: KeyRingFromBoxes_def split: option.splits)
  have "s \<in> set (ring_slots ring)"
    using assms(2,3) add_slots_keep [OF r] add_slots_has [OF r, of b s] r0
    by (auto simp: KeyRingFromBox_def split: option.splits)
  then show ?thesis by (simp add: identities_def)
qed

text \<open>
  C18. A sealed backup can be read back, with the key it was sealed with or after a change of keys.
  When sealing into the local repository reports success, the archive opens with every key ring
  that contains the key of the ring it was sealed with; it has the manifest that was sealed, and
  reading it gives a callback exactly the components that were written, each once, in order, with
  their contents and without an error. This needs a manifest of at most 1 MiB, names of at most
  4096 bytes, and of the environment that checksums have 32 bytes, that JSON decodes what it
  encoded, and that \<^verbatim>\<open>age\<close> decrypts what was encrypted to a recipient when given its identity.
\<close>

theorem backup_roundtrip:
  assumes s: "SealHPM3WithRingToKey cd now version ring (Local (cd_sha cd) dir) acc key parts expected anc st = (Inr (man, k), st')"
    and r: "KeyRingFromBoxes kl (Some b) ps = Some ring"
    and r': "KeyRingFromBoxes kl b' ps' = Some ring'" and b: "b' = Some b \<or> b \<in> set ps'"
    and m0: "m0 = hpm3_manifest now version ring acc expected anc"
    and json: "cd_unmarshal cd (cd_marshal cd m0) = Some m0" "0 < length (cd_marshal cd m0)" "length (cd_marshal cd m0) \<le> 1048576"
    and age: "\<And>bx slot ids p c. slotFromBox kl bx = Some slot \<Longrightarrow> cd_encrypt cd [slot_recipient slot] p = Some c \<Longrightarrow>
      slot_identity slot \<in> set ids \<Longrightarrow> has_prefix c ageMagic \<and> cd_decrypt cd ids c = Some \<lparr>rd_bytes = p, rd_broken = False\<rparr>"
    and sizes: "\<forall>p \<in> set parts. length (cmp_Name p) \<le> 4096 \<and> length (part_content p) < 2 ^ 63"
    and sha: "\<And>x. length (cd_sha cd x) = 32"
  shows "\<exists>a. openAny cd ring' box (Local (cd_sha cd) dir) k st' = Inr a \<and> ar_Manifest a = m0 \<and>
    (\<forall>fn s. Each (cd_sha cd) fn a s = visit fn (map (\<lambda>p. (cmp_Name p, part_content p)) parts) s)"
proof -
  obtain slot where slot: "slotFromBox kl b = Some slot" and rec: "recipients ring = [slot_recipient slot]"
    using r by (rule ring_recipients)
  have "has_prefix c ageMagic \<and> cd_decrypt cd (identities ring') c = Some \<lparr>rd_bytes = p, rd_broken = False\<rparr>"
    if "cd_encrypt cd (recipients ring) p = Some c" for p c
    using age [OF slot _ ring_identities [OF r' b slot]] that by (simp add: rec)
  then show ?thesis by (rule localrepo.sealed_readable [OF s m0 json _ sizes sha])
qed

text \<open>
  C39. A backup whose manifest is larger than 1 MiB is sealed, stored, verified and reported as a
  success, and can never be opened again: the writer does not check the limit of the reader.
\<close>

theorem oversized_manifest_lost:
  assumes s: "SealHPM3WithRingToKey cd now version ring (Local (cd_sha cd) dir) acc key parts expected anc st = (Inr (man, k), st')"
    and m0: "m0 = hpm3_manifest now version ring acc expected anc"
    and big: "1048576 < length (cd_marshal cd m0)" "length (cd_marshal cd m0) < 2 ^ 32"
    and age: "\<And>p c. cd_encrypt cd (recipients ring) p = Some c \<Longrightarrow>
      has_prefix c ageMagic \<and> cd_decrypt cd (identities ring') c = Some \<lparr>rd_bytes = p, rd_broken = False\<rparr>"
  shows "openAny cd ring' box (Local (cd_sha cd) dir) k st' = Inl (Bad ''invalid hpm3 header'')"
proof -
  let ?n = "of_nat (length (cd_marshal cd m0)) :: 32 word"
  from s obtain plain c where pl: "writeHPM3 (cd_sha cd) (cd_marshal cd) m0 parts = Inr plain"
    and c: "cd_encrypt cd (recipients ring) plain = Some c"
    and g: "getStream (Local (cd_sha cd) dir) key st' = Inr \<lparr>rd_bytes = c, rd_broken = False\<rparr>" and k: "k = key"
    unfolding m0 by (rule localrepo.seal_stored)
  have "unat ?n = length (cd_marshal cd m0)" using big(2) by (rule unat_of_nat_32)
  then have "maxHeaderBytes < ?n" using big(1) by (simp add: word_less_nat_alt maxHeaderBytes_def)
  then have "readHPM3Header (cd_unmarshal cd) \<lparr>rd_bytes = plain, rd_broken = False\<rparr> = Inl (Bad ''invalid hpm3 header'')"
    using pl by (auto simp: writeHPM3_def readHPM3Header_def ReadFull_append uint32_roundtrip Let_def split: sum.splits)
  then show ?thesis using localrepo.opened [OF g, of cd ring' _ box] age [OF c] k by simp
qed

text \<open>
  A truncated last component passes as complete. When the plaintext of an archive ends
  anywhere within the contents of the last component, or right after them, so that its checksum is
  missing, reading reports no error and hands the shortened contents to the callback: the missing
  checksum is an \<^verbatim>\<open>io.EOF\<close>, which ends the component's pipe like a complete component does.
\<close>

theorem truncation_unnoticed:
  assumes v: "man_FormatVersion (ar_Manifest a) = FormatHPM3" and ex: "man_Expected (ar_Manifest a) = map fst cs @ [name]"
    and d: "distinct (map fst cs @ [name])" and new: "ar_index a = 0" "ar_seen a = []"
    and ok: "readable sha (cs @ [(name, content)])" and j: "j \<le> length content"
    and plain: "ar_plain a = \<lparr>rd_bytes = concat (map (frame sha) cs) @ take (12 + length name + j) (frame sha (name, content)), rd_broken = False\<rparr>"
  shows "Each sha fn a s = visit fn (cs @ [(name, take j content)]) s"
proof -
  let ?t = "take (12 + length name + j) (frame sha (name, content))"
  let ?n = "of_nat (length name) :: 32 word"
  define a1 where "a1 = advance cs ?t a"
  define a2 where "a2 = a1\<lparr>ar_seen := name # ar_seen a1, ar_index := ar_index a1 + 1, ar_plain := \<lparr>rd_bytes = [], rd_broken = False\<rparr>\<rparr>"
  have t: "?t = put_uint32 ?n @ name @ put_uint64 (of_nat (length content)) @ take j content"
    using j by (simp add: frame_def)
  have ok1: "0 < length name" "length name \<le> 4096" "length content < 2 ^ 63" using ok by (auto simp: readable_def)
  have n: "unat ?n = length name" using ok1(2) by (intro unat_of_nat_32) simp
  have nz: "?n \<noteq> 0" "\<not> 4096 < ?n" using n ok1(1,2) by (auto simp: word_less_nat_alt)
  have a1: "ar_plain a1 = \<lparr>rd_bytes = ?t, rd_broken = False\<rparr>" "ar_index a1 = length cs" "name \<notin> set (ar_seen a1)"
      "man_Expected (ar_Manifest a1) = map fst cs @ [name]"
    using new ex d plain by (auto simp: a1_def advance_def)
  have "frame_body sha (int (length content)) \<lparr>rd_bytes = take j content, rd_broken = False\<rparr> =
      (take j content, None, \<lparr>rd_bytes = [], rd_broken = False\<rparr>)"
    using j by (simp add: frame_body_def ReadFull_def Let_def)
  then have nf: "nextFrame sha a1 = (Inr (name, take j content, None), a2)"
    using a1 n nz
    by (simp add: nextFrame_def t ReadFull_append uint32_roundtrip uint64_roundtrip sint_of_nat_64 [OF ok1(3)] a2_def nth_append Let_def)
  have a2: "each_frames sha fn a2 s1 = (None, s1)" for s1 by (rule each_frames_end) (simp_all add: a2_def a1)
  have last: "each_frames sha fn a1 s1 = visit fn [(name, take j content)] s1" for s1
    by (subst each_frames.simps) (simp add: nf a2 split: prod.split option.split)
  have "each_frames sha fn a s = (case visit fn cs s of (Some e, s1) \<Rightarrow> (Some e, s1) | (None, s1) \<Rightarrow> each_frames sha fn a1 s1)"
    unfolding a1_def
    by (rule each_frames_prefix [where prev = "[]" and post = "[name]"]) (use ok plain ex new d in \<open>simp_all add: readable_def\<close>)
  also have "\<dots> = (case visit fn cs s of (Some e, s1) \<Rightarrow> (Some e, s1) | (None, s1) \<Rightarrow> visit fn [(name, take j content)] s1)"
    by (simp only: last)
  also have "\<dots> = visit fn (cs @ [(name, take j content)]) s"
    by (rule visit_append [symmetric])
  finally show ?thesis using v by (simp add: Each_def)
qed


lemma hex_digit_eq: "hex_digit m = hex_digit n \<longleftrightarrow> m mod 16 = n mod 16"
proof -
  have "distinct ''0123456789abcdef''" "length ''0123456789abcdef'' = 16" by simp_all
  then show ?thesis unfolding hex_digit_def by (metis mod_less_divisor nth_eq_iff_index_eq zero_less_numeral)
qed

lemma hex_encode_inj: "hex_encode s = hex_encode t \<Longrightarrow> s = t"
proof (induction s arbitrary: t)
  case Nil
  then show ?case by (cases t) (simp_all add: hex_encode_def)
next
  case (Cons c s)
  then obtain d t' where t: "t = d # t'" by (cases t) (simp_all add: hex_encode_def)
  have d: "(of_char c :: nat) div 16 mod 16 = of_char d div 16 mod 16" "(of_char c :: nat) mod 16 = of_char d mod 16"
    and rest: "hex_encode s = hex_encode t'"
    using Cons.prems by (simp_all add: t hex_encode_def hex_digit_eq)
  have lt: "(of_char x :: nat) div 16 < 16" for x :: char
  proof -
    have "(of_char x :: nat) < 256" using of_char_mod_256 [of x, where 'a = nat] by (metis mod_less_divisor zero_less_numeral)
    then show ?thesis using less_mult_imp_div_less [of "of_char x" 16 16] by simp
  qed
  have "(of_char c :: nat) div 16 = of_char d div 16"
    using d(1) lt [of c] lt [of d] by simp
  then have "(of_char c :: nat) = of_char d" using d(2) by (metis div_mult_mod_eq)
  then have "c = d" by simp
  then show ?case using Cons.IH [OF rest] by (simp add: t)
qed

text \<open>
  Sealing in the old format never succeeds: the stored object is verified against the checksum of
  the files before their encryption. Whatever is given, as long as the encrypted object does not
  have the checksum of the files, the result is an error.
\<close>

theorem legacy_seal_rejected:
  assumes "\<And>plain enc. boxEncrypt plain = Some enc \<Longrightarrow> cd_sha cd enc \<noteq> cd_sha cd raw" and "length (cd_sha cd raw) = 32"
  shows "\<exists>e. fst (sealArchive cd boxEncrypt now release (Local (cd_sha cd) dir) acc dbs mail raw version st) = Inl e"
proof -
  have "hex_encode (cd_sha cd raw) \<noteq> []" using assms(2) by (cases "cd_sha cd raw") (simp_all add: hex_encode_def)
  then show ?thesis
    using assms(1)
    by (auto simp: sealArchive_def Local_def writeAtomic_def writeAtomicStream_def readPath_def verifyObject_def objectChecksum_def Let_def
        split: option.split dest!: hex_encode_inj)
qed

section \<open>Examples\<close>

definition ex_sha :: "string \<Rightarrow> string" where
  "ex_sha x = take 32 (x @ replicate 32 (CHR 0x00))"

definition ex_kl :: keylib where
  "ex_kl = \<lparr> kl_hmac = (\<lambda>k p. k), kl_sha = ex_sha, kl_parse = (\<lambda>e. Some (''i'' @ e, ''r'' @ e)) \<rparr>"

definition ex_box :: "char \<Rightarrow> box" where
  "ex_box c = \<lparr>box_key = [c], box_version = 1\<rparr>"

definition ex_slot :: "char \<Rightarrow> keyslot" where
  "ex_slot c = the (slotFromBox ex_kl (ex_box c))"

definition ex_ring :: keyring where
  "ex_ring = \<lparr>ring_current = Some (ex_slot (CHR ''1'')), ring_slots = [ex_slot (CHR ''1'')]\<rparr>"

lemma ex_slot_ok: "slotFromBox ex_kl (ex_box c) = Some (ex_slot c)"
proof -
  obtain e where "bech32Encode ''age-secret-key-'' (map byte_of (Derive ex_kl (ex_box c) ''kelmor-hpm3-x25519'')) = Some e"
    using bech32Encode_total by blast
  then have "\<exists>s. slotFromBox ex_kl (ex_box c) = Some s" by (simp add: slotFromBox_def encodeAgeSecretKey_def ex_kl_def)
  then show ?thesis by (auto simp: ex_slot_def)
qed

definition ex_anchor :: anchor where
  "ex_anchor = \<lparr>anc_Fence = 1, anc_Level = ''account'', anc_Quiesced = [], anc_SnapshotAt = ''''\<rparr>"

definition ex_codec :: codec where
  "ex_codec = \<lparr> cd_sha = ex_sha, cd_marshal = (\<lambda>_. ''{}''),
     cd_unmarshal = (\<lambda>_. Some (hpm3_manifest ''now'' ''1'' ex_ring account0 [''home'', ''mail/d/l''] ex_anchor)),
     cd_encrypt = (\<lambda>rs p. if rs = [] then None else Some (ageMagic @ p)),
     cd_decrypt = (\<lambda>ids c. Some \<lparr>rd_bytes = drop (length ageMagic) c, rd_broken = False\<rparr>) \<rparr>"

definition ex_parts :: "component list" where
  "ex_parts = [data_component ''home'' ''tar'', data_component ''mail/d/l'' '''']"

definition ex_seal :: "(stream_error + manifest \<times> string) \<times> localfs" where
  "ex_seal = SealHPM3WithRingToKey ex_codec ''now'' ''1'' ex_ring (Local (cd_sha ex_codec) ''/b'') account0 ''u/now.hpm''
     ex_parts [''home'', ''mail/d/l''] ex_anchor []"


lemma ex_ring_ok: "KeyRingFromBoxes ex_kl (Some (ex_box (CHR ''1''))) [] = Some ex_ring"
  by (simp add: KeyRingFromBoxes_def KeyRingFromBox_def ex_slot_ok ex_ring_def)

lemma seal_succeeds:
  assumes "validateAnchor anc = None" "validateInventory parts expected = None"
    "writeHPM3 (cd_sha cd) (cd_marshal cd) (hpm3_manifest now version ring acc expected anc) parts = Inr plain"
    "cd_encrypt cd (recipients ring) plain = Some c" "c \<noteq> []" "safe dir key = Some p"
  shows "\<exists>man st'. SealHPM3WithRingToKey cd now version ring (Local (cd_sha cd) dir) acc key parts expected anc st = (Inr (man, key), st')"
  using assms
  by (simp add: SealHPM3WithRingToKey_def sealed_stream_def putStream_def Local_def writeAtomicStream_def readPath_def verifyObject_def
      objectChecksum_def Let_def)

lemma ex_sealed: "\<exists>man st'. ex_seal = (Inr (man, ''u/now.hpm''), st')"
proof -
  have a: "validateAnchor ex_anchor = None" by code_simp
  have v: "validateInventory ex_parts [''home'', ''mail/d/l''] = None"
    by (simp add: validateInventory_def ex_parts_def data_component_def)
  have s: "safe ''/b'' ''u/now.hpm'' = Some ''/b/u/now.hpm''" by code_simp
  have "writeComponent (cd_sha ex_codec) p = Inr (frame (cd_sha ex_codec) (cmp_Name p, part_content p))" if "p \<in> set ex_parts" for p
    using that by (auto simp: ex_parts_def writeComponent_def openComponent_def data_component_def frame_def part_content_def ComponentHome_def)
  then have "\<exists>bs. write_components (cd_sha ex_codec) ex_parts = Inr bs" by (simp add: ex_parts_def)
  then obtain plain where w: "writeHPM3 (cd_sha ex_codec) (cd_marshal ex_codec)
      (hpm3_manifest ''now'' ''1'' ex_ring account0 [''home'', ''mail/d/l''] ex_anchor) ex_parts = Inr plain"
    by (auto simp: writeHPM3_def Let_def)
  have "cd_encrypt ex_codec (recipients ex_ring) plain = Some (ageMagic @ plain)"
    by (simp add: ex_codec_def recipients_def ex_ring_def)
  then show ?thesis unfolding ex_seal_def by (rule seal_succeeds [OF a v w _ _ s]) (simp add: ageMagic_def)
qed

theorem backup_roundtrip_witness:
  "\<exists>man st' a. ex_seal = (Inr (man, ''u/now.hpm''), st') \<and>
     openAny ex_codec \<lparr>ring_current = Some (ex_slot (CHR ''2'')), ring_slots = [ex_slot (CHR ''2''), ex_slot (CHR ''1'')]\<rparr> None
       (Local (cd_sha ex_codec) ''/b'') ''u/now.hpm'' st' = Inr a \<and>
     Each (cd_sha ex_codec) (\<lambda>n c f s. (None, s @ [(n, c)])) a [] = (None, [(''home'', ''tar''), (''mail/d/l'', '''')])"
proof -
  obtain man st' where s: "ex_seal = (Inr (man, ''u/now.hpm''), st')" using ex_sealed by blast
  let ?m0 = "hpm3_manifest ''now'' ''1'' ex_ring account0 [''home'', ''mail/d/l''] ex_anchor"
  let ?ring = "\<lparr>ring_current = Some (ex_slot (CHR ''2'')), ring_slots = [ex_slot (CHR ''2''), ex_slot (CHR ''1'')]\<rparr>"
  have r': "KeyRingFromBoxes ex_kl (Some (ex_box (CHR ''2''))) [ex_box (CHR ''1'')] = Some ?ring"
    by (simp add: KeyRingFromBoxes_def KeyRingFromBox_def ex_slot_ok)
  have json: "cd_unmarshal ex_codec (cd_marshal ex_codec ?m0) = Some ?m0"
    by (simp add: ex_codec_def)
  have age: "has_prefix c ageMagic \<and> cd_decrypt ex_codec ids c = Some \<lparr>rd_bytes = p, rd_broken = False\<rparr>"
    if "cd_encrypt ex_codec [slot_recipient slot] p = Some c" for slot :: keyslot and ids p c
    using that by (auto simp: ex_codec_def has_prefix_def)
  have parts: "map (\<lambda>p. (cmp_Name p, part_content p)) ex_parts = [(''home'', ''tar''), (''mail/d/l'', '''')]"
    by (simp add: ex_parts_def part_content_def openComponent_def data_component_def)
  have "\<exists>a. openAny ex_codec ?ring None (Local (cd_sha ex_codec) ''/b'') ''u/now.hpm'' st' = Inr a \<and> ar_Manifest a = ?m0 \<and>
    (\<forall>fn (s :: (string \<times> string) list). Each (cd_sha ex_codec) fn a s = visit fn (map (\<lambda>p. (cmp_Name p, part_content p)) ex_parts) s)"
    by (rule backup_roundtrip [OF s [unfolded ex_seal_def] ex_ring_ok r' _ refl json _ _ age])
       (simp_all add: ex_codec_def ex_sha_def ex_parts_def part_content_def openComponent_def data_component_def)
  then obtain a where a: "openAny ex_codec ?ring None (Local (cd_sha ex_codec) ''/b'') ''u/now.hpm'' st' = Inr a"
    and e: "\<And>fn (s :: (string \<times> string) list). Each (cd_sha ex_codec) fn a s = visit fn [(''home'', ''tar''), (''mail/d/l'', '''')] s"
    unfolding parts by blast
  show ?thesis using s a e by (intro exI conjI) (assumption | simp)+
qed

theorem truncation_unnoticed_witness:
  "Each ex_sha (\<lambda>n c f s. (None, s @ [(n, c)]))
     \<lparr> ar_Manifest = hpm3_manifest ''now'' ''1'' ex_ring account0 [''home''] ex_anchor,
       ar_plain = \<lparr>rd_bytes = concat (map (frame ex_sha) []) @
          take (12 + length ''home'' + 5) (frame ex_sha (''home'', ''precious data'')), rd_broken = False\<rparr>,
       ar_seen = [], ar_index = 0, ar_legacy = None \<rparr> [] = (None, [(''home'', ''preci'')])"
  by (subst truncation_unnoticed [where cs = "[]" and name = "''home''" and content = "''precious data''" and j = 5])
     (simp_all add: hpm3_manifest_def readable_def ex_sha_def)

theorem legacy_seal_rejected_witness:
  "\<exists>e. fst (sealArchive ex_codec (\<lambda>p. Some (''nonce'' @ p)) ''now'' ''1'' (Local (cd_sha ex_codec) ''/b'') account0 [] [] ''tar'' 1 []) = Inl e"
proof (rule legacy_seal_rejected)
  show "cd_sha ex_codec enc \<noteq> cd_sha ex_codec ''tar''" if "Some (''nonce'' @ plain) = Some enc" for plain enc
    using that by (auto simp: ex_codec_def ex_sha_def)
qed (simp add: ex_codec_def ex_sha_def)


definition ex_big :: codec where
  "ex_big = ex_codec\<lparr>cd_marshal := (\<lambda>_. replicate 1048577 (CHR ''x''))\<rparr>"

theorem oversized_manifest_lost_witness:
  "\<exists>man st'. SealHPM3WithRingToKey ex_big ''now'' ''1'' ex_ring (Local (cd_sha ex_big) ''/b'') account0 ''u/now.hpm'' [] [] ex_anchor []
      = (Inr (man, ''u/now.hpm''), st') \<and>
     openAny ex_big ex_ring None (Local (cd_sha ex_big) ''/b'') ''u/now.hpm'' st' = Inl (Bad ''invalid hpm3 header'')"
proof -
  have a: "validateAnchor ex_anchor = None" by code_simp
  have v: "validateInventory [] [] = None" by (simp add: validateInventory_def)
  have s: "safe ''/b'' ''u/now.hpm'' = Some ''/b/u/now.hpm''" by code_simp
  obtain plain where w: "writeHPM3 (cd_sha ex_big) (cd_marshal ex_big)
      (hpm3_manifest ''now'' ''1'' ex_ring account0 [] ex_anchor) [] = Inr plain"
    by (simp add: writeHPM3_def Let_def)
  have "cd_encrypt ex_big (recipients ex_ring) plain = Some (ageMagic @ plain)"
    by (simp add: ex_big_def ex_codec_def recipients_def ex_ring_def)
  then obtain man st' where seal: "SealHPM3WithRingToKey ex_big ''now'' ''1'' ex_ring (Local (cd_sha ex_big) ''/b'') account0 ''u/now.hpm'' [] []
      ex_anchor [] = (Inr (man, ''u/now.hpm''), st')"
    using seal_succeeds [where st = "[]", OF a v w _ _ s] by (auto simp: ageMagic_def)
  moreover have "openAny ex_big ex_ring None (Local (cd_sha ex_big) ''/b'') ''u/now.hpm'' st' = Inl (Bad ''invalid hpm3 header'')"
    by (rule oversized_manifest_lost [OF seal refl]) (auto simp: ex_big_def ex_codec_def has_prefix_def split: if_splits)
  ultimately show ?thesis by blast
qed


end
