(* ===== verification/Update_Manifest.thy ===== *)
theory Update_Manifest imports Go_Strings "HOL-Library.Word" "HOL-Library.Char_ord" "HOL-Library.List_Lexorder" "HOL-Library.Product_Lexorder" begin

text \<open>
  Update manifests (\<^verbatim>\<open>internal/update/client.go\<close>, \<^verbatim>\<open>verify.go\<close>): versions and their order,
  signatures, what a manifest may contain, and the check for a new release.

  Ed25519, the JSON encoder, the download and the clock are arguments. Errors are texts, \<open>None\<close>
  where there is none.
\<close>

section \<open>Versions\<close>

record semver =
  sv_core :: "string list"
  sv_prerelease :: "string list"

definition isNumericIdentifier :: "string \<Rightarrow> bool" where
  "isNumericIdentifier s \<longleftrightarrow> s \<noteq> '''' \<and> (\<forall>c \<in> set s. is_digit c)"

definition version_char :: "char \<Rightarrow> bool" where
  "version_char c \<longleftrightarrow> is_digit c \<or> is_upper c \<or> is_lower c \<or> c = CHR ''-''"

definition leading_zero :: "string \<Rightarrow> bool" where
  "leading_zero s \<longleftrightarrow> length s > 1 \<and> s ! 0 = CHR ''0''"

definition validVersionIdentifiers :: "string \<Rightarrow> bool \<Rightarrow> bool" where
  "validVersionIdentifiers v rejectLeadingZeroNumeric \<longleftrightarrow>
     (\<forall>i \<in> set (split_on (CHR ''.'') v).
        \<not> (i = '''' \<or> (rejectLeadingZeroNumeric \<and> leading_zero i \<and> isNumericIdentifier i)) \<and> (\<forall>c \<in> set i. version_char c))"

definition parseSemanticVersion :: "string \<Rightarrow> string + semver" where
  "parseSemanticVersion raw0 =
     (let raw = trim_prefix raw0 ''v'';
          (coreAndPre, buildMetadata, hasBuild) = cut (CHR ''+'') raw
      in if hasBuild \<and> (contains buildMetadata ''+'' \<or> \<not> validVersionIdentifiers buildMetadata False)
         then Inl ''invalid build metadata''
         else
           let raw = (if hasBuild then coreAndPre else raw);
               (core, pre, hasPre) = cut (CHR ''-'') raw
           in if hasPre \<and> pre = '''' then Inl ''empty prerelease''
              else
                let prerelease = (if hasPre then split_on (CHR ''.'') pre else []);
                    raw = (if hasPre then core else raw);
                    parts = split_on (CHR ''.'') raw
                in if length parts \<noteq> 3 then Inl ''not major.minor.patch''
                   else if \<exists>p \<in> set parts. \<not> isNumericIdentifier p \<or> leading_zero p then Inl ''invalid numeric component''
                   else if prerelease \<noteq> [] \<and> \<not> validVersionIdentifiers (join_with (CHR ''.'') prerelease) True
                   then Inl ''invalid prerelease''
                   else Inr \<lparr>sv_core = parts, sv_prerelease = prerelease\<rparr>)"

definition compareNumericIdentifier :: "string \<Rightarrow> string \<Rightarrow> int" where
  "compareNumericIdentifier l r =
     (if length l < length r then -1
      else if length l > length r then 1
      else if l < r then -1
      else if l > r then 1 else 0)"

definition comparePrereleaseIdentifier :: "string \<Rightarrow> string \<Rightarrow> int" where
  "comparePrereleaseIdentifier l r =
     (if isNumericIdentifier l \<and> isNumericIdentifier r then compareNumericIdentifier l r
      else if isNumericIdentifier l then -1
      else if isNumericIdentifier r then 1
      else if l < r then -1
      else if l > r then 1 else 0)"

fun compare_core :: "string list \<Rightarrow> string list \<Rightarrow> int" where
  "compare_core (l # ls) (r # rs) =
     (let c = compareNumericIdentifier l r in if c \<noteq> 0 then c else compare_core ls rs)"
| "compare_core _ _ = 0"

text \<open>The loop over both lists of identifiers and the comparison of their lengths after it.\<close>

fun compare_prerelease :: "string list \<Rightarrow> string list \<Rightarrow> int" where
  "compare_prerelease [] [] = 0"
| "compare_prerelease [] (_ # _) = -1"
| "compare_prerelease (_ # _) [] = 1"
| "compare_prerelease (l # ls) (r # rs) =
     (let c = comparePrereleaseIdentifier l r in if c \<noteq> 0 then c else compare_prerelease ls rs)"

definition compareVersions :: "semver \<Rightarrow> semver \<Rightarrow> int" where
  "compareVersions l r =
     (let c = compare_core (sv_core l) (sv_core r)
      in if c \<noteq> 0 then c
         else if sv_prerelease l = [] \<and> sv_prerelease r = [] then 0
         else if sv_prerelease l = [] then 1
         else if sv_prerelease r = [] then -1
         else compare_prerelease (sv_prerelease l) (sv_prerelease r))"

section \<open>The order of versions\<close>

text \<open>
  The precedence of Semantic Versioning: major, minor and patch as numbers; a version without
  prerelease after those with one; prerelease identifiers from left to right, numbers as numbers
  and before texts, texts in byte order, a longer list after its prefixes.
\<close>

definition dec_value :: "string \<Rightarrow> nat" where
  "dec_value s = foldl (\<lambda>n c. 10 * n + (of_char c - 48)) 0 s"

definition ident_key :: "string \<Rightarrow> nat \<times> nat \<times> string" where
  "ident_key s = (if isNumericIdentifier s then (0, dec_value s, '''') else (1, 0, s))"

definition version_key :: "semver \<Rightarrow> nat list \<times> nat \<times> (nat \<times> nat \<times> string) list" where
  "version_key v = (map dec_value (sv_core v),
     (if sv_prerelease v = [] then (1, []) else (0, map ident_key (sv_prerelease v))))"

definition cmp :: "'a :: linorder \<Rightarrow> 'a \<Rightarrow> int" where
  "cmp a b = (if a < b then -1 else if b < a then 1 else 0)"

lemma dec_value_Cons: "dec_value (c # s) = (of_char c - 48) * 10 ^ length s + dec_value s"
proof -
  have "foldl (\<lambda>n c. 10 * n + (of_char c - 48)) n s = n * 10 ^ length s + foldl (\<lambda>n c. 10 * n + (of_char c - 48)) 0 s" for n :: nat and s
  proof (induction s arbitrary: n)
    case (Cons d s)
    show ?case using Cons [of "10 * n + (of_char d - 48)"] Cons [of "of_char d - 48"] by (simp add: algebra_simps)
  qed simp
  from this [of "of_char c - 48" s] show ?thesis by (simp add: dec_value_def)
qed

lemma digit_bounds: "is_digit c \<Longrightarrow> 48 \<le> (of_char c :: nat) \<and> of_char c \<le> (57 :: nat)"
  by (simp add: is_digit_def in_range_def)

lemma dec_value_less: "\<forall>c \<in> set s. is_digit c \<Longrightarrow> dec_value s < 10 ^ length s"
proof (induction s)
  case Nil
  then show ?case by (simp add: dec_value_def)
next
  case (Cons c s)
  then have "(of_char c - 48 :: nat) \<le> 9" using digit_bounds [of c] by auto
  then have "(of_char c - 48) * 10 ^ length s \<le> (9 :: nat) * 10 ^ length s" by (rule mult_le_mono1)
  moreover have "dec_value s < 10 ^ length s" using Cons by simp
  ultimately have "(of_char c - 48) * 10 ^ length s + dec_value s < 10 * 10 ^ length s" by linarith
  then show ?case by (simp only: dec_value_Cons list.size power_Suc add_Suc_right add_0_right)
qed

lemma dec_value_less_iff:
  "length l = length r \<Longrightarrow> \<forall>c \<in> set l. is_digit c \<Longrightarrow> \<forall>c \<in> set r. is_digit c \<Longrightarrow> l < r \<longleftrightarrow> dec_value l < dec_value r"
proof (induction l r rule: list_induct2)
  case (Cons c l d r)
  have c: "48 \<le> (of_char c :: nat)" "48 \<le> (of_char d :: nat)" using Cons.prems digit_bounds by auto
  have lt: "dec_value l < 10 ^ length l" "dec_value r < 10 ^ length l" using Cons dec_value_less [of l] dec_value_less [of r] by auto
  have step: "x * 10 ^ n + a < y * 10 ^ n + (b :: nat)" if "x < y" "a < 10 ^ n" for x y a b n :: nat
  proof -
    have "x * 10 ^ n + a < Suc x * 10 ^ n" using that by simp
    also have "\<dots> \<le> y * 10 ^ n" using that by (intro mult_le_mono1) simp
    finally show ?thesis by simp
  qed
  consider "c < d" | "c = d" | "d < c" by fastforce
  then show ?case
  proof cases
    case 1
    then have "(of_char c - 48 :: nat) < of_char d - 48" using c by (simp add: less_char_def)
    with step lt Cons.hyps 1 show ?thesis by (simp add: dec_value_Cons)
  next
    case 2
    with Cons show ?thesis by (simp add: dec_value_Cons)
  next
    case 3
    then have "(of_char d - 48 :: nat) < of_char c - 48" using c by (simp add: less_char_def)
    with step [of _ _ "dec_value r" "length l" "dec_value l"] lt Cons.hyps 3 show ?thesis
      by (auto simp: dec_value_Cons dest: less_asym)
  qed
qed (simp add: dec_value_def)

lemma dec_value_lower:
  assumes "\<forall>c \<in> set r. is_digit c" "\<not> leading_zero r" "1 < length r"
  shows "10 ^ (length r - 1) \<le> dec_value r"
proof -
  obtain c s where r: "r = c # s" using assms(3) by (cases r) auto
  have "c \<noteq> CHR ''0''" "48 \<le> (of_char c :: nat)" using assms digit_bounds [of c] by (auto simp: r leading_zero_def)
  then have "(of_char c :: nat) \<noteq> of_char (CHR ''0'')" by (metis of_char_eq_iff)
  then have "1 \<le> (of_char c - 48 :: nat)" using \<open>48 \<le> of_char c\<close> by simp
  then have "1 * 10 ^ length s \<le> (of_char c - 48 :: nat) * 10 ^ length s" by (rule mult_le_mono1)
  then have "10 ^ length s \<le> (of_char c - 48 :: nat) * 10 ^ length s + dec_value s" by linarith
  then show ?thesis unfolding r dec_value_Cons by (simp only: list.size One_nat_def add_Suc_right add_0_right diff_Suc_Suc diff_zero)
qed

lemma shorter_less:
  assumes "isNumericIdentifier l" "isNumericIdentifier r" "\<not> leading_zero r" "length l < length r"
  shows "dec_value l < dec_value r"
proof -
  have "dec_value l < 10 ^ length l" using assms by (intro dec_value_less) (simp add: isNumericIdentifier_def)
  also have "(10 :: nat) ^ length l \<le> 10 ^ (length r - 1)" using assms(4) by (intro power_increasing) auto
  also have "\<dots> \<le> dec_value r"
  proof (rule dec_value_lower)
    have "0 < length l" using assms(1) by (simp add: isNumericIdentifier_def)
    then show "1 < length r" using assms(4) by linarith
  qed (use assms in \<open>simp_all add: isNumericIdentifier_def\<close>)
  finally show ?thesis .
qed

lemma compare_numeric:
  assumes "isNumericIdentifier l" "isNumericIdentifier r" "\<not> leading_zero l" "\<not> leading_zero r"
  shows "compareNumericIdentifier l r = cmp (dec_value l) (dec_value r)"
proof -
  consider "length l < length r" | "length r < length l" | "length l = length r" by linarith
  then show ?thesis
  proof cases
    case 1
    then show ?thesis using shorter_less [of l r] assms by (simp add: compareNumericIdentifier_def cmp_def)
  next
    case 2
    then show ?thesis using shorter_less [of r l] assms by (simp add: compareNumericIdentifier_def cmp_def)
  next
    case 3
    then show ?thesis
      using dec_value_less_iff [of l r] dec_value_less_iff [of r l] assms
      by (simp add: compareNumericIdentifier_def cmp_def isNumericIdentifier_def)
  qed
qed

lemma cmp_simps [simp]: "cmp a b = 0 \<longleftrightarrow> a = b" "cmp a a = 0"
  by (auto simp: cmp_def)

lemma cmp_pair: "cmp (a, b) (c, d) = (if cmp a c \<noteq> 0 then cmp a c else cmp b d)"
  by (auto simp: cmp_def)

lemma cmp_Cons: "cmp (a # as) (b # bs) = (if cmp a b \<noteq> 0 then cmp a b else cmp as bs)"
  by (auto simp: cmp_def)

definition core_ok :: "string list \<Rightarrow> bool" where
  "core_ok ps \<longleftrightarrow> length ps = 3 \<and> (\<forall>p \<in> set ps. isNumericIdentifier p \<and> \<not> leading_zero p)"

definition pre_ok :: "string list \<Rightarrow> bool" where
  "pre_ok ps \<longleftrightarrow> (\<forall>p \<in> set ps. isNumericIdentifier p \<longrightarrow> \<not> leading_zero p)"

lemma compare_core_key:
  "length ls = length rs \<Longrightarrow> \<forall>p \<in> set (ls @ rs). isNumericIdentifier p \<and> \<not> leading_zero p \<Longrightarrow>
     compare_core ls rs = cmp (map dec_value ls) (map dec_value rs)"
  by (induction ls rs rule: list_induct2) (simp_all add: compare_numeric cmp_Cons Let_def)

lemma compare_ident_key:
  assumes "isNumericIdentifier l \<longrightarrow> \<not> leading_zero l" "isNumericIdentifier r \<longrightarrow> \<not> leading_zero r"
  shows "comparePrereleaseIdentifier l r = cmp (ident_key l) (ident_key r)"
proof (cases "isNumericIdentifier l \<and> isNumericIdentifier r")
  case True
  then show ?thesis using assms compare_numeric [of l r] by (simp add: comparePrereleaseIdentifier_def ident_key_def cmp_pair)
next
  case False
  then show ?thesis by (auto simp: comparePrereleaseIdentifier_def ident_key_def cmp_def)
qed

lemma compare_prerelease_key:
  "pre_ok ls \<Longrightarrow> pre_ok rs \<Longrightarrow> compare_prerelease ls rs = cmp (map ident_key ls) (map ident_key rs)"
proof (induction ls rs rule: compare_prerelease.induct)
  case (4 l ls r rs)
  then have "comparePrereleaseIdentifier l r = cmp (ident_key l) (ident_key r)"
    by (intro compare_ident_key) (simp_all add: pre_ok_def)
  moreover have "compare_prerelease ls rs = cmp (map ident_key ls) (map ident_key rs)" if "comparePrereleaseIdentifier l r = 0"
    using 4 that by (simp add: pre_ok_def)
  ultimately show ?case by (simp add: cmp_Cons Let_def)
qed (simp_all add: cmp_def)

lemma split_no_sep: "\<forall>w \<in> set (split_on sep s). sep \<notin> set w"
  by (blast dest: split_on_no_sep)

lemma parse_ok:
  assumes "parseSemanticVersion s = Inr v"
  shows "core_ok (sv_core v) \<and> pre_ok (sv_prerelease v)"
proof -
  have core: "core_ok (sv_core v)"
    using assms by (auto simp: parseSemanticVersion_def core_ok_def Let_def split: prod.splits if_splits)
  have "sv_prerelease v = [] \<or> (\<exists>w. sv_prerelease v = split_on (CHR ''.'') w) \<and>
      validVersionIdentifiers (join_with (CHR ''.'') (sv_prerelease v)) True"
    using assms by (auto simp: parseSemanticVersion_def Let_def split: prod.splits if_splits)
  then have "pre_ok (sv_prerelease v)"
    by (auto simp: validVersionIdentifiers_def pre_ok_def)
  then show ?thesis using core by simp
qed

lemma compareVersions_key:
  assumes l: "parseSemanticVersion l = Inr vl" and r: "parseSemanticVersion r = Inr vr"
  shows "compareVersions vl vr = cmp (version_key vl) (version_key vr)"
proof -
  have core: "compare_core (sv_core vl) (sv_core vr) = cmp (map dec_value (sv_core vl)) (map dec_value (sv_core vr))"
    using parse_ok [OF l] parse_ok [OF r] by (intro compare_core_key) (auto simp: core_ok_def)
  have pre: "compare_prerelease (sv_prerelease vl) (sv_prerelease vr) = cmp (map ident_key (sv_prerelease vl)) (map ident_key (sv_prerelease vr))"
    using parse_ok [OF l] parse_ok [OF r] by (intro compare_prerelease_key) auto
  have one: "cmp (Suc 0) 0 = 1" "cmp 0 (Suc 0) = -1" by (simp_all add: cmp_def)
  show ?thesis
    unfolding compareVersions_def version_key_def Let_def cmp_pair core pre by (simp add: cmp_pair one pre)
qed

text \<open>
  C22. The comparison of versions is the precedence of Semantic Versioning: for all texts that are
  accepted as versions, the result is negative, zero or positive as their keys (numbers compared as
  numbers of any size, prereleases before the release) are ordered, and comparing the other way
  round gives the opposite. So it is a total order up to build metadata.
\<close>

theorem compareVersions_precedence:
  assumes "parseSemanticVersion l = Inr vl" and "parseSemanticVersion r = Inr vr"
  shows "compareVersions vl vr = cmp (version_key vl) (version_key vr) \<and> compareVersions vr vl = - compareVersions vl vr"
  using compareVersions_key [OF assms] compareVersions_key [OF assms(2,1)] by (auto simp: cmp_def)


section \<open>Manifests\<close>

definition ArtifactRuntime :: string where "ArtifactRuntime = ''runtime''"
definition ArtifactSchema :: string where "ArtifactSchema = ''schema''"
definition maxArtifactSize :: int where "maxArtifactSize = 268435456"
definition maxDownloadSize :: int where "maxDownloadSize = 1073741824"

record artifact =
  art_Path :: string
  art_Target :: string
  art_Size :: int
  art_SHA256 :: string
  art_Mode :: "32 word"
  art_Kind :: string

record upmanifest =
  um_Release :: string
  um_Channel :: string
  um_MinimumRelease :: string
  um_Artifacts :: "artifact list"
  um_Files :: "(string, string) gomap"
  um_Signature :: string
  um_PublicKey :: string

record upconfig =
  uc_FeedURL :: string
  uc_Channel :: string
  uc_InstalledRelease :: string
  uc_PublicKey :: string
  uc_InstallRoot :: string
  uc_StatusPath :: string
  uc_Automatic :: bool

text \<open>\<^verbatim>\<open>hex.DecodeString\<close>\<close>

definition hex_value :: "char \<Rightarrow> nat option" where
  "hex_value c =
     (if is_digit c then Some (of_char c - 48)
      else if in_range (CHR ''a'') c (CHR ''f'') then Some (of_char c - 87)
      else if in_range (CHR ''A'') c (CHR ''F'') then Some (of_char c - 55)
      else None)"

fun hex_decode :: "string \<Rightarrow> string option" where
  "hex_decode [] = Some []"
| "hex_decode [c] = None"
| "hex_decode (a # b # s) =
     (case (hex_value a, hex_value b, hex_decode s) of
        (Some x, Some y, Some r) \<Rightarrow> Some (char_of (16 * x + y) # r)
      | _ \<Rightarrow> None)"

text \<open>\<^verbatim>\<open>url.PathUnescape\<close>\<close>

fun path_unescape :: "string \<Rightarrow> string option" where
  "path_unescape [] = Some []"
| "path_unescape (c # s) =
     (if c = CHR ''%'' then
        (case s of
           a # b # r \<Rightarrow>
             (case (hex_value a, hex_value b, path_unescape r) of
                (Some x, Some y, Some t) \<Rightarrow> Some (char_of (16 * x + y) # t)
              | _ \<Rightarrow> None)
         | _ \<Rightarrow> None)
      else (case path_unescape s of None \<Rightarrow> None | Some t \<Rightarrow> Some (c # t)))"

text \<open>\<^verbatim>\<open>path.Clean\<close>; the elements of a relative path are kept in reverse.\<close>

fun rel_parts :: "string list \<Rightarrow> string list \<Rightarrow> string list" where
  "rel_parts stack [] = rev stack"
| "rel_parts stack (w # ws) =
     (if w = '''' \<or> w = ''.'' then rel_parts stack ws
      else if w = ''..'' \<and> stack \<noteq> [] \<and> hd stack \<noteq> ''..'' then rel_parts (tl stack) ws
      else rel_parts (w # stack) ws)"

definition path_Clean :: "string \<Rightarrow> string" where
  "path_Clean p =
     (if has_prefix p ''/'' then filepath_Clean p
      else case rel_parts [] (split_on (CHR ''/'') p) of [] \<Rightarrow> ''.'' | ws \<Rightarrow> join_with (CHR ''/'') ws)"

definition validRelativePath :: "string \<Rightarrow> bool" where
  "validRelativePath v =
     (if v = '''' \<or> contains v [CHR 0x5C] \<or> has_prefix v ''/'' then False
      else if path_unescape v \<noteq> Some v then False
      else path_Clean v = v \<and> path_Clean v \<noteq> ''.'' \<and> path_Clean v \<noteq> ''..'' \<and> \<not> has_prefix (path_Clean v) ''../'')"

definition artifactKindForTarget :: "string \<Rightarrow> string" where
  "artifactKindForTarget target = (if has_prefix target ''share/migrations/'' then ArtifactSchema else ArtifactRuntime)"

definition target_dirs :: "string list" where
  "target_dirs = [''bin/'', ''share/portals/account/'', ''share/portals/server/'', ''share/systemd/'', ''share/migrations/'',
     ''share/templates/'', ''share/policy/'']"

definition validTarget :: "string \<Rightarrow> bool" where
  "validTarget target = (if \<not> validRelativePath target then False else \<exists>d \<in> set target_dirs. has_prefix target d)"

text \<open>The modes are 0644 and 0755, 420 and 493 in decimal.\<close>

fun artifacts_loop :: "string list \<Rightarrow> string list \<Rightarrow> int \<Rightarrow> artifact list \<Rightarrow> string option" where
  "artifacts_loop paths targets tot [] = None"
| "artifacts_loop paths targets tot (a # as) =
     (if \<not> validRelativePath (art_Path a) then Some ''invalid artifact path''
      else if \<not> validTarget (art_Target a) then Some ''invalid artifact target''
      else if art_Path a \<in> set paths then Some ''duplicate artifact path''
      else if art_Target a \<in> set targets then Some ''duplicate artifact target''
      else if art_Size a < 0 \<or> art_Size a > maxArtifactSize then Some ''artifact size is outside safety limits''
      else if tot > maxDownloadSize - art_Size a then Some ''total artifact size exceeds safety limit''
      else if (case hex_decode (art_SHA256 a) of None \<Rightarrow> True | Some h \<Rightarrow> length h \<noteq> 32) then Some ''invalid SHA-256''
      else if art_Mode a \<noteq> 420 \<and> art_Mode a \<noteq> 493 then Some ''invalid mode''
      else artifacts_loop (art_Path a # paths) (art_Target a # targets) (tot + art_Size a) as)"

definition validateArtifacts :: "artifact list \<Rightarrow> string option" where
  "validateArtifacts artifacts =
     (if artifacts = [] then Some ''manifest contains no artifacts'' else artifacts_loop [] [] 0 artifacts)"

text \<open>What is signed. The fields of an older manifest are encoded without those it does not have.\<close>

datatype wire =
    LegacyWire string string "(string, string) gomap"
  | Wire string string string "artifact list" "(string, string) gomap"

definition canonical :: "upmanifest \<Rightarrow> wire" where
  "canonical m =
     (if um_MinimumRelease m = '''' \<and> um_Artifacts m = [] then LegacyWire (um_Release m) (um_Channel m) (um_Files m)
      else Wire (um_Release m) (um_Channel m) (um_MinimumRelease m) (um_Artifacts m) (um_Files m))"

text \<open>\<open>ed key w sig\<close>: Ed25519 accepts the signature of the JSON text of \<open>w\<close>.\<close>

definition Verify :: "(string \<Rightarrow> wire \<Rightarrow> string \<Rightarrow> bool) \<Rightarrow> upmanifest \<Rightarrow> string \<Rightarrow> string option" where
  "Verify ed m pub =
     (if um_Release m = '''' \<or> um_Channel m = '''' then Some ''manifest missing release metadata''
      else if to_lower (um_Signature m) = ''unsigned-development'' then Some ''unsigned downgrades are refused''
      else (case hex_decode (um_Signature m) of
              None \<Rightarrow> Some ''invalid manifest signature''
            | Some sig \<Rightarrow>
                if length sig \<noteq> 64 then Some ''invalid manifest signature''
                else if \<not> ed pub (canonical m) sig then Some ''manifest signature mismatch''
                else None))"

definition validateManifestForCheck :: "(string \<Rightarrow> wire \<Rightarrow> string \<Rightarrow> bool) \<Rightarrow> upmanifest \<Rightarrow> upconfig \<Rightarrow> string option" where
  "validateManifestForCheck ed m c =
     (if length (uc_PublicKey c) \<noteq> 32 then Some ''invalid pinned public key''
      else (case Verify ed m (uc_PublicKey c) of
              Some e \<Rightarrow> Some e
            | None \<Rightarrow>
                if um_Channel m \<noteq> uc_Channel c then Some ''manifest channel does not match''
                else (case parseSemanticVersion (um_Release m) of
                        Inl e \<Rightarrow> Some ''invalid release''
                      | Inr _ \<Rightarrow>
                          (case parseSemanticVersion (uc_InstalledRelease c) of
                             Inl e \<Rightarrow> Some ''invalid installed release''
                           | Inr installed \<Rightarrow>
                               (case parseSemanticVersion (um_MinimumRelease m) of
                                  Inl e \<Rightarrow> Some ''invalid minimum release''
                                | Inr minimum \<Rightarrow>
                                    if compareVersions installed minimum < 0 then Some ''installed release is below compatible minimum''
                                    else validateArtifacts (um_Artifacts m))))))"

definition validateManifest :: "(string \<Rightarrow> wire \<Rightarrow> string \<Rightarrow> bool) \<Rightarrow> upmanifest \<Rightarrow> upconfig \<Rightarrow> string option" where
  "validateManifest ed m c =
     (case validateManifestForCheck ed m c of
        Some e \<Rightarrow> Some e
      | None \<Rightarrow>
          (case parseSemanticVersion (um_Release m) of
             Inl e \<Rightarrow> Some ''invalid release''
           | Inr available \<Rightarrow>
               (case parseSemanticVersion (uc_InstalledRelease c) of
                  Inl e \<Rightarrow> Some ''invalid installed release''
                | Inr installed \<Rightarrow>
                    if compareVersions available installed \<le> 0 then Some ''release is not newer than installed release''
                    else None)))"

section \<open>Status\<close>

record upstatus =
  us_State :: string
  us_InstalledRelease :: string
  us_RunningRelease :: string
  us_AvailableRelease :: string
  us_LastCheckedAt :: string
  us_Error :: string
  us_Automatic :: bool
  us_Channel :: string

text \<open>\<open>write\<close> is the outcome of \<^verbatim>\<open>WriteStatus\<close>; the status written is the status returned.\<close>

definition finishStatus :: "string option \<Rightarrow> string \<Rightarrow> upstatus \<Rightarrow> string option \<Rightarrow> upstatus \<times> string option" where
  "finishStatus write path status operationErr =
     (let status = (case operationErr of None \<Rightarrow> status | Some e \<Rightarrow> status\<lparr>us_State := ''error'', us_Error := e\<rparr>)
      in if path \<noteq> '''' then
           (case write of
              Some werr \<Rightarrow>
                (case operationErr of
                   Some e \<Rightarrow> (status, Some (e @ ''; write status: '' @ werr))
                 | None \<Rightarrow> (status, Some (''write status: '' @ werr)))
            | None \<Rightarrow> (status, operationErr))
         else (status, operationErr))"

text \<open>\<open>fetched\<close> is the outcome of \<^verbatim>\<open>fetchManifest\<close>.\<close>

definition checkLocked ::
    "(string \<Rightarrow> wire \<Rightarrow> string \<Rightarrow> bool) \<Rightarrow> string + upmanifest \<Rightarrow> string option \<Rightarrow> upconfig \<Rightarrow> upstatus \<Rightarrow> upstatus \<times> string option" where
  "checkLocked ed fetched write c status =
     (case fetched of
        Inl e \<Rightarrow> finishStatus write (uc_StatusPath c) status (Some e)
      | Inr m \<Rightarrow>
          (case validateManifestForCheck ed m c of
             Some e \<Rightarrow> finishStatus write (uc_StatusPath c) status (Some e)
           | None \<Rightarrow>
               let status = status\<lparr>us_AvailableRelease := um_Release m\<rparr>
               in (case parseSemanticVersion (um_Release m) of
                     Inl e \<Rightarrow> finishStatus write (uc_StatusPath c) status (Some ''invalid release'')
                   | Inr available \<Rightarrow>
                       (case parseSemanticVersion (uc_InstalledRelease c) of
                          Inl e \<Rightarrow> finishStatus write (uc_StatusPath c) status (Some ''invalid installed release'')
                        | Inr installed \<Rightarrow>
                            if compareVersions available installed \<le> 0
                            then finishStatus write (uc_StatusPath c) (status\<lparr>us_State := ''idle''\<rparr>) None
                            else finishStatus write (uc_StatusPath c) (status\<lparr>us_State := ''available''\<rparr>) None))))"


section \<open>What an accepted manifest is\<close>

lemma path_unescape_id: "path_unescape v = Some v \<longleftrightarrow> CHR ''%'' \<notin> set v"
proof -
  have len: "length t \<le> length s" if "path_unescape s = Some t" for s t
    using that by (induction s arbitrary: t rule: path_unescape.induct) (fastforce split: if_splits list.splits option.splits)+
  show ?thesis
  proof (induction v)
    case (Cons c v)
    show ?case
    proof (cases "c = CHR ''%''")
      case True
      have "path_unescape (c # v) \<noteq> Some (c # v)"
        using True by (auto split: list.splits option.splits dest!: len)
      then show ?thesis using True by simp
    next
      case False
      then show ?thesis using Cons by (auto split: option.splits)
    qed
  qed simp
qed

lemma rel_parts_id: "\<forall>w \<in> set ws. plain_part w \<Longrightarrow> rel_parts stack ws = rev stack @ ws"
proof (induction ws arbitrary: stack)
  case (Cons w ws)
  then have "w \<noteq> ''''" "w \<noteq> ''.''" "w \<noteq> ''..''" by (simp_all add: plain_part_def)
  then have "rel_parts stack (w # ws) = rel_parts (w # stack) ws" by simp
  with Cons show ?case by simp
qed simp

text \<open>The elements of a cleaned relative path: some \<^verbatim>\<open>..\<close>, then names.\<close>

definition climbing :: "string list \<Rightarrow> bool" where
  "climbing ws \<longleftrightarrow> (\<exists>n ps. ws = replicate n ''..'' @ ps \<and> (\<forall>p \<in> set ps. plain_part p))"

lemma rel_parts_climbing:
  "climbing (rev stack) \<Longrightarrow> \<forall>w \<in> set ws. CHR ''/'' \<notin> set w \<Longrightarrow> climbing (rel_parts stack ws)"
proof (induction ws arbitrary: stack)
  case (Cons w ws)
  have c: "climbing xs \<Longrightarrow> w \<noteq> '''' \<Longrightarrow> w \<noteq> ''.'' \<Longrightarrow> w \<noteq> ''..'' \<Longrightarrow> climbing (xs @ [w])" for xs
    using Cons.prems(2) unfolding climbing_def by (fastforce simp: plain_part_def)
  consider "w = '''' \<or> w = ''.''" | "w = ''..''" "stack \<noteq> []" "hd stack \<noteq> ''..''"
    | "w = ''..''" "stack = [] \<or> hd stack = ''..''" | "w \<noteq> ''''" "w \<noteq> ''.''" "w \<noteq> ''..''" by blast
  then show ?case
  proof cases
    case 1
    then show ?thesis using Cons by auto
  next
    case 2
    obtain n ps where st: "rev stack = replicate n ''..'' @ ps" "\<forall>p \<in> set ps. plain_part p" using Cons.prems(1) by (auto simp: climbing_def)
    have "ps \<noteq> []" using 2 st by (metis append_Nil2 hd_in_set in_set_replicate set_rev)
    then have "rev (tl stack) = replicate n ''..'' @ butlast ps"
      using st by (metis butlast_append rev_swap butlast_rev)
    then have "climbing (rev (tl stack))" using st(2) unfolding climbing_def by (blast dest: in_set_butlastD)
    then show ?thesis using Cons 2 by simp
  next
    case 3
    obtain n ps where st: "rev stack = replicate n ''..'' @ ps" "\<forall>p \<in> set ps. plain_part p" using Cons.prems(1) by (auto simp: climbing_def)
    have "ps = []"
    proof (rule ccontr)
      assume "ps \<noteq> []"
      then have "hd stack = last ps" "stack \<noteq> []" using st(1) by (metis hd_rev last_append rev_rev_ident, auto)
      then show False using 3 st(2) \<open>ps \<noteq> []\<close> last_in_set [of ps] by (auto simp: plain_part_def)
    qed
    then have "rev (w # stack) = replicate (Suc n) ''..'' @ []" using st 3 by (simp add: replicate_append_same)
    then have "climbing (rev (w # stack))" unfolding climbing_def by (metis empty_iff empty_set)
    moreover have "rel_parts stack (w # ws) = rel_parts (w # stack) ws" using 3 by auto
    ultimately show ?thesis using Cons.IH [of "w # stack"] Cons.prems(2) by simp
  next
    case 4
    then have "climbing (rev (w # stack))" using c [OF Cons.prems(1)] by simp
    moreover have "rel_parts stack (w # ws) = rel_parts (w # stack) ws" using 4 by simp
    ultimately show ?thesis using Cons.IH [of "w # stack"] Cons.prems(2) by simp
  qed
qed simp

lemma contains_char: "contains v [c] \<longleftrightarrow> c \<in> set v"
  by (induction v) auto

lemma clean_relative:
  "\<not> has_prefix v ''/'' \<Longrightarrow> path_Clean v = (if rel_parts [] (split_on (CHR ''/'') v) = [] then ''.''
     else join_with (CHR ''/'') (rel_parts [] (split_on (CHR ''/'') v)))"
  by (simp add: path_Clean_def split: list.split)

lemma valid_relative_plain:
  assumes "validRelativePath v"
  shows "\<forall>w \<in> set (split_on (CHR ''/'') v). plain_part w"
proof -
  let ?ws = "rel_parts [] (split_on (CHR ''/'') v)"
  have v: "path_Clean v = v" "v \<noteq> ''.''" "v \<noteq> ''..''" "\<not> has_prefix v ''../''" "\<not> has_prefix v ''/''"
    using assms by (auto simp: validRelativePath_def split: if_splits)
  then have ne: "?ws \<noteq> []" and j: "v = join_with (CHR ''/'') ?ws" using clean_relative [OF v(5)] by (auto split: if_splits)
  have "climbing (rev [])" unfolding climbing_def by (metis append_Nil empty_iff empty_set replicate_0 rev.simps(1))
  then have "climbing ?ws" by (rule rel_parts_climbing) (auto dest: split_on_no_sep)
  then obtain n ps where ws: "?ws = replicate n ''..'' @ ps" "\<forall>p \<in> set ps. plain_part p" by (auto simp: climbing_def)
  have "n = 0"
  proof (cases n)
    case (Suc m)
    then have "?ws = ''..'' # replicate m ''..'' @ ps" using ws by simp
    then have "v = ''..'' \<or> has_prefix v ''../''" using j by (cases "replicate m ''..'' @ ps") (simp_all add: has_prefix_def)
    then show ?thesis using v by simp
  qed simp
  then have pl: "\<forall>w \<in> set ?ws. plain_part w" using ws by simp
  then have "split_on (CHR ''/'') v = ?ws" using j ne split_join [of ?ws "CHR ''/''"] by (simp add: plain_part_def)
  then show ?thesis using pl by simp
qed

text \<open>A relative path is accepted iff all its elements are names and nothing in it could be read as an escape.\<close>

lemma validRelativePath_iff:
  "validRelativePath v \<longleftrightarrow> (\<forall>w \<in> set (split_on (CHR ''/'') v). plain_part w) \<and> CHR ''%'' \<notin> set v \<and> CHR 0x5C \<notin> set v"
proof
  assume "validRelativePath v"
  then show "(\<forall>w \<in> set (split_on (CHR ''/'') v). plain_part w) \<and> CHR ''%'' \<notin> set v \<and> CHR 0x5C \<notin> set v"
    using valid_relative_plain [of v] path_unescape_id [of v] contains_char [of v] by (auto simp: validRelativePath_def split: if_splits)
next
  assume r: "(\<forall>w \<in> set (split_on (CHR ''/'') v). plain_part w) \<and> CHR ''%'' \<notin> set v \<and> CHR 0x5C \<notin> set v"
  have pl: "plain_part w" if "w \<in> set (split_on (CHR ''/'') v)" for w using r that by blast
  have no: "\<not> plain_part ''''" "\<not> plain_part ''.''" "\<not> plain_part ''..''" by (simp_all add: plain_part_def)
  have ne: "v \<noteq> ''''" "v \<noteq> ''.''" "v \<noteq> ''..''" using pl [of v] no by fastforce+
  have np: "\<not> has_prefix v (p @ ''/'')" if p: "p = '''' \<or> p = ''..''" for p
  proof
    assume "has_prefix v (p @ ''/'')"
    then obtain s where "v = p @ CHR ''/'' # s" by (auto simp: has_prefix_def prefix_def)
    then have "p \<in> set (split_on (CHR ''/'') v)" using p split_on_append_sep [of "CHR ''/''" p s] by auto
    then show False using pl p no by blast
  qed
  have "path_Clean v = v"
    using clean_relative [of v] np [of "''''"] rel_parts_id [of "split_on (CHR ''/'') v" "[]"] r by simp
  then show "validRelativePath v"
    using r ne np [of "''''"] np [of "''..''"] path_unescape_id [of v] contains_char [of v] by (simp add: validRelativePath_def)
qed

definition artifact_ok :: "artifact \<Rightarrow> bool" where
  "artifact_ok a \<longleftrightarrow> (\<forall>w \<in> set (split_on (CHR ''/'') (art_Target a)). plain_part w) \<and> (\<exists>d \<in> set target_dirs. prefix d (art_Target a)) \<and>
     0 \<le> art_Size a \<and> art_Size a \<le> 268435456 \<and> (\<exists>h. hex_decode (art_SHA256 a) = Some h \<and> length h = 32) \<and> art_Mode a \<in> {420, 493}"

lemma artifacts_loop_ok:
  "artifacts_loop paths targets tot as = None \<Longrightarrow> 0 \<le> tot \<Longrightarrow> tot \<le> maxDownloadSize \<Longrightarrow>
     (\<forall>a \<in> set as. artifact_ok a) \<and> distinct (map art_Target as) \<and> set targets \<inter> art_Target ` set as = {} \<and>
     distinct (map art_Path as) \<and> set paths \<inter> art_Path ` set as = {} \<and>
     tot + sum_list (map art_Size as) \<le> maxDownloadSize"
proof (induction as arbitrary: paths targets tot)
  case (Cons a as)
  have g: "validRelativePath (art_Path a)" "validTarget (art_Target a)" "art_Path a \<notin> set paths" "art_Target a \<notin> set targets"
      "0 \<le> art_Size a" "art_Size a \<le> maxArtifactSize" "tot \<le> maxDownloadSize - art_Size a"
      "art_Mode a = 420 \<or> art_Mode a = 493"
    and h: "\<exists>h. hex_decode (art_SHA256 a) = Some h \<and> length h = 32"
    and rec: "artifacts_loop (art_Path a # paths) (art_Target a # targets) (tot + art_Size a) as = None"
    using Cons.prems(1) by (auto split: if_splits option.splits)
  have "artifact_ok a"
    using g h by (auto simp: artifact_ok_def validTarget_def validRelativePath_iff maxArtifactSize_def has_prefix_def split: if_splits)
  moreover note Cons.IH [OF rec]
  ultimately show ?case using g Cons.prems by auto
qed simp

text \<open>
  C21. Only a signed, newer and confined release is installed. A manifest that passes validation
  carries an Ed25519 signature of all its fields by the pinned key, is of the configured channel, is
  strictly newer than the installed release and supports updating from it; its artifacts go to
  different targets, each a clean relative path in one of the seven directories, with a SHA-256
  sum, an ordinary mode, at most 256 MiB each and 1 GiB together.
\<close>

theorem accepted_manifest:
  assumes "validateManifest ed m c = None"
  shows "\<exists>sig vr vi vm. hex_decode (um_Signature m) = Some sig \<and> ed (uc_PublicKey c) (canonical m) sig \<and>
    um_Channel m = uc_Channel c \<and>
    parseSemanticVersion (um_Release m) = Inr vr \<and> parseSemanticVersion (uc_InstalledRelease c) = Inr vi \<and>
    parseSemanticVersion (um_MinimumRelease m) = Inr vm \<and>
    version_key vi < version_key vr \<and> version_key vm \<le> version_key vi \<and>
    um_Artifacts m \<noteq> [] \<and> distinct (map art_Target (um_Artifacts m)) \<and> (\<forall>a \<in> set (um_Artifacts m). artifact_ok a) \<and>
    sum_list (map art_Size (um_Artifacts m)) \<le> 1073741824"
proof -
  from assms obtain vr vi where ck: "validateManifestForCheck ed m c = None"
    and p: "parseSemanticVersion (um_Release m) = Inr vr" "parseSemanticVersion (uc_InstalledRelease c) = Inr vi"
    and newer: "\<not> compareVersions vr vi \<le> 0"
    by (auto simp: validateManifest_def split: option.splits sum.splits if_splits)
  from ck obtain vm where v: "Verify ed m (uc_PublicKey c) = None" and ch: "um_Channel m = uc_Channel c"
    and pm: "parseSemanticVersion (um_MinimumRelease m) = Inr vm" and min: "\<not> compareVersions vi vm < 0"
    and arts: "validateArtifacts (um_Artifacts m) = None"
    using p by (auto simp: validateManifestForCheck_def split: option.splits sum.splits if_splits)
  from v obtain sig where sig: "hex_decode (um_Signature m) = Some sig" "ed (uc_PublicKey c) (canonical m) sig"
    by (auto simp: Verify_def split: option.splits if_splits)
  have "version_key vi < version_key vr"
    using newer compareVersions_key [OF p(1) p(2)] by (auto simp: cmp_def split: if_splits)
  moreover have "version_key vm \<le> version_key vi"
    using min compareVersions_key [OF p(2) pm] by (auto simp: cmp_def not_less split: if_splits)
  moreover have "um_Artifacts m \<noteq> []" "artifacts_loop [] [] 0 (um_Artifacts m) = None"
    using arts by (auto simp: validateArtifacts_def split: if_splits)
  moreover note artifacts_loop_ok [OF this(2)]
  ultimately show ?thesis using sig ch p pm by (auto simp: maxDownloadSize_def)
qed

section \<open>Examples\<close>

definition ex_v1 :: semver where "ex_v1 = \<lparr>sv_core = [''1'', ''9'', ''0''], sv_prerelease = []\<rparr>"
definition ex_v2 :: semver where "ex_v2 = \<lparr>sv_core = [''1'', ''10'', ''0''], sv_prerelease = [''rc'', ''2'']\<rparr>"

lemma ex_parse: "parseSemanticVersion ''v1.9.0'' = Inr ex_v1" "parseSemanticVersion ''1.10.0-rc.2+b7'' = Inr ex_v2"
  by code_simp+

theorem compareVersions_precedence_witness:
  "compareVersions ex_v1 ex_v2 = -1 \<and> version_key ex_v1 < version_key ex_v2"
proof -
  have "compareVersions ex_v1 ex_v2 = -1" by code_simp
  then show ?thesis
    using compareVersions_precedence [OF ex_parse] by (auto simp: cmp_def split: if_splits)
qed

definition ex_artifact :: artifact where
  "ex_artifact = \<lparr> art_Path = ''bin/panel-api'', art_Target = ''bin/panel-api'', art_Size = 10, art_SHA256 = replicate 64 (CHR ''a''),
     art_Mode = 493, art_Kind = '''' \<rparr>"

definition ex_update :: upmanifest where
  "ex_update = \<lparr> um_Release = ''1.10.0-rc.2+b7'', um_Channel = ''stable'', um_MinimumRelease = ''v1.9.0'', um_Artifacts = [ex_artifact],
     um_Files = [], um_Signature = replicate 128 (CHR ''0''), um_PublicKey = '''' \<rparr>"

definition ex_config :: upconfig where
  "ex_config = \<lparr> uc_FeedURL = '''', uc_Channel = ''stable'', uc_InstalledRelease = ''v1.9.0'', uc_PublicKey = replicate 32 (CHR ''k''),
     uc_InstallRoot = ''/opt'', uc_StatusPath = '''', uc_Automatic = True \<rparr>"

theorem accepted_manifest_witness:
  "\<exists>vr vi. parseSemanticVersion (um_Release ex_update) = Inr vr \<and> parseSemanticVersion (uc_InstalledRelease ex_config) = Inr vi \<and>
     version_key vi < version_key vr \<and> (\<exists>d \<in> set target_dirs. prefix d (art_Target ex_artifact))"
proof -
  have "validateManifest (\<lambda>key w sig. True) ex_update ex_config = None" by code_simp
  from accepted_manifest [OF this] show ?thesis by (auto simp: ex_update_def artifact_ok_def)
qed


end
