(* ===== verification/Update_Apply.thy ===== *)
theory Update_Apply
  imports Update_Manifest
begin

text \<open>
  Installing an update (\<^verbatim>\<open>internal/update/apply.go\<close>): staging, the transaction with its snapshots and
  journal, roll back, and the recovery of an interrupted transaction.

  The install root is the map of its regular files; of its directories only that of the transaction
  is represented, links and other kinds of files are not. A file that holds the JSON text of the
  journal is represented by the journal. Every operation on the file system and every command is a
  step that can fail before or after its effect, and before every step the machine can stop:
  \<open>ev n op\<close> is the fate of the \<open>n\<close>-th step. Removing a tree is a step for every file. The
  operations of \<^verbatim>\<open>internal/filesystem\<close> sync files and directories, so the effects of completed
  steps survive. The limits of \<^verbatim>\<open>readFile\<close> are represented for the release marker only.
\<close>

section \<open>Steps\<close>

record snapshotEntry =
  se_Target :: string
  se_Exists :: bool
  se_Kind :: string

record snapshotMetadata =
  sm_State :: string
  sm_Targets :: "snapshotEntry list"
  sm_CurrentReleaseExists :: bool

datatype content = Text string | Journal snapshotMetadata

type_synonym ufile = "content \<times> 32 word"

datatype uop = StatOp string | ReadOp string | WriteOp string | CopyOp string string | RenameOp string string
  | UnlinkOp string | MkdirOp string | RmdirOp string | RunOp string | StatusOp

datatype fate = Fine | FailBefore | FailAfter | Crash

type_synonym fates = "nat \<Rightarrow> uop \<Rightarrow> fate"

record usys =
  fs_files :: "(string, ufile) gomap"
  fs_txdir :: bool
  fs_status :: "upstatus option"
  fs_clock :: nat

datatype 'a outcome = Done 'a | Err string | Crashed

definition step :: "fates \<Rightarrow> uop \<Rightarrow> (usys \<Rightarrow> (string + 'a) \<times> usys) \<Rightarrow> usys \<Rightarrow> 'a outcome \<times> usys" where
  "step ev op f s =
     (let s1 = s\<lparr>fs_clock := fs_clock s + 1\<rparr>
      in case ev (fs_clock s) op of
           Crash \<Rightarrow> (Crashed, s1)
         | FailBefore \<Rightarrow> (Err ''io'', s1)
         | FailAfter \<Rightarrow> (Err ''io'', snd (f s1))
         | Fine \<Rightarrow> (case f s1 of (Inl e, s2) \<Rightarrow> (Err e, s2) | (Inr x, s2) \<Rightarrow> (Done x, s2)))"

definition bnd :: "(usys \<Rightarrow> 'a outcome \<times> usys) \<Rightarrow> ('a \<Rightarrow> usys \<Rightarrow> 'b outcome \<times> usys) \<Rightarrow> usys \<Rightarrow> 'b outcome \<times> usys" where
  "bnd m k s = (case m s of (Done x, s1) \<Rightarrow> k x s1 | (Err e, s1) \<Rightarrow> (Err e, s1) | (Crashed, s1) \<Rightarrow> (Crashed, s1))"

definition ret :: "'a \<Rightarrow> usys \<Rightarrow> 'a outcome \<times> usys" where
  "ret x s = (Done x, s)"

definition raise :: "string \<Rightarrow> usys \<Rightarrow> 'a outcome \<times> usys" where
  "raise e s = (Err e, s)"

text \<open>A call whose error is looked at: \<^verbatim>\<open>x, err := m()\<close>.\<close>

definition attempt :: "(usys \<Rightarrow> 'a outcome \<times> usys) \<Rightarrow> usys \<Rightarrow> (string + 'a) outcome \<times> usys" where
  "attempt m s = (case m s of (Done x, s1) \<Rightarrow> (Done (Inr x), s1) | (Err e, s1) \<Rightarrow> (Done (Inl e), s1) | (Crashed, s1) \<Rightarrow> (Crashed, s1))"

section \<open>The file system\<close>

abbreviation ENOENT :: string where "ENOENT \<equiv> ''ENOENT''"

definition fget :: "usys \<Rightarrow> string \<Rightarrow> ufile option" where
  "fget s p = mget (fs_files s) p"

definition fput :: "string \<Rightarrow> ufile \<Rightarrow> usys \<Rightarrow> usys" where
  "fput p f s = s\<lparr>fs_files := mput p f (fs_files s)\<rparr>"

definition fdel :: "string \<Rightarrow> usys \<Rightarrow> usys" where
  "fdel p s = s\<lparr>fs_files := mdel p (fs_files s)\<rparr>"

definition stat_file :: "fates \<Rightarrow> string \<Rightarrow> usys \<Rightarrow> ufile outcome \<times> usys" where
  "stat_file ev p = step ev (StatOp p) (\<lambda>s. (case fget s p of None \<Rightarrow> Inl ENOENT | Some f \<Rightarrow> Inr f, s))"

definition readFile :: "fates \<Rightarrow> string \<Rightarrow> usys \<Rightarrow> content outcome \<times> usys" where
  "readFile ev p = step ev (ReadOp p) (\<lambda>s. (case fget s p of None \<Rightarrow> Inl ENOENT | Some f \<Rightarrow> Inr (fst f), s))"

definition write_file :: "fates \<Rightarrow> string \<Rightarrow> content \<Rightarrow> 32 word \<Rightarrow> usys \<Rightarrow> unit outcome \<times> usys" where
  "write_file ev p c m = step ev (WriteOp p) (\<lambda>s. (Inr (), fput p (c, m) s))"

definition copyAtomic :: "fates \<Rightarrow> string \<Rightarrow> string \<Rightarrow> 32 word \<Rightarrow> usys \<Rightarrow> unit outcome \<times> usys" where
  "copyAtomic ev src dst m = step ev (CopyOp src dst)
     (\<lambda>s. case fget s src of None \<Rightarrow> (Inl ENOENT, s) | Some f \<Rightarrow> (Inr (), fput dst (fst f, m) s))"

definition rename_file :: "fates \<Rightarrow> string \<Rightarrow> string \<Rightarrow> usys \<Rightarrow> unit outcome \<times> usys" where
  "rename_file ev src dst = step ev (RenameOp src dst)
     (\<lambda>s. case fget s src of None \<Rightarrow> (Inl ENOENT, s) | Some f \<Rightarrow> (Inr (), fput dst f (fdel src s)))"

definition remove_file :: "fates \<Rightarrow> string \<Rightarrow> usys \<Rightarrow> unit outcome \<times> usys" where
  "remove_file ev p = step ev (UnlinkOp p) (\<lambda>s. (Inr (), fdel p s))"

definition transactionDirectory :: string where "transactionDirectory = ''.update-transaction''"
definition stagingDirectory :: string where "stagingDirectory = ''.update-staging''"

definition mkdirAll :: "fates \<Rightarrow> string \<Rightarrow> usys \<Rightarrow> unit outcome \<times> usys" where
  "mkdirAll ev d = step ev (MkdirOp d)
     (\<lambda>s. (Inr (), if has_prefix (d @ ''/'') (transactionDirectory @ ''/'') then s\<lparr>fs_txdir := True\<rparr> else s))"

fun remove_files :: "fates \<Rightarrow> string list \<Rightarrow> usys \<Rightarrow> unit outcome \<times> usys" where
  "remove_files ev [] = ret ()"
| "remove_files ev (p # ps) = bnd (remove_file ev p) (\<lambda>_. remove_files ev ps)"

definition removeTree :: "fates \<Rightarrow> string \<Rightarrow> usys \<Rightarrow> unit outcome \<times> usys" where
  "removeTree ev d s =
     bnd (remove_files ev (filter (\<lambda>p. has_prefix p (d @ ''/'')) (map fst (fs_files s))))
       (\<lambda>_. step ev (RmdirOp d) (\<lambda>s. (Inr (), if d = transactionDirectory then s\<lparr>fs_txdir := False\<rparr> else s))) s"

section \<open>The transaction\<close>

definition tx_path :: "string \<Rightarrow> string" where "tx_path p = transactionDirectory @ ''/'' @ p"
definition snap_path :: "string \<Rightarrow> string" where "snap_path t = transactionDirectory @ ''/targets/'' @ t"
definition stage_path :: "string \<Rightarrow> string" where "stage_path t = stagingDirectory @ ''/'' @ t"

definition writeTransactionMetadata :: "fates \<Rightarrow> snapshotMetadata \<Rightarrow> usys \<Rightarrow> unit outcome \<times> usys" where
  "writeTransactionMetadata ev md = write_file ev (tx_path ''metadata.json'') (Journal md) 384"

definition artifact_kind :: "artifact \<Rightarrow> string" where
  "artifact_kind a = (if art_Kind a = '''' then artifactKindForTarget (art_Target a) else art_Kind a)"

fun snapshot_targets :: "fates \<Rightarrow> artifact list \<Rightarrow> snapshotEntry list \<Rightarrow> usys \<Rightarrow> snapshotEntry list outcome \<times> usys" where
  "snapshot_targets ev [] es = ret es"
| "snapshot_targets ev (a # as) es =
     bnd (attempt (stat_file ev (art_Target a))) (\<lambda>r.
       case r of
         Inl e \<Rightarrow>
           if e = ENOENT
           then snapshot_targets ev as (es @ [\<lparr>se_Target = art_Target a, se_Exists = False, se_Kind = artifact_kind a\<rparr>])
           else raise e
       | Inr f \<Rightarrow>
           let es1 = es @ [\<lparr>se_Target = art_Target a, se_Exists = True, se_Kind = artifact_kind a\<rparr>]
           in if artifact_kind a = ArtifactSchema then snapshot_targets ev as es1
              else bnd (copyAtomic ev (art_Target a) (snap_path (art_Target a)) (snd f)) (\<lambda>_. snapshot_targets ev as es1))"

definition snapshot_release :: "fates \<Rightarrow> usys \<Rightarrow> bool outcome \<times> usys" where
  "snapshot_release ev =
     bnd (attempt (stat_file ev ''current-release'')) (\<lambda>r.
       case r of
         Inr f \<Rightarrow> bnd (copyAtomic ev ''current-release'' (tx_path ''current-release'') (snd f)) (\<lambda>_. ret True)
       | Inl e \<Rightarrow> if e = ENOENT then ret False else raise e)"

definition beginTransaction :: "fates \<Rightarrow> artifact list \<Rightarrow> usys \<Rightarrow> snapshotMetadata outcome \<times> usys" where
  "beginTransaction ev as =
     bnd (removeTree ev transactionDirectory) (\<lambda>_.
     bnd (mkdirAll ev (tx_path ''targets'')) (\<lambda>_.
     bnd (snapshot_targets ev as []) (\<lambda>es.
     bnd (snapshot_release ev) (\<lambda>cur.
       let md = \<lparr>sm_State = ''prepared'', sm_Targets = es, sm_CurrentReleaseExists = cur\<rparr>
       in bnd (writeTransactionMetadata ev md) (\<lambda>_. ret md)))))"

fun installStagedArtifacts :: "fates \<Rightarrow> artifact list \<Rightarrow> usys \<Rightarrow> unit outcome \<times> usys" where
  "installStagedArtifacts ev [] = ret ()"
| "installStagedArtifacts ev (a # as) =
     bnd (rename_file ev (stage_path (art_Target a)) (art_Target a)) (\<lambda>_. installStagedArtifacts ev as)"

definition transactionExists :: "fates \<Rightarrow> usys \<Rightarrow> bool outcome \<times> usys" where
  "transactionExists ev = step ev (StatOp transactionDirectory) (\<lambda>s. (Inr (fs_txdir s), s))"

fun rollback_targets :: "fates \<Rightarrow> snapshotEntry list \<Rightarrow> usys \<Rightarrow> unit outcome \<times> usys" where
  "rollback_targets ev [] = ret ()"
| "rollback_targets ev (e # es) =
     (if \<not> validTarget (se_Target e) then raise ''invalid rollback target''
      else if se_Kind e = ArtifactSchema then rollback_targets ev es
      else if \<not> se_Exists e then bnd (remove_file ev (se_Target e)) (\<lambda>_. rollback_targets ev es)
      else bnd (stat_file ev (snap_path (se_Target e))) (\<lambda>f.
           bnd (copyAtomic ev (snap_path (se_Target e)) (se_Target e) (snd f)) (\<lambda>_. rollback_targets ev es)))"

definition rollbackTransactionWithMetadata :: "fates \<Rightarrow> snapshotMetadata \<Rightarrow> usys \<Rightarrow> unit outcome \<times> usys" where
  "rollbackTransactionWithMetadata ev md =
     bnd (writeTransactionMetadata ev (md\<lparr>sm_State := ''rolling-back''\<rparr>)) (\<lambda>_.
     bnd (rollback_targets ev (sm_Targets md)) (\<lambda>_.
       if sm_CurrentReleaseExists md
       then bnd (stat_file ev (tx_path ''current-release'')) (\<lambda>f. copyAtomic ev (tx_path ''current-release'') ''current-release'' (snd f))
       else remove_file ev ''current-release''))"

text \<open>Decoding the journal: a file that does not hold one is a JSON error.\<close>

definition decode_journal :: "content \<Rightarrow> usys \<Rightarrow> snapshotMetadata outcome \<times> usys" where
  "decode_journal c = (case c of Journal md \<Rightarrow> ret md | Text _ \<Rightarrow> raise ''json'')"

definition rollbackTransaction :: "fates \<Rightarrow> usys \<Rightarrow> unit outcome \<times> usys" where
  "rollbackTransaction ev =
     bnd (readFile ev (tx_path ''metadata.json'')) (\<lambda>c.
     bnd (decode_journal c) (\<lambda>md. rollbackTransactionWithMetadata ev md))"

definition cleanupTransaction :: "fates \<Rightarrow> usys \<Rightarrow> unit outcome \<times> usys" where
  "cleanupTransaction ev = bnd (removeTree ev stagingDirectory) (\<lambda>_. removeTree ev transactionDirectory)"

definition activation_commands :: "string list" where
  "activation_commands = [''systemctl daemon-reload'', ''systemctl restart'', ''systemctl is-active'', ''curl healthz'', ''curl server portal'',
     ''curl account portal'', ''curl dns'']"

fun run_commands :: "fates \<Rightarrow> string list \<Rightarrow> usys \<Rightarrow> unit outcome \<times> usys" where
  "run_commands ev [] = ret ()"
| "run_commands ev (c # cs) = bnd (step ev (RunOp c) (\<lambda>s. (Inr (), s))) (\<lambda>_. run_commands ev cs)"

definition runActivationAndHealthChecks :: "fates \<Rightarrow> usys \<Rightarrow> unit outcome \<times> usys" where
  "runActivationAndHealthChecks ev = run_commands ev activation_commands"

text \<open>\<open>runner\<close>: a runner for commands was given.\<close>

definition recoverInterruptedTransaction :: "fates \<Rightarrow> bool \<Rightarrow> bool \<Rightarrow> usys \<Rightarrow> unit outcome \<times> usys" where
  "recoverInterruptedTransaction ev runner requireServiceRecovery =
     bnd (transactionExists ev) (\<lambda>ex.
       if \<not> ex then ret ()
       else bnd (attempt (readFile ev (tx_path ''metadata.json''))) (\<lambda>r.
         case r of
           Inl e \<Rightarrow> if e = ENOENT then cleanupTransaction ev else raise e
         | Inr c \<Rightarrow>
             bnd (decode_journal c) (\<lambda>md.
               if sm_State md = ''committed'' then cleanupTransaction ev
               else if \<not> runner \<and> requireServiceRecovery then raise ''recovery runner is required''
               else bnd (rollbackTransactionWithMetadata ev md) (\<lambda>_.
                    bnd (if runner then runActivationAndHealthChecks ev else ret ()) (\<lambda>_.
                    cleanupTransaction ev)))))"

section \<open>Installing\<close>

definition writeStatus :: "fates \<Rightarrow> upstatus \<Rightarrow> usys \<Rightarrow> unit outcome \<times> usys" where
  "writeStatus ev st = step ev StatusOp (\<lambda>s. (Inr (), s\<lparr>fs_status := Some st\<rparr>))"

text \<open>\<^verbatim>\<open>finishStatus\<close> as a step of the system.\<close>

definition finish :: "fates \<Rightarrow> string \<Rightarrow> upstatus \<Rightarrow> string option \<Rightarrow> usys \<Rightarrow> (upstatus \<times> string option) outcome \<times> usys" where
  "finish ev path status operationErr =
     (let status = (case operationErr of None \<Rightarrow> status | Some e \<Rightarrow> status\<lparr>us_State := ''error'', us_Error := e\<rparr>)
      in if path \<noteq> '''' then
           bnd (attempt (writeStatus ev status)) (\<lambda>w.
             ret (finishStatus (case w of Inl e \<Rightarrow> Some e | Inr _ \<Rightarrow> None) path status operationErr))
         else ret (status, operationErr))"

definition report :: "fates \<Rightarrow> upconfig \<Rightarrow> upstatus \<Rightarrow> usys \<Rightarrow> (string + unit) outcome \<times> usys" where
  "report ev c status = (if uc_StatusPath c \<noteq> '''' then attempt (writeStatus ev status) else ret (Inr ()))"

definition rollbackFailedInstall :: "fates \<Rightarrow> upconfig \<Rightarrow> upstatus \<Rightarrow> string \<Rightarrow> usys \<Rightarrow> (upstatus \<times> string option) outcome \<times> usys" where
  "rollbackFailedInstall ev c status installErr =
     bnd (attempt (bnd (rollbackTransaction ev) (\<lambda>_. bnd (runActivationAndHealthChecks ev) (\<lambda>_. cleanupTransaction ev)))) (\<lambda>r.
       case r of
         Inl rollbackErr \<Rightarrow>
           let status = status\<lparr>us_State := ''critical'', us_Error := installErr @ ''; rollback failed: '' @ rollbackErr\<rparr>
           in bnd (report ev c status) (\<lambda>_. ret (status, Some (us_Error status)))
       | Inr _ \<Rightarrow>
           let status = status\<lparr>us_State := ''rolled-back'', us_InstalledRelease := uc_InstalledRelease c, us_Error := installErr\<rparr>
           in bnd (report ev c status) (\<lambda>w.
                ret (status, Some (case w of Inl e \<Rightarrow> installErr @ ''; rollback succeeded but status persistence failed: '' @ e
                                   | Inr _ \<Rightarrow> installErr))))"

definition reloadInstalledRelease :: "fates \<Rightarrow> upconfig \<Rightarrow> usys \<Rightarrow> upconfig outcome \<times> usys" where
  "reloadInstalledRelease ev c =
     bnd (attempt (readFile ev ''current-release'')) (\<lambda>r.
       case r of
         Inl e \<Rightarrow> if e = ENOENT then ret c else raise e
       | Inr (Journal _) \<Rightarrow> raise ''read installed release''
       | Inr (Text raw) \<Rightarrow>
           if length raw > 1024 then raise ''read installed release''
           else if trim_space raw = '''' then raise ''installed release marker is empty''
           else ret (c\<lparr>uc_InstalledRelease := trim_space raw\<rparr>))"

text \<open>\<open>feed\<close> is the body that the server answers a request for an artifact with, \<open>None\<close> when there is none.\<close>

fun downloadArtifacts :: "fates \<Rightarrow> (string \<Rightarrow> string) \<Rightarrow> (artifact \<Rightarrow> string option) \<Rightarrow> artifact list \<Rightarrow> usys \<Rightarrow> unit outcome \<times> usys" where
  "downloadArtifacts ev sha feed [] = ret ()"
| "downloadArtifacts ev sha feed (a # as) =
     (case feed a of
        None \<Rightarrow> raise ''download artifact''
      | Some body \<Rightarrow>
          let got = take (nat (art_Size a) + 1) body
          in bnd (write_file ev (stage_path (art_Target a)) (Text got) (art_Mode a)) (\<lambda>_.
               if int (length got) \<noteq> art_Size a then raise ''size mismatch''
               else if hex_decode (art_SHA256 a) \<noteq> Some (sha got) then raise ''hash mismatch''
               else downloadArtifacts ev sha feed as))"

text \<open>The part of \<^verbatim>\<open>installWithOperationLock\<close> from the journal entry \<^verbatim>\<open>applying\<close> to \<^verbatim>\<open>activated\<close>.\<close>

definition apply_release :: "fates \<Rightarrow> upmanifest \<Rightarrow> snapshotMetadata \<Rightarrow> usys \<Rightarrow> unit outcome \<times> usys" where
  "apply_release ev m md =
     bnd (writeTransactionMetadata ev (md\<lparr>sm_State := ''applying''\<rparr>)) (\<lambda>_.
     bnd (installStagedArtifacts ev (um_Artifacts m)) (\<lambda>_.
     bnd (runActivationAndHealthChecks ev) (\<lambda>_.
     bnd (write_file ev ''current-release'' (Text (um_Release m @ [CHR 10])) 420) (\<lambda>_.
     writeTransactionMetadata ev (md\<lparr>sm_State := ''activated''\<rparr>)))))"

definition commit_release :: "fates \<Rightarrow> upconfig \<Rightarrow> snapshotMetadata \<Rightarrow> upstatus \<Rightarrow> usys \<Rightarrow> (upstatus \<times> string option) outcome \<times> usys" where
  "commit_release ev c md status =
     bnd (attempt (if uc_StatusPath c \<noteq> '''' then writeStatus ev status else ret ())) (\<lambda>w.
       case w of
         Inl e \<Rightarrow> rollbackFailedInstall ev c status (''persist success status: '' @ e)
       | Inr _ \<Rightarrow>
           bnd (attempt (writeTransactionMetadata ev (md\<lparr>sm_State := ''committed''\<rparr>))) (\<lambda>w.
             case w of
               Inl e \<Rightarrow> rollbackFailedInstall ev c status (''commit update journal: '' @ e)
             | Inr _ \<Rightarrow> bnd (attempt (cleanupTransaction ev)) (\<lambda>_. ret (status, None))))"

definition install_release :: "fates \<Rightarrow> upconfig \<Rightarrow> upmanifest \<Rightarrow> upstatus \<Rightarrow> usys \<Rightarrow> (upstatus \<times> string option) outcome \<times> usys" where
  "install_release ev c m status =
     bnd (attempt (beginTransaction ev (um_Artifacts m))) (\<lambda>r.
       case r of
         Inl e \<Rightarrow> bnd (attempt (cleanupTransaction ev)) (\<lambda>_. finish ev (uc_StatusPath c) status (Some e))
       | Inr md \<Rightarrow>
           bnd (attempt (apply_release ev m md)) (\<lambda>r.
             case r of
               Inl e \<Rightarrow> rollbackFailedInstall ev c status e
             | Inr _ \<Rightarrow>
                 commit_release ev c md (status\<lparr>us_State := ''installed'', us_InstalledRelease := um_Release m, us_Error := ''''\<rparr>)))"

text \<open>\<open>fetched\<close> is the outcome of \<^verbatim>\<open>fetchManifest\<close> as in \<open>checkLocked\<close>, \<open>now\<close> the formatted time.\<close>

definition fetch_release ::
    "fates \<Rightarrow> (string \<Rightarrow> wire \<Rightarrow> string \<Rightarrow> bool) \<Rightarrow> (string \<Rightarrow> string) \<Rightarrow> string + upmanifest \<Rightarrow> (artifact \<Rightarrow> string option) \<Rightarrow> upconfig \<Rightarrow> upstatus \<Rightarrow>
     usys \<Rightarrow> (upstatus \<times> string option) outcome \<times> usys" where
  "fetch_release ev ed sha fetched feed c status =
     (case fetched of
        Inl e \<Rightarrow> finish ev (uc_StatusPath c) status (Some e)
      | Inr m \<Rightarrow>
          (case validateManifest ed m c of
             Some e \<Rightarrow> finish ev (uc_StatusPath c) status (Some e)
           | None \<Rightarrow>
               let status = status\<lparr>us_AvailableRelease := um_Release m\<rparr>
               in bnd (attempt (bnd (mkdirAll ev stagingDirectory) (\<lambda>_. downloadArtifacts ev sha feed (um_Artifacts m)))) (\<lambda>r.
                    case r of
                      Inl e \<Rightarrow> finish ev (uc_StatusPath c) status (Some e)
                    | Inr _ \<Rightarrow> install_release ev c m status)))"

definition initial_status :: "string \<Rightarrow> upconfig \<Rightarrow> upstatus" where
  "initial_status now c =
     \<lparr> us_State = ''error'', us_InstalledRelease = uc_InstalledRelease c, us_RunningRelease = '''', us_AvailableRelease = '''',
       us_LastCheckedAt = now, us_Error = '''', us_Automatic = uc_Automatic c, us_Channel = uc_Channel c \<rparr>"

definition installWithOperationLock ::
    "fates \<Rightarrow> (string \<Rightarrow> wire \<Rightarrow> string \<Rightarrow> bool) \<Rightarrow> (string \<Rightarrow> string) \<Rightarrow> string + upmanifest \<Rightarrow> (artifact \<Rightarrow> string option) \<Rightarrow> string \<Rightarrow> upconfig \<Rightarrow>
     bool \<Rightarrow> usys \<Rightarrow> (upstatus \<times> string option) outcome \<times> usys" where
  "installWithOperationLock ev ed sha fetched feed now c runner =
     (let status = initial_status now c
      in if \<not> runner then finish ev (uc_StatusPath c) status (Some ''update runner is required'')
         else bnd (attempt (recoverInterruptedTransaction ev runner True)) (\<lambda>r.
           case r of
             Inl e \<Rightarrow> finish ev (uc_StatusPath c) status (Some (''recover interrupted update: '' @ e))
           | Inr _ \<Rightarrow>
               bnd (attempt (reloadInstalledRelease ev c)) (\<lambda>r.
                 case r of
                   Inl e \<Rightarrow> finish ev (uc_StatusPath c) status (Some e)
                 | Inr c' \<Rightarrow>
                     let status = status\<lparr>us_InstalledRelease := uc_InstalledRelease c'\<rparr>
                     in bnd (attempt (removeTree ev stagingDirectory)) (\<lambda>r.
                          case r of
                            Inl e \<Rightarrow> finish ev (uc_StatusPath c') status (Some e)
                          | Inr _ \<Rightarrow> fetch_release ev ed sha fetched feed c' status))))"

text \<open>
  The check for updates. \<open>checkLocked\<close> decides on the status, which \<^verbatim>\<open>finishStatus\<close> then writes.
\<close>

definition checkWithOperationLock ::
    "fates \<Rightarrow> (string \<Rightarrow> wire \<Rightarrow> string \<Rightarrow> bool) \<Rightarrow> string + upmanifest \<Rightarrow> string \<Rightarrow> upconfig \<Rightarrow> bool \<Rightarrow> usys \<Rightarrow>
     (upstatus \<times> string option) outcome \<times> usys" where
  "checkWithOperationLock ev ed fetched now c runner =
     (let status = initial_status now c
      in bnd (attempt (recoverInterruptedTransaction ev runner True)) (\<lambda>r.
           case r of
             Inl e \<Rightarrow> finish ev (uc_StatusPath c) status (Some (''recover interrupted update: '' @ e))
           | Inr _ \<Rightarrow>
               bnd (attempt (reloadInstalledRelease ev c)) (\<lambda>r.
                 case r of
                   Inl e \<Rightarrow> finish ev (uc_StatusPath c) status (Some e)
                 | Inr c' \<Rightarrow>
                     (case checkLocked ed fetched None c' (status\<lparr>us_InstalledRelease := uc_InstalledRelease c'\<rparr>) of
                        (st, err) \<Rightarrow> finish ev (uc_StatusPath c') st err))))"

section \<open>Weakest preconditions\<close>

text \<open>\<open>Q\<close> holds when the program returns, \<open>E\<close> when it fails or the machine stops.\<close>

definition wp :: "(usys \<Rightarrow> 'a outcome \<times> usys) \<Rightarrow> ('a \<Rightarrow> usys \<Rightarrow> bool) \<Rightarrow> (usys \<Rightarrow> bool) \<Rightarrow> usys \<Rightarrow> bool" where
  "wp m Q E s = (case m s of (Done x, s') \<Rightarrow> Q x s' | (Err _, s') \<Rightarrow> E s' | (Crashed, s') \<Rightarrow> E s')"

lemma wp_bnd [simp]: "wp (bnd m k) Q E = wp m (\<lambda>x. wp (k x) Q E) E"
  by (rule ext) (simp add: wp_def bnd_def split: prod.split outcome.split)

lemma wp_ret [simp]: "wp (ret x) Q E = Q x" by (rule ext) (simp add: wp_def ret_def)
lemma wp_raise [simp]: "wp (raise e) Q E = E" by (rule ext) (simp add: wp_def raise_def)

lemma wp_mono: "wp m Q E s \<Longrightarrow> (\<And>x s'. Q x s' \<Longrightarrow> Q' x s') \<Longrightarrow> (\<And>s'. E s' \<Longrightarrow> E' s') \<Longrightarrow> wp m Q' E' s"
  by (auto simp: wp_def split: prod.splits outcome.splits)

lemma wp_attempt:
  "wp m Q1 E1 s \<Longrightarrow> (\<And>x s'. Q1 x s' \<Longrightarrow> Q (Inr x) s') \<Longrightarrow> (\<And>e s'. E1 s' \<Longrightarrow> Q (Inl e) s') \<Longrightarrow> (\<And>s'. E1 s' \<Longrightarrow> E s') \<Longrightarrow>
   wp (attempt m) Q E s"
  by (auto simp: wp_def attempt_def split: prod.splits outcome.splits)

abbreviation tick :: "usys \<Rightarrow> usys" where "tick s \<equiv> s\<lparr>fs_clock := Suc (fs_clock s)\<rparr>"

lemma wp_step:
  assumes "ev (fs_clock s) op \<noteq> Fine \<Longrightarrow> E (tick s) \<and> E (snd (f (tick s)))"
    and "\<And>e s'. ev (fs_clock s) op = Fine \<Longrightarrow> f (tick s) = (Inl e, s') \<Longrightarrow> E s'"
    and "\<And>x s'. ev (fs_clock s) op = Fine \<Longrightarrow> f (tick s) = (Inr x, s') \<Longrightarrow> Q x s'"
  shows "wp (step ev op f) Q E s"
  using assms by (auto simp: wp_def step_def Let_def split: fate.splits prod.splits sum.splits)

lemma fget_simps [simp]:
  "fget (s\<lparr>fs_clock := n\<rparr>) = fget s" "fget (s\<lparr>fs_status := st\<rparr>) = fget s" "fget (s\<lparr>fs_txdir := b\<rparr>) = fget s"
  "fget (fput p f s) = (fget s)(p := Some f)" "fget (fdel p s) = (fget s)(p := None)"
  by (auto simp: fget_def fput_def fdel_def fun_eq_iff)

lemma txdir_simps [simp]: "fs_txdir (fput p f s) = fs_txdir s" "fs_txdir (fdel p s) = fs_txdir s"
  by (auto simp: fput_def fdel_def)

section \<open>Programs that touch the staging area only\<close>

abbreviation staging :: "string \<Rightarrow> bool" where "staging p \<equiv> has_prefix p (stagingDirectory @ ''/'')"
abbreviation below_tx :: "string \<Rightarrow> bool" where "below_tx p \<equiv> has_prefix p (transactionDirectory @ ''/'')"

definition eqv :: "usys \<Rightarrow> usys \<Rightarrow> bool" where
  "eqv s s' \<longleftrightarrow> fs_txdir s' = fs_txdir s \<and> (\<forall>p. \<not> staging p \<longrightarrow> fget s' p = fget s p)"

lemma eqv_refl [simp]: "eqv s s" by (simp add: eqv_def)
lemma eqv_trans [trans]: "eqv s s' \<Longrightarrow> eqv s' s'' \<Longrightarrow> eqv s s''" by (simp add: eqv_def)

lemma eqv_upd [simp]:
  "eqv s (s'\<lparr>fs_clock := n\<rparr>) = eqv s s'" "eqv s (s'\<lparr>fs_status := st\<rparr>) = eqv s s'"
  by (simp_all add: eqv_def)

lemma eqv_staging: "staging p \<Longrightarrow> eqv s (fput p f s)" "staging p \<Longrightarrow> eqv s (fdel p s)"
  by (simp_all add: eqv_def)

definition neutral :: "(usys \<Rightarrow> 'a outcome \<times> usys) \<Rightarrow> bool" where
  "neutral m \<longleftrightarrow> (\<forall>s. wp m (\<lambda>_. eqv s) (eqv s) s)"

lemma neutralI: "(\<And>s. wp m (\<lambda>_. eqv s) (eqv s) s) \<Longrightarrow> neutral m" by (simp add: neutral_def)

lemma neutral_wp: "neutral m \<Longrightarrow> (\<And>x s'. eqv s s' \<Longrightarrow> Q x s') \<Longrightarrow> (\<And>s'. eqv s s' \<Longrightarrow> E s') \<Longrightarrow> wp m Q E s"
  using wp_mono [of m "\<lambda>_. eqv s" "eqv s" s Q E] by (auto simp: neutral_def)

lemma neutral_bnd: "neutral m \<Longrightarrow> (\<And>x. neutral (k x)) \<Longrightarrow> neutral (bnd m k)"
proof (rule neutralI)
  fix s :: usys
  assume m: "neutral m" and k: "\<And>x. neutral (k x)"
  have "wp (k x) (\<lambda>_. eqv s) (eqv s) s'" if "eqv s s'" for x s'
    using that by (intro neutral_wp [OF k]) (blast intro: eqv_trans)+
  with m have "wp m (\<lambda>x. wp (k x) (\<lambda>_. eqv s) (eqv s)) (eqv s) s"
    by (rule neutral_wp)
  then show "wp (bnd m k) (\<lambda>_. eqv s) (eqv s) s" by simp
qed

lemma neutral_ret [simp]: "neutral (ret x)" by (simp add: neutral_def)
lemma neutral_raise [simp]: "neutral (raise x)" by (simp add: neutral_def)

lemma neutral_attempt: "neutral m \<Longrightarrow> neutral (attempt m)"
  by (rule neutralI, rule wp_attempt [where ?Q1.0 = "\<lambda>_. eqv s" and ?E1.0 = "eqv s" for s]) (auto simp: neutral_def)

lemma neutral_step: "(\<And>s. eqv s (snd (f s))) \<Longrightarrow> neutral (step ev op f)"
  by (rule neutralI, rule wp_step) (metis eqv_trans eqv_refl eqv_upd(1) snd_conv)+


lemma staging_stage [simp]: "staging (stage_path t)"
  by (simp add: stage_path_def has_prefix_def)

lemma not_staging [simp]: "\<not> staging (tx_path p)" "\<not> staging (snap_path p)" "\<not> staging ''current-release''"
  by (simp_all add: tx_path_def snap_path_def has_prefix_def transactionDirectory_def stagingDirectory_def)

lemma stage_path_eq [simp]: "stage_path t = stage_path u \<longleftrightarrow> t = u"
  by (simp add: stage_path_def)

lemma stage_ne_tx [simp]: "stage_path t \<noteq> tx_path q"
  using staging_stage not_staging(1) by metis

lemma neutral_basic:
  "neutral (stat_file ev p)" "neutral (readFile ev p)" "neutral (transactionExists ev)" "neutral (writeStatus ev st)"
  "neutral (step ev op (\<lambda>s. (Inr (), s)))"
  unfolding stat_file_def readFile_def transactionExists_def writeStatus_def by (intro neutral_step; simp)+

lemma neutral_commands: "neutral (run_commands ev cs)"
  by (induction cs) (auto intro!: neutral_bnd neutral_basic)

lemma neutral_activation: "neutral (runActivationAndHealthChecks ev)"
  by (simp add: runActivationAndHealthChecks_def neutral_commands)

lemma neutral_remove: "staging p \<Longrightarrow> neutral (remove_file ev p)"
  unfolding remove_file_def by (intro neutral_step) (simp add: eqv_staging)

lemma neutral_remove_files: "\<forall>p \<in> set ps. staging p \<Longrightarrow> neutral (remove_files ev ps)"
  by (induction ps) (auto intro!: neutral_bnd neutral_remove)

lemma neutral_remove_staging: "neutral (removeTree ev stagingDirectory)"
proof (rule neutralI)
  fix s :: usys
  let ?ps = "filter (\<lambda>p. has_prefix p (stagingDirectory @ ''/'')) (map fst (fs_files s))"
  have "neutral (bnd (remove_files ev ?ps)
      (\<lambda>_. step ev (RmdirOp stagingDirectory) (\<lambda>s. (Inr (), if stagingDirectory = transactionDirectory then s\<lparr>fs_txdir := False\<rparr> else s))))"
    by (intro neutral_bnd neutral_remove_files neutral_step) (auto simp: stagingDirectory_def transactionDirectory_def)
  then show "wp (removeTree ev stagingDirectory) (\<lambda>_. eqv s) (eqv s) s"
    by (simp add: neutral_def removeTree_def wp_def del: wp_bnd)
qed

lemma neutral_finish: "neutral (finish ev path st e)"
  unfolding finish_def Let_def by (auto intro!: neutral_bnd neutral_attempt neutral_basic)

lemma neutral_report: "neutral (report ev c st)"
  unfolding report_def by (auto intro!: neutral_attempt neutral_basic)

lemma neutral_mkdir_staging: "neutral (mkdirAll ev stagingDirectory)"
  unfolding mkdirAll_def by (intro neutral_step) (simp add: has_prefix_def stagingDirectory_def transactionDirectory_def)

lemma neutral_reload: "neutral (reloadInstalledRelease ev c)"
  unfolding reloadInstalledRelease_def
  by (intro neutral_bnd neutral_attempt neutral_basic) (auto split: sum.split content.split)

lemma neutral_write_stage: "staging p \<Longrightarrow> neutral (write_file ev p x m)"
  unfolding write_file_def by (intro neutral_step) (simp add: eqv_staging)

lemmas neutral_facts = neutral_basic neutral_activation neutral_remove_staging neutral_finish neutral_mkdir_staging neutral_reload
  neutral_write_stage

section \<open>The invariant of a transaction\<close>

text \<open>
  Of the install root the files outside of the two private directories are looked at, except those
  of schema artifacts, which a roll back keeps on purpose.
\<close>

definition visible :: "artifact list \<Rightarrow> string \<Rightarrow> bool" where
  "visible as p \<longleftrightarrow> \<not> below_tx p \<and> \<not> staging p \<and> (\<forall>a \<in> set as. art_Target a = p \<longrightarrow> artifact_kind a \<noteq> ArtifactSchema)"

definition agrees :: "artifact list \<Rightarrow> (string \<Rightarrow> ufile option) \<Rightarrow> usys \<Rightarrow> bool" where
  "agrees as v s \<longleftrightarrow> (\<forall>p. visible as p \<longrightarrow> fget s p = v p)"

definition idle :: "usys \<Rightarrow> bool" where
  "idle s \<longleftrightarrow> \<not> fs_txdir s \<and> (\<forall>p. below_tx p \<longrightarrow> fget s p = None)"

definition journal :: "snapshotMetadata \<Rightarrow> usys \<Rightarrow> bool" where
  "journal md s \<longleftrightarrow> fs_txdir s \<and> (\<exists>m. fget s (tx_path ''metadata.json'') = Some (Journal md, m))"

text \<open>The snapshots have what is needed to restore \<open>old\<close>.\<close>

definition entry_ok :: "artifact list \<Rightarrow> (string \<Rightarrow> ufile option) \<Rightarrow> usys \<Rightarrow> snapshotEntry \<Rightarrow> bool" where
  "entry_ok as old s e \<longleftrightarrow> validTarget (se_Target e) \<and>
     (se_Kind e \<noteq> ArtifactSchema \<longrightarrow> visible as (se_Target e) \<and>
        (if se_Exists e then fget s (snap_path (se_Target e)) = old (se_Target e) \<and> old (se_Target e) \<noteq> None
         else old (se_Target e) = None))"

definition snapshots :: "artifact list \<Rightarrow> (string \<Rightarrow> ufile option) \<Rightarrow> snapshotMetadata \<Rightarrow> usys \<Rightarrow> bool" where
  "snapshots as old md s \<longleftrightarrow> visible as ''current-release'' \<and> (\<forall>e \<in> set (sm_Targets md). entry_ok as old s e) \<and>
     (if sm_CurrentReleaseExists md then fget s (tx_path ''current-release'') = old ''current-release'' \<and> old ''current-release'' \<noteq> None
      else old ''current-release'' = None)"

definition touched :: "snapshotMetadata \<Rightarrow> string set" where
  "touched md = {se_Target e |e. e \<in> set (sm_Targets md) \<and> se_Kind e \<noteq> ArtifactSchema} \<union> {''current-release''}"

text \<open>Every visible file outside of \<open>D\<close> is as it was.\<close>

definition restored :: "artifact list \<Rightarrow> (string \<Rightarrow> ufile option) \<Rightarrow> string set \<Rightarrow> usys \<Rightarrow> bool" where
  "restored as old D s \<longleftrightarrow> (\<forall>p. visible as p \<longrightarrow> p \<notin> D \<longrightarrow> fget s p = old p)"

definition pending :: "artifact list \<Rightarrow> (string \<Rightarrow> ufile option) \<Rightarrow> string set \<Rightarrow> snapshotMetadata \<Rightarrow> usys \<Rightarrow> bool" where
  "pending as old D md s \<longleftrightarrow> journal md s \<and> snapshots as old md s \<and> restored as old D s"

definition tx_ok :: "artifact list \<Rightarrow> (string \<Rightarrow> ufile option) \<Rightarrow> (string \<Rightarrow> ufile option) \<Rightarrow> usys \<Rightarrow> bool" where
  "tx_ok as old new s \<longleftrightarrow>
     (idle s \<and> (agrees as old s \<or> agrees as new s)) \<or>
     (fs_txdir s \<and> fget s (tx_path ''metadata.json'') = None \<and> agrees as old s) \<or>
     (\<exists>md. pending as old (touched md) md s \<and> (sm_State md = ''committed'' \<longrightarrow> agrees as new s))"

lemma agrees_restored: "agrees as old s \<longleftrightarrow> restored as old {} s"
  by (simp add: agrees_def restored_def)

lemma restored_mono: "restored as old D s \<Longrightarrow> D \<subseteq> D' \<Longrightarrow> restored as old D' s"
  by (auto simp: restored_def)

lemma pending_mono: "pending as old D md s \<Longrightarrow> D \<subseteq> D' \<Longrightarrow> pending as old D' md s"
  by (auto simp: pending_def intro: restored_mono)

lemma below_tx_path [simp]: "below_tx (tx_path p)" "below_tx (snap_path p)"
  by (simp_all add: tx_path_def snap_path_def has_prefix_def)

lemma below_tx_not_staging: "below_tx p \<Longrightarrow> \<not> staging p"
  by (auto simp: has_prefix_def prefix_def transactionDirectory_def stagingDirectory_def)

lemma visible_not [simp]: "visible as p \<Longrightarrow> \<not> below_tx p" "visible as p \<Longrightarrow> \<not> staging p"
  by (simp_all add: visible_def)

lemma visible_ne [simp]: "visible as p \<Longrightarrow> p \<noteq> tx_path q" "visible as p \<Longrightarrow> p \<noteq> snap_path q" "visible as p \<Longrightarrow> p \<noteq> stage_path q"
  using visible_not staging_stage below_tx_path by metis+

lemma eqv_agrees: "eqv s s' \<Longrightarrow> agrees as v s' = agrees as v s"
  by (auto simp: eqv_def agrees_def)

lemma eqv_idle: "eqv s s' \<Longrightarrow> idle s' = idle s"
  by (auto simp: eqv_def idle_def below_tx_not_staging)

lemma eqv_pending: "eqv s s' \<Longrightarrow> pending as old D md s' = pending as old D md s"
  by (auto simp: eqv_def pending_def journal_def snapshots_def entry_ok_def restored_def)

lemma eqv_tx_ok: "eqv s s' \<Longrightarrow> tx_ok as old new s' = tx_ok as old new s"
proof -
  assume e: "eqv s s'"
  then have "fs_txdir s' = fs_txdir s" "fget s' (tx_path ''metadata.json'') = fget s (tx_path ''metadata.json'')"
    by (simp_all add: eqv_def)
  then show ?thesis by (simp only: tx_ok_def eqv_agrees [OF e] eqv_idle [OF e] eqv_pending [OF e])
qed

lemmas eqv_facts = eqv_agrees eqv_idle eqv_pending eqv_tx_ok


section \<open>Removing the transaction\<close>

text \<open>The removal of the transaction directory is neither interrupted nor fails.\<close>

definition safe_removal :: "fates \<Rightarrow> bool" where
  "safe_removal ev \<longleftrightarrow> (\<forall>n p. below_tx p \<longrightarrow> ev n (UnlinkOp p) = Fine) \<and> (\<forall>n. ev n (RmdirOp transactionDirectory) = Fine)"

definition fine :: "fates \<Rightarrow> bool" where
  "fine ev \<longleftrightarrow> (\<forall>n op. ev n op = Fine)"

lemma fine_safe: "fine ev \<Longrightarrow> safe_removal ev" by (simp add: fine_def safe_removal_def)

lemma remove_files_safe:
  "safe_removal ev \<Longrightarrow> \<forall>p \<in> set ps. below_tx p \<Longrightarrow>
   wp (remove_files ev ps) (\<lambda>_ s'. fs_txdir s' = fs_txdir s \<and> fget s' = (\<lambda>p. if p \<in> set ps then None else fget s p)) (\<lambda>_. False) s"
proof (induction ps arbitrary: s)
  case (Cons p ps)
  let ?s = "fdel p (tick s)"
  have "ev (fs_clock s) (UnlinkOp p) = Fine" using Cons.prems by (simp add: safe_removal_def)
  moreover have "wp (remove_files ev ps) (\<lambda>_ s'. fs_txdir s' = fs_txdir s \<and> fget s' = (\<lambda>q. if q \<in> set (p # ps) then None else fget s q)) (\<lambda>_. False) ?s"
    by (rule wp_mono [OF Cons.IH]) (use Cons.prems in \<open>auto simp: fun_eq_iff\<close>)
  ultimately show ?case by (auto simp: remove_file_def intro!: wp_step)
qed simp

lemma remove_tx:
  assumes "safe_removal ev"
  shows "wp (removeTree ev transactionDirectory)
    (\<lambda>_ s'. \<not> fs_txdir s' \<and> fget s' = (\<lambda>p. if below_tx p then None else fget s p)) (\<lambda>_. False) s"
proof -
  let ?ps = "filter below_tx (map fst (fs_files s))"
  have "(if p \<in> set ?ps then None else fget s p) = (if below_tx p then None else fget s p)" for p
    by (auto simp: fget_def map_of_eq_None_iff)
  then have eq: "(\<lambda>p. if p \<in> set ?ps then None else fget s p) = (\<lambda>p. if below_tx p then None else fget s p)" by (rule ext)
  have files: "wp (remove_files ev ?ps)
      (\<lambda>_ s'. fs_txdir s' = fs_txdir s \<and> fget s' = (\<lambda>p. if p \<in> set ?ps then None else fget s p)) (\<lambda>_. False) s"
    by (rule remove_files_safe [OF assms]) simp
  have dir: "wp (step ev (RmdirOp transactionDirectory) (\<lambda>s. (Inr (), if transactionDirectory = transactionDirectory then s\<lparr>fs_txdir := False\<rparr> else s)))
      (\<lambda>_ s'. \<not> fs_txdir s' \<and> fget s' = g) (\<lambda>_. False) s1" if "fget s1 = g" for s1 g
    using that assms by (auto simp: safe_removal_def intro!: wp_step)
  have "wp (bnd (remove_files ev ?ps) (\<lambda>_. step ev (RmdirOp transactionDirectory)
      (\<lambda>s. (Inr (), if transactionDirectory = transactionDirectory then s\<lparr>fs_txdir := False\<rparr> else s))))
      (\<lambda>_ s'. \<not> fs_txdir s' \<and> fget s' = (\<lambda>p. if below_tx p then None else fget s p)) (\<lambda>_. False) s"
    unfolding wp_bnd by (rule wp_mono [OF files]) (auto intro: dir simp only: eq)
  then show ?thesis by (simp add: removeTree_def wp_def del: wp_bnd)
qed

lemma staging_removed: "wp (removeTree ev stagingDirectory) (\<lambda>_. eqv s) (\<lambda>s'. \<not> fine ev \<and> eqv s s') s"
proof -
  have fin: "fst (remove_files ev ps s) = Done ()" if "fine ev" for ps s
    using that by (induction ps arbitrary: s) (auto simp: ret_def bnd_def remove_file_def step_def fine_def Let_def split: prod.split)
  have "fst (removeTree ev stagingDirectory s) = Done ()" if "fine ev"
    using that fin [OF that, of "filter staging (map fst (fs_files s))" s]
    by (auto simp: removeTree_def bnd_def step_def fine_def Let_def split: prod.split outcome.split)
  then show ?thesis using neutral_remove_staging [of ev, unfolded neutral_def, rule_format, of s]
    by (auto simp: wp_def split: prod.splits outcome.splits)
qed

text \<open>Cleaning up keeps the visible files and gives an idle system, or fails with the transaction left as it was.\<close>

lemma cleanup_spec:
  assumes "safe_removal ev"
  shows "wp (cleanupTransaction ev)
    (\<lambda>_ s'. idle s' \<and> (\<forall>p. \<not> below_tx p \<longrightarrow> \<not> staging p \<longrightarrow> fget s' p = fget s p)) (\<lambda>s'. \<not> fine ev \<and> eqv s s') s"
proof -
  have "wp (removeTree ev transactionDirectory)
      (\<lambda>_ s'. idle s' \<and> (\<forall>p. \<not> below_tx p \<longrightarrow> \<not> staging p \<longrightarrow> fget s' p = fget s p)) (\<lambda>s'. \<not> fine ev \<and> eqv s s') s1" if "eqv s s1" for s1
    by (rule wp_mono [OF remove_tx [OF assms]]) (use that in \<open>auto simp: idle_def eqv_def\<close>)
  then show ?thesis
    unfolding cleanupTransaction_def wp_bnd by (intro wp_mono [OF staging_removed]) auto
qed

lemma cleanup_agrees:
  assumes "safe_removal ev" "agrees as v s"
  shows "wp (cleanupTransaction ev) (\<lambda>_ s'. idle s' \<and> agrees as v s') (\<lambda>s'. \<not> fine ev \<and> eqv s s') s"
  by (rule wp_mono [OF cleanup_spec [OF assms(1)]]) (use assms(2) in \<open>auto simp: agrees_def\<close>)

section \<open>Rolling back\<close>

lemma wp_write:
  "(\<not> fine ev \<Longrightarrow> E (tick s) \<and> E (fput p (c, m) (tick s))) \<Longrightarrow> Q () (fput p (c, m) (tick s)) \<Longrightarrow>
   wp (write_file ev p c m) Q E s"
  unfolding write_file_def by (rule wp_step) (auto simp: fine_def)

lemma wp_copy:
  "fget s src = Some f \<Longrightarrow> (\<not> fine ev \<Longrightarrow> E (tick s) \<and> E (fput dst (fst f, m) (tick s))) \<Longrightarrow>
   Q () (fput dst (fst f, m) (tick s)) \<Longrightarrow> wp (copyAtomic ev src dst m) Q E s"
  unfolding copyAtomic_def by (rule wp_step) (auto simp: fine_def)

lemma wp_remove:
  "(\<not> fine ev \<Longrightarrow> E (tick s) \<and> E (fdel p (tick s))) \<Longrightarrow> Q () (fdel p (tick s)) \<Longrightarrow> wp (remove_file ev p) Q E s"
  unfolding remove_file_def by (rule wp_step) (auto simp: fine_def)

lemma wp_stat:
  "fget s p = Some f \<Longrightarrow> (\<not> fine ev \<Longrightarrow> E (tick s)) \<Longrightarrow> Q f (tick s) \<Longrightarrow> wp (stat_file ev p) Q E s"
  unfolding stat_file_def by (rule wp_step) (auto simp: fine_def)

lemma wp_restore:
  assumes "fget s src = Some f" "\<And>n. \<not> fine ev \<Longrightarrow> E (s\<lparr>fs_clock := n\<rparr>) \<and> E (fput dst f (s\<lparr>fs_clock := n\<rparr>))"
    "\<And>n. Q () (fput dst f (s\<lparr>fs_clock := n\<rparr>))"
  shows "wp (stat_file ev src) (\<lambda>f. wp (copyAtomic ev src dst (snd f)) Q E) E s"
  by (rule wp_stat [OF assms(1)], use assms(2) in simp, rule wp_copy [where f = f]) (use assms in auto)

lemma pending_tick [simp]: "pending as old D md (s\<lparr>fs_clock := n\<rparr>) = pending as old D md s"
  by (rule eqv_pending) simp

lemma agrees_tick [simp]: "agrees as v (s\<lparr>fs_clock := n\<rparr>) = agrees as v s"
  by (rule eqv_agrees) simp

lemma tx_frame:
  assumes "fs_txdir s' = fs_txdir s" "\<And>p. below_tx p \<Longrightarrow> fget s' p = fget s p"
  shows "journal md s' = journal md s" "snapshots as old md s' = snapshots as old md s"
  using assms by (simp_all add: journal_def snapshots_def entry_ok_def)

lemma visible_frame [simp]:
  assumes "visible as p"
  shows "journal md (fput p f s) = journal md s" "journal md (fdel p s) = journal md s"
    "snapshots as old md (fput p f s) = snapshots as old md s" "snapshots as old md (fdel p s) = snapshots as old md s"
  using visible_not(1) [OF assms] by (auto intro!: tx_frame)

lemma pending_put:
  "pending as old D md s \<Longrightarrow> visible as p \<Longrightarrow> p \<in> D \<Longrightarrow> pending as old D md (fput p f s)"
  "pending as old D md s \<Longrightarrow> visible as p \<Longrightarrow> p \<in> D \<Longrightarrow> pending as old D md (fdel p s)"
  by (auto simp: pending_def restored_def)

lemma pending_restore:
  "pending as old D md s \<Longrightarrow> visible as p \<Longrightarrow> old p = Some f \<Longrightarrow> pending as old (D - {p}) md (fput p f s)"
  "pending as old D md s \<Longrightarrow> visible as p \<Longrightarrow> old p = None \<Longrightarrow> pending as old (D - {p}) md (fdel p s)"
  by (auto simp: pending_def restored_def)

lemma visible_release [simp]: "\<forall>a \<in> set as. validTarget (art_Target a) \<Longrightarrow> visible as ''current-release''"
  by (auto simp: visible_def has_prefix_def transactionDirectory_def stagingDirectory_def validTarget_def target_dirs_def split: if_splits)


lemma journal_paths [simp]:
  "snap_path t \<noteq> tx_path ''metadata.json''" "tx_path ''metadata.json'' \<noteq> snap_path t"
  "tx_path ''current-release'' \<noteq> tx_path ''metadata.json''" "tx_path ''metadata.json'' \<noteq> tx_path ''current-release''"
  "snap_path t = snap_path u \<longleftrightarrow> t = u" "snap_path t \<noteq> tx_path ''current-release''" "tx_path ''current-release'' \<noteq> snap_path t"
  by (simp_all add: snap_path_def tx_path_def)

lemma touched_State [simp]: "touched (md\<lparr>sm_State := st\<rparr>) = touched md"
  by (simp add: touched_def)

lemma pending_write:
  "pending as old D md s \<Longrightarrow> pending as old D (md\<lparr>sm_State := st\<rparr>) (fput (tx_path ''metadata.json'') (Journal (md\<lparr>sm_State := st\<rparr>), m) s)"
  by (auto simp: pending_def journal_def snapshots_def entry_ok_def restored_def)

lemma tx_ok_pending: "pending as old (touched md) md s \<Longrightarrow> sm_State md \<noteq> ''committed'' \<or> agrees as new s \<Longrightarrow> tx_ok as old new s"
  by (auto simp: tx_ok_def)

lemma rollback_targets_spec:
  assumes "set es \<subseteq> set (sm_Targets md)" "pending as old D md s" "D \<subseteq> touched md"
  shows "wp (rollback_targets ev es) (\<lambda>_. pending as old (D - se_Target ` {e \<in> set es. se_Kind e \<noteq> ArtifactSchema}) md)
    (\<lambda>s'. \<not> fine ev \<and> pending as old (touched md) md s') s"
  using assms
proof (induction es arbitrary: D s)
  case (Cons e es)
  let ?R = "\<lambda>D s. wp (rollback_targets ev es) (\<lambda>_. pending as old (D - se_Target ` {e \<in> set es. se_Kind e \<noteq> ArtifactSchema}) md)
    (\<lambda>s'. \<not> fine ev \<and> pending as old (touched md) md s') s"
  have IH: "?R D' s'" if "pending as old D' md s'" "D' \<subseteq> touched md" for D' s'
    using Cons.IH [OF _ that] Cons.prems(1) by simp
  have ok: "entry_ok as old s e" using Cons.prems by (simp add: pending_def snapshots_def)
  have all: "pending as old (touched md) md s" by (rule pending_mono [OF Cons.prems(2,3)])
  show ?case
  proof (cases "se_Kind e = ArtifactSchema")
    case True
    then have "{x \<in> set (e # es). se_Kind x \<noteq> ArtifactSchema} = {x \<in> set es. se_Kind x \<noteq> ArtifactSchema}" by auto
    then show ?thesis using ok True IH [OF Cons.prems(2,3)] by (simp add: entry_ok_def)
  next
    case False
    let ?t = "se_Target e"
    have D: "D - se_Target ` {x \<in> set (e # es). se_Kind x \<noteq> ArtifactSchema} = (D - {?t}) - se_Target ` {x \<in> set es. se_Kind x \<noteq> ArtifactSchema}"
      using False by auto
    have t: "visible as ?t" "?t \<in> touched md" "validTarget ?t"
      using ok False Cons.prems(1) by (auto simp: entry_ok_def touched_def)
    have sub: "D - {?t} \<subseteq> touched md" using Cons.prems(3) by auto
    show ?thesis
    proof (cases "se_Exists e")
      case True
      then obtain f where f: "fget s (snap_path ?t) = Some f" "old ?t = Some f"
        using ok False by (auto simp: entry_ok_def)
      have rest: "?R (D - {?t}) (fput ?t f (s\<lparr>fs_clock := n\<rparr>))" for n
        using f Cons.prems(2) t by (intro IH sub) (simp add: pending_restore)
      show ?thesis
        using True False t all rest unfolding D by (auto intro!: wp_restore [OF f(1)] pending_put)
    next
      case no: False
      then have "old ?t = None" using ok False by (auto simp: entry_ok_def)
      then have "?R (D - {?t}) (fdel ?t (tick s))"
        using Cons.prems(2) t by (intro IH sub) (simp add: pending_restore)
      then show ?thesis
        using no False t all unfolding D by (auto intro!: wp_remove pending_put)
    qed
  qed
qed simp

lemma rollback_spec:
  assumes p: "pending as old (touched md) md s" and c: "sm_State md = ''committed'' \<Longrightarrow> agrees as new s"
  shows "wp (rollbackTransactionWithMetadata ev md)
    (\<lambda>_ s'. \<exists>md'. pending as old {} md' s' \<and> sm_State md' = ''rolling-back'') (\<lambda>s'. \<not> fine ev \<and> tx_ok as old new s') s"
proof -
  let ?md = "md\<lparr>sm_State := ''rolling-back''\<rparr>"
  let ?E = "\<lambda>s'. \<not> fine ev \<and> tx_ok as old new s'"
  let ?release = "if sm_CurrentReleaseExists md
       then bnd (stat_file ev (tx_path ''current-release'')) (\<lambda>f. copyAtomic ev (tx_path ''current-release'') ''current-release'' (snd f))
       else remove_file ev ''current-release''"
  have ok: "tx_ok as old new s'" if "pending as old (touched md) ?md s'" for s'
    using tx_ok_pending [of as old ?md s'] that by simp
  have rel: "wp ?release (\<lambda>_. pending as old {} ?md) ?E s'" if q: "pending as old {''current-release''} ?md s'" for s'
  proof -
    have v: "visible as ''current-release''" and t: "''current-release'' \<in> touched md"
      and sn: "if sm_CurrentReleaseExists md then fget s' (tx_path ''current-release'') = old ''current-release'' \<and> old ''current-release'' \<noteq> None
        else old ''current-release'' = None"
      using q by (auto simp: pending_def snapshots_def touched_def)
    have all: "pending as old (touched md) ?md s'" using t by (intro pending_mono [OF q]) auto
    show ?thesis
    proof (cases "sm_CurrentReleaseExists md")
      case True
      then obtain f where f: "fget s' (tx_path ''current-release'') = Some f" "old ''current-release'' = Some f" using sn by auto
      have "pending as old {} ?md (fput ''current-release'' f (s'\<lparr>fs_clock := n\<rparr>))" for n
        using pending_restore(1) [of as old "{''current-release''}" ?md "s'\<lparr>fs_clock := n\<rparr>" "''current-release''" f] q v f by simp
      moreover have "tx_ok as old new (fput ''current-release'' f (s'\<lparr>fs_clock := n\<rparr>))" for n
        by (rule ok, rule pending_put) (use all v t in auto)
      ultimately show ?thesis using True all by (auto intro!: wp_restore [OF f(1)] intro: ok)
    next
      case False
      have "pending as old {} ?md (fdel ''current-release'' (tick s'))"
        using pending_restore(2) [of as old "{''current-release''}" ?md "tick s'" "''current-release''"] q v sn False by simp
      moreover have "tx_ok as old new (fdel ''current-release'' (tick s'))"
        by (rule ok, rule pending_put) (use all v t in auto)
      ultimately show ?thesis using False all by (auto intro!: wp_remove intro: ok)
    qed
  qed
  have tg: "wp (rollback_targets ev (sm_Targets md)) (\<lambda>_. wp ?release (\<lambda>_. pending as old {} ?md) ?E) ?E s'"
    if "pending as old (touched md) ?md s'" for s'
  proof (rule wp_mono [OF rollback_targets_spec [of "sm_Targets md" ?md as old "touched md" s' ev]])
    show "wp ?release (\<lambda>_. pending as old {} ?md) ?E s1"
      if "pending as old (touched md - se_Target ` {e \<in> set (sm_Targets md). se_Kind e \<noteq> ArtifactSchema}) ?md s1" for s1
      using that by (intro rel) (auto elim!: pending_mono simp: touched_def)
  qed (use that ok in auto)
  have w: "pending as old (touched md) ?md (fput (tx_path ''metadata.json'') (Journal ?md, m) (tick s))" for m
    by (rule pending_write) (use p in simp)
  have "wp (rollbackTransactionWithMetadata ev md) (\<lambda>_. pending as old {} ?md) ?E s"
    unfolding rollbackTransactionWithMetadata_def writeTransactionMetadata_def wp_bnd
    by (intro wp_write tg conjI) (use p c in \<open>auto intro: ok w tx_ok_pending\<close>)
  then show ?thesis by (rule wp_mono) auto
qed


lemma wp_attempt_read:
  assumes "\<not> fine ev \<Longrightarrow> E (tick s) \<and> Q (Inl ''io'') (tick s)"
    and "Q (case fget s p of None \<Rightarrow> Inl ENOENT | Some f \<Rightarrow> Inr (fst f)) (tick s)"
  shows "wp (attempt (readFile ev p)) Q E s"
proof -
  have "E (tick s) \<and> Q (Inl ''io'') (tick s)" if "ev (fs_clock s) (ReadOp p) \<noteq> Fine"
    using that by (intro assms(1)) (auto simp: fine_def)
  then show ?thesis
    using assms(2) by (auto simp: wp_def attempt_def readFile_def step_def Let_def split: fate.splits option.splits)
qed

lemma wp_attempt_stat:
  assumes "\<not> fine ev \<Longrightarrow> E (tick s) \<and> Q (Inl ''io'') (tick s)"
    and "Q (case fget s p of None \<Rightarrow> Inl ENOENT | Some f \<Rightarrow> Inr f) (tick s)"
  shows "wp (attempt (stat_file ev p)) Q E s"
proof -
  have "E (tick s) \<and> Q (Inl ''io'') (tick s)" if "ev (fs_clock s) (StatOp p) \<noteq> Fine"
    using that by (intro assms(1)) (auto simp: fine_def)
  then show ?thesis
    using assms(2) by (auto simp: wp_def attempt_def stat_file_def step_def Let_def split: fate.splits option.splits)
qed

lemma tx_ok_tick [simp]: "tx_ok as old new (s\<lparr>fs_clock := n\<rparr>) = tx_ok as old new s"
  by (rule eqv_tx_ok) simp

lemma idle_tick [simp]: "idle (s\<lparr>fs_clock := n\<rparr>) = idle s"
  by (rule eqv_idle) simp

lemma activation_runs: "wp (runActivationAndHealthChecks ev) (\<lambda>_. eqv s) (\<lambda>s'. \<not> fine ev \<and> eqv s s') s"
proof -
  have "fst (run_commands ev cs s) = Done ()" if "fine ev" for cs s
    using that by (induction cs arbitrary: s) (auto simp: ret_def bnd_def step_def fine_def Let_def split: prod.split)
  from this [of activation_commands s]
  show ?thesis using neutral_activation [of ev, unfolded neutral_def, rule_format, of s]
    by (auto simp: wp_def runActivationAndHealthChecks_def split: prod.splits outcome.splits)
qed

lemma pending_agrees: "pending as old {} md s \<Longrightarrow> agrees as old s"
  by (simp add: pending_def agrees_restored)

lemma restored_tx_ok: "pending as old {} md s \<Longrightarrow> sm_State md \<noteq> ''committed'' \<Longrightarrow> tx_ok as old new s"
  by (rule tx_ok_pending [of _ _ md]) (auto elim: pending_mono)

text \<open>What follows a completed roll back, in a recovery and in a failed installation.\<close>

lemma activate_and_clean:
  assumes "safe_removal ev" "pending as old {} md s" "sm_State md = ''rolling-back''"
  shows "wp (bnd (runActivationAndHealthChecks ev) (\<lambda>_. cleanupTransaction ev)) (\<lambda>_ s'. idle s' \<and> agrees as old s')
    (\<lambda>s'. \<not> fine ev \<and> tx_ok as old new s') s"
proof -
  have ok: "tx_ok as old new s" using assms by (auto intro: restored_tx_ok)
  have "wp (cleanupTransaction ev) (\<lambda>_ s'. idle s' \<and> agrees as old s') (\<lambda>s'. \<not> fine ev \<and> tx_ok as old new s') s1" if "eqv s s1" for s1
  proof (rule wp_mono [OF cleanup_agrees])
    show "agrees as old s1" using that eqv_agrees pending_agrees [OF assms(2)] by blast
  qed (use assms that ok in \<open>auto simp: eqv_tx_ok\<close>)
  then show ?thesis
    unfolding wp_bnd by (intro wp_mono [OF activation_runs]) (use ok in \<open>auto simp: eqv_tx_ok\<close>)
qed

lemma tx_ok_cases [consumes 1, case_names idle empty pending]:
  assumes "tx_ok as old new s"
  obtains "idle s" "agrees as old s \<or> agrees as new s"
    | "fs_txdir s" "fget s (tx_path ''metadata.json'') = None" "agrees as old s"
    | md m where "pending as old (touched md) md s" "sm_State md = ''committed'' \<Longrightarrow> agrees as new s"
        "fs_txdir s" "fget s (tx_path ''metadata.json'') = Some (Journal md, m)"
  using assms by (auto simp: tx_ok_def pending_def journal_def)

lemma recover_spec:
  assumes safe: "safe_removal ev" and ok: "tx_ok as old new s"
  shows "wp (recoverInterruptedTransaction ev True req) (\<lambda>_ s'. idle s' \<and> (agrees as old s' \<or> agrees as new s'))
    (\<lambda>s'. \<not> fine ev \<and> tx_ok as old new s') s"
proof -
  let ?Q = "\<lambda>_ s'. idle s' \<and> (agrees as old s' \<or> agrees as new s')"
  let ?E = "\<lambda>s'. \<not> fine ev \<and> tx_ok as old new s'"
  have clean: "wp (cleanupTransaction ev) ?Q ?E (s\<lparr>fs_clock := n\<rparr>)" if either: "agrees as old s \<or> agrees as new s" for n
  proof -
    obtain v where v: "agrees as v (s\<lparr>fs_clock := n\<rparr>)" "v = old \<or> v = new" using either by (metis agrees_tick)
    show ?thesis by (rule wp_mono [OF cleanup_agrees [OF safe v(1)]]) (use v(2) ok in \<open>auto simp: eqv_tx_ok\<close>)
  qed
  note start = recoverInterruptedTransaction_def transactionExists_def
  show ?thesis
    using ok
  proof (cases rule: tx_ok_cases)
    case idle
    then show ?thesis using ok unfolding start by (auto simp: idle_def [of s] fine_def intro!: wp_step)
  next
    case empty
    then show ?thesis using ok clean unfolding start by (auto simp: fine_def intro!: wp_step wp_attempt_read)
  next
    case (pending md m)
    have rolled: "wp (rollbackTransactionWithMetadata ev md) (\<lambda>_. wp (bnd (runActivationAndHealthChecks ev) (\<lambda>_. cleanupTransaction ev)) ?Q ?E) ?E
        (s\<lparr>fs_clock := n\<rparr>)" for n
    proof (rule wp_mono [OF rollback_spec [of as old md _ new]])
      fix s' assume "\<exists>md'. Update_Apply.pending as old {} md' s' \<and> sm_State md' = ''rolling-back''"
      then show "wp (bnd (runActivationAndHealthChecks ev) (\<lambda>_. cleanupTransaction ev)) ?Q ?E s'"
        by (elim exE conjE) (rule wp_mono [OF activate_and_clean [OF safe]], auto)
    qed (use pending in auto)
    then show ?thesis
      using pending(2-4) ok clean unfolding start by (auto simp: fine_def decode_journal_def intro!: wp_step wp_attempt_read)
  qed
qed


section \<open>A failed installation\<close>

text \<open>Outcomes of an installation: \<open>st\<close> is the reported status.\<close>

definition outcome_ok :: "artifact list \<Rightarrow> (string \<Rightarrow> ufile option) \<Rightarrow> (string \<Rightarrow> ufile option) \<Rightarrow> upstatus \<times> string option \<Rightarrow> usys \<Rightarrow> bool" where
  "outcome_ok as old new r s \<longleftrightarrow> tx_ok as old new s \<and>
     (if snd r = None then us_State (fst r) = ''installed'' \<and> agrees as new s
      else us_State (fst r) = ''critical'' \<or> (us_State (fst r) = ''rolled-back'' \<and> idle s \<and> agrees as old s) \<or>
        (us_State (fst r) = ''error'' \<and> agrees as old s))"

lemma eqv_outcome: "eqv s s' \<Longrightarrow> outcome_ok as old new r s' = outcome_ok as old new r s"
  by (simp add: outcome_ok_def eqv_facts)

lemma finishStatus_error: "us_State (fst (finishStatus w p st (Some e))) = ''error''" "snd (finishStatus w p st (Some e)) \<noteq> None"
  by (auto simp: finishStatus_def Let_def split: option.splits)

lemma finish_error:
  assumes "tx_ok as old new s" "agrees as old s"
  shows "wp (finish ev path st (Some e)) (\<lambda>r s'. outcome_ok as old new r s' \<and> snd r \<noteq> None) (tx_ok as old new) s"
proof -
  have "wp (attempt (writeStatus ev st')) (\<lambda>_ s'. tx_ok as old new s' \<and> agrees as old s') (tx_ok as old new) s" for st'
    by (rule neutral_wp [OF neutral_attempt [OF neutral_basic(4)]]) (use assms in \<open>simp_all add: eqv_facts\<close>)
  then show ?thesis
    using assms unfolding finish_def Let_def
    by (auto simp: outcome_ok_def finishStatus_error simp del: not_None_eq elim!: wp_mono)
qed

lemma rollbackFailedInstall_spec:
  assumes safe: "safe_removal ev" and p: "pending as old (touched md) md s" and c: "sm_State md = ''committed'' \<Longrightarrow> agrees as new s"
  shows "wp (rollbackFailedInstall ev cfg st e) (outcome_ok as old new) (tx_ok as old new) s"
proof -
  obtain m where j: "fget s (tx_path ''metadata.json'') = Some (Journal md, m)" using p by (auto simp: pending_def journal_def)
  have ok: "tx_ok as old new s" using p c tx_ok_pending by blast
  let ?after = "bnd (runActivationAndHealthChecks ev) (\<lambda>_. cleanupTransaction ev)"
  have after: "wp ?after (\<lambda>_ s'. idle s' \<and> agrees as old s') (tx_ok as old new) s'"
    if "\<exists>md'. pending as old {} md' s' \<and> sm_State md' = ''rolling-back''" for s'
    using that by (elim exE conjE) (rule wp_mono [OF activate_and_clean [OF safe]], auto)
  have "wp (rollbackTransactionWithMetadata ev md) (\<lambda>_. wp ?after (\<lambda>_ s'. idle s' \<and> agrees as old s') (tx_ok as old new)) (tx_ok as old new) (tick s)"
    by (rule wp_mono [OF rollback_spec [of as old md _ new]]) (use p c after in auto)
  then have "wp (bnd (rollbackTransaction ev) (\<lambda>_. ?after)) (\<lambda>_ s'. idle s' \<and> agrees as old s') (tx_ok as old new) s"
    unfolding rollbackTransaction_def readFile_def using j ok by (auto simp: decode_journal_def intro!: wp_step)
  then have main: "wp (attempt (bnd (rollbackTransaction ev) (\<lambda>_. ?after)))
      (\<lambda>r s'. tx_ok as old new s' \<and> (r \<in> range Inr \<longrightarrow> idle s' \<and> agrees as old s')) (tx_ok as old new) s"
    by (rule wp_attempt) (auto simp: tx_ok_def)
  have status: "wp (report ev cfg st') (\<lambda>_ s'. tx_ok as old new s' \<and> (b \<longrightarrow> idle s' \<and> agrees as old s')) (tx_ok as old new) s'"
    if "tx_ok as old new s'" "b \<longrightarrow> idle s' \<and> agrees as old s'" for st' b s'
    using that by (intro neutral_wp [OF neutral_report]) (auto simp: eqv_facts)
  show ?thesis
    unfolding rollbackFailedInstall_def wp_bnd
    by (rule wp_mono [OF main])
      (auto simp: Let_def outcome_ok_def split: sum.split intro: wp_mono [OF status [where b = True]] wp_mono [OF status [where b = False]])
qed


section \<open>Downloading\<close>

text \<open>The body has the size and the checksum that the signed manifest states.\<close>

definition genuine :: "(string \<Rightarrow> string) \<Rightarrow> (artifact \<Rightarrow> string option) \<Rightarrow> artifact \<Rightarrow> bool" where
  "genuine sha feed a \<longleftrightarrow> (\<exists>body. feed a = Some body \<and> int (length body) = art_Size a \<and> hex_decode (art_SHA256 a) = Some (sha body))"

definition artifact_file :: "(artifact \<Rightarrow> string option) \<Rightarrow> artifact \<Rightarrow> ufile" where
  "artifact_file feed a = (Text (the (feed a)), art_Mode a)"

abbreviation staged :: "(artifact \<Rightarrow> string option) \<Rightarrow> artifact \<Rightarrow> usys \<Rightarrow> bool" where
  "staged feed a s \<equiv> fget s (stage_path (art_Target a)) = Some (artifact_file feed a)"

lemma download_spec:
  assumes "distinct (map art_Target (ds @ as))" "\<forall>a \<in> set ds. staged feed a s"
  shows "wp (downloadArtifacts ev sha feed as)
    (\<lambda>_ s'. eqv s s' \<and> (\<forall>a \<in> set (ds @ as). staged feed a s') \<and> (\<forall>a \<in> set as. genuine sha feed a)) (eqv s) s"
  using assms
proof (induction as arbitrary: ds s)
  case (Cons a as)
  show ?case
  proof (cases "feed a")
    case (Some body)
    let ?got = "take (nat (art_Size a) + 1) body"
    let ?s = "fput (stage_path (art_Target a)) (Text ?got, art_Mode a) (tick s)"
    have e: "eqv s ?s" using eqv_staging(1) [OF staging_stage] eqv_trans [of s "tick s"] by simp
    have "wp (downloadArtifacts ev sha feed as)
        (\<lambda>_ s'. eqv s s' \<and> (\<forall>x \<in> set (ds @ a # as). staged feed x s') \<and> (\<forall>x \<in> set (a # as). genuine sha feed x)) (eqv s) ?s"
      if ok: "int (length ?got) = art_Size a" "hex_decode (art_SHA256 a) = Some (sha ?got)"
    proof -
      have got: "?got = body" using ok(1) by auto
      then have "genuine sha feed a" using ok Some by (simp add: genuine_def)
      moreover have "art_Target a \<notin> art_Target ` set ds" using Cons.prems(1) by simp
      then have "art_Target x \<noteq> art_Target a" if "x \<in> set ds" for x
        using that by (metis image_eqI)
      then have "\<forall>x \<in> set (ds @ [a]). staged feed x ?s"
        using Cons.prems(2) got Some by (auto simp: artifact_file_def)
      ultimately show ?thesis
        by (intro wp_mono [OF Cons.IH [of "ds @ [a]" ?s]]) (use Cons.prems e in \<open>auto intro: eqv_trans\<close>)
    qed
    then show ?thesis using Some e by (auto simp: Let_def intro!: wp_write)
  qed simp
qed simp

section \<open>Beginning a transaction\<close>

lemma valid_target_public:
  assumes "validTarget t"
  shows "\<not> below_tx t" "\<not> staging t" "t \<noteq> ''current-release''"
  using assms
  by (auto simp: validTarget_def target_dirs_def has_prefix_def prefix_def transactionDirectory_def stagingDirectory_def split: if_splits)

lemma target_visible:
  assumes "\<forall>a \<in> set as. validTarget (art_Target a)" "distinct (map art_Target as)" "a \<in> set as"
  shows "visible as (art_Target a) \<longleftrightarrow> artifact_kind a \<noteq> ArtifactSchema"
proof -
  have "b = a" if "b \<in> set as" "art_Target b = art_Target a" for b
    using assms(2,3) that by (simp add: distinct_map inj_on_def)
  moreover have "\<not> below_tx (art_Target a)" "\<not> staging (art_Target a)"
    using valid_target_public assms(1,3) by blast+
  ultimately show ?thesis using assms(3) unfolding visible_def by metis
qed

lemma entry_put:
  "entry_ok as old s e \<Longrightarrow> old t = Some f \<Longrightarrow> entry_ok as old (fput (snap_path t) f s) e"
  by (auto simp: entry_ok_def)

definition recording :: "artifact list \<Rightarrow> (string \<Rightarrow> ufile option) \<Rightarrow> (string \<Rightarrow> ufile option) \<Rightarrow> snapshotEntry list \<Rightarrow> usys \<Rightarrow> bool" where
  "recording as old g es s \<longleftrightarrow> fs_txdir s \<and> fget s (tx_path ''metadata.json'') = None \<and> agrees as old s \<and>
     (\<forall>e \<in> set es. entry_ok as old s e) \<and> (\<forall>p. staging p \<longrightarrow> fget s p = g p)"

abbreviation entry_keys :: "snapshotEntry list \<Rightarrow> (string \<times> string) list" where
  "entry_keys es \<equiv> map (\<lambda>e. (se_Target e, se_Kind e)) es"

lemma recording_tx_ok: "recording as old g es s \<Longrightarrow> tx_ok as old new s \<and> agrees as old s"
  by (simp add: recording_def tx_ok_def)

lemma recording_tick [simp]: "recording as old g es (s\<lparr>fs_clock := n\<rparr>) = recording as old g es s"
  by (simp add: recording_def entry_ok_def)

lemma recording_copy:
  assumes "recording as old g es s" "old t = Some f"
  shows "recording as old g es (fput (snap_path t) f s)"
  using assms by (auto simp: recording_def agrees_def entry_put)

lemma snapshot_targets_spec:
  assumes valid: "\<forall>a \<in> set all. validTarget (art_Target a)" and dist: "distinct (map art_Target all)"
  shows "set as \<subseteq> set all \<Longrightarrow> recording all old g es s \<Longrightarrow>
    wp (snapshot_targets ev as es)
      (\<lambda>es' s'. recording all old g es' s' \<and> entry_keys es' = entry_keys es @ map (\<lambda>a. (art_Target a, artifact_kind a)) as)
      (\<lambda>s'. tx_ok all old new s' \<and> agrees all old s') s"
proof (induction as arbitrary: es s)
  case (Cons a as)
  let ?t = "art_Target a"
  let ?e = "\<lambda>b. \<lparr>se_Target = ?t, se_Exists = b, se_Kind = artifact_kind a\<rparr>"
  let ?Q = "\<lambda>es' s'. recording all old g es' s' \<and> entry_keys es' = entry_keys es @ map (\<lambda>a. (art_Target a, artifact_kind a)) (a # as)"
  let ?E = "\<lambda>s'. tx_ok all old new s' \<and> agrees all old s'"
  have IH: "wp (snapshot_targets ev as (es @ [?e b])) ?Q ?E s'" if "recording all old g (es @ [?e b]) s'" for b s'
    by (rule wp_mono [OF Cons.IH [OF _ that]]) (use Cons.prems(1) in auto)
  have v: "validTarget ?t" using valid Cons.prems by auto
  have vis: "visible all ?t \<longleftrightarrow> artifact_kind a \<noteq> ArtifactSchema" using target_visible [OF valid dist] Cons.prems(1) by auto
  have E: "?E (s\<lparr>fs_clock := n\<rparr>)" for n using recording_tx_ok [OF Cons.prems(2)] by auto
  show ?case
  proof (cases "fget s ?t")
    case None
    have "recording all old g (es @ [?e False]) (tick s)"
      using Cons.prems(2) None v vis by (auto simp: recording_def entry_ok_def agrees_def)
    with IH [OF this] show ?thesis using E None by (auto intro!: wp_attempt_stat)
  next
    case (Some f)
    show ?thesis
    proof (cases "artifact_kind a = ArtifactSchema")
      case True
      have "recording all old g (es @ [?e True]) (tick s)"
        using Cons.prems(2) True v by (auto simp: recording_def entry_ok_def)
      with IH [OF this] show ?thesis using E Some True by (auto simp: Let_def intro!: wp_attempt_stat)
    next
      case False
      then have old: "old ?t = Some f" using Cons.prems(2) Some vis by (auto simp: recording_def agrees_def)
      have r: "recording all old g es (fput (snap_path ?t) f (s\<lparr>fs_clock := n\<rparr>))" for n
        by (rule recording_copy) (use Cons.prems(2) old in simp_all)
      have "recording all old g (es @ [?e True]) (fput (snap_path ?t) f (s\<lparr>fs_clock := n\<rparr>))" for n
        using r [of n] old v vis False by (auto simp: recording_def entry_ok_def)
      with IH [OF this] show ?thesis
        using E Some False recording_tx_ok [OF r] by (auto simp: Let_def intro!: wp_attempt_stat wp_copy [where f = f])
    qed
  qed
qed simp


lemma snapshot_release_spec:
  assumes "recording all old g es s" "visible all ''current-release''"
  shows "wp (snapshot_release ev)
    (\<lambda>b s'. recording all old g es s' \<and> (if b then fget s' (tx_path ''current-release'') = old ''current-release'' \<and> old ''current-release'' \<noteq> None
       else old ''current-release'' = None))
    (\<lambda>s'. tx_ok all old new s' \<and> agrees all old s') s"
proof -
  have old: "fget s ''current-release'' = old ''current-release''" using assms by (simp add: recording_def agrees_def)
  have r: "recording all old g es (fput (tx_path ''current-release'') f (s\<lparr>fs_clock := n\<rparr>))" for f n
    using assms(1) by (simp add: recording_def agrees_def entry_ok_def)
  show ?thesis
    unfolding snapshot_release_def
    using old assms(1) recording_tx_ok [OF assms(1)] recording_tx_ok [OF r] r
    by (cases "old ''current-release''") (auto intro!: wp_attempt_stat wp_copy)
qed

definition runtime_targets :: "artifact list \<Rightarrow> string set" where
  "runtime_targets as = {art_Target a |a. a \<in> set as \<and> artifact_kind a \<noteq> ArtifactSchema}"

lemma beginTransaction_spec:
  assumes safe: "safe_removal ev" and valid: "\<forall>a \<in> set as. validTarget (art_Target a)" and dist: "distinct (map art_Target as)"
    and s: "idle s" "agrees as old s"
  shows "wp (beginTransaction ev as)
    (\<lambda>md s'. pending as old {} md s' \<and> sm_State md = ''prepared'' \<and> touched md = insert ''current-release'' (runtime_targets as) \<and>
       (\<forall>p. staging p \<longrightarrow> fget s' p = fget s p))
    (\<lambda>s'. tx_ok as old new s' \<and> agrees as old s') s"
proof -
  let ?g = "fget s"
  let ?E = "\<lambda>s'. tx_ok as old new s' \<and> agrees as old s'"
  let ?Q = "\<lambda>md s'. pending as old {} md s' \<and> sm_State md = ''prepared'' \<and> touched md = insert ''current-release'' (runtime_targets as) \<and>
    (\<forall>p. staging p \<longrightarrow> fget s' p = fget s p)"
  have vr: "visible as ''current-release''" using valid by simp
  have finish: "wp (writeTransactionMetadata ev md) (\<lambda>_. ?Q md) ?E s1"
    if md: "md = \<lparr>sm_State = ''prepared'', sm_Targets = es, sm_CurrentReleaseExists = b\<rparr>"
      and r: "recording as old ?g es s1" and keys: "entry_keys es = map (\<lambda>a. (art_Target a, artifact_kind a)) as"
      and rel: "if b then fget s1 (tx_path ''current-release'') = old ''current-release'' \<and> old ''current-release'' \<noteq> None
        else old ''current-release'' = None" for es b s1 md
  proof -
    let ?s = "fput (tx_path ''metadata.json'') (Journal md, 384) (tick s1)"
    have "(\<lambda>e. (se_Target e, se_Kind e)) ` set es = (\<lambda>a. (art_Target a, artifact_kind a)) ` set as"
      using arg_cong [OF keys, of set] by simp
    then have t: "touched md = insert ''current-release'' (runtime_targets as)"
      unfolding touched_def runtime_targets_def md by (auto simp: set_eq_iff image_iff) metis+
    have "pending as old {} md ?s"
      using r rel vr by (auto simp: md pending_def journal_def snapshots_def recording_def entry_ok_def restored_def agrees_def)
    moreover from this have "?E ?s"
      using restored_tx_ok [of as old md ?s new] pending_agrees [of as old md ?s] by (simp add: md)
    moreover have "\<forall>p. staging p \<longrightarrow> fget ?s p = fget s p"
      using r by (auto simp: recording_def)
    ultimately show ?thesis
      using t recording_tx_ok [OF r] unfolding writeTransactionMetadata_def by (auto simp: md intro!: wp_write)
  qed
  have release: "wp (snapshot_release ev)
      (\<lambda>b. wp (let md = \<lparr>sm_State = ''prepared'', sm_Targets = es, sm_CurrentReleaseExists = b\<rparr>
         in bnd (writeTransactionMetadata ev md) (\<lambda>_. ret md)) ?Q ?E) ?E s1"
    if "recording as old ?g es s1" "entry_keys es = map (\<lambda>a. (art_Target a, artifact_kind a)) as" for es s1
    by (rule wp_mono [OF snapshot_release_spec [OF that(1) vr]]) (use that(2) finish in \<open>auto simp: Let_def\<close>)
  have snaps: "wp (snapshot_targets ev as []) (\<lambda>es. wp (snapshot_release ev)
      (\<lambda>b. wp (let md = \<lparr>sm_State = ''prepared'', sm_Targets = es, sm_CurrentReleaseExists = b\<rparr>
         in bnd (writeTransactionMetadata ev md) (\<lambda>_. ret md)) ?Q ?E) ?E) ?E s1"
    if "recording as old ?g [] s1" for s1
    by (rule wp_mono [OF snapshot_targets_spec [OF valid dist subset_refl that]]) (use release in auto)
  have dir: "has_prefix (tx_path ''targets'' @ ''/'') (transactionDirectory @ ''/'')"
    by (simp add: tx_path_def has_prefix_def)
  have mk: "wp (mkdirAll ev (tx_path ''targets'')) (\<lambda>_ s'. recording as old ?g [] s') ?E s1"
    if f: "\<not> fs_txdir s1" "fget s1 = (\<lambda>p. if below_tx p then None else fget s p)" for s1
  proof -
    have a: "agrees as old s1" and i: "idle s1" using s f by (auto simp: agrees_def idle_def)
    then have "recording as old ?g [] (tick s1\<lparr>fs_txdir := True\<rparr>)"
      using f(2) by (auto simp: recording_def agrees_def below_tx_not_staging)
    then show ?thesis
      using a i recording_tx_ok [of as old ?g "[]" "tick s1\<lparr>fs_txdir := True\<rparr>" new] dir unfolding mkdirAll_def
      by (intro wp_step) (auto simp: tx_ok_def)
  qed
  show ?thesis
    unfolding beginTransaction_def wp_bnd
    by (rule wp_mono [OF remove_tx [OF safe]]) (auto intro!: wp_mono [OF mk] intro: snaps)
qed


section \<open>Installing the artifacts\<close>

lemma wp_rename:
  "fget s src = Some f \<Longrightarrow> (\<not> fine ev \<Longrightarrow> E (tick s) \<and> E (fput dst f (fdel src (tick s)))) \<Longrightarrow>
   Q () (fput dst f (fdel src (tick s))) \<Longrightarrow> wp (rename_file ev src dst) Q E s"
  unfolding rename_file_def by (rule wp_step) (auto simp: fine_def)

lemma pending_install:
  assumes "pending as old D md s" "\<not> below_tx p" "visible as p \<longrightarrow> p \<in> D"
  shows "pending as old D md (fput p f s)"
proof -
  have "journal md (fput p f s) = journal md s" "snapshots as old md (fput p f s) = snapshots as old md s"
    using assms(2) by (auto intro!: tx_frame)
  then show ?thesis using assms by (auto simp: pending_def restored_def)
qed

abbreviation installed :: "(artifact \<Rightarrow> string option) \<Rightarrow> artifact \<Rightarrow> usys \<Rightarrow> bool" where
  "installed feed a s \<equiv> fget s (art_Target a) = Some (artifact_file feed a)"

lemma installStaged_spec:
  assumes valid: "\<forall>a \<in> set all. validTarget (art_Target a)" and dist: "distinct (map art_Target all)"
    and touch: "touched md = insert ''current-release'' (runtime_targets all)"
  shows "all = ds @ as \<Longrightarrow> pending all old (touched md) md s \<Longrightarrow> \<forall>a \<in> set ds. installed feed a s \<Longrightarrow> \<forall>a \<in> set as. staged feed a s \<Longrightarrow>
    wp (installStagedArtifacts ev as) (\<lambda>_ s'. pending all old (touched md) md s' \<and> (\<forall>a \<in> set all. installed feed a s'))
      (pending all old (touched md) md) s"
proof (induction as arbitrary: ds s)
  case (Cons a as)
  let ?t = "art_Target a"
  let ?s = "fput ?t (artifact_file feed a) (fdel (stage_path ?t) (tick s))"
  have a: "a \<in> set all" using Cons.prems(1) by simp
  note pub = valid_target_public [OF valid [rule_format, OF a]]
  have "pending all old (touched md) md (fdel (stage_path ?t) (tick s))"
    using Cons.prems(2) eqv_pending [OF eqv_staging(2) [OF staging_stage]] by simp
  then have p: "pending all old (touched md) md ?s"
    by (rule pending_install) (use pub target_visible [OF valid dist a] touch a in \<open>auto simp: runtime_targets_def\<close>)
  have ne: "art_Target b \<noteq> ?t" if "b \<in> set ds \<union> set as" for b
    using dist that Cons.prems(1) by (auto simp: image_iff)
  have st: "art_Target b \<noteq> stage_path t" if "b \<in> set all" for b t
    using valid_target_public(2) valid that staging_stage by metis
  have "\<forall>b \<in> set (ds @ [a]). installed feed b ?s"
    using Cons.prems(1,3) ne st by auto
  moreover have "\<forall>b \<in> set as. staged feed b ?s"
    using Cons.prems(4) ne st [OF a] by (auto dest: sym)
  ultimately have "wp (installStagedArtifacts ev as)
      (\<lambda>_ s'. pending all old (touched md) md s' \<and> (\<forall>a \<in> set all. installed feed a s')) (pending all old (touched md) md) ?s"
    using Cons.IH [of "ds @ [a]" ?s] Cons.prems(1) p by simp
  then show ?case
    using Cons.prems(2,4) p by (auto intro!: wp_rename [where f = "artifact_file feed a"])
qed simp

text \<open>The files after the update.\<close>

definition new_view :: "artifact list \<Rightarrow> (artifact \<Rightarrow> string option) \<Rightarrow> string \<Rightarrow> (string \<Rightarrow> ufile option) \<Rightarrow> string \<Rightarrow> ufile option" where
  "new_view as feed release old p =
     (if p = ''current-release'' then Some (Text (release @ [CHR 10]), 420)
      else (case find (\<lambda>a. art_Target a = p) as of Some a \<Rightarrow> Some (artifact_file feed a) | None \<Rightarrow> old p))"

definition unsettled :: "artifact list \<Rightarrow> (string \<Rightarrow> ufile option) \<Rightarrow> usys \<Rightarrow> bool" where
  "unsettled as old s \<longleftrightarrow> (\<exists>md. pending as old (touched md) md s \<and> sm_State md \<noteq> ''committed'')"

lemma unsettledI: "pending as old (touched md) md' s \<Longrightarrow> sm_State md' \<noteq> ''committed'' \<Longrightarrow> sm_Targets md' = sm_Targets md \<Longrightarrow> unsettled as old s"
  by (auto simp: unsettled_def touched_def intro!: exI [of _ md'])

lemma eqv_unsettled: "eqv s s' \<Longrightarrow> unsettled as old s' = unsettled as old s"
  by (simp add: unsettled_def eqv_pending)

lemma wp_journal:
  assumes p: "pending as old D md s" and Q: "\<And>s'. pending as old D (md\<lparr>sm_State := st\<rparr>) s' \<Longrightarrow> (\<forall>p. p \<noteq> tx_path ''metadata.json'' \<longrightarrow> fget s' p = fget s p) \<Longrightarrow> Q () s'"
    and E: "\<And>s' md'. md' = md \<or> md' = md\<lparr>sm_State := st\<rparr> \<Longrightarrow> pending as old D md' s' \<Longrightarrow> (\<forall>p. p \<noteq> tx_path ''metadata.json'' \<longrightarrow> fget s' p = fget s p) \<Longrightarrow> E s'"
  shows "wp (writeTransactionMetadata ev (md\<lparr>sm_State := st\<rparr>)) Q E s"
  unfolding writeTransactionMetadata_def
proof (rule wp_write)
  let ?s = "fput (tx_path ''metadata.json'') (Journal (md\<lparr>sm_State := st\<rparr>), 384) (tick s)"
  have w: "pending as old D (md\<lparr>sm_State := st\<rparr>) ?s" by (rule pending_write) (use p in simp)
  show "Q () ?s" by (rule Q [OF w]) simp
  show "E (tick s) \<and> E ?s" using E [of md "tick s"] E [OF _ w] p by simp
qed


lemma apply_spec:
  assumes valid: "\<forall>a \<in> set (um_Artifacts m). validTarget (art_Target a)" and dist: "distinct (map art_Target (um_Artifacts m))"
    and p: "pending (um_Artifacts m) old {} md s" and md: "sm_State md = ''prepared''" "touched md = insert ''current-release'' (runtime_targets (um_Artifacts m))"
    and st: "\<forall>a \<in> set (um_Artifacts m). staged feed a s"
  shows "wp (apply_release ev m md)
    (\<lambda>_ s'. pending (um_Artifacts m) old (touched md) (md\<lparr>sm_State := ''activated''\<rparr>) s' \<and>
       agrees (um_Artifacts m) (new_view (um_Artifacts m) feed (um_Release m) old) s')
    (unsettled (um_Artifacts m) old) s"
proof -
  let ?as = "um_Artifacts m"
  let ?new = "new_view ?as feed (um_Release m) old"
  let ?ap = "md\<lparr>sm_State := ''applying''\<rparr>"
  let ?E = "unsettled ?as old"
  let ?Q = "\<lambda>_ s'. pending ?as old (touched md) (md\<lparr>sm_State := ''activated''\<rparr>) s' \<and> agrees ?as ?new s'"
  have vr: "visible ?as ''current-release''" using valid by simp
  have last: "wp (writeTransactionMetadata ev (md\<lparr>sm_State := ''activated''\<rparr>)) ?Q ?E s'"
    if "pending ?as old (touched md) ?ap s'" "agrees ?as ?new s'" for s'
  proof -
    have eq: "md\<lparr>sm_State := ''activated''\<rparr> = ?ap\<lparr>sm_State := ''activated''\<rparr>" by simp
    show ?thesis
      unfolding eq by (rule wp_journal [OF that(1)]) (use that(2) in \<open>auto simp: agrees_def intro: unsettledI\<close>)
  qed
  have release: "wp (write_file ev ''current-release'' (Text (um_Release m @ [CHR 10])) 420)
      (\<lambda>_. wp (writeTransactionMetadata ev (md\<lparr>sm_State := ''activated''\<rparr>)) ?Q ?E) ?E s'"
    if q: "pending ?as old (touched md) ?ap s'" and i: "\<forall>a \<in> set ?as. installed feed a s'" for s'
  proof -
    let ?s = "fput ''current-release'' (Text (um_Release m @ [CHR 10]), 420) (tick s')"
    have w: "pending ?as old (touched md) ?ap ?s"
      by (rule pending_put) (use q vr md in auto)
    have "fget ?s x = ?new x" if x: "visible ?as x" for x
    proof (cases "find (\<lambda>a. art_Target a = x) ?as")
      case None
      then have "x \<notin> runtime_targets ?as" by (auto simp: find_None_iff runtime_targets_def)
      then have "x = ''current-release'' \<or> x \<notin> touched md" using md by simp
      then show ?thesis using q None x by (auto simp: new_view_def pending_def restored_def)
    next
      case (Some a)
      then have "a \<in> set ?as" "art_Target a = x" by (auto simp: find_Some_iff)
      then show ?thesis using i Some valid_target_public(3) valid by (auto simp: new_view_def)
    qed
    then have "agrees ?as ?new ?s" by (simp add: agrees_def)
    with w q show ?thesis by (intro wp_write last) (auto intro: unsettledI)
  qed
  have act: "wp (runActivationAndHealthChecks ev) (\<lambda>_. wp (write_file ev ''current-release'' (Text (um_Release m @ [CHR 10])) 420)
      (\<lambda>_. wp (writeTransactionMetadata ev (md\<lparr>sm_State := ''activated''\<rparr>)) ?Q ?E) ?E) ?E s'"
    if q: "pending ?as old (touched md) ?ap s'" and i: "\<forall>a \<in> set ?as. installed feed a s'" for s'
  proof (rule neutral_wp [OF neutral_activation])
    fix x s1 assume e: "eqv s' s1"
    have "pending ?as old (touched md) ?ap s1" using q e eqv_pending by blast
    moreover have "\<forall>a \<in> set ?as. installed feed a s1" using i e valid_target_public(2) valid by (auto simp: eqv_def)
    ultimately show "wp (write_file ev ''current-release'' (Text (um_Release m @ [CHR 10])) 420)
      (\<lambda>_. wp (writeTransactionMetadata ev (md\<lparr>sm_State := ''activated''\<rparr>)) ?Q ?E) ?E s1" by (rule release)
  next
    fix s1 assume "eqv s' s1"
    then have "pending ?as old (touched md) ?ap s1" using q eqv_pending by blast
    then show "?E s1" by (rule unsettledI) auto
  qed
  have inst: "wp (installStagedArtifacts ev ?as) (\<lambda>_. wp (runActivationAndHealthChecks ev) (\<lambda>_. wp (write_file ev ''current-release'' (Text (um_Release m @ [CHR 10])) 420)
      (\<lambda>_. wp (writeTransactionMetadata ev (md\<lparr>sm_State := ''activated''\<rparr>)) ?Q ?E) ?E) ?E) ?E s'"
    if "pending ?as old (touched md) ?ap s'" "\<forall>a \<in> set ?as. staged feed a s'" for s'
  proof (rule wp_mono [OF installStaged_spec [OF valid dist, of ?ap "[]" ?as old s' feed ev]])
    show "unsettled ?as old s1" if "pending ?as old (touched ?ap) ?ap s1" for s1
      using that by (rule unsettledI) auto
  qed (use md(2) that act in auto)
  have "pending ?as old (touched md) md s" using p by (rule pending_mono) simp
  then show ?thesis
    unfolding apply_release_def wp_bnd
  proof (rule wp_journal)
    fix s' md' assume "md' = md \<or> md' = ?ap" "pending ?as old (touched md) md' s'"
    then show "?E s'" using md by (intro unsettledI [of _ _ md md']) auto
  qed (use st in \<open>simp add: inst\<close>)
qed

lemma idle_tx_ok: "idle s \<Longrightarrow> agrees as old s \<or> agrees as new s \<Longrightarrow> tx_ok as old new s"
  by (simp add: tx_ok_def)

lemma commit_spec:
  assumes safe: "safe_removal ev" and p: "pending as old (touched md) md s" and c: "sm_State md \<noteq> ''committed''"
    and new: "agrees as new s" and st: "us_State st = ''installed''"
  shows "wp (commit_release ev cfg md st) (outcome_ok as old new) (tx_ok as old new) s"
proof -
  let ?E = "tx_ok as old new"
  let ?rest = "\<lambda>w. case w of
               Inl e \<Rightarrow> rollbackFailedInstall ev cfg st (''commit update journal: '' @ e)
             | Inr _ \<Rightarrow> bnd (attempt (cleanupTransaction ev)) (\<lambda>_. ret (st, None))"
  have clean: "wp (attempt (cleanupTransaction ev)) (\<lambda>_. outcome_ok as old new (st, None)) ?E s'"
    if "pending as old (touched md) (md\<lparr>sm_State := ''committed''\<rparr>) s'" "agrees as new s'" for s'
  proof -
    have "tx_ok as old new s'" using that by (intro tx_ok_pending [of _ _ "md\<lparr>sm_State := ''committed''\<rparr>"]) auto
    then show ?thesis
      using that(2) st by (intro wp_attempt [OF cleanup_agrees [OF safe that(2)]]) (auto simp: outcome_ok_def eqv_facts idle_tx_ok)
  qed
  have journal: "wp (attempt (writeTransactionMetadata ev (md\<lparr>sm_State := ''committed''\<rparr>))) (\<lambda>w. wp (?rest w) (outcome_ok as old new) ?E) ?E s'"
    if q: "pending as old (touched md) md s'" and n: "agrees as new s'" for s'
  proof (rule wp_attempt)
    let ?ok = "\<lambda>s'. agrees as new s' \<and> (\<exists>md'. pending as old (touched md') md' s')"
    show "wp (writeTransactionMetadata ev (md\<lparr>sm_State := ''committed''\<rparr>))
        (\<lambda>_ s'. pending as old (touched md) (md\<lparr>sm_State := ''committed''\<rparr>) s' \<and> agrees as new s') ?ok s'"
      using n by (intro wp_journal [OF q]) (auto simp: agrees_def intro: exI [of _ md] exI [of _ "md\<lparr>sm_State := ''committed''\<rparr>"])
    show "wp (?rest (Inl e)) (outcome_ok as old new) ?E s1" if "?ok s1" for e s1
      using that rollbackFailedInstall_spec [OF safe] by auto
    show "?E s1" if "?ok s1" for s1 using that by (auto intro: tx_ok_pending)
  qed (use clean in auto)
  have neu: "neutral (attempt (if uc_StatusPath cfg \<noteq> '''' then writeStatus ev st else ret ()))"
    by (auto intro!: neutral_attempt neutral_basic)
  have ok: "tx_ok as old new s" using p c by (auto intro: tx_ok_pending)
  have status: "wp (case w of
         Inl e \<Rightarrow> rollbackFailedInstall ev cfg st (''persist success status: '' @ e)
       | Inr _ \<Rightarrow> bnd (attempt (writeTransactionMetadata ev (md\<lparr>sm_State := ''committed''\<rparr>))) ?rest) (outcome_ok as old new) ?E s1"
    if "eqv s s1" for w s1
    using that p c new journal rollbackFailedInstall_spec [OF safe, of as old md s1 new] by (auto simp: eqv_facts split: sum.split)
  show ?thesis
    unfolding commit_release_def wp_bnd [of "attempt (if uc_StatusPath cfg \<noteq> '''' then writeStatus ev st else ret ())"]
    by (rule neutral_wp [OF neu]) (use status ok in \<open>auto simp: eqv_facts\<close>)
qed


lemma commit_State: "commit_release ev c (md\<lparr>sm_State := x\<rparr>) = commit_release ev c md"
  by (simp add: commit_release_def fun_eq_iff)

lemma install_release_spec:
  assumes safe: "safe_removal ev" and valid: "\<forall>a \<in> set (um_Artifacts m). validTarget (art_Target a)" and dist: "distinct (map art_Target (um_Artifacts m))"
    and s: "idle s" "agrees (um_Artifacts m) old s" and st: "\<forall>a \<in> set (um_Artifacts m). staged feed a s"
    and new: "new = new_view (um_Artifacts m) feed (um_Release m) old"
  shows "wp (install_release ev c m status) (outcome_ok (um_Artifacts m) old new) (tx_ok (um_Artifacts m) old new) s"
proof -
  let ?as = "um_Artifacts m"
  let ?Q = "outcome_ok ?as old new" and ?E = "tx_ok ?as old new"
  let ?st = "status\<lparr>us_State := ''installed'', us_InstalledRelease := um_Release m, us_Error := ''''\<rparr>"
  have failed: "wp (bnd (attempt (cleanupTransaction ev)) (\<lambda>_. finish ev (uc_StatusPath c) status (Some e))) ?Q ?E s1"
    if "?E s1" "agrees ?as old s1" for e s1
  proof -
    have "wp (attempt (cleanupTransaction ev)) (\<lambda>_ s2. ?E s2 \<and> agrees ?as old s2) ?E s1"
      by (rule wp_attempt [OF cleanup_agrees [OF safe that(2)]]) (use that in \<open>auto simp: eqv_facts idle_tx_ok\<close>)
    then show ?thesis unfolding wp_bnd by (rule wp_mono) (auto intro: wp_mono [OF finish_error])
  qed
  have applied: "wp (attempt (apply_release ev m md)) (\<lambda>r. wp (case r of
               Inl e \<Rightarrow> rollbackFailedInstall ev c status e
             | Inr _ \<Rightarrow> commit_release ev c md ?st) ?Q ?E) ?E s1"
    if md: "pending ?as old {} md s1" "sm_State md = ''prepared''" "touched md = insert ''current-release'' (runtime_targets ?as)"
      and sg: "\<forall>p. staging p \<longrightarrow> fget s1 p = fget s p" for md s1
  proof (rule wp_attempt [OF apply_spec [OF valid dist md]])
    show "\<forall>a \<in> set ?as. staged feed a s1" using st sg by simp
  next
    fix x s2 assume "pending ?as old (touched md) (md\<lparr>sm_State := ''activated''\<rparr>) s2 \<and> agrees ?as (new_view ?as feed (um_Release m) old) s2"
    then show "wp (case Inr x of Inl e \<Rightarrow> rollbackFailedInstall ev c status e | Inr _ \<Rightarrow> commit_release ev c md ?st) ?Q ?E s2"
      using commit_spec [OF safe, of ?as old "md\<lparr>sm_State := ''activated''\<rparr>" s2 new ?st c] new by (simp add: commit_State)
  next
    fix e s2 assume "unsettled ?as old s2"
    then show "wp (case Inl e of Inl e \<Rightarrow> rollbackFailedInstall ev c status e | Inr _ \<Rightarrow> commit_release ev c md ?st) ?Q ?E s2"
      using rollbackFailedInstall_spec [OF safe] by (auto simp: unsettled_def)
  qed (auto simp: unsettled_def intro: tx_ok_pending)
  show ?thesis
    unfolding install_release_def wp_bnd [of "attempt (beginTransaction ev ?as)"]
    by (rule wp_attempt [OF beginTransaction_spec [OF safe valid dist s, of new]]) (use applied failed in auto)
qed

lemma validated_targets:
  assumes "validateManifest ed m c = None"
  shows "\<forall>a \<in> set (um_Artifacts m). validTarget (art_Target a)" "distinct (map art_Target (um_Artifacts m))"
proof -
  have "validateArtifacts (um_Artifacts m) = None"
    using assms by (auto simp: validateManifest_def validateManifestForCheck_def split: option.splits sum.splits if_splits)
  then have l: "artifacts_loop [] [] 0 (um_Artifacts m) = None" by (auto simp: validateArtifacts_def split: if_splits)
  show "distinct (map art_Target (um_Artifacts m))"
    using artifacts_loop_ok [OF l] by (simp add: maxDownloadSize_def)
  have "artifacts_loop ps ts t as = None \<Longrightarrow> \<forall>a \<in> set as. validTarget (art_Target a)" for ps ts t as
    by (induction as arbitrary: ps ts t) (auto split: if_splits)
  from this [OF l] show "\<forall>a \<in> set (um_Artifacts m). validTarget (art_Target a)" .
qed

lemma fetch_spec:
  assumes safe: "safe_removal ev" and s: "idle s" "agrees (um_Artifacts m) old s"
    and new: "new = new_view (um_Artifacts m) feed (um_Release m) old"
  shows "wp (fetch_release ev ed sha (Inr m) feed c status)
    (\<lambda>r s'. outcome_ok (um_Artifacts m) old new r s' \<and>
       (snd r = None \<longrightarrow> validateManifest ed m c = None \<and> (\<forall>a \<in> set (um_Artifacts m). genuine sha feed a)))
    (tx_ok (um_Artifacts m) old new) s"
proof (cases "validateManifest ed m c")
  case (Some e)
  have "wp (finish ev (uc_StatusPath c) status (Some e)) (\<lambda>r s'. outcome_ok (um_Artifacts m) old new r s' \<and> snd r \<noteq> None)
      (tx_ok (um_Artifacts m) old new) s"
    by (rule finish_error) (use s in \<open>auto intro: idle_tx_ok\<close>)
  then show ?thesis using Some by (auto simp: fetch_release_def elim!: wp_mono)
next
  case None
  note v = validated_targets [OF None]
  let ?as = "um_Artifacts m"
  let ?st = "status\<lparr>us_AvailableRelease := um_Release m\<rparr>"
  let ?Q = "\<lambda>r s'. outcome_ok ?as old new r s' \<and> (snd r = None \<longrightarrow> validateManifest ed m c = None \<and> (\<forall>a \<in> set ?as. genuine sha feed a))"
  let ?E = "tx_ok ?as old new"
  have down: "wp (downloadArtifacts ev sha feed ?as)
      (\<lambda>_ s'. eqv s s' \<and> (\<forall>a \<in> set ?as. staged feed a s') \<and> (\<forall>a \<in> set ?as. genuine sha feed a)) (eqv s) s1" if "eqv s s1" for s1
    by (rule wp_mono [OF download_spec [of "[]"]]) (use v(2) that in \<open>auto intro: eqv_trans\<close>)
  have pre: "wp (bnd (mkdirAll ev stagingDirectory) (\<lambda>_. downloadArtifacts ev sha feed ?as))
      (\<lambda>_ s'. eqv s s' \<and> (\<forall>a \<in> set ?as. staged feed a s') \<and> (\<forall>a \<in> set ?as. genuine sha feed a)) (eqv s) s"
    unfolding wp_bnd by (rule neutral_wp [OF neutral_mkdir_staging]) (use down in auto)
  have "wp (attempt (bnd (mkdirAll ev stagingDirectory) (\<lambda>_. downloadArtifacts ev sha feed ?as))) (\<lambda>r. wp (case r of
                      Inl e \<Rightarrow> finish ev (uc_StatusPath c) ?st (Some e)
                    | Inr _ \<Rightarrow> install_release ev c m ?st) ?Q ?E) ?E s"
  proof (rule wp_attempt [OF pre])
    fix x s1 assume e: "eqv s s1 \<and> (\<forall>a \<in> set ?as. staged feed a s1) \<and> (\<forall>a \<in> set ?as. genuine sha feed a)"
    then have "wp (install_release ev c m ?st) (outcome_ok ?as old new) ?E s1"
      using s by (intro install_release_spec [OF safe v _ _ _ new]) (auto simp: eqv_facts)
    then show "wp (case Inr x of Inl e \<Rightarrow> finish ev (uc_StatusPath c) ?st (Some e) | Inr _ \<Rightarrow> install_release ev c m ?st) ?Q ?E s1"
      using e None by (auto elim!: wp_mono)
  next
    fix x s1 assume "eqv s s1"
    then have "?E s1" "agrees ?as old s1" using s by (auto simp: eqv_facts idle_tx_ok)
    from finish_error [OF this, of ev "uc_StatusPath c" ?st x] show "wp (case Inl x of Inl e \<Rightarrow> finish ev (uc_StatusPath c) ?st (Some e) | Inr _ \<Rightarrow> install_release ev c m ?st) ?Q ?E s1"
      by (auto elim!: wp_mono)
  qed (use s in \<open>auto simp: eqv_facts idle_tx_ok\<close>)
  then show ?thesis using None by (simp add: fetch_release_def Let_def)
qed


lemma recover_idle: "idle s \<Longrightarrow> wp (recoverInterruptedTransaction ev runner req) (\<lambda>_. eqv s) (eqv s) s"
  unfolding recoverInterruptedTransaction_def transactionExists_def by (auto simp: idle_def intro!: wp_step)

lemma reload_spec:
  "wp (reloadInstalledRelease ev c) (\<lambda>c' s'. eqv s s' \<and> (\<exists>r. c' = c\<lparr>uc_InstalledRelease := r\<rparr>)) (eqv s) s"
proof -
  have "c = c\<lparr>uc_InstalledRelease := uc_InstalledRelease c\<rparr>" by simp
  then have "\<exists>r. c = c\<lparr>uc_InstalledRelease := r\<rparr>" by blast
  then show ?thesis
    unfolding reloadInstalledRelease_def wp_bnd
    by (intro neutral_wp [OF neutral_attempt [OF neutral_basic(2)]]) (auto split: sum.split content.split)
qed

definition update_artifacts :: "string + upmanifest \<Rightarrow> artifact list" where
  "update_artifacts fetched = (case fetched of Inl _ \<Rightarrow> [] | Inr m \<Rightarrow> um_Artifacts m)"

definition updated :: "string + upmanifest \<Rightarrow> (artifact \<Rightarrow> string option) \<Rightarrow> (string \<Rightarrow> ufile option) \<Rightarrow> string \<Rightarrow> ufile option" where
  "updated fetched feed old = (case fetched of Inl _ \<Rightarrow> old | Inr m \<Rightarrow> new_view (um_Artifacts m) feed (um_Release m) old)"

text \<open>The release was signed, newer than the installed one, and every artifact is the one that was signed.\<close>

definition authentic ::
    "(string \<Rightarrow> wire \<Rightarrow> string \<Rightarrow> bool) \<Rightarrow> (string \<Rightarrow> string) \<Rightarrow> string + upmanifest \<Rightarrow> (artifact \<Rightarrow> string option) \<Rightarrow> upconfig \<Rightarrow> bool" where
  "authentic ed sha fetched feed c \<longleftrightarrow>
     (\<exists>m rel. fetched = Inr m \<and> validateManifest ed m (c\<lparr>uc_InstalledRelease := rel\<rparr>) = None \<and> (\<forall>a \<in> set (um_Artifacts m). genuine sha feed a))"

lemma install_spec:
  fixes s :: usys and fetched :: "string + upmanifest" and feed :: "artifact \<Rightarrow> string option"
  assumes safe: "safe_removal ev" and s: "idle s"
  defines "as \<equiv> update_artifacts fetched" and "old \<equiv> fget s" and "new \<equiv> updated fetched feed (fget s)"
  shows "wp (installWithOperationLock ev ed sha fetched feed now c True)
    (\<lambda>r s'. outcome_ok as old new r s' \<and> (snd r = None \<longrightarrow> authentic ed sha fetched feed c)) (tx_ok as old new) s"
proof -
  let ?Q = "\<lambda>r s'. outcome_ok as old new r s' \<and> (snd r = None \<longrightarrow> authentic ed sha fetched feed c)"
  let ?E = "tx_ok as old new"
  have ok: "?E s'" "agrees as old s'" "idle s'" if "eqv s s'" for s'
  proof -
    have "agrees as old s" by (simp add: agrees_def old_def)
    with that s show "?E s'" "agrees as old s'" "idle s'" by (auto simp: eqv_facts idle_tx_ok)
  qed
  have err: "wp (finish ev path st (Some e)) ?Q ?E s'" if "eqv s s'" for path st e s'
    by (rule wp_mono [OF finish_error [OF ok(1,2) [OF that]]]) auto
  have fetch: "wp (fetch_release ev ed sha fetched feed (c\<lparr>uc_InstalledRelease := rel\<rparr>) st) ?Q ?E s'" if "eqv s s'" for rel st s'
  proof (cases fetched)
    case (Inl e)
    then show ?thesis using err [OF that] by (simp add: fetch_release_def)
  next
    case (Inr m)
    have "wp (fetch_release ev ed sha (Inr m) feed (c\<lparr>uc_InstalledRelease := rel\<rparr>) st)
        (\<lambda>r s'. outcome_ok (um_Artifacts m) old new r s' \<and>
          (snd r = None \<longrightarrow> validateManifest ed m (c\<lparr>uc_InstalledRelease := rel\<rparr>) = None \<and> (\<forall>a \<in> set (um_Artifacts m). genuine sha feed a)))
        (tx_ok (um_Artifacts m) old new) s'"
      by (rule fetch_spec [OF safe]) (use ok [OF that] Inr in \<open>simp_all add: as_def update_artifacts_def new_def updated_def old_def\<close>)
    then show ?thesis
      unfolding Inr by (rule wp_mono) (auto simp: as_def update_artifacts_def Inr authentic_def)
  qed
  have clean: "wp (attempt (removeTree ev stagingDirectory)) (\<lambda>r. wp (case r of
        Inl e \<Rightarrow> finish ev path st (Some e) | Inr _ \<Rightarrow> fetch_release ev ed sha fetched feed (c\<lparr>uc_InstalledRelease := rel\<rparr>) st) ?Q ?E) ?E s'"
    if "eqv s s'" for rel st path s'
    by (intro neutral_wp [OF neutral_attempt [OF neutral_remove_staging]])
      (auto split: sum.split intro!: err fetch ok(1) intro: eqv_trans [OF that])
  have reload: "wp (attempt (reloadInstalledRelease ev c)) (\<lambda>r. wp (case r of
          Inl e \<Rightarrow> finish ev path st (Some e)
        | Inr c' \<Rightarrow> let status = st\<lparr>us_InstalledRelease := uc_InstalledRelease c'\<rparr>
             in bnd (attempt (removeTree ev stagingDirectory)) (\<lambda>r. case r of
                  Inl e \<Rightarrow> finish ev (uc_StatusPath c') status (Some e)
                | Inr _ \<Rightarrow> fetch_release ev ed sha fetched feed c' status)) ?Q ?E) ?E s'" if "eqv s s'" for path st s'
    by (rule wp_attempt [OF reload_spec]) (auto simp: Let_def intro!: err clean ok(1) intro: eqv_trans [OF that])
  show ?thesis
    unfolding installWithOperationLock_def Let_def
    by (simp, rule wp_attempt [OF recover_idle [OF s]]) (auto intro!: err reload [unfolded Let_def] ok(1))
qed


section \<open>Properties\<close>


text \<open>Recoveries, any of which may fail or be interrupted itself.\<close>

definition recoveries :: "fates list \<Rightarrow> usys \<Rightarrow> usys" where
  "recoveries evs s = fold (\<lambda>ev s. snd (recoverInterruptedTransaction ev True True s)) evs s"

lemma recover_keeps:
  assumes "safe_removal ev" "tx_ok as old new s"
  shows "tx_ok as old new (snd (recoverInterruptedTransaction ev True True s))"
  using recover_spec [OF assms, of True] by (auto simp: wp_def idle_tx_ok split: prod.splits outcome.splits)

lemma recoveries_keep: "\<forall>ev \<in> set evs. safe_removal ev \<Longrightarrow> tx_ok as old new s \<Longrightarrow> tx_ok as old new (recoveries evs s)"
  unfolding recoveries_def by (induction evs arbitrary: s) (auto simp: recover_keeps)

text \<open>A check for updates recovers too.\<close>

lemma check_keeps:
  assumes "safe_removal ev" "tx_ok as old new s"
  shows "wp (checkWithOperationLock ev ed fetched now c True) (\<lambda>_ s'. tx_ok as old new s') (tx_ok as old new) s"
proof -
  have fin: "wp (finish ev path st err) (\<lambda>_. tx_ok as old new) (tx_ok as old new) s'" if "tx_ok as old new s'" for path st err s'
    using that by (intro neutral_wp [OF neutral_finish]) (auto simp: eqv_facts)
  have "wp (attempt (reloadInstalledRelease ev c)) (\<lambda>r. wp (case r of
          Inl e \<Rightarrow> finish ev (uc_StatusPath c) st (Some e)
        | Inr c' \<Rightarrow> (case checkLocked ed fetched None c' (st\<lparr>us_InstalledRelease := uc_InstalledRelease c'\<rparr>) of
             (st', err) \<Rightarrow> finish ev (uc_StatusPath c') st' err)) (\<lambda>_. tx_ok as old new) (tx_ok as old new)) (tx_ok as old new) s'"
    if "tx_ok as old new s'" for st s'
    using that by (intro neutral_wp [OF neutral_attempt [OF neutral_reload]]) (auto simp: eqv_facts split: sum.split prod.split intro!: fin)
  then show ?thesis
    unfolding checkWithOperationLock_def Let_def wp_bnd
    by (intro wp_attempt [OF recover_spec [OF assms]]) (auto simp: idle_tx_ok intro!: fin)
qed

text \<open>
  C19. An update is atomic. At every point an installation may stop, with any operations having
  failed before, and so may any number of recoveries after it: the next recovery that runs
  undisturbed succeeds, leaves no transaction behind, and then either every visible file is as before the
  installation or every visible file is as after the complete update, nothing in between. (The
  removal of the transaction directory itself must not be interrupted.)
\<close>

theorem update_atomic:
  assumes "safe_removal ev" "\<forall>e \<in> set evs. safe_removal e" "fine undisturbed" "idle s"
    and "s1 = snd (installWithOperationLock ev ed sha fetched feed now c True s)"
  shows "\<exists>s2. recoverInterruptedTransaction undisturbed True True (recoveries evs s1) = (Done (), s2) \<and> idle s2 \<and>
    (agrees (update_artifacts fetched) (fget s) s2 \<or> agrees (update_artifacts fetched) (updated fetched feed (fget s)) s2)"
proof -
  have "tx_ok (update_artifacts fetched) (fget s) (updated fetched feed (fget s)) s1"
    using install_spec [OF assms(1,4), of ed sha fetched feed now c] assms(5)
    by (auto simp: wp_def outcome_ok_def split: prod.splits outcome.splits)
  from recover_spec [OF fine_safe [OF assms(3)] recoveries_keep [OF assms(2) this], of True] assms(3)
  show ?thesis by (auto simp: wp_def split: prod.splits outcome.splits)
qed


text \<open>A roll back is due and a snapshot that it needs is gone.\<close>

definition stuck :: "usys \<Rightarrow> bool" where
  "stuck s \<longleftrightarrow> fs_txdir s \<and> (\<exists>md m. fget s (tx_path ''metadata.json'') = Some (Journal md, m) \<and> sm_State md \<noteq> ''committed'' \<and>
     (\<exists>e \<in> set (sm_Targets md). se_Kind e \<noteq> ArtifactSchema \<and> se_Exists e \<and> fget s (snap_path (se_Target e)) = None))"

lemma eqv_stuck: "eqv s s' \<Longrightarrow> stuck s' = stuck s"
  by (simp add: stuck_def eqv_def)

lemma stuck_public: "\<not> below_tx p \<Longrightarrow> stuck (fput p f s) = stuck s" "\<not> below_tx p \<Longrightarrow> stuck (fdel p s) = stuck s"
proof -
  have "snap_path t \<noteq> p" "tx_path q \<noteq> p" if "\<not> below_tx p" for t q using that below_tx_path by metis+
  then show "\<not> below_tx p \<Longrightarrow> stuck (fput p f s) = stuck s" "\<not> below_tx p \<Longrightarrow> stuck (fdel p s) = stuck s"
    by (simp_all add: stuck_def)
qed

lemma stuck_rollback_targets:
  "e \<in> set es \<Longrightarrow> se_Kind e \<noteq> ArtifactSchema \<Longrightarrow> se_Exists e \<Longrightarrow> fget s (snap_path (se_Target e)) = None \<Longrightarrow> stuck s \<Longrightarrow>
   wp (rollback_targets ev es) (\<lambda>_ _. False) stuck s"
proof (induction es arbitrary: s)
  case (Cons d es)
  have tick: "stuck (s\<lparr>fs_clock := n\<rparr>)" for n using eqv_stuck [of s "s\<lparr>fs_clock := n\<rparr>"] Cons.prems(5) by simp
  have rest: "wp (rollback_targets ev es) (\<lambda>_ _. False) stuck s'"
    if "stuck s'" "fget s' (snap_path (se_Target e)) = None" "d \<noteq> e" for s'
    using Cons.IH [of s'] Cons.prems(1-3) that by simp
  show ?case
  proof (cases "validTarget (se_Target d) \<and> se_Kind d \<noteq> ArtifactSchema")
    case False
    then show ?thesis using Cons.prems rest by auto
  next
    case True
    then have pub: "\<not> below_tx (se_Target d)" by (simp add: valid_target_public)
    then have ne: "snap_path t \<noteq> se_Target d" for t using below_tx_path by metis
    show ?thesis
    proof (cases "se_Exists d")
      case False
      then show ?thesis
        using True Cons.prems(3,4) tick pub ne by (auto simp: stuck_public intro!: wp_remove rest)
    next
      case ex: True
      show ?thesis
      proof (cases "fget s (snap_path (se_Target d))")
        case None
        then show ?thesis using True ex tick by (auto simp: stat_file_def intro!: wp_step)
      next
        case (Some f)
        then have "d \<noteq> e" using Cons.prems(4) by auto
        then show ?thesis
          using True ex tick pub ne Cons.prems(4) by (auto simp: stuck_public intro!: wp_restore [OF Some] rest)
      qed
    qed
  qed
qed simp

lemma stuck_recover:
  assumes "stuck s"
  shows "wp (recoverInterruptedTransaction ev runner req) (\<lambda>_ _. False) stuck s"
proof -
  obtain md m e where j: "fs_txdir s" "fget s (tx_path ''metadata.json'') = Some (Journal md, m)" "sm_State md \<noteq> ''committed''"
    and e: "e \<in> set (sm_Targets md)" "se_Kind e \<noteq> ArtifactSchema" "se_Exists e" "fget s (snap_path (se_Target e)) = None"
    using assms by (auto simp: stuck_def)
  let ?md = "md\<lparr>sm_State := ''rolling-back''\<rparr>"
  have tick: "stuck (s\<lparr>fs_clock := n\<rparr>)" for n using eqv_stuck [of s "s\<lparr>fs_clock := n\<rparr>"] assms by simp
  have "stuck (fput (tx_path ''metadata.json'') (Journal ?md, 384) (s\<lparr>fs_clock := n\<rparr>))" for n
    using j e by (auto simp: stuck_def)
  then have "wp (rollbackTransactionWithMetadata ev md) (\<lambda>_ _. False) stuck (s\<lparr>fs_clock := n\<rparr>)" for n
    unfolding rollbackTransactionWithMetadata_def writeTransactionMetadata_def wp_bnd
    using e tick by (intro wp_write) (auto intro!: wp_mono [OF stuck_rollback_targets [OF e(1-3)]])
  then have "wp (rollbackTransactionWithMetadata ev md) Q stuck (s\<lparr>fs_clock := n\<rparr>)" for n Q by (rule wp_mono) auto
  then show ?thesis
    unfolding recoverInterruptedTransaction_def transactionExists_def
    using j tick by (auto simp: decode_journal_def intro!: wp_step wp_attempt_read)
qed

text \<open>
  C32. An interrupted clean up can block updates for good. When the machine stops (or a removal
  fails) while the directory of a rolled back transaction is being removed, and a snapshot is gone
  but the journal is not, then every later recovery fails, and so does every later installation, and
  the system stays in that state: the journal still demands a roll back from the missing snapshot.
\<close>

theorem interrupted_cleanup_stuck:
  assumes "stuck s"
  shows "fst (recoverInterruptedTransaction ev runner req s) \<noteq> Done () \<and> stuck (snd (recoverInterruptedTransaction ev runner req s)) \<and>
    (\<forall>st. fst (installWithOperationLock ev ed sha fetched feed now c runner s) \<noteq> Done (st, None)) \<and>
    stuck (snd (installWithOperationLock ev ed sha fetched feed now c runner s))"
proof -
  have fin: "wp (finish ev path st (Some e)) (\<lambda>r s'. snd r \<noteq> None \<and> stuck s') stuck s'" if "stuck s'" for path st e s'
  proof -
    have "wp (attempt (writeStatus ev st')) (\<lambda>_. stuck) stuck s'" for st'
      by (rule neutral_wp [OF neutral_attempt [OF neutral_basic(4)]]) (use that eqv_stuck in blast)+
    then show ?thesis
      using that unfolding finish_def Let_def by (auto simp: finishStatus_error simp del: not_None_eq elim!: wp_mono)
  qed
  have "wp (installWithOperationLock ev ed sha fetched feed now c runner) (\<lambda>r s'. snd r \<noteq> None \<and> stuck s') stuck s"
    unfolding installWithOperationLock_def Let_def using assms
    by (auto intro!: fin wp_attempt [OF stuck_recover [OF assms]] simp del: not_None_eq)
  with stuck_recover [OF assms, of ev runner req] show ?thesis
    by (auto simp: wp_def split: prod.splits outcome.splits)
qed


section \<open>Examples\<close>

definition ex_root :: usys where
  "ex_root = \<lparr> fs_files = [(''bin/panel-api'', (Text ''old'', 493)), (''current-release'', (Text ''1.9.0'', 420)), (''etc/panel.conf'', (Text ''x'', 420))],
     fs_txdir = False, fs_status = None, fs_clock = 0 \<rparr>"

definition ex_sha :: "string \<Rightarrow> string" where "ex_sha b = replicate 32 (CHR 0xAA)"
definition ex_feed :: "artifact \<Rightarrow> string option" where "ex_feed a = Some ''0123456789''"

text \<open>A command fails, and the removal of the journal that follows the roll back does not take place.\<close>

definition ex_broken :: fates where
  "ex_broken n op = (if n = 13 then FailBefore else case op of UnlinkOp p \<Rightarrow> if p = tx_path ''metadata.json'' then Crash else Fine | _ \<Rightarrow> Fine)"

definition ex_crash :: fates where
  "ex_crash n op = (case op of WriteOp p \<Rightarrow> if p = ''current-release'' then Crash else Fine | _ \<Rightarrow> Fine)"

definition ex_install :: "fates \<Rightarrow> usys \<Rightarrow> (upstatus \<times> string option) outcome \<times> usys" where
  "ex_install ev = installWithOperationLock ev (\<lambda>key w sig. True) ex_sha (Inr ex_update) ex_feed ''now'' ex_config True"


lemma ex_root_idle: "idle ex_root"
  by (auto simp: idle_def ex_root_def fget_def has_prefix_def transactionDirectory_def)

lemma ex_safe: "safe_removal (\<lambda>_ _. Fine)" "safe_removal ex_crash"
  by (simp_all add: safe_removal_def ex_crash_def)


lemma ex_installed: "fst (ex_install (\<lambda>_ _. Fine) ex_root) =
    Done ((initial_status ''now'' ex_config)\<lparr>us_State := ''installed'', us_InstalledRelease := um_Release ex_update, us_AvailableRelease := um_Release ex_update\<rparr>, None)"
  by code_simp

lemma ex_crashed: "fst (ex_install ex_crash ex_root) = Crashed"
  by code_simp

lemma stuck_code [code]:
  "stuck s \<longleftrightarrow> fs_txdir s \<and> (case fget s (tx_path ''metadata.json'') of
     Some (Journal md, m) \<Rightarrow> sm_State md \<noteq> ''committed'' \<and>
       (\<exists>e \<in> set (sm_Targets md). se_Kind e \<noteq> ArtifactSchema \<and> se_Exists e \<and> fget s (snap_path (se_Target e)) = None)
   | _ \<Rightarrow> False)"
  by (auto simp: stuck_def split: option.split content.split)

lemma ex_stuck: "stuck (snd (ex_install ex_broken ex_root))"
  by code_simp


theorem update_atomic_witness:
  "fst (ex_install ex_crash ex_root) = Crashed \<and>
   (\<exists>s2. recoverInterruptedTransaction (\<lambda>_ _. Fine) True True (recoveries [ex_crash] (snd (ex_install ex_crash ex_root))) = (Done (), s2) \<and> idle s2 \<and>
     (agrees [ex_artifact] (fget ex_root) s2 \<or> agrees [ex_artifact] (updated (Inr ex_update) ex_feed (fget ex_root)) s2))"
proof -
  have "fine (\<lambda>_ _. Fine)" by (simp add: fine_def)
  from update_atomic [OF ex_safe(2) _ this ex_root_idle refl, of "[ex_crash]" "\<lambda>key w sig. True" ex_sha "Inr ex_update" ex_feed "''now''" ex_config]
  show ?thesis using ex_crashed ex_safe(2) by (simp add: ex_install_def update_artifacts_def ex_update_def)
qed

theorem interrupted_cleanup_stuck_witness:
  "idle ex_root \<and> stuck (snd (ex_install ex_broken ex_root)) \<and>
   fst (recoverInterruptedTransaction (\<lambda>_ _. Fine) True True (snd (ex_install ex_broken ex_root))) \<noteq> Done ()"
  using ex_root_idle ex_stuck interrupted_cleanup_stuck [OF ex_stuck, of "\<lambda>_ _. Fine" True True] by blast

end
