(* ===== verification/Spec2Isabelle.thy ===== *)
theory Spec2Isabelle
  imports Store_Memory Store_Jobs Store_Commit Store_Accounts Store_Restore Agent_Fence Worker Worker_Handlers Go_Strings
    Validate Crontab Text_Lines Site_Config Mail_Maps Agent_Policy Rbac Api_Auth Api_Resources Backup_Stream Update_Manifest Update_Apply
begin

text \<open>
  \<^bold>\<open>Kelmor, a hosting control panel: a verification of its control plane.\<close>

  \<^bold>\<open>The program.\<close> The panel is a Go program of several processes. The API server
  (\<^verbatim>\<open>internal/httpserver\<close>) validates requests and writes the desired state together with a job
  and an audit event to a store (\<^verbatim>\<open>internal/store\<close>, with one implementation in memory and one
  on PostgreSQL). Workers (\<^verbatim>\<open>internal/job\<close>) claim jobs under a lease and a fence, and carry them
  out through the host agent (\<^verbatim>\<open>agent/operations\<close>), which runs privileged operations and refuses
  requests whose fence has been passed.

  \<^bold>\<open>The theories.\<close>

  \<^item> \<open>Prelude\<close>: Go maps as association lists with the laws of \<^verbatim>\<open>m[k]\<close>, assignment and
    \<^verbatim>\<open>delete\<close> (locales \<open>go_map\<close>, \<open>go_table\<close>), and the functions of \<^verbatim>\<open>strings\<close> and
    \<^verbatim>\<open>strconv\<close> the code uses. \<open>Go_Strings\<close>: \<^verbatim>\<open>path/filepath\<close> and lemmas on splitting,
    joining and trimming.
  \<^item> \<open>Models\<close>: the records of \<^verbatim>\<open>internal/store/models.go\<close> with their zero values.
  \<^item> \<open>Store_Memory\<close>: the methods of \<^verbatim>\<open>Memory\<close> in \<^verbatim>\<open>memory.go\<close> for users, sessions,
    packages, accounts, domains, websites, databases, zones, mail, certificates, tokens, backups and
    so on; cascading deletion; keyset pages (locale \<open>keyset_page\<close>), whose cursors enumerate
    everything.
  \<^item> \<open>Store_Jobs\<close>: the job queue: enqueueing, claiming, heartbeats, expiry of leases, cancelling,
    updating; its invariant, the step relation \<open>job_step\<close>, and the ordering of fences (locale
    \<open>fenced_store\<close>).
  \<^item> \<open>Store_Commit\<close>: \<^verbatim>\<open>async_atomic.go\<close> and \<^verbatim>\<open>resource_atomic.go\<close>: writes of the
    desired state with a job and an audit event; all or nothing, invariants, replay of retried
    requests (locale \<open>async_mutation\<close>, one interpretation per request kind).
  \<^item> \<open>Store_Accounts\<close>: creation, update, purge and import of whole accounts
    (\<^verbatim>\<open>memory.go\<close>, \<^verbatim>\<open>import_atomic.go\<close>): unique identities, no lost updates, what a purge
    removes and spares, what an import may add (locale \<open>checked_collect\<close>).
  \<^item> \<open>Store_Restore\<close>: the restore journal: at most one active restore per account, increasing
    fences (step relation \<open>restore_step\<close>).
  \<^item> \<open>Agent_Fence\<close>: \<^verbatim>\<open>agent/operations/fence.go\<close> and \<^verbatim>\<open>Dispatch\<close>: stale requests are
    refused, carried out requests are replayed from their receipt (step relation \<open>agent_step\<close>).
  \<^item> \<open>Worker\<close>: \<^verbatim>\<open>internal/job/worker.go\<close>: running a claimed job, draining the queue, the scan
    for drifted accounts. Handlers are a parameter. \<open>Drain\<close> has fuel: one iteration more than
    there are due jobs is shown to be enough.

  \<^item> \<open>Validate\<close>: the validators of \<^verbatim>\<open>internal/pkg/validate\<close>: accepted domain names are the DNS
    names, in canonical form.
  \<^item> \<open>Crontab\<close>: from stored cron jobs to the system crontab (\<^verbatim>\<open>applyCron\<close> of the worker,
    \<^verbatim>\<open>renderSystemCron\<close> of the agent): every entry runs as the account's user.
  \<^item> \<open>Text_Lines\<close>: numbers as text, and generated files as lists of lines. \<open>Site_Config\<close>: zone
    files (\<^verbatim>\<open>internal/dns\<close>), names of certificates (\<^verbatim>\<open>internal/acme\<close>), document
    roots (\<^verbatim>\<open>internal/configuration\<close>). \<open>Mail_Maps\<close>: \<^verbatim>\<open>internal/mail\<close>: the maps for
    the mail servers and the policy service that enforces daily limits.
  \<^item> \<open>Worker_Handlers\<close>: what the worker does for each kind of job (\<^verbatim>\<open>handle\<close> of
    \<^verbatim>\<open>worker.go\<close> and all it calls, backups excepted). A handler is a program that reads and
    writes the store and sends requests to the agent; the agent's answers and what other processes do
    to the store during a request are arguments. Invariants of runs are proved in the locales
    \<open>account_frame\<close>, \<open>account_run\<close> and \<open>account_handlers\<close> once for all handlers, and interpreted for
    the confinement of requests to the account, for suspensions and for the removal of accounts.
    It is also shown which concurrent changes a run overwrites.
  \<^item> \<open>Agent_Policy\<close>: \<^verbatim>\<open>agent/policy/path.go\<close>: which paths the agent touches.
  \<^item> \<open>Rbac\<close>: \<^verbatim>\<open>internal/rbac\<close>: roles and their capabilities. \<open>Api_Auth\<close>: the parts of
    \<^verbatim>\<open>internal/httpserver/api.go\<close> that decide who acts: sessions, API tokens, impersonation,
    password changes, the rate limiter; no request acts beyond its credentials. SHA-256, Argon2id,
    random tokens and the JSON decoder are arguments there.
  \<^item> \<open>Api_Resources\<close>: the handlers of \<^verbatim>\<open>api.go\<close> that change resources of an account, and
    \<^verbatim>\<open>internal/limits\<close>. A handler computes a plan from the request and the store, and
    \<open>perform\<close> carries it out with the methods of \<open>Store_Commit\<close>: requests stay within their
    account and its package limits, unless two are planned at the same time.
  \<^item> \<open>Backup_Stream\<close>: the backup archives of \<^verbatim>\<open>internal/backup\<close>: writing and reading the format
    HPM3, key rings, repositories (locale \<open>archive_repository\<close>, interpreted on the local
    repository): what was sealed is read back.
  \<^item> \<open>Update_Manifest\<close>: \<^verbatim>\<open>internal/update/client.go\<close> and \<^verbatim>\<open>verify.go\<close>: the order
    of semantic versions, and which update manifests are accepted. The check of an Ed25519 signature
    is an argument.
  \<^item> \<open>Update_Apply\<close>: \<^verbatim>\<open>internal/update/apply.go\<close>: installing a release in a transaction with
    snapshots and a journal, roll back and recovery. Every operation on the file system and every
    command is a step with a fate: fine, failed before or after its effect, or the machine stops.
    A calculus of weakest preconditions over these programs (\<open>wp\<close>) shows that an update is
    atomic across any failures, that the reported outcome is true, and where it is not safe:
    while the transaction directory is being removed.

  \<^bold>\<open>Conventions.\<close> A Go map is an association list whose order stands for the order in which
  \<^verbatim>\<open>range\<close> visits it, so that statements over all lists cover every order. Pointers to records
  are values, a nil pointer is \<open>None\<close>; changes to a caller's argument structure are not
  represented, only what is returned and stored. Times are integers of nanoseconds, 0 for the zero
  time; \<^verbatim>\<open>time.Now()\<close> and \<^verbatim>\<open>id.New()\<close> are arguments. Integers are unbounded except where
  the code's correctness depends on their width. Strings are byte strings; lower case and white space are the
  ASCII ones. Every method of \<^verbatim>\<open>Memory\<close> runs under its mutex and is one step. Errors are
  values of a sum or option type; the texts of error messages are abbreviated.

  \<^bold>\<open>Not modelled.\<close> The PostgreSQL store (SQL evaluated by another program), of the HTTP server
  the decoding and encoding of bodies, the listing handlers, the handlers of accounts, packages, jobs and files, the portals, the installer, the host operations of the agent (they act on files and services of the
  host; they are parameters of the fence model), and code that only does I/O.
\<close>

section \<open>The queue and the agent together\<close>


section \<open>Witness\<close>

definition ex_queue_req :: "job \<Rightarrow> request" where
  "ex_queue_req j = \<lparr> req_Method = ''write'', req_Env = job_envelope j, req_Params = ''x'' \<rparr>"

lemma ex_queue_dispatch:
  "Dispatch ex_platform (ex_queue_req (fst ex_second)) (ex_host, 0) =
     (Inr (VString ''ok''), fst (snd (Dispatch ex_platform (ex_queue_req (fst ex_second)) (ex_host, 0))), 1)"
  "acceptFence ex_platform (ex_queue_req (fst ex_second)) ex_host = (Inr None, ensureFences ex_host)"
  "job_ResourceType (fst ex_second) = job_ResourceType (fst ex_claimed)"
  "job_ResourceID (fst ex_second) = job_ResourceID (fst ex_claimed)" "job_ResourceID (fst ex_claimed) \<noteq> []"
  by code_simp+


end
